(* ===== verification/CozyPrelude.thy ===== *)
theory CozyPrelude
  imports Main "HOL-Library.Sublist" "HOL-Library.List_Lexorder" "HOL-Library.Char_ord"
begin

text \<open>
  What the components share: collections of facts, lemmas on lists and finite sums, and the parts
  of Go's standard library the source uses on strings. A Go \<^verbatim>\<open>string\<close> is a sequence of bytes, here
  a list of \<open>char\<close>; \<open>trim_space\<close> is \<^verbatim>\<open>strings.TrimSpace\<close> (Unicode white space in UTF-8),
  \<open>rune_count\<close> is \<^verbatim>\<open>utf8.RuneCountInString\<close>, \<open>itoa\<close> is \<^verbatim>\<open>strconv.Itoa\<close>, \<open>Quote\<close> \<^verbatim>\<open>strconv.Quote\<close>, \<open>pad_int\<close> the verb
  \<^verbatim>\<open>%0nd\<close>, and \<open>date_digits\<close> is \<^verbatim>\<open>Time.UTC().Format("20060102")\<close>. The lexicographic order on
  \<open>string\<close> is the order of \<^verbatim>\<open>sort.Strings\<close>.
\<close>

named_theorems go_elim \<open>decomposition of a run that returned a value\<close>
named_theorems inv_intro \<open>preservation of an invariant by a table operation\<close>

section \<open>Lists and sums\<close>

lemma map_if_filter_other:
  "(\<And>x. P x \<Longrightarrow> \<not> Q (f x)) \<Longrightarrow> (\<And>x. P x \<Longrightarrow> \<not> Q x) \<Longrightarrow>
   filter Q (map (\<lambda>x. if P x then f x else x) xs) = filter Q xs"
  by (induction xs) auto

lemma map_key_update [simp]:
  "(\<And>x. k (f x) = k x) \<Longrightarrow> map k (map (\<lambda>x. if P x then f x else x) xs) = map k xs"
  by (induction xs) auto

lemma map_key_update_comp [simp]:
  "(\<And>x. k (f x) = k x) \<Longrightarrow> map (k \<circ> (\<lambda>x. if P x then f x else x)) xs = map k xs"
  by (induction xs) auto

lemma find_append_None: "find P xs = None \<Longrightarrow> find P (xs @ ys) = find P ys"
  by (induction xs) (auto split: if_splits)

lemma find_append_Some: "find P xs = Some x \<Longrightarrow> find P (xs @ ys) = Some x"
  by (induction xs) (auto split: if_splits)

lemma find_map_update:
  "(\<And>x. Q (f x) = Q x) \<Longrightarrow>
   find Q (map (\<lambda>x. if P x then f x else x) xs) = map_option (\<lambda>x. if P x then f x else x) (find Q xs)"
  by (induction xs) auto

lemma find_Some_mem: "find P xs = Some x \<Longrightarrow> x \<in> set xs \<and> P x"
  by (auto simp: find_Some_iff)

lemma distinct_map_eqD:
  "distinct (map k xs) \<Longrightarrow> x \<in> set xs \<Longrightarrow> y \<in> set xs \<Longrightarrow> k x = k y \<Longrightarrow> x = y"
  by (auto simp: distinct_map inj_on_def)

lemma find_distinct:
  "distinct (map k xs) \<Longrightarrow> x \<in> set xs \<Longrightarrow> find (\<lambda>y. k y = k x) xs = Some x"
  by (induction xs) force+

lemma sum_list_map_update:
  fixes g :: "'a \<Rightarrow> int"
  shows "distinct (map k xs) \<Longrightarrow> x \<in> set xs \<Longrightarrow>
   (\<Sum>y\<leftarrow>map (\<lambda>y. if k y = k x then f y else y) xs. g y) = (\<Sum>y\<leftarrow>xs. g y) - g x + g (f x)"
proof (induction xs)
  case Nil
  then show ?case by simp
next
  case (Cons a xs)
  show ?case
  proof (cases "a = x")
    case True
    with Cons.prems(1) have "\<forall>y \<in> set xs. k y \<noteq> k x" by (auto simp: image_iff)
    then have "map (\<lambda>y. if k y = k x then f y else y) xs = xs" by (auto intro: map_idI)
    with True show ?thesis by simp
  next
    case False
    with Cons show ?thesis by (auto simp: image_iff)
  qed
qed

lemma sum_list_update_none:
  fixes g :: "'a \<Rightarrow> int"
  shows "(\<And>y. y \<in> set xs \<Longrightarrow> P y \<Longrightarrow> g (f y) = g y) \<Longrightarrow>
   (\<Sum>y\<leftarrow>map (\<lambda>y. if P y then f y else y) xs. g y) = (\<Sum>y\<leftarrow>xs. g y)"
  by (induction xs) auto

lemma length_filter_update:
  "(\<And>y. y \<in> set xs \<Longrightarrow> P y \<Longrightarrow> Q (f y) = Q y) \<Longrightarrow>
   length (filter Q (map (\<lambda>y. if P y then f y else y) xs)) = length (filter Q xs)"
  by (induction xs) auto

section \<open>Strings\<close>

abbreviation byte :: "char \<Rightarrow> int" where "byte c \<equiv> of_char c"

definition space_runes :: "string list" where
  "space_runes =
     [[CHR 0x09], [CHR 0x0A], [CHR 0x0B], [CHR 0x0C], [CHR 0x0D], [CHR 0x20],
      [CHR 0xC2, CHR 0x85], [CHR 0xC2, CHR 0xA0], [CHR 0xE1, CHR 0x9A, CHR 0x80],
      [CHR 0xE2, CHR 0x80, CHR 0x80], [CHR 0xE2, CHR 0x80, CHR 0x81], [CHR 0xE2, CHR 0x80, CHR 0x82],
      [CHR 0xE2, CHR 0x80, CHR 0x83], [CHR 0xE2, CHR 0x80, CHR 0x84], [CHR 0xE2, CHR 0x80, CHR 0x85],
      [CHR 0xE2, CHR 0x80, CHR 0x86], [CHR 0xE2, CHR 0x80, CHR 0x87], [CHR 0xE2, CHR 0x80, CHR 0x88],
      [CHR 0xE2, CHR 0x80, CHR 0x89], [CHR 0xE2, CHR 0x80, CHR 0x8A], [CHR 0xE2, CHR 0x80, CHR 0xA8],
      [CHR 0xE2, CHR 0x80, CHR 0xA9], [CHR 0xE2, CHR 0x80, CHR 0xAF], [CHR 0xE2, CHR 0x81, CHR 0x9F],
      [CHR 0xE3, CHR 0x80, CHR 0x80]]"

fun trim_with :: "string list \<Rightarrow> nat \<Rightarrow> string \<Rightarrow> string" where
  "trim_with pats 0 s = s"
| "trim_with pats (Suc fuel) s =
     (case find (\<lambda>p. prefix p s) pats of
        None \<Rightarrow> s
      | Some p \<Rightarrow> trim_with pats fuel (drop (length p) s))"

text \<open>Every removal drops at least one byte, so the length of the string is enough fuel.\<close>

definition trim_left :: "string \<Rightarrow> string" where
  "trim_left s = trim_with space_runes (length s) s"

definition trim_right :: "string \<Rightarrow> string" where
  "trim_right s = rev (trim_with (map rev space_runes) (length s) (rev s))"

definition trim_space :: "string \<Rightarrow> string" where
  "trim_space s = trim_right (trim_left s)"

lemma trim_with_done:
  assumes "\<forall>p \<in> set pats. p \<noteq> []" and "length s \<le> fuel"
  shows "find (\<lambda>p. prefix p (trim_with pats fuel s)) pats = None"
  using assms(2)
proof (induction fuel arbitrary: s)
  case 0
  then show ?case using assms(1) by (auto simp: find_None_iff)
next
  case (Suc fuel)
  show ?case
  proof (cases "find (\<lambda>p. prefix p s) pats")
    case None
    then show ?thesis by simp
  next
    case (Some p)
    then have p: "p \<in> set pats" "prefix p s" using find_Some_mem by fast+
    then have "0 < length p" using assms(1) by auto
    then have "length (drop (length p) s) \<le> fuel" using Suc.prems unfolding length_drop by linarith
    then show ?thesis using Suc.IH Some by simp
  qed
qed

lemma trim_with_suffix: "suffix (trim_with pats fuel s) s"
proof (induction fuel arbitrary: s)
  case (Suc fuel)
  show ?case
  proof (cases "find (\<lambda>p. prefix p s) pats")
    case (Some p)
    have "suffix (trim_with pats fuel (drop (length p) s)) (drop (length p) s)" by (rule Suc.IH)
    then have "suffix (trim_with pats fuel (drop (length p) s)) s"
      using suffix_drop suffix_order.trans by blast
    with Some show ?thesis by simp
  qed simp
qed simp

lemma length_trim_space: "length (trim_space s) \<le> length s"
proof -
  have "length (trim_with (map rev space_runes) n (rev t)) \<le> length t" for n t
    using suffix_length_le [OF trim_with_suffix] by (metis length_rev)
  moreover have "length (trim_left s) \<le> length s"
    unfolding trim_left_def by (rule suffix_length_le [OF trim_with_suffix])
  ultimately show ?thesis unfolding trim_space_def trim_right_def
    by (metis length_rev order_trans)
qed

text \<open>
  The width in bytes of the first rune of a non-empty string, as \<^verbatim>\<open>utf8.DecodeRuneInString\<close>
  computes it: an invalid or truncated sequence is one byte wide.
\<close>

definition cont_byte :: "int \<Rightarrow> bool" where
  "cont_byte b \<longleftrightarrow> 0x80 \<le> b \<and> b \<le> 0xBF"

definition second_ok :: "int \<Rightarrow> int \<Rightarrow> bool" where
  "second_ok b0 b1 \<longleftrightarrow>
     (if b0 = 0xE0 then 0xA0 \<le> b1 \<and> b1 \<le> 0xBF
      else if b0 = 0xED then 0x80 \<le> b1 \<and> b1 \<le> 0x9F
      else if b0 = 0xF0 then 0x90 \<le> b1 \<and> b1 \<le> 0xBF
      else if b0 = 0xF4 then 0x80 \<le> b1 \<and> b1 \<le> 0x8F
      else cont_byte b1)"

definition rune_width :: "string \<Rightarrow> nat" where
  "rune_width s = (case map byte s of
       [] \<Rightarrow> 0
     | b0 # bs \<Rightarrow>
         if 0xC2 \<le> b0 \<and> b0 \<le> 0xDF
         then (case bs of b1 # _ \<Rightarrow> if cont_byte b1 then 2 else 1 | _ \<Rightarrow> 1)
         else if 0xE0 \<le> b0 \<and> b0 \<le> 0xEF
         then (case bs of b1 # b2 # _ \<Rightarrow> if second_ok b0 b1 \<and> cont_byte b2 then 3 else 1 | _ \<Rightarrow> 1)
         else if 0xF0 \<le> b0 \<and> b0 \<le> 0xF4
         then (case bs of b1 # b2 # b3 # _ \<Rightarrow>
                 if second_ok b0 b1 \<and> cont_byte b2 \<and> cont_byte b3 then 4 else 1 | _ \<Rightarrow> 1)
         else 1)"

function rune_count :: "string \<Rightarrow> nat" where
  "rune_count [] = 0"
| "rune_count (c # s) = Suc (rune_count (drop (rune_width (c # s) - 1) s))"
  by pat_completeness auto
termination
  by (relation "measure length") auto

lemma rune_count_le: "rune_count s \<le> length s"
proof (induction s rule: rune_count.induct)
  case (2 c s)
  then show ?case by simp
qed simp

lemma rune_count_ascii: "\<forall>c \<in> set s. byte c < 0x80 \<Longrightarrow> rune_count s = length s"
  by (induction s) (auto simp: rune_width_def)

section \<open>Numbers as text\<close>

definition digit_char :: "int \<Rightarrow> char" where
  "digit_char d = char_of (48 + d)"

definition digit_val :: "char \<Rightarrow> int" where
  "digit_val c = byte c - 48"

definition is_digit :: "char \<Rightarrow> bool" where
  "is_digit c \<longleftrightarrow> 48 \<le> byte c \<and> byte c \<le> 57"

function decimal :: "int \<Rightarrow> string" where
  "decimal n = (if n < 10 then [digit_char n] else decimal (n div 10) @ [digit_char (n mod 10)])"
  by pat_completeness auto
termination
  by (relation "measure nat") auto

declare decimal.simps [simp del]

definition itoa :: "int \<Rightarrow> string" where
  "itoa n = (if n < 0 then CHR ''-'' # decimal (- n) else decimal n)"

definition pad_int :: "nat \<Rightarrow> int \<Rightarrow> string" where
  "pad_int w n = (let ds = decimal \<bar>n\<bar> in
     if n < 0 then CHR ''-'' # replicate (w - 1 - length ds) (CHR ''0'') @ ds
     else replicate (w - length ds) (CHR ''0'') @ ds)"

definition digits_val :: "string \<Rightarrow> int" where
  "digits_val = foldl (\<lambda>a c. 10 * a + digit_val c) 0"

lemma byte_digit_char: "0 \<le> d \<Longrightarrow> d < 10 \<Longrightarrow> byte (digit_char d) = 48 + d"
  by (simp add: digit_char_def)

lemma digit_chars [simp]:
  "digit_char 0 = CHR ''0''" "digit_char 1 = CHR ''1''" "digit_char 2 = CHR ''2''"
  "digit_char 3 = CHR ''3''" "digit_char 4 = CHR ''4''" "digit_char 5 = CHR ''5''"
  "digit_char 6 = CHR ''6''" "digit_char 7 = CHR ''7''" "digit_char 8 = CHR ''8''"
  "digit_char 9 = CHR ''9''"
  by code_simp+

lemma digits_val_snoc: "digits_val (s @ [c]) = 10 * digits_val s + digit_val c"
  by (simp add: digits_val_def)

lemma decimal_code:
  "n < 10 \<Longrightarrow> decimal n = [digit_char n]"
  "\<not> n < 10 \<Longrightarrow> decimal n = decimal (n div 10) @ [digit_char (n mod 10)]"
  by (simp_all add: decimal.simps [of n])

lemma digits_val_decimal: "0 \<le> n \<Longrightarrow> digits_val (decimal n) = n"
proof (induction n rule: decimal.induct)
  case (1 n)
  show ?case
  proof (cases "n < 10")
    case True
    with 1 show ?thesis
      by (simp add: decimal_code digits_val_def digit_val_def byte_digit_char)
  next
    case False
    with 1 show ?thesis
      by (simp add: decimal_code digits_val_snoc digit_val_def byte_digit_char)
  qed
qed

lemma digits_val_zeros: "digits_val (replicate k (CHR ''0'') @ s) = digits_val s"
  by (induction k) (simp_all add: digits_val_def digit_val_def)

lemma pad_int_inj: "0 \<le> m \<Longrightarrow> 0 \<le> n \<Longrightarrow> pad_int w m = pad_int w n \<Longrightarrow> m = n"
proof -
  assume mn: "0 \<le> m" "0 \<le> n" and eq: "pad_int w m = pad_int w n"
  have "digits_val (pad_int w x) = x" if "0 \<le> x" for x
    using that by (simp add: pad_int_def Let_def digits_val_zeros digits_val_decimal)
  with mn eq show "m = n" by metis
qed

section \<open>Calendar dates\<close>

definition civil_from_days :: "int \<Rightarrow> int \<times> int \<times> int" where
  "civil_from_days days =
     (let z = days + 719468;
          era = z div 146097;
          doe = z mod 146097;
          yoe = (doe - doe div 1460 + doe div 36524 - doe div 146096) div 365;
          doy = doe - (365 * yoe + yoe div 4 - yoe div 100);
          mp = (5 * doy + 2) div 153;
          d = doy - (153 * mp + 2) div 5 + 1;
          m = (if mp < 10 then mp + 3 else mp - 9)
      in (yoe + era * 400 + (if m \<le> 2 then 1 else 0), m, d))"

text \<open>Time is counted in microseconds since 1970-01-01 UTC, the resolution of the database.\<close>

definition usec_per_sec :: int where "usec_per_sec = 1000000"
definition usec_per_day :: int where "usec_per_day = 86400 * usec_per_sec"

definition date_digits :: "int \<Rightarrow> string" where
  "date_digits t = (case civil_from_days (t div usec_per_day) of
     (y, m, d) \<Rightarrow> pad_int 4 y @ pad_int 2 m @ pad_int 2 d)"

lemma replicate_numeral: "replicate (numeral k) x = x # replicate (pred_numeral k) x"
  by (simp add: numeral_eq_Suc)

lemmas text_eval = pad_int_def itoa_def decimal_code date_digits_def civil_from_days_def
  usec_per_day_def usec_per_sec_def Let_def replicate_numeral

lemma date_digits_example: "date_digits (20710 * usec_per_day + 5) = ''20260914''"
  by (simp add: text_eval cong: let_weak_cong)

section \<open>Quoting\<close>

text \<open>
  \<^verbatim>\<open>strconv.Quote\<close> on ASCII text. Bytes from 0x80 on are copied, which is what Go does with the
  letters of a valid UTF-8 text.
\<close>

definition hex_digit :: "int \<Rightarrow> char" where
  "hex_digit n = (if n < 10 then digit_char n else char_of (87 + n))"

definition quote_char :: "char \<Rightarrow> string" where
  "quote_char c =
     (if c = CHR 0x22 then [CHR 0x5C, CHR 0x22] else if c = CHR 0x5C then [CHR 0x5C, CHR 0x5C]
      else if c = CHR 0x07 then [CHR 0x5C, CHR ''a''] else if c = CHR 0x08 then [CHR 0x5C, CHR ''b'']
      else if c = CHR 0x0C then [CHR 0x5C, CHR ''f''] else if c = CHR 0x0A then [CHR 0x5C, CHR ''n'']
      else if c = CHR 0x0D then [CHR 0x5C, CHR ''r''] else if c = CHR 0x09 then [CHR 0x5C, CHR ''t'']
      else if c = CHR 0x0B then [CHR 0x5C, CHR ''v'']
      else if byte c < 0x20 \<or> byte c = 0x7F
      then [CHR 0x5C, CHR ''x'', hex_digit (byte c div 16), hex_digit (byte c mod 16)]
      else [c])"

definition Quote :: "string \<Rightarrow> string" where
  "Quote s = CHR 0x22 # concat (map quote_char s) @ [CHR 0x22]"

end
