(* ===== verification/AppErr.thy ===== *)
theory AppErr
  imports CozyPrelude
begin

text \<open>
  The package \<^verbatim>\<open>internal/apperr\<close>: the one error type business logic returns. A
  \<^verbatim>\<open>*AppError\<close> is a record of its HTTP status, its machine-readable code, the variant of its
  message and the parameters of that message; the Russian text, which no code reads back, is left
  out. A Go \<^verbatim>\<open>error\<close> is a \<open>go_error\<close>: an \<^verbatim>\<open>*AppError\<close>, an error of PostgreSQL with its SQLSTATE,
  a failed connection, another error with its text, a failure of a row of a product import
  (\<^verbatim>\<open>rowFailure\<close> of \<^verbatim>\<open>internal/catalog/import.go\<close>) with its message, or a refused write of stock that
  changed in the meantime (\<^verbatim>\<open>stockConflictError\<close> of \<^verbatim>\<open>internal/httpapi/admin_catalog_stock.go\<close>, one cell, and
  of \<^verbatim>\<open>internal/admin/product_store.go\<close>, all cells of a form).
\<close>

record app_error =
  ae_status :: int
  ae_code :: string
  ae_variant :: string
  ae_params :: "(string \<times> string) list"

text \<open>
  \<^verbatim>\<open>importMsg\<close> of \<^verbatim>\<open>internal/catalog/import_msg.go\<close>: the key of a message with its parameters and the
  reason nested in it, or an \<^verbatim>\<open>*AppError\<close>.
\<close>

datatype importMsg =
    ImportMsg string "(string \<times> string) list" "importMsg option"
  | ImportAppErr app_error

record stockConflict =
  sc_RowKey :: string
  sc_PointID :: string
  sc_Current :: int
  sc_Exists :: bool

datatype go_error =
    AppError app_error
  | PgError string
  | ConnError
  | PlainError string
  | RowFailure int importMsg
  | StockConflict int
  | StockConflicts "stockConflict list"

definition New :: "int \<Rightarrow> string \<Rightarrow> app_error" where
  "New status code = \<lparr>ae_status = status, ae_code = code, ae_variant = [], ae_params = []\<rparr>"

definition NotFound :: "string \<Rightarrow> app_error" where "NotFound = New 404"
definition BadRequest :: "string \<Rightarrow> app_error" where "BadRequest = New 400"
definition Unauthorized :: "string \<Rightarrow> app_error" where "Unauthorized = New 401"
definition Forbidden :: "string \<Rightarrow> app_error" where "Forbidden = New 403"
definition Conflict :: "string \<Rightarrow> app_error" where "Conflict = New 409"
definition TooManyRequests :: "string \<Rightarrow> app_error" where "TooManyRequests = New 429"

definition WithVariant :: "app_error \<Rightarrow> string \<Rightarrow> app_error" where
  "WithVariant e v = e\<lparr>ae_variant := v\<rparr>"

definition WithParams :: "app_error \<Rightarrow> (string \<times> string) list \<Rightarrow> app_error" where
  "WithParams e ps = e\<lparr>ae_params := ps\<rparr>"

definition MessageKey :: "app_error \<Rightarrow> string" where
  "MessageKey e = (if ae_variant e = [] then ''err.'' @ ae_code e
                   else ''err.'' @ ae_code e @ ''.'' @ ae_variant e)"

definition Internal :: "go_error \<Rightarrow> app_error" where
  "Internal err = New 500 ''internal_error''"

text \<open>
  \<^verbatim>\<open>WriteError\<close>: what the client sees of an error. Anything but an \<^verbatim>\<open>*AppError\<close> becomes the
  generic 500, so no text of the database reaches the response.
\<close>

definition response_error :: "go_error \<Rightarrow> app_error" where
  "response_error err = (case err of AppError e \<Rightarrow> e | _ \<Rightarrow> Internal err)"

definition is_app_error :: "go_error \<Rightarrow> string \<Rightarrow> bool" where
  "is_app_error err code = (case err of AppError e \<Rightarrow> ae_code e = code | _ \<Rightarrow> False)"

lemma WithVariant_keeps [simp]:
  "ae_status (WithVariant e v) = ae_status e" "ae_code (WithVariant e v) = ae_code e"
  "ae_params (WithVariant e v) = ae_params e" "ae_variant (WithVariant e v) = v"
  by (simp_all add: WithVariant_def)

lemma WithParams_keeps [simp]:
  "ae_status (WithParams e ps) = ae_status e" "ae_code (WithParams e ps) = ae_code e"
  "ae_variant (WithParams e ps) = ae_variant e" "ae_params (WithParams e ps) = ps"
  by (simp_all add: WithParams_def)

lemma New_fields [simp]:
  "ae_status (New s c) = s" "ae_code (New s c) = c"
  "ae_variant (New s c) = []" "ae_params (New s c) = []"
  by (simp_all add: New_def)

lemmas kind_defs = NotFound_def BadRequest_def Unauthorized_def Forbidden_def Conflict_def
  TooManyRequests_def

lemma response_error_leak: "ae_params (response_error (PgError c)) = []"
  by (simp add: response_error_def Internal_def)

end
