(* ===== verification/GoFloat.thy ===== *)
theory GoFloat
  imports Complex_Main
begin

text \<open>
  Money as the program computes it: Go's \<^verbatim>\<open>float64\<close> on finite values.

  A finite \<^verbatim>\<open>float64\<close> is the rational number it stands for. Every arithmetic operation of
  IEEE 754 binary64 is the exact operation followed by one rounding to the nearest number with a
  53-bit significand, ties to even: \<open>rnd64\<close> is that rounding, and \<open>fadd\<close>, \<open>fmul\<close>, \<open>fdiv\<close> are the
  operations. The exponent range is not bounded: the amounts of the shop are multiples of one
  tyiyn (1/100 som) below 10 to the 13, far from overflow and from the subnormal numbers. The
  products and sums are rounded one by one, as on amd64 (no fused multiply-add).

  The conversions between som and tyiyn are those of the source (\<^verbatim>\<open>roundSom\<close> in
  \<^verbatim>\<open>internal/orders/order.go\<close>, \<^verbatim>\<open>toTyiyn\<close> in \<^verbatim>\<open>internal/orders/delivery_zones.go\<close> and
  \<^verbatim>\<open>internal/payments/service.go\<close>). A \<^verbatim>\<open>NUMERIC(p,2)\<close> column holds a whole number of tyiyn;
  \<open>float_of_numeric\<close> is what scanning it into a \<^verbatim>\<open>float64\<close> gives and \<open>numeric_of_float\<close> what storing
  a \<^verbatim>\<open>float64\<close> in it keeps. The lemmas bound the error of a running total and show that rounding
  the total recovers the exact number of tyiyn.
\<close>

type_synonym float64 = rat

function bit_length :: "int \<Rightarrow> nat" where
  "bit_length n = (if n \<le> 0 then 0 else Suc (bit_length (n div 2)))"
  by pat_completeness auto
termination
  by (relation "measure nat") auto

declare bit_length.simps [simp del]

lemma bit_length_numeral [simp]:
  "bit_length 0 = 0" "bit_length 1 = 1"
  "bit_length (numeral (Num.Bit0 k)) = Suc (bit_length (numeral k))"
  "bit_length (numeral (Num.Bit1 k)) = Suc (bit_length (numeral k))"
  by (subst bit_length.simps, simp)+

definition flog2 :: "rat \<Rightarrow> int" where
  "flog2 x = (if 1 \<le> x then int (bit_length \<lfloor>x\<rfloor>) - 1 else - int (bit_length (\<lceil>1 / x\<rceil> - 1)))"

definition rnd_even :: "rat \<Rightarrow> int" where
  "rnd_even x = (let f = \<lfloor>x\<rfloor>; r = x - of_int f
                 in if r < 1/2 then f else if 1/2 < r then f + 1
                    else if even f then f else f + 1)"

definition rnd64 :: "rat \<Rightarrow> float64" where
  "rnd64 x = (if x = 0 then 0
              else let u = 2 powi (flog2 \<bar>x\<bar> - 52) in of_int (rnd_even (x / u)) * u)"

definition fadd :: "float64 \<Rightarrow> float64 \<Rightarrow> float64" where "fadd x y = rnd64 (x + y)"
definition fmul :: "float64 \<Rightarrow> float64 \<Rightarrow> float64" where "fmul x y = rnd64 (x * y)"
definition fdiv :: "float64 \<Rightarrow> float64 \<Rightarrow> float64" where "fdiv x y = rnd64 (x / y)"

text \<open>A \<^verbatim>\<open>float64\<close> that comes from outside the program may also be not finite.\<close>

datatype go_float = Finite float64 | NaN | PosInf | NegInf

text \<open>\<^verbatim>\<open>math.Round\<close>: the nearest integer, halves away from zero.\<close>

definition math_round :: "float64 \<Rightarrow> int" where
  "math_round x = (if x < 0 then - \<lfloor>- x + 1/2\<rfloor> else \<lfloor>x + 1/2\<rfloor>)"

lemma bit_length_bounds: "0 < n \<Longrightarrow> 2 ^ (bit_length n - 1) \<le> n \<and> n < 2 ^ bit_length n \<and> 0 < bit_length n"
proof (induction n rule: bit_length.induct)
  case (1 n)
  show ?case
  proof (cases "n = 1")
    case False
    then have g: "0 < n div 2" using "1.prems" by linarith
    then have ih: "2 ^ (bit_length (n div 2) - 1) \<le> n div 2" "n div 2 < 2 ^ bit_length (n div 2)"
      "0 < bit_length (n div 2)"
      using "1.IH" "1.prems" by auto
    then have "(2::int) ^ bit_length (n div 2) = 2 * 2 ^ (bit_length (n div 2) - 1)"
      by (cases "bit_length (n div 2)") auto
    with ih have "2 ^ bit_length (n div 2) \<le> n" "n < 2 * 2 ^ bit_length (n div 2)" by linarith+
    then show ?thesis using "1.prems" by (simp add: bit_length.simps [of n])
  qed simp
qed

lemma powi_nat_diff1: "0 < b \<Longrightarrow> (2::rat) powi (int b - 1) = of_int (2 ^ (b - 1))"
  by (cases b) auto

lemma flog2_bounds:
  assumes "0 < x"
  shows "2 powi flog2 x \<le> x \<and> x < 2 powi (flog2 x + 1)"
proof (cases "1 \<le> x")
  case True
  let ?b = "bit_length \<lfloor>x\<rfloor>"
  have b: "2 ^ (?b - 1) \<le> \<lfloor>x\<rfloor>" "\<lfloor>x\<rfloor> < 2 ^ ?b" "0 < ?b"
    using bit_length_bounds [of "\<lfloor>x\<rfloor>"] True by auto
  have "of_int (2 ^ (?b - 1)) \<le> x" using b(1) by (simp only: le_floor_iff)
  moreover have "x < of_int (2 ^ ?b)" using b(2) by (simp only: floor_less_iff)
  ultimately show ?thesis using True b(3) by (simp add: flog2_def powi_nat_diff1)
next
  case False
  let ?m = "\<lceil>1 / x\<rceil> - 1"
  let ?b = "bit_length ?m"
  have "1 < 1 / x" using False assms by (simp add: field_simps)
  then have "0 < ?m" by linarith
  then have b: "2 ^ (?b - 1) \<le> ?m" "?m < 2 ^ ?b" "0 < ?b" using bit_length_bounds [of ?m] by auto
  have "of_int ?m < 1 / x" "1 / x \<le> of_int ?m + 1" by linarith+
  moreover have "of_int (2 ^ (?b - 1)) \<le> (of_int ?m :: rat)" using b(1) by (simp only: of_int_le_iff)
  moreover have "(of_int ?m + 1 :: rat) \<le> of_int (2 ^ ?b)"
  proof -
    have "?m + 1 \<le> 2 ^ ?b" using b(2) by simp
    then have "of_int (?m + 1) \<le> (of_int (2 ^ ?b) :: rat)" by (simp only: of_int_le_iff)
    then show ?thesis by (simp only: of_int_add of_int_1)
  qed
  ultimately have "of_int (2 ^ (?b - 1)) < 1 / x" "1 / x \<le> of_int (2 ^ ?b)" by linarith+
  then have *: "x * 2 ^ (?b - 1) < 1" "1 \<le> x * 2 ^ ?b" using assms by (simp_all add: field_simps)
  have "2 powi (- int ?b) \<le> x" using *(2) by (simp add: power_int_minus field_simps)
  moreover have "x < 2 powi (- int ?b + 1)"
  proof -
    have "(2::rat) powi (- int ?b + 1) * 2 ^ (?b - 1) = 2 powi (- int ?b + 1 + int (?b - 1))"
      by (subst power_int_add) simp_all
    then have "(2::rat) powi (- int ?b + 1) * 2 ^ (?b - 1) = 1" using b(3) by simp
    with *(1) have "x * 2 ^ (?b - 1) < (2::rat) powi (- int ?b + 1) * 2 ^ (?b - 1)" by linarith
    then show ?thesis by (rule mult_right_less_imp_less) simp
  qed
  ultimately show ?thesis using False by (simp add: flog2_def)
qed

lemma rnd_even_err: "\<bar>of_int (rnd_even x) - x\<bar> \<le> 1/2"
proof -
  have "of_int \<lfloor>x\<rfloor> \<le> x" "x < of_int \<lfloor>x\<rfloor> + 1" by linarith+
  then show ?thesis by (auto simp: rnd_even_def Let_def)
qed

lemma rnd64_err: "\<bar>rnd64 x - x\<bar> \<le> \<bar>x\<bar> / 2 ^ 53"
proof (cases "x = 0")
  case True
  then show ?thesis by (simp add: rnd64_def)
next
  case False
  let ?u = "2 powi (flog2 \<bar>x\<bar> - 52) :: rat"
  have u: "0 < ?u" by simp
  have "rnd64 x - x = (of_int (rnd_even (x / ?u)) - x / ?u) * ?u"
    using False by (simp add: rnd64_def Let_def algebra_simps)
  then have "\<bar>rnd64 x - x\<bar> = \<bar>of_int (rnd_even (x / ?u)) - x / ?u\<bar> * ?u"
    by (simp add: abs_mult)
  also have "\<dots> \<le> 1/2 * ?u" by (rule mult_right_mono [OF rnd_even_err]) simp
  also have "\<dots> = 2 powi flog2 \<bar>x\<bar> / 2 ^ 53" by (simp add: power_int_diff)
  also have "\<dots> \<le> \<bar>x\<bar> / 2 ^ 53"
    by (rule divide_right_mono) (use flog2_bounds [of "\<bar>x\<bar>"] False in simp_all)
  finally show ?thesis .
qed


lemma rnd64_nonneg: "0 \<le> x \<Longrightarrow> 0 \<le> rnd64 x"
proof -
  assume x: "0 \<le> x"
  have "\<bar>rnd64 x - x\<bar> \<le> \<bar>x\<bar> / 2 ^ 53" by (rule rnd64_err)
  with x show ?thesis by (simp add: abs_if field_simps split: if_splits)
qed

lemma floor_rat_numeral [simp]:
  "\<lfloor>(numeral a :: rat) / numeral b\<rfloor> = numeral a div numeral b"
  "\<lfloor>(1 :: rat) / numeral b\<rfloor> = 1 div numeral b"
  using floor_divide_of_int_eq [of "numeral a" "numeral b", where ?'a = rat]
    floor_divide_of_int_eq [of 1 "numeral b", where ?'a = rat] by simp_all

lemma ceiling_rat_numeral [simp]:
  "\<lceil>(numeral a :: rat) / numeral b\<rceil> = - (- numeral a div numeral b)"
  "\<lceil>(1 :: rat) / numeral b\<rceil> = - (- 1 div numeral b)"
  using ceiling_divide_eq_div [of "numeral a" "numeral b", where ?'a = rat]
    ceiling_divide_eq_div [of 1 "numeral b", where ?'a = rat] by simp_all

definition toTyiyn :: "float64 \<Rightarrow> int" where
  "toTyiyn som = math_round (fmul som 100)"

definition roundSom :: "float64 \<Rightarrow> float64" where
  "roundSom v = fdiv (of_int (math_round (fmul v 100))) 100"

definition float_of_numeric :: "int \<Rightarrow> float64" where
  "float_of_numeric k = rnd64 (of_int k / 100)"

definition numeric_of_float :: "float64 \<Rightarrow> int" where
  "numeric_of_float x = math_round (x * 100)"

lemma math_round_near:
  assumes "\<bar>x - of_int k\<bar> < 1/2" shows "math_round x = k"
proof (cases "x < 0")
  case True
  have "of_int (- k) \<le> - x + 1/2" "- x + 1/2 < of_int (- k) + 1" using assms by (simp_all, linarith+)
  then have "\<lfloor>- x + 1/2\<rfloor> = - k" by (intro floor_unique)
  then show ?thesis using True by (simp add: math_round_def)
next
  case False
  have "of_int k \<le> x + 1/2" "x + 1/2 < of_int k + 1" using assms by linarith+
  then have "\<lfloor>x + 1/2\<rfloor> = k" by (intro floor_unique)
  then show ?thesis using False by (simp add: math_round_def)
qed

lemma float_of_numeric_err: "\<bar>float_of_numeric k - of_int k / 100\<bar> \<le> \<bar>of_int k\<bar> / 100 / 2 ^ 53"
  using rnd64_err [of "of_int k / 100"] by (simp add: float_of_numeric_def)

lemma near_times_100:
  assumes "\<bar>x - of_int k / 100\<bar> \<le> 1 / 1000" and "\<bar>of_int k :: rat\<bar> \<le> 10 ^ 13"
  shows "\<bar>fmul x 100 - of_int k\<bar> < 1/2"
proof -
  have "\<bar>fmul x 100 - x * 100\<bar> \<le> \<bar>x * 100\<bar> / 2 ^ 53" unfolding fmul_def by (rule rnd64_err)
  moreover have "\<bar>x * 100 - of_int k\<bar> \<le> 1/10" using assms(1) by linarith
  moreover have "\<bar>x * 100\<bar> \<le> 10 ^ 13 + 1"
    using assms(2) calculation(2) by linarith
  then have "\<bar>x * 100\<bar> / 2 ^ 53 \<le> 1/10" by simp
  ultimately show ?thesis by linarith
qed

lemma toTyiyn_near:
  assumes "\<bar>x - of_int k / 100\<bar> \<le> 1 / 1000" and "\<bar>of_int k :: rat\<bar> \<le> 10 ^ 13"
  shows "toTyiyn x = k"
  unfolding toTyiyn_def by (rule math_round_near [OF near_times_100 [OF assms]])

lemma roundSom_near:
  assumes "\<bar>x - of_int k / 100\<bar> \<le> 1 / 1000" and "\<bar>of_int k :: rat\<bar> \<le> 10 ^ 13"
  shows "roundSom x = float_of_numeric k"
  by (simp add: roundSom_def fdiv_def float_of_numeric_def math_round_near [OF near_times_100 [OF assms]])

lemma float_of_numeric_close:
  assumes "\<bar>k\<bar> \<le> 10 ^ 13"
  shows "\<bar>float_of_numeric k - of_int k / 100\<bar> \<le> 1 / 1000" and "\<bar>of_int k :: rat\<bar> \<le> 10 ^ 13"
proof -
  have "of_int \<bar>k\<bar> \<le> (of_int (10 ^ 13) :: rat)" using assms by (simp only: of_int_le_iff)
  then show k: "\<bar>of_int k :: rat\<bar> \<le> 10 ^ 13" by simp
  then have "\<bar>of_int k :: rat\<bar> / 100 / 2 ^ 53 \<le> 1 / 1000" by simp
  with float_of_numeric_err [of k] show "\<bar>float_of_numeric k - of_int k / 100\<bar> \<le> 1 / 1000" by linarith
qed

lemma toTyiyn_float_of_numeric: "\<bar>k\<bar> \<le> 10 ^ 13 \<Longrightarrow> toTyiyn (float_of_numeric k) = k"
  by (rule toTyiyn_near [OF float_of_numeric_close])

lemma numeric_roundtrip: "\<bar>k\<bar> \<le> 10 ^ 13 \<Longrightarrow> numeric_of_float (float_of_numeric k) = k"
  unfolding numeric_of_float_def
  by (rule math_round_near) (use float_of_numeric_close(1) [of k] in linarith)

fun sum_lines :: "float64 \<Rightarrow> (float64 \<times> int) list \<Rightarrow> float64" where
  "sum_lines t [] = t"
| "sum_lines t ((p, q) # xs) = sum_lines (fadd t (fmul p (of_int q))) xs"

lemma fadd_line_err:
  assumes k: "0 \<le> k" and q: "0 \<le> q" and B: "of_int (k * q) \<le> (10 ^ 10 :: rat)"
    and t: "\<bar>t - of_int s / 100\<bar> \<le> 1" "0 \<le> s" "of_int s \<le> (10 ^ 10 :: rat)"
  shows "\<bar>fadd t (fmul (float_of_numeric k) (of_int q)) - of_int (s + k * q) / 100\<bar>
         \<le> \<bar>t - of_int s / 100\<bar> + 1 / 10 ^ 7"
proof -
  let ?p = "float_of_numeric k" and ?q = "of_int q :: rat"
  let ?x = "fmul ?p ?q" and ?e = "of_int (k * q) / 100 :: rat"
  have e: "0 \<le> ?e" "?e \<le> 100000000" using k q B by simp_all
  have "?p * ?q - ?e = (?p - of_int k / 100) * ?q" by (simp add: algebra_simps)
  then have "\<bar>?p * ?q - ?e\<bar> = \<bar>?p - of_int k / 100\<bar> * ?q" using q by (simp add: abs_mult)
  also have "\<dots> \<le> \<bar>of_int k\<bar> / 100 / 2 ^ 53 * ?q"
    using q by (intro mult_right_mono float_of_numeric_err) simp
  also have "\<dots> = ?e / 2 ^ 53" using k by simp
  finally have 1: "\<bar>?p * ?q - ?e\<bar> \<le> ?e / 2 ^ 53" .
  have 2: "\<bar>?x - ?p * ?q\<bar> \<le> \<bar>?p * ?q\<bar> / 2 ^ 53" unfolding fmul_def by (rule rnd64_err)
  have "?e / 2 ^ 53 \<le> 1" using e by simp
  then have pq: "\<bar>?p * ?q\<bar> \<le> 100000000 + 1" using 1 e by linarith
  then have pq53: "\<bar>?p * ?q\<bar> / 2 ^ 53 \<le> 1" by simp
  have 3: "\<bar>fadd t ?x - (t + ?x)\<bar> \<le> \<bar>t + ?x\<bar> / 2 ^ 53" unfolding fadd_def by (rule rnd64_err)
  have x: "\<bar>?x\<bar> \<le> 100000000 + 2" using 2 pq pq53 by linarith
  have "0 \<le> (of_int s :: rat) / 100" "of_int s / 100 \<le> (100000000 :: rat)" using t(2,3) by simp_all
  then have "\<bar>t\<bar> \<le> 100000000 + 1" using t(1) by linarith
  then have tx: "\<bar>t + ?x\<bar> \<le> 3 * 100000000" using x by linarith
  have "\<bar>fadd t ?x - (t + ?x)\<bar> \<le> 3 * 100000000 / 2 ^ 53" using 3 tx by (simp add: field_simps)
  moreover have "\<bar>?x - ?p * ?q\<bar> \<le> 2 * 100000000 / 2 ^ 53" using 2 pq by (simp add: field_simps)
  moreover have "\<bar>?p * ?q - ?e\<bar> \<le> 100000000 / 2 ^ 53" using 1 e by (simp add: field_simps)
  moreover have "fadd t ?x - of_int (s + k * q) / 100
      = (fadd t ?x - (t + ?x)) + (?x - ?p * ?q) + (?p * ?q - ?e) + (t - of_int s / 100)"
    by (simp add: add_divide_distrib)
  moreover have "3 * 100000000 / 2 ^ 53 + 2 * 100000000 / 2 ^ 53 + 100000000 / 2 ^ 53 \<le> (1 / 10 ^ 7 :: rat)"
    by simp
  ultimately show ?thesis by linarith
qed

lemma sum_lines_err:
  assumes "\<forall>(k, q) \<in> set ls. 0 \<le> k \<and> 0 \<le> q" "0 \<le> s"
    and "s + (\<Sum>(k, q) \<leftarrow> ls. k * q) \<le> 10 ^ 10" and "length ls \<le> n" "n \<le> 1000"
    and "\<bar>t - of_int s / 100\<bar> \<le> (1000 - of_nat n) / 10 ^ 7"
  shows "\<bar>sum_lines t (map (\<lambda>(k, q). (float_of_numeric k, q)) ls)
          - of_int (s + (\<Sum>(k, q) \<leftarrow> ls. k * q)) / 100\<bar> \<le> 1 / 10 ^ 4"
  using assms
proof (induction ls arbitrary: s t n)
  case Nil
  have "(1000 - of_nat n) / 10 ^ 7 \<le> (1 / 10 ^ 4 :: rat)" by simp
  with Nil.prems(6) show ?case by simp
next
  case (Cons l ls)
  obtain k q where l: "l = (k, q)" by force
  obtain m where n: "n = Suc m" using Cons.prems(4) by (cases n) auto
  have kq: "0 \<le> k" "0 \<le> q" "0 \<le> k * q" and rest: "\<forall>(k, q) \<in> set ls. 0 \<le> k \<and> 0 \<le> q"
    using Cons.prems(1) by (auto simp: l)
  have nn: "0 \<le> (\<Sum>(k, q) \<leftarrow> ls. k * q)" using rest by (intro sum_list_nonneg) auto
  have le: "k * q \<le> 10 ^ 10" "s \<le> 10 ^ 10" 
  proof -
    have "s + (k * q + (\<Sum>(k, q) \<leftarrow> ls. k * q)) \<le> 10 ^ 10" using Cons.prems(3) by (simp add: l)
    then show "k * q \<le> 10 ^ 10" "s \<le> 10 ^ 10" using Cons.prems(2) kq(3) nn by linarith+
  qed
  have "of_int (k * q) \<le> (of_int (10 ^ 10) :: rat)" "of_int s \<le> (of_int (10 ^ 10) :: rat)"
    using le by (simp_all only: of_int_le_iff)
  moreover have "(1000 - of_nat n) / 10 ^ 7 \<le> (1 :: rat)" by simp
  ultimately have "\<bar>fadd t (fmul (float_of_numeric k) (of_int q)) - of_int (s + k * q) / 100\<bar>
      \<le> \<bar>t - of_int s / 100\<bar> + 1 / 10 ^ 7"
    using Cons.prems(6) kq Cons.prems(2) by (intro fadd_line_err) simp_all
  also have "\<dots> \<le> (1000 - of_nat m) / 10 ^ 7" using Cons.prems(6) by (simp add: n field_simps)
  finally have step: "\<bar>fadd t (fmul (float_of_numeric k) (of_int q)) - of_int (s + k * q) / 100\<bar>
      \<le> (1000 - of_nat m) / 10 ^ 7" .
  show ?case
    using Cons.IH [OF rest _ _ _ _ step] Cons.prems(2-5) kq by (simp add: l n add.assoc)
qed

lemmas float_eval = fadd_def fmul_def fdiv_def rnd64_def flog2_def Let_def rnd_even_def
  math_round_def float_of_numeric_def numeric_of_float_def roundSom_def toTyiyn_def

end
