(* ===== verification/Database.thy ===== *)
theory Database
  imports AppErr GoFloat
begin

text \<open>
  The tables the order and payment code reads and writes, and the way that code talks to them.

  Each table of \<^verbatim>\<open>migrations/\<close> the code uses is a list of rows in insertion order (the table
  \<^verbatim>\<open>stock\<close> a map from its primary key); \<^verbatim>\<open>NUMERIC(p,2)\<close> columns are whole numbers of tyiyn,
  enumerations are datatypes, \<^verbatim>\<open>NULL\<close> is \<open>None\<close>, identifiers are the canonical text of a UUID.
  The constraints of the migrations the code leans on (primary keys, the unique indexes, the
  CHECKs on \<^verbatim>\<open>stock.quantity\<close> and \<^verbatim>\<open>orders\<close>, the range of a column) are conditions of the write
  operations: a violation is the \<open>PgError\<close> with PostgreSQL's SQLSTATE. The triggers of
  \<^verbatim>\<open>migrations/000042_product_sales.up.sql\<close> run inside those operations.

  A piece of Go that can fail is a function of type \<open>('w, 'a) prog\<close>: it takes a state and returns an
  error or a value with the new state. For code that uses the database the state is the \<open>world\<close>, and
  the type is written \<open>'a go\<close>. \<open>stmt\<close> is one SQL statement. It first consults
  the list \<open>faults\<close>: \<open>True\<close> there means the connection fails at this statement, so a list of faults
  describes any schedule of infrastructure failures and the empty list means none. \<open>withTx\<close> is
  \<^verbatim>\<open>dbtx.WithTx\<close>: on any error, its own begin and commit included, the tables are those before.

  A transaction is one step of the model: the code serializes what could interleave on row and
  advisory locks (\<^verbatim>\<open>SELECT ... FOR UPDATE\<close>, \<^verbatim>\<open>pg_advisory_xact_lock\<close>), which therefore do not
  appear. \<open>clock\<close> is \<^verbatim>\<open>now()\<close>, and the service's \<^verbatim>\<open>time.Now()\<close>; it moves between transactions only.
\<close>

section \<open>Enumerations\<close>

datatype OrderStatus =
    StatusPlaced | StatusConfirmed | StatusCourierAssigned | StatusDelivered | StatusCancelled
  | StatusOther string

datatype PaymentMethod = PaymentOnlineCard | PaymentCashOnDelivery

datatype PaymentStatus =
    PaymentPending | PaymentPaid | PaymentFailed | PaymentCancelled | PaymentRefunded

datatype Role = RoleOwner | RoleManager | RolePointStaff | RoleOther string

datatype ActorType = ActorStaff | ActorCustomer | ActorSystem

text \<open>The text of the enumeration values, as the Go constants and the database spell them.\<close>

fun status_text :: "OrderStatus \<Rightarrow> string" where
  "status_text StatusPlaced = ''placed''"
| "status_text StatusConfirmed = ''confirmed''"
| "status_text StatusCourierAssigned = ''courier_assigned''"
| "status_text StatusDelivered = ''delivered''"
| "status_text StatusCancelled = ''cancelled''"
| "status_text (StatusOther s) = s"

definition parse_status :: "string \<Rightarrow> OrderStatus" where
  "parse_status s =
     (if s = ''placed'' then StatusPlaced else if s = ''confirmed'' then StatusConfirmed
      else if s = ''courier_assigned'' then StatusCourierAssigned
      else if s = ''delivered'' then StatusDelivered
      else if s = ''cancelled'' then StatusCancelled else StatusOther s)"

fun payment_status_text :: "PaymentStatus \<Rightarrow> string" where
  "payment_status_text PaymentPending = ''pending''"
| "payment_status_text PaymentPaid = ''paid''"
| "payment_status_text PaymentFailed = ''failed''"
| "payment_status_text PaymentCancelled = ''cancelled''"
| "payment_status_text PaymentRefunded = ''refunded''"

text \<open>\<^verbatim>\<open>PaymentStatus.Valid\<close>: a text that is one of the enumeration values, with the value.\<close>

definition parse_payment_status :: "string \<Rightarrow> PaymentStatus option" where
  "parse_payment_status s =
     (if s = ''pending'' then Some PaymentPending else if s = ''paid'' then Some PaymentPaid
      else if s = ''failed'' then Some PaymentFailed
      else if s = ''cancelled'' then Some PaymentCancelled
      else if s = ''refunded'' then Some PaymentRefunded else None)"

lemma parse_status_text: "status_text (parse_status s) = s"
  by (simp add: parse_status_def)

lemma parse_payment_status_text: "parse_payment_status (payment_status_text st) = Some st"
  by (cases st) (simp_all add: parse_payment_status_def)

lemma parse_payment_status_Some: "parse_payment_status s = Some st \<Longrightarrow> payment_status_text st = s"
  by (auto simp: parse_payment_status_def split: if_splits)

section \<open>Rows\<close>

record variant_row =
  pv_id :: string
  pv_product_id :: string
  pv_size :: string
  pv_color :: string
  pv_price_override :: "int option"
  pv_sku :: "string option"

record product_row =
  pr_id :: string
  pr_name_ru :: string
  pr_name_ky :: string
  pr_base_price :: int
  pr_is_active :: bool
  pr_category_id :: string
  pr_brand :: "string option"
  pr_description_ru :: "string option"
  pr_description_ky :: "string option"
  pr_model_code :: "string option"
  pr_created_at :: int
  pr_updated_at :: int

record category_row =
  cat_id :: string
  cat_name_ru :: string
  cat_name_ky :: string
  cat_slug :: string
  cat_parent_id :: "string option"
  cat_sort_order :: int
  cat_image_key :: "string option"

record point_row =
  pt_id :: string
  pt_is_active :: bool
  pt_created_at :: int
  pt_name :: string
  pt_city :: string
  pt_address :: string
  pt_working_hours :: string
  pt_latitude :: "rat option"
  pt_longitude :: "rat option"

record image_row =
  im_id :: string
  im_product_id :: string
  im_object_key :: string
  im_sort_order :: int
  im_color :: "string option"

record zone_row =
  z_id :: string
  z_name_ru :: string
  z_name_ky :: string
  z_fee :: int
  z_free_from :: "int option"
  z_is_active :: bool
  z_sort_order :: int

record address_row =
  a_id :: string
  a_customer_id :: string
  a_label :: "string option"
  a_text :: string
  a_lat :: "float64 option"
  a_lng :: "float64 option"
  a_is_default :: bool
  a_created_at :: int

record customer_row =
  cu_id :: string
  cu_phone :: string
  cu_name :: "string option"
  cu_lang :: string
  cu_promo_push :: bool
  cu_promo_push_asked_at :: "int option"
  cu_created_at :: int
  cu_updated_at :: int
  cu_deleted_at :: "int option"

record favorite_row =
  fv_customer_id :: string
  fv_product_id :: string
  fv_created_at :: int

record device_row =
  dt_id :: string
  dt_customer_id :: string
  dt_fcm_token :: string
  dt_platform :: string
  dt_created_at :: int

record otp_row =
  otp_id :: string
  otp_phone :: string
  otp_transaction_id :: string
  otp_token :: string
  otp_expires_at :: int
  otp_consumed_at :: "int option"
  otp_created_at :: int
  otp_request_ip :: "string option"
  otp_verify_attempts :: int

record refresh_row =
  rt_id :: string
  rt_customer_id :: string
  rt_token_hash :: string
  rt_expires_at :: int
  rt_revoked_at :: "int option"
  rt_family_id :: string
  rt_rotated_at :: "int option"

record cart_row =
  c_customer_id :: string
  c_variant_id :: string
  c_qty :: int
  c_created_at :: int

record order_row =
  o_id :: string
  o_order_number :: string
  o_customer_id :: string
  o_address_id :: "string option"
  o_point_id :: "string option"
  o_status :: OrderStatus
  o_payment_method :: PaymentMethod
  o_payment_status :: "PaymentStatus option"
  o_total_amount :: int
  o_delivery_fee :: int
  o_refund_required :: bool
  o_comment :: "string option"
  o_idempotency_key :: "string option"
  o_delivery_zone_id :: "string option"
  o_created_at :: int
  o_updated_at :: int

record item_row =
  i_id :: string
  i_order_id :: string
  i_variant_id :: string
  i_product_name_snapshot :: string
  i_size_snapshot :: string
  i_color_snapshot :: string
  i_quantity :: int
  i_price :: int

record history_row =
  h_id :: string
  h_order_id :: string
  h_from_status :: "OrderStatus option"
  h_to_status :: OrderStatus
  h_actor_type :: ActorType
  h_actor_staff_id :: "string option"
  h_note :: "string option"
  h_created_at :: int

record payment_row =
  p_id :: string
  p_order_id :: string
  p_provider :: string
  p_provider_tx_id :: "string option"
  p_status :: PaymentStatus
  p_amount :: int
  p_currency :: string
  p_redirect_url :: "string option"
  p_raw_webhook :: "string option"
  p_created_at :: int
  p_updated_at :: int

record staff_row =
  sf_id :: string
  sf_phone :: string
  sf_password_hash :: string
  sf_name :: string
  sf_role :: Role
  sf_point_id :: "string option"
  sf_is_active :: bool
  sf_created_at :: int

record staff_session_row =
  ss_id :: string
  ss_staff_id :: string
  ss_token_hash :: string
  ss_expires_at :: int
  ss_revoked_at :: "int option"

record broadcast_row =
  bc_id :: string
  bc_title_ru :: string
  bc_body_ru :: string
  bc_title_ky :: string
  bc_body_ky :: string
  bc_link :: string
  bc_link_label :: string
  bc_status :: string
  bc_submit_token :: string
  bc_created_by :: "string option"
  bc_created_by_name :: string
  bc_targets :: int
  bc_sent :: int
  bc_failed :: int
  bc_invalid_removed :: int
  bc_cursor_token_id :: "string option"
  bc_error :: "string option"
  bc_created_at :: int
  bc_started_at :: "int option"
  bc_finished_at :: "int option"

record banner_row =
  bn_enabled :: bool
  bn_eyebrow_ru :: string
  bn_eyebrow_ky :: string
  bn_title_ru :: string
  bn_title_ky :: string
  bn_button_ru :: string
  bn_button_ky :: string
  bn_link_category_id :: "string option"
  bn_bg_color :: string
  bn_text_color :: string
  bn_eyebrow_color :: string
  bn_image_key :: "string option"
  bn_bg_image_key :: "string option"
  bn_updated_at :: int

record db =
  variants :: "variant_row list"
  products :: "product_row list"
  points :: "point_row list"
  zones :: "zone_row list"
  addresses :: "address_row list"
  stock :: "string \<times> string \<Rightarrow> int option"
  cart_items :: "cart_row list"
  orders :: "order_row list"
  order_items :: "item_row list"
  order_status_history :: "history_row list"
  payments :: "payment_row list"
  customers :: "customer_row list"
  favorites :: "favorite_row list"
  device_tokens :: "device_row list"
  otp_codes :: "otp_row list"
  refresh_tokens :: "refresh_row list"
  staff_accounts :: "staff_row list"
  staff_sessions :: "staff_session_row list"
  product_sales :: "string \<Rightarrow> int"
  clock :: int
  id_count :: nat
  categories :: "category_row list"
  product_images :: "image_row list"
  broadcasts :: "broadcast_row list"
  home_banner :: "banner_row option"

section \<open>The world and its programs\<close>

text \<open>What the process-wide notifier is told (\<^verbatim>\<open>internal/orders/notifier.go\<close>), in order.\<close>

datatype notice =
    OrderCreated string
  | OrderStatusChanged string OrderStatus
  | OrderCancelledByCustomer string

record world =
  tables :: db
  faults :: "bool list"
  notices :: "notice list"

type_synonym ('w, 'a) prog = "'w \<Rightarrow> (go_error + 'a) \<times> 'w"

type_synonym 'a go = "(world, 'a) prog"

definition returnG :: "'a \<Rightarrow> ('w, 'a) prog" where
  "returnG x w = (Inr x, w)"

definition failG :: "go_error \<Rightarrow> ('w, 'a) prog" where
  "failG e w = (Inl e, w)"

definition bindG :: "('w, 'a) prog \<Rightarrow> ('a \<Rightarrow> ('w, 'b) prog) \<Rightarrow> ('w, 'b) prog" where
  "bindG m f w = (case m w of (Inl e, w') \<Rightarrow> (Inl e, w') | (Inr x, w') \<Rightarrow> f x w')"

text \<open>\<^verbatim>\<open>if err := check; err != nil { return err }\<close> for a check without effects.\<close>

definition liftG :: "go_error + 'a \<Rightarrow> ('w, 'a) prog" where
  "liftG r w = (r, w)"

text \<open>\<open>attempt m\<close> runs \<open>m\<close> and hands its error, if any, to the caller as a value.\<close>

definition attempt :: "('w, 'a) prog \<Rightarrow> ('w, go_error + 'a) prog" where
  "attempt m w = (case m w of (r, w') \<Rightarrow> (Inr r, w'))"

definition run_stmt :: "(db \<Rightarrow> go_error + ('a \<times> db)) \<Rightarrow> 'a go" where
  "run_stmt g w = (case g (tables w) of
     Inl e \<Rightarrow> (Inl e, w) | Inr (x, d) \<Rightarrow> (Inr x, w\<lparr>tables := d\<rparr>))"

definition stmt :: "(db \<Rightarrow> go_error + ('a \<times> db)) \<Rightarrow> 'a go" where
  "stmt g w = (case faults w of
     [] \<Rightarrow> run_stmt g w
   | failing # fs \<Rightarrow> if failing then (Inl ConnError, w\<lparr>faults := fs\<rparr>)
                      else run_stmt g (w\<lparr>faults := fs\<rparr>))"

definition query :: "(db \<Rightarrow> 'a) \<Rightarrow> 'a go" where
  "query f = stmt (\<lambda>d. Inr (f d, d))"

definition exec :: "(db \<Rightarrow> db) \<Rightarrow> unit go" where
  "exec f = stmt (\<lambda>d. Inr ((), f d))"

definition begin_tx :: "unit go" where "begin_tx = query (\<lambda>_. ())"
definition commit_tx :: "unit go" where "commit_tx = query (\<lambda>_. ())"

definition withTx :: "'a go \<Rightarrow> 'a go" where
  "withTx fn w =
     (case begin_tx w of
        (Inl e, w1) \<Rightarrow> (Inl e, w1)
      | (Inr _, w1) \<Rightarrow>
          (case fn w1 of
             (Inl e, w2) \<Rightarrow> (Inl e, w2\<lparr>tables := tables w\<rparr>)
           | (Inr x, w2) \<Rightarrow>
               (case commit_tx w2 of
                  (Inl e, w3) \<Rightarrow> (Inl e, w3\<lparr>tables := tables w\<rparr>)
                | (Inr _, w3) \<Rightarrow> (Inr x, w3))))"

definition notify :: "notice \<Rightarrow> unit go" where
  "notify n w = (Inr (), w\<lparr>notices := notices w @ [n]\<rparr>)"

fun forG :: "('a \<Rightarrow> unit go) \<Rightarrow> 'a list \<Rightarrow> unit go" where
  "forG f [] = returnG ()"
| "forG f (x # xs) = bindG (f x) (\<lambda>_. forG f xs)"

fun mapG :: "('a \<Rightarrow> 'b go) \<Rightarrow> 'a list \<Rightarrow> 'b list go" where
  "mapG f [] = returnG []"
| "mapG f (x # xs) = bindG (f x) (\<lambda>y. bindG (mapG f xs) (\<lambda>ys. returnG (y # ys)))"

section \<open>Reasoning about runs\<close>

text \<open>
  \<open>yields m d x d'\<close>: some run of \<open>m\<close> from the tables \<open>d\<close> returned \<open>x\<close> and left the tables \<open>d'\<close>.
  The rules in \<open>go_elim\<close> take such a run apart; the faults do not appear in them, since a run that
  returned a value met none.
\<close>

definition yields :: "'a go \<Rightarrow> db \<Rightarrow> 'a \<Rightarrow> db \<Rightarrow> bool" where
  "yields m d x d' \<longleftrightarrow> (\<exists>w w'. m w = (Inr x, w') \<and> tables w = d \<and> tables w' = d')"

lemma yieldsI: "m w = (Inr x, w') \<Longrightarrow> yields m (tables w) x (tables w')"
  by (auto simp: yields_def)

lemma yields_return [go_elim]: "yields (returnG y) d x d' \<Longrightarrow> (x = y \<Longrightarrow> d' = d \<Longrightarrow> P) \<Longrightarrow> P"
  by (auto simp: yields_def returnG_def)

lemma yields_fail [go_elim]: "yields (failG e) d x d' \<Longrightarrow> P"
  by (auto simp: yields_def failG_def)

lemma yields_lift [go_elim]: "yields (liftG r) d x d' \<Longrightarrow> (r = Inr x \<Longrightarrow> d' = d \<Longrightarrow> P) \<Longrightarrow> P"
  by (auto simp: yields_def liftG_def)

lemma yields_bind [go_elim]:
  assumes "yields (bindG m f) d y d''"
    and "\<And>x d'. yields m d x d' \<Longrightarrow> yields (f x) d' y d'' \<Longrightarrow> P"
  shows P
proof -
  obtain w w'' where r: "bindG m f w = (Inr y, w'')" "tables w = d" "tables w'' = d''"
    using assms(1) by (auto simp: yields_def)
  then obtain x w' where "m w = (Inr x, w')" "f x w' = (Inr y, w'')"
    by (auto simp: bindG_def split: prod.splits sum.splits)
  with r show P by (intro assms(2) [of x "tables w'"]) (auto simp: yields_def)
qed

lemma run_stmt_Inr: "run_stmt g w = (Inr x, w') \<Longrightarrow> g (tables w) = Inr (x, tables w')"
  by (auto simp: run_stmt_def split: sum.splits)

lemma stmt_Inr: "stmt g w = (Inr x, w') \<Longrightarrow> g (tables w) = Inr (x, tables w')"
  by (cases "faults w") (auto simp: stmt_def dest: run_stmt_Inr split: if_splits)

lemma yields_stmt [go_elim]: "yields (stmt g) d x d' \<Longrightarrow> (g d = Inr (x, d') \<Longrightarrow> P) \<Longrightarrow> P"
  by (auto simp: yields_def dest: stmt_Inr)

lemma yields_query [go_elim]: "yields (query f) d x d' \<Longrightarrow> (x = f d \<Longrightarrow> d' = d \<Longrightarrow> P) \<Longrightarrow> P"
  by (auto simp: query_def elim: yields_stmt)

lemma yields_exec [go_elim]: "yields (exec f) d x d' \<Longrightarrow> (d' = f d \<Longrightarrow> P) \<Longrightarrow> P"
  by (auto simp: exec_def elim: yields_stmt)

lemma yields_notify [go_elim]: "yields (notify n) d x d' \<Longrightarrow> (d' = d \<Longrightarrow> P) \<Longrightarrow> P"
  by (auto simp: yields_def notify_def)

lemma tables_begin: "fst (begin_tx w) = Inr u \<Longrightarrow> tables (snd (begin_tx w)) = tables w"
  by (auto simp: begin_tx_def query_def stmt_def run_stmt_def split: list.splits if_splits)

lemma tables_query: "tables (snd (query f w)) = tables w"
  by (auto simp: query_def stmt_def run_stmt_def split: list.splits if_splits)

lemma yields_withTx [go_elim]: "yields (withTx fn) d x d' \<Longrightarrow> (yields fn d x d' \<Longrightarrow> P) \<Longrightarrow> P"
proof -
  assume y: "yields (withTx fn) d x d'" and P: "yields fn d x d' \<Longrightarrow> P"
  obtain w w' where w: "withTx fn w = (Inr x, w')" "tables w = d" "tables w' = d'"
    using y by (auto simp: yields_def)
  then obtain u w1 w2 v where s: "begin_tx w = (Inr u, w1)" "fn w1 = (Inr x, w2)"
      "commit_tx w2 = (Inr v, w')"
    by (auto simp: withTx_def split: prod.splits sum.splits)
  have "tables w1 = d" "tables w2 = d'"
    using s(1,3) w(2,3) tables_query [of "\<lambda>_. ()"] unfolding begin_tx_def commit_tx_def
    by (metis snd_conv)+
  with s(2) show P by (intro P) (auto simp: yields_def)
qed

text \<open>The contract of \<^verbatim>\<open>dbtx.WithTx\<close>: an error leaves every table as it was.\<close>

lemma withTx_error: "withTx fn w = (Inl e, w') \<Longrightarrow> tables w' = tables w"
  using tables_query [of "\<lambda>_. ()" w]
  by (auto simp: withTx_def begin_tx_def split: prod.splits sum.splits)

text \<open>Evaluation on a world without faults.\<close>

definition calm :: "db \<Rightarrow> world" where
  "calm d = \<lparr>tables = d, faults = [], notices = []\<rparr>"

lemma stmt_calm: "faults w = [] \<Longrightarrow> stmt g w = run_stmt g w"
  by (simp add: stmt_def)

text \<open>
  A run on a concrete world is evaluated by the simplifier, outermost program first: the weak
  congruences keep it from the continuation of a \<open>bindG\<close> until its argument is known.
\<close>

lemmas go_eval = bindG_def returnG_def failG_def liftG_def attempt_def stmt_def run_stmt_def
  query_def exec_def begin_tx_def commit_tx_def withTx_def notify_def calm_def

lemma run_congs:
  "m = m' \<Longrightarrow> w = w' \<Longrightarrow> bindG m f w = bindG m' f w'"
  "w = w' \<Longrightarrow> query g w = query g w'" "w = w' \<Longrightarrow> stmt h w = stmt h w'"
  "w = w' \<Longrightarrow> exec k w = exec k w'" "w = w' \<Longrightarrow> run_stmt h w = run_stmt h w'"
  "w = w' \<Longrightarrow> withTx q w = withTx q w'" "w = w' \<Longrightarrow> attempt q w = attempt q w'"
  "a = a' \<Longrightarrow> Let a b = Let a' b"
  by simp_all

end
