(* ===== verification/Tables.thy ===== *)
theory Tables
  imports Database
begin

text \<open>
  The SQL statements the order and payment code shares, as operations on the tables, with the
  constraints of \<^verbatim>\<open>migrations/\<close> they can violate and the triggers they fire; and the parameters of
  the model: \<^verbatim>\<open>uuid.Validate\<close> of the package \<^verbatim>\<open>github.com/google/uuid\<close> (\<open>uuid_validate\<close>), the
  values \<^verbatim>\<open>gen_random_uuid()\<close> draws (\<open>gen_uuid\<close>, by the number of rows inserted before), the sort
  key of the database's collation (\<open>collation_key\<close>, compared bytewise), and the order settings of the process (\<^verbatim>\<open>orders.Settings\<close>). Durations are whole microseconds.
\<close>

record Settings =
  DeliveryFee :: float64
  MaxOpenOrders :: int
  PaymentPendingTTL :: int

definition DefaultSettings :: Settings where
  "DefaultSettings = \<lparr>DeliveryFee = 200, MaxOpenOrders = 5, PaymentPendingTTL = 30 * 60 * usec_per_sec\<rparr>"

record env =
  uuid_validate :: "string \<Rightarrow> bool"
  gen_uuid :: "nat \<Rightarrow> string"
  collation_key :: "string \<Rightarrow> string"
  settings :: Settings

definition MaxCartQty :: int where "MaxCartQty = 20"
definition MaxCommentLen :: nat where "MaxCommentLen = 500"
definition IdempotencyWindow :: int where "IdempotencyWindow = 24 * 3600 * usec_per_sec"
definition MaxIdempotencyKeyLen :: nat where "MaxIdempotencyKeyLen = 64"

definition max_int4 :: int where "max_int4 = 2147483647"
definition numeric_10_2_bound :: int where "numeric_10_2_bound = 10 ^ 10"

section \<open>orders and the trigger on its status\<close>

definition product_of :: "db \<Rightarrow> string \<Rightarrow> string option" where
  "product_of d vid = map_option pv_product_id (find (\<lambda>v. pv_id v = vid) (variants d))"

definition item_units :: "db \<Rightarrow> string \<Rightarrow> item_row \<Rightarrow> int" where
  "item_units d p i = (if product_of d (i_variant_id i) = Some p then i_quantity i else 0)"

definition order_units :: "db \<Rightarrow> string \<Rightarrow> string \<Rightarrow> int" where
  "order_units d oid p = (\<Sum>i \<leftarrow> order_items d. if i_order_id i = oid then item_units d p i else 0)"

definition sales_shift :: "OrderStatus \<Rightarrow> OrderStatus \<Rightarrow> int" where
  "sales_shift old new =
     (if old \<noteq> StatusCancelled \<and> new = StatusCancelled then -1
      else if old = StatusCancelled \<and> new \<noteq> StatusCancelled then 1 else 0)"

definition order_check :: "order_row \<Rightarrow> bool" where
  "order_check r \<longleftrightarrow>
     (o_payment_method r = PaymentOnlineCard) = (o_payment_status r \<noteq> None)
     \<and> (o_address_id r \<noteq> None \<or> o_point_id r \<noteq> None)
     \<and> 0 \<le> o_delivery_fee r"

definition update_orders ::
  "(order_row \<Rightarrow> bool) \<Rightarrow> (order_row \<Rightarrow> order_row) \<Rightarrow> db \<Rightarrow> go_error + (nat \<times> db)" where
  "update_orders P f d =
     (if \<exists>r \<in> set (orders d). P r \<and> \<not> order_check (f r) then Inl (PgError ''23514'')
      else Inr (length (filter P (orders d)),
        d\<lparr>orders := map (\<lambda>r. if P r then f r else r) (orders d),
          product_sales := (\<lambda>p. product_sales d p +
             (\<Sum>r \<leftarrow> orders d. if P r then sales_shift (o_status r) (o_status (f r)) *
                                        order_units d (o_id r) p else 0))\<rparr>))"

definition insert_order :: "env \<Rightarrow> order_row \<Rightarrow> db \<Rightarrow> go_error + (order_row \<times> db)" where
  "insert_order env r0 d =
     (let r = r0\<lparr>o_id := gen_uuid env (id_count d), o_created_at := clock d, o_updated_at := clock d\<rparr>
      in if (\<exists>x \<in> set (orders d). o_id x = o_id r \<or> o_order_number x = o_order_number r
               \<or> (o_customer_id x = o_customer_id r \<and> o_idempotency_key r \<noteq> None
                   \<and> o_idempotency_key x = o_idempotency_key r))
         then Inl (PgError ''23505'')
         else if \<not> order_check r then Inl (PgError ''23514'')
         else if numeric_10_2_bound \<le> \<bar>o_total_amount r\<bar> \<or> numeric_10_2_bound \<le> \<bar>o_delivery_fee r\<bar>
         then Inl (PgError ''22003'')
         else Inr (r, d\<lparr>orders := orders d @ [r], id_count := Suc (id_count d)\<rparr>))"

section \<open>order_items, order_status_history\<close>

definition order_counts :: "db \<Rightarrow> string \<Rightarrow> bool" where
  "order_counts d oid \<longleftrightarrow> (\<exists>r \<in> set (orders d). o_id r = oid \<and> o_status r \<noteq> StatusCancelled)"

definition insert_item :: "env \<Rightarrow> item_row \<Rightarrow> db \<Rightarrow> go_error + (string \<times> db)" where
  "insert_item env i0 d =
     (let i = i0\<lparr>i_id := gen_uuid env (id_count d)\<rparr>
      in if i_id i \<in> i_id ` set (order_items d) then Inl (PgError ''23505'')
         else if i_quantity i \<le> 0 then Inl (PgError ''23514'')
         else Inr (i_id i, d\<lparr>order_items := order_items d @ [i], id_count := Suc (id_count d),
           product_sales := (\<lambda>p. product_sales d p +
              (if order_counts d (i_order_id i) then item_units d p i else 0))\<rparr>))"

definition insert_history :: "env \<Rightarrow> history_row \<Rightarrow> db \<Rightarrow> go_error + (unit \<times> db)" where
  "insert_history env h0 d =
     (let h = h0\<lparr>h_id := gen_uuid env (id_count d), h_created_at := clock d\<rparr>
      in if h_id h \<in> h_id ` set (order_status_history d) then Inl (PgError ''23505'')
         else Inr ((), d\<lparr>order_status_history := order_status_history d @ [h],
                        id_count := Suc (id_count d)\<rparr>))"

section \<open>payments\<close>

definition update_payments ::
  "(payment_row \<Rightarrow> bool) \<Rightarrow> (payment_row \<Rightarrow> payment_row) \<Rightarrow> db \<Rightarrow> go_error + (nat \<times> db)" where
  "update_payments P f d =
     Inr (length (filter P (payments d)),
       d\<lparr>payments := map (\<lambda>r. if P r then f r else r) (payments d)\<rparr>)"

definition close_pending :: "(payment_row \<Rightarrow> bool) \<Rightarrow> db \<Rightarrow> go_error + (nat \<times> db)" where
  "close_pending P d =
     update_payments (\<lambda>r. P r \<and> p_status r = PaymentPending)
       (\<lambda>r. r\<lparr>p_status := PaymentCancelled, p_updated_at := clock d\<rparr>) d"

definition insert_payment ::
  "env \<Rightarrow> string \<Rightarrow> string \<Rightarrow> int \<Rightarrow> db \<Rightarrow> go_error + (string \<times> db)" where
  "insert_payment env oid provider amount d =
     (let r = \<lparr>p_id = gen_uuid env (id_count d), p_order_id = oid, p_provider = provider,
               p_provider_tx_id = None, p_status = PaymentPending, p_amount = amount,
               p_currency = ''KGS'', p_redirect_url = None, p_raw_webhook = None,
               p_created_at = clock d, p_updated_at = clock d\<rparr>
      in if (\<exists>x \<in> set (payments d). p_id x = p_id r
               \<or> (p_order_id x = oid \<and> p_status x = PaymentPending))
         then Inl (PgError ''23505'')
         else if numeric_10_2_bound \<le> \<bar>amount\<bar> then Inl (PgError ''22003'')
         else Inr (p_id r, d\<lparr>payments := payments d @ [r], id_count := Suc (id_count d)\<rparr>))"

text \<open>
  \<^verbatim>\<open>UPDATE payments SET provider_tx_id = ...\<close>: the unique index on (provider, provider_tx_id)
  refuses an external id another payment of the provider carries.
\<close>

definition set_provider_tx ::
  "string \<Rightarrow> string \<Rightarrow> (payment_row \<Rightarrow> payment_row) \<Rightarrow> db \<Rightarrow> go_error + (nat \<times> db)" where
  "set_provider_tx pid tx f d =
     (if (\<exists>r \<in> set (payments d). p_id r = pid \<and>
            (\<exists>x \<in> set (payments d). p_id x \<noteq> pid \<and> p_provider x = p_provider r
               \<and> p_provider_tx_id x = Some tx))
      then Inl (PgError ''23505'')
      else update_payments (\<lambda>r. p_id r = pid)
             (\<lambda>r. (f r)\<lparr>p_provider_tx_id := Some tx, p_updated_at := clock d\<rparr>) d)"

section \<open>stock\<close>

definition stock_qty :: "db \<Rightarrow> string \<Rightarrow> string \<Rightarrow> int" where
  "stock_qty d v p = (case stock d (v, p) of None \<Rightarrow> 0 | Some q \<Rightarrow> q)"

definition take_stock :: "string \<Rightarrow> string \<Rightarrow> int \<Rightarrow> db \<Rightarrow> go_error + (unit \<times> db)" where
  "take_stock v p n d =
     (case stock d (v, p) of
        None \<Rightarrow> Inr ((), d)
      | Some q \<Rightarrow> if q - n < 0 then Inl (PgError ''23514'')
                  else Inr ((), d\<lparr>stock := (stock d)((v, p) \<mapsto> q - n)\<rparr>))"

definition put_back_stock :: "string \<Rightarrow> string \<Rightarrow> int \<Rightarrow> db \<Rightarrow> go_error + (unit \<times> db)" where
  "put_back_stock v p n d =
     (let q = stock_qty d v p + n in
      if max_int4 < q then Inl (PgError ''22003'')
      else if q < 0 then Inl (PgError ''23514'')
      else Inr ((), d\<lparr>stock := (stock d)((v, p) \<mapsto> q)\<rparr>))"

section \<open>Facts about the statements\<close>

lemma update_orders_Inr:
  assumes "update_orders P f d = Inr (n, d')"
  shows "n = length (filter P (orders d))"
    and "d' = d\<lparr>orders := map (\<lambda>r. if P r then f r else r) (orders d),
          product_sales := (\<lambda>p. product_sales d p +
             (\<Sum>r \<leftarrow> orders d. if P r then sales_shift (o_status r) (o_status (f r)) *
                                        order_units d (o_id r) p else 0))\<rparr>"
    and "\<forall>r \<in> set (orders d). P r \<longrightarrow> order_check (f r)"
  using assms by (auto simp: update_orders_def split: if_splits)

lemma update_payments_Inr:
  "update_payments P f d = Inr (n, d') \<longleftrightarrow>
     n = length (filter P (payments d)) \<and>
     d' = d\<lparr>payments := map (\<lambda>r. if P r then f r else r) (payments d)\<rparr>"
  by (auto simp: update_payments_def)

lemma take_stock_Inr:
  assumes "take_stock v p n d = Inr (u, d')"
  shows "d' = d\<lparr>stock := stock d'\<rparr>"
    and "stock d (v, p) = Some q \<Longrightarrow> stock d' = (stock d)((v, p) \<mapsto> q - n) \<and> 0 \<le> q - n"
    and "stock d (v, p) = None \<Longrightarrow> stock d' = stock d"
  using assms by (auto simp: take_stock_def split: option.splits if_splits)

lemma put_back_stock_Inr:
  assumes "put_back_stock v p n d = Inr (u, d')"
  shows "d' = d\<lparr>stock := (stock d)((v, p) \<mapsto> stock_qty d v p + n)\<rparr>"
    and "0 \<le> stock_qty d v p + n" and "stock_qty d v p + n \<le> max_int4"
  using assms by (auto simp: put_back_stock_def Let_def split: if_splits)

end
