(* ===== verification/Cart.thy ===== *)
theory Cart
  imports Tables
begin

text \<open>
  \<^verbatim>\<open>internal/orders/cart.go\<close>: the customer's cart, one row of \<^verbatim>\<open>cart_items\<close> per variant, with its
  validation, its upsert capped at \<open>MaxCartQty\<close>, the stepper and the joined listing. The lemmas
  show that every operation keeps the primary key of the table and the bounds of a line, what each
  operation leaves in the cart, and when a listed line can be ordered.
\<close>

record CartLine =
  cl_VariantID :: string
  cl_Qty :: int
  cl_ProductID :: string
  cl_ProductName :: string
  cl_ProductNameKy :: string
  cl_Size :: string
  cl_Color :: string
  cl_Price :: float64
  cl_ProductActive :: bool
  cl_InStock :: int
  cl_CreatedAt :: int

definition Available :: "CartLine \<Rightarrow> bool" where
  "Available l \<longleftrightarrow> cl_ProductActive l \<and> cl_Qty l \<le> cl_InStock l \<and> 0 < cl_Qty l"

definition find_variant :: "db \<Rightarrow> string \<Rightarrow> variant_row option" where
  "find_variant d vid = find (\<lambda>v. pv_id v = vid) (variants d)"

definition find_product :: "db \<Rightarrow> string \<Rightarrow> product_row option" where
  "find_product d pid = find (\<lambda>p. pr_id p = pid) (products d)"

text \<open>\<^verbatim>\<open>COALESCE(MAX(s.quantity), 0)\<close> over the stock of a variant at the active points.\<close>

definition active_quantities :: "db \<Rightarrow> string \<Rightarrow> int list" where
  "active_quantities d vid =
     List.map_filter (\<lambda>p. if pt_is_active p then stock d (vid, pt_id p) else None) (points d)"

fun coalesce_max :: "int list \<Rightarrow> int" where
  "coalesce_max [] = 0"
| "coalesce_max [q] = q"
| "coalesce_max (q # qs) = max q (coalesce_max qs)"

definition max_active_stock :: "db \<Rightarrow> string \<Rightarrow> int" where
  "max_active_stock d vid = coalesce_max (active_quantities d vid)"

definition List_cart :: "string \<Rightarrow> cart_row list go" where
  "List_cart customerID =
     query (\<lambda>d. sort_key c_created_at (filter (\<lambda>c. c_customer_id c = customerID) (cart_items d)))"

definition cart_line :: "db \<Rightarrow> cart_row \<Rightarrow> CartLine option" where
  "cart_line d c =
     (case find_variant d (c_variant_id c) of
        None \<Rightarrow> None
      | Some v \<Rightarrow>
          (case find_product d (pv_product_id v) of
             None \<Rightarrow> None
           | Some p \<Rightarrow> Some
               \<lparr>cl_VariantID = c_variant_id c, cl_Qty = c_qty c, cl_ProductID = pr_id p,
                cl_ProductName = pr_name_ru p, cl_ProductNameKy = pr_name_ky p,
                cl_Size = pv_size v, cl_Color = pv_color v,
                cl_Price = float_of_numeric
                  (case pv_price_override v of Some k \<Rightarrow> k | None \<Rightarrow> pr_base_price p),
                cl_ProductActive = pr_is_active p,
                cl_InStock = max_active_stock d (c_variant_id c),
                cl_CreatedAt = c_created_at c\<rparr>))"

definition ListDetailed :: "string \<Rightarrow> CartLine list go" where
  "ListDetailed customerID =
     query (\<lambda>d. List.map_filter (cart_line d)
       (sort_key c_created_at (filter (\<lambda>c. c_customer_id c = customerID) (cart_items d))))"

definition validateCartVariantID :: "env \<Rightarrow> string \<Rightarrow> go_error + unit" where
  "validateCartVariantID env variantID =
     (if variantID = [] then Inl (AppError (BadRequest ''variant_required''))
      else if \<not> uuid_validate env variantID then Inl (AppError (BadRequest ''invalid_variant_id''))
      else Inr ())"

definition validateCartQty :: "int \<Rightarrow> go_error + unit" where
  "validateCartQty qty =
     (if qty \<le> 0 then Inl (AppError (BadRequest ''invalid_qty''))
      else if MaxCartQty < qty
      then Inl (AppError (WithParams (BadRequest ''qty_too_large'') [(''max'', itoa MaxCartQty)]))
      else Inr ())"

definition cart_key :: "string \<Rightarrow> string \<Rightarrow> cart_row \<Rightarrow> bool" where
  "cart_key customerID variantID c \<longleftrightarrow> c_customer_id c = customerID \<and> c_variant_id c = variantID"

definition upsert_cart :: "string \<Rightarrow> string \<Rightarrow> int \<Rightarrow> db \<Rightarrow> db" where
  "upsert_cart customerID variantID qty d =
     (if \<exists>c \<in> set (cart_items d). cart_key customerID variantID c
      then d\<lparr>cart_items := map (\<lambda>c. if cart_key customerID variantID c
               then c\<lparr>c_qty := min (c_qty c + qty) MaxCartQty\<rparr> else c) (cart_items d)\<rparr>
      else d\<lparr>cart_items := cart_items d @
               [\<lparr>c_customer_id = customerID, c_variant_id = variantID, c_qty = qty,
                 c_created_at = clock d\<rparr>]\<rparr>)"

definition Add :: "env \<Rightarrow> string \<Rightarrow> string \<Rightarrow> int \<Rightarrow> unit go" where
  "Add env customerID variantID qty =
     bindG (liftG (validateCartVariantID env variantID)) (\<lambda>_.
     bindG (liftG (validateCartQty qty)) (\<lambda>_.
     bindG (query (\<lambda>d. case find_variant d variantID of None \<Rightarrow> None
              | Some v \<Rightarrow> map_option pr_is_active (find_product d (pv_product_id v)))) (\<lambda>row.
     case row of
       None \<Rightarrow> failG (AppError (WithVariant (NotFound ''variant_not_found'') ''product''))
     | Some active \<Rightarrow>
         if \<not> active then failG (AppError (Conflict ''product_unavailable''))
         else exec (upsert_cart customerID variantID qty))))"

definition Remove :: "env \<Rightarrow> string \<Rightarrow> string \<Rightarrow> unit go" where
  "Remove env customerID variantID =
     bindG (liftG (validateCartVariantID env variantID)) (\<lambda>_.
     exec (\<lambda>d. d\<lparr>cart_items := filter (\<lambda>c. \<not> cart_key customerID variantID c) (cart_items d)\<rparr>))"

definition UpdateQty :: "env \<Rightarrow> string \<Rightarrow> string \<Rightarrow> int \<Rightarrow> unit go" where
  "UpdateQty env customerID variantID qty =
     bindG (liftG (validateCartVariantID env variantID)) (\<lambda>_.
     if qty \<le> 0 then Remove env customerID variantID
     else bindG (liftG (validateCartQty qty)) (\<lambda>_.
          bindG (stmt (\<lambda>d. Inr (length (filter (cart_key customerID variantID) (cart_items d)),
             d\<lparr>cart_items := map (\<lambda>c. if cart_key customerID variantID c then c\<lparr>c_qty := qty\<rparr> else c)
                 (cart_items d)\<rparr>))) (\<lambda>n.
          if n = 0 then failG (AppError (NotFound ''cart_item_not_found'')) else returnG ())))"

definition clearCartLines :: "string \<Rightarrow> string list \<Rightarrow> db \<Rightarrow> db" where
  "clearCartLines customerID variantIDs d =
     d\<lparr>cart_items := filter (\<lambda>c. \<not> (c_customer_id c = customerID \<and> c_variant_id c \<in> set variantIDs))
         (cart_items d)\<rparr>"

section \<open>The cart invariant\<close>

definition cart_ok :: "db \<Rightarrow> bool" where
  "cart_ok d \<longleftrightarrow> distinct (map (\<lambda>c. (c_customer_id c, c_variant_id c)) (cart_items d))
     \<and> (\<forall>c \<in> set (cart_items d). 0 < c_qty c \<and> c_qty c \<le> MaxCartQty)"

definition cart_qty :: "db \<Rightarrow> string \<Rightarrow> string \<Rightarrow> int option" where
  "cart_qty d customerID variantID =
     map_option c_qty (find (cart_key customerID variantID) (cart_items d))"

lemma cart_key_simps [simp]:
  "cart_key cu v (c\<lparr>c_qty := q\<rparr>) = cart_key cu v c"
  "cart_key cu v \<lparr>c_customer_id = cu', c_variant_id = v', c_qty = q, c_created_at = t\<rparr> = (cu' = cu \<and> v' = v)"
  by (simp_all add: cart_key_def)

lemma validateCartQty_Inr: "validateCartQty q = Inr u \<longleftrightarrow> 0 < q \<and> q \<le> MaxCartQty"
  by (auto simp: validateCartQty_def)

lemma cart_ok_filter: "cart_ok d \<Longrightarrow> cart_ok (d\<lparr>cart_items := filter P (cart_items d)\<rparr>)"
  by (auto simp: cart_ok_def distinct_map inj_on_def)

lemma cart_ok_upsert:
  assumes "cart_ok d" "0 < q" "q \<le> MaxCartQty"
  shows "cart_ok (upsert_cart cu v q d)"
proof (cases "\<exists>c \<in> set (cart_items d). cart_key cu v c")
  case True
  then show ?thesis using assms
    by (auto simp: cart_ok_def upsert_cart_def MaxCartQty_def min_def)
next
  case False
  then show ?thesis using assms
    by (auto simp: cart_ok_def upsert_cart_def cart_key_def)
qed

lemma cart_ok_set_qty:
  "cart_ok d \<Longrightarrow> 0 < q \<Longrightarrow> q \<le> MaxCartQty \<Longrightarrow>
   cart_ok (d\<lparr>cart_items := map (\<lambda>c. if P c then c\<lparr>c_qty := q\<rparr> else c) (cart_items d)\<rparr>)"
  by (auto simp: cart_ok_def)

lemma Add_effect:
  "yields (Add env cu v q) d x d' \<Longrightarrow>
   d' = upsert_cart cu v q d \<and> 0 < q \<and> q \<le> MaxCartQty \<and> uuid_validate env v \<and>
   (\<exists>pv p. find_variant d v = Some pv \<and> find_product d (pv_product_id pv) = Some p \<and> pr_is_active p)"
  unfolding Add_def
  by (auto elim!: go_elim simp: validateCartQty_Inr validateCartVariantID_def
      split: option.splits if_splits)

lemma Remove_effect:
  "yields (Remove env cu v) d x d' \<Longrightarrow>
   d' = d\<lparr>cart_items := filter (\<lambda>c. \<not> cart_key cu v c) (cart_items d)\<rparr>"
  unfolding Remove_def by (auto elim!: go_elim)

lemma UpdateQty_effect:
  "yields (UpdateQty env cu v q) d x d' \<Longrightarrow>
   (if q \<le> 0 then d' = d\<lparr>cart_items := filter (\<lambda>c. \<not> cart_key cu v c) (cart_items d)\<rparr>
    else d' = d\<lparr>cart_items := map (\<lambda>c. if cart_key cu v c then c\<lparr>c_qty := q\<rparr> else c) (cart_items d)\<rparr>
         \<and> q \<le> MaxCartQty \<and> (\<exists>c \<in> set (cart_items d). cart_key cu v c))"
  unfolding UpdateQty_def
  by (auto elim!: go_elim dest!: Remove_effect simp: validateCartQty_Inr filter_empty_conv
      split: if_splits)

lemma cart_qty_upsert:
  assumes "cart_ok d"
  shows "cart_qty (upsert_cart cu v q d) cu v =
           Some (case cart_qty d cu v of None \<Rightarrow> q | Some n \<Rightarrow> min (n + q) MaxCartQty)"
proof (cases "find (cart_key cu v) (cart_items d)")
  case None
  then show ?thesis
    by (simp add: cart_qty_def upsert_cart_def find_append_None) (auto simp: find_None_iff)
next
  case (Some c)
  then show ?thesis using find_Some_mem [OF Some]
    by (auto simp: cart_qty_def upsert_cart_def find_map_update)
qed

lemma coalesce_max_ge: "q \<in> set qs \<Longrightarrow> q \<le> coalesce_max qs"
  by (induction qs rule: coalesce_max.induct) auto

lemma coalesce_max_mem: "qs \<noteq> [] \<Longrightarrow> coalesce_max qs \<in> set qs"
  by (induction qs rule: coalesce_max.induct) (auto simp: max_def)

lemma active_quantities_set:
  "q \<in> set (active_quantities d v) \<longleftrightarrow>
   (\<exists>p \<in> set (points d). pt_is_active p \<and> stock d (v, pt_id p) = Some q)"
  by (auto simp: active_quantities_def List.map_filter_def image_iff split: if_splits)

lemma max_active_stock_covers:
  assumes "0 < n"
  shows "n \<le> max_active_stock d v \<longleftrightarrow>
   (\<exists>p \<in> set (points d). \<exists>q. pt_is_active p \<and> stock d (v, pt_id p) = Some q \<and> n \<le> q)"
proof
  assume n: "n \<le> max_active_stock d v"
  then have "active_quantities d v \<noteq> []" using assms by (auto simp: max_active_stock_def)
  then have "max_active_stock d v \<in> set (active_quantities d v)"
    unfolding max_active_stock_def by (rule coalesce_max_mem)
  with n show "\<exists>p \<in> set (points d). \<exists>q. pt_is_active p \<and> stock d (v, pt_id p) = Some q \<and> n \<le> q"
    by (auto simp: active_quantities_set)
next
  assume "\<exists>p \<in> set (points d). \<exists>q. pt_is_active p \<and> stock d (v, pt_id p) = Some q \<and> n \<le> q"
  then obtain q where "q \<in> set (active_quantities d v)" "n \<le> q"
    by (auto simp: active_quantities_set)
  then show "n \<le> max_active_stock d v"
    unfolding max_active_stock_def using coalesce_max_ge order_trans by blast
qed

end
