(* ===== verification/DeliveryZones.thy ===== *)
theory DeliveryZones
  imports Tables
begin

text \<open>
  \<^verbatim>\<open>internal/orders/delivery_zones.go\<close>: delivery zones, their validation, the repository of the
  admin panel, the choice of the zone a delivery order is charged for and its fee. The lemmas give
  the fee in tyiyn on every branch, the outcomes of the choice, and what \<open>Normalize\<close> guarantees
  about the CHECK constraints of the table.
\<close>

record DeliveryZone =
  dz_ID :: string
  dz_NameRu :: string
  dz_NameKy :: string
  dz_Fee :: float64
  dz_FreeFrom :: "float64 option"
  dz_IsActive :: bool
  dz_SortOrder :: int

record DeliveryZoneInput =
  zi_NameRu :: string
  zi_NameKy :: string
  zi_Fee :: go_float
  zi_FreeFrom :: "go_float option"
  zi_IsActive :: bool
  zi_SortOrder :: int

definition FeeFor :: "DeliveryZone \<Rightarrow> float64 \<Rightarrow> float64" where
  "FeeFor z itemsTotal =
     (case dz_FreeFrom z of
        Some f \<Rightarrow> if toTyiyn f \<le> toTyiyn itemsTotal then 0 else dz_Fee z
      | None \<Rightarrow> dz_Fee z)"

definition Name :: "DeliveryZone \<Rightarrow> string \<Rightarrow> string" where
  "Name z lang = (if lang = ''ky'' \<and> dz_NameKy z \<noteq> [] then dz_NameKy z else dz_NameRu z)"

definition maxZoneNameLen :: nat where "maxZoneNameLen = 100"
definition maxZoneFee :: int where "maxZoneFee = 100000"
definition maxZoneFreeFrom :: int where "maxZoneFreeFrom = 10000000"

definition ErrDeliveryZoneRequired :: go_error where
  "ErrDeliveryZoneRequired = AppError (BadRequest ''delivery_zone_required'')"

definition ErrInvalidDeliveryZone :: go_error where
  "ErrInvalidDeliveryZone = AppError (BadRequest ''invalid_delivery_zone'')"

definition zone_input_error :: app_error where
  "zone_input_error = BadRequest ''invalid_delivery_zone_input''"

definition name_error :: "string \<Rightarrow> go_error" where
  "name_error v = AppError (WithParams (WithVariant zone_input_error v)
                             [(''max'', itoa (int maxZoneNameLen))])"

definition Normalize :: "DeliveryZoneInput \<Rightarrow> go_error + DeliveryZoneInput" where
  "Normalize in0 =
     (let inp = in0\<lparr>zi_NameRu := trim_space (zi_NameRu in0), zi_NameKy := trim_space (zi_NameKy in0)\<rparr>
      in if zi_NameRu inp = [] \<or> maxZoneNameLen < rune_count (zi_NameRu inp)
         then Inl (name_error ''name_ru'')
         else if zi_NameKy inp = [] \<or> maxZoneNameLen < rune_count (zi_NameKy inp)
         then Inl (name_error ''name_ky'')
         else
           (let bad_fee = AppError (WithParams zone_input_error [(''max'', itoa maxZoneFee)]);
                bad_free = AppError (WithVariant zone_input_error ''free_from'')
            in case zi_Fee inp of
                 Finite fee \<Rightarrow>
                   if fee < 0 \<or> of_int maxZoneFee < fee then Inl bad_fee
                   else
                     (let inp = inp\<lparr>zi_Fee := Finite (roundSom fee)\<rparr>
                      in case zi_FreeFrom inp of
                           None \<Rightarrow> Inr inp
                         | Some (Finite f) \<Rightarrow>
                             if f \<le> 0 \<or> of_int maxZoneFreeFrom < f then Inl bad_free
                             else Inr (inp\<lparr>zi_FreeFrom := Some (Finite (roundSom f))\<rparr>)
                         | Some _ \<Rightarrow> Inl bad_free)
               | _ \<Rightarrow> Inl bad_fee))"

section \<open>The repository\<close>

definition scanZone :: "zone_row \<Rightarrow> DeliveryZone" where
  "scanZone r = \<lparr>dz_ID = z_id r, dz_NameRu = z_name_ru r, dz_NameKy = z_name_ky r,
     dz_Fee = float_of_numeric (z_fee r), dz_FreeFrom = map_option float_of_numeric (z_free_from r),
     dz_IsActive = z_is_active r, dz_SortOrder = z_sort_order r\<rparr>"

definition list_zones :: "env \<Rightarrow> (zone_row \<Rightarrow> bool) \<Rightarrow> DeliveryZone list go" where
  "list_zones env P = query (\<lambda>d. map scanZone
     (sort_key z_sort_order (sort_key (\<lambda>z. collation_key env (z_name_ru z))
        (sort_key z_id (filter P (zones d))))))"

definition ListActive :: "env \<Rightarrow> DeliveryZone list go" where
  "ListActive env = list_zones env z_is_active"

definition ListAll :: "env \<Rightarrow> DeliveryZone list go" where
  "ListAll env = list_zones env (\<lambda>_. True)"

definition zone_not_found :: go_error where
  "zone_not_found = AppError (NotFound ''delivery_zone_not_found'')"

definition Get :: "env \<Rightarrow> string \<Rightarrow> DeliveryZone go" where
  "Get env zid =
     (if \<not> uuid_validate env zid then failG zone_not_found
      else bindG (query (\<lambda>d. find (\<lambda>z. z_id z = zid) (zones d))) (\<lambda>row.
           case row of None \<Rightarrow> failG zone_not_found | Some z \<Rightarrow> returnG (scanZone z)))"

text \<open>
  The CHECK constraints of \<^verbatim>\<open>delivery_zones\<close> on the amounts. Those on the names hold of every
  normalized name: \<^verbatim>\<open>btrim\<close> trims less than \<^verbatim>\<open>strings.TrimSpace\<close>.
\<close>

definition zone_check :: "zone_row \<Rightarrow> bool" where
  "zone_check z \<longleftrightarrow> 0 \<le> z_fee z \<and> z_fee z \<le> maxZoneFee * 100 \<and>
     (case z_free_from z of None \<Rightarrow> True | Some f \<Rightarrow> 0 < f \<and> f \<le> maxZoneFreeFrom * 100)"

definition store_float :: "go_float \<Rightarrow> int" where
  "store_float x = (case x of Finite f \<Rightarrow> numeric_of_float f | _ \<Rightarrow> 0)"

definition zone_of_input :: "string \<Rightarrow> DeliveryZoneInput \<Rightarrow> zone_row" where
  "zone_of_input zid inp = \<lparr>z_id = zid, z_name_ru = zi_NameRu inp, z_name_ky = zi_NameKy inp,
     z_fee = store_float (zi_Fee inp), z_free_from = map_option store_float (zi_FreeFrom inp),
     z_is_active = zi_IsActive inp, z_sort_order = zi_SortOrder inp\<rparr>"

definition Create :: "env \<Rightarrow> DeliveryZoneInput \<Rightarrow> DeliveryZone go" where
  "Create env in0 =
     bindG (liftG (Normalize in0)) (\<lambda>inp.
     stmt (\<lambda>d. let r = zone_of_input (gen_uuid env (id_count d)) inp
               in if z_id r \<in> z_id ` set (zones d) then Inl (PgError ''23505'')
                  else if \<not> zone_check r then Inl (PgError ''23514'')
                  else Inr (scanZone r, d\<lparr>zones := zones d @ [r], id_count := Suc (id_count d)\<rparr>)))"

definition Update :: "env \<Rightarrow> string \<Rightarrow> DeliveryZoneInput \<Rightarrow> DeliveryZone go" where
  "Update env zid in0 =
     bindG (liftG (Normalize in0)) (\<lambda>inp.
     if \<not> uuid_validate env zid then failG zone_not_found
     else bindG (stmt (\<lambda>d. let r = zone_of_input zid inp
               in if zid \<notin> z_id ` set (zones d) then Inr (None, d)
                  else if \<not> zone_check r then Inl (PgError ''23514'')
                  else Inr (Some (scanZone r),
                         d\<lparr>zones := map (\<lambda>z. if z_id z = zid then r else z) (zones d)\<rparr>))) (\<lambda>row.
          case row of None \<Rightarrow> failG zone_not_found | Some z \<Rightarrow> returnG z))"

definition SetActive :: "env \<Rightarrow> string \<Rightarrow> bool \<Rightarrow> unit go" where
  "SetActive env zid active =
     (if \<not> uuid_validate env zid then failG zone_not_found
      else bindG (stmt (\<lambda>d. Inr (length (filter (\<lambda>z. z_id z = zid) (zones d)),
             d\<lparr>zones := map (\<lambda>z. if z_id z = zid then z\<lparr>z_is_active := active\<rparr> else z) (zones d)\<rparr>)))
        (\<lambda>n. if n = 0 then failG zone_not_found else returnG ()))"

definition delete_zone :: "string \<Rightarrow> db \<Rightarrow> go_error + (nat \<times> db)" where
  "delete_zone zid d =
     (if (\<exists>z \<in> set (zones d). z_id z = zid) \<and> (\<exists>r \<in> set (orders d). o_delivery_zone_id r = Some zid)
      then Inl (PgError ''23503'')
      else Inr (length (filter (\<lambda>z. z_id z = zid) (zones d)),
                d\<lparr>zones := filter (\<lambda>z. z_id z \<noteq> zid) (zones d)\<rparr>))"

definition Delete :: "env \<Rightarrow> string \<Rightarrow> unit go" where
  "Delete env zid =
     (if \<not> uuid_validate env zid then failG zone_not_found
      else bindG (attempt (stmt (delete_zone zid))) (\<lambda>res.
           case res of
             Inl e \<Rightarrow> if e = PgError ''23503''
                       then failG (AppError (Conflict ''delivery_zone_in_use'')) else failG e
           | Inr n \<Rightarrow> if n = 0 then failG zone_not_found else returnG ()))"

section \<open>The zone and the fee of a new order\<close>

definition resolveDeliveryZoneTx :: "env \<Rightarrow> string option \<Rightarrow> DeliveryZone option go" where
  "resolveDeliveryZoneTx env zoneID =
     (case zoneID of
        Some zid \<Rightarrow>
          if zid \<noteq> [] then
            if \<not> uuid_validate env zid then failG ErrInvalidDeliveryZone
            else bindG (query (\<lambda>d. find (\<lambda>z. z_id z = zid \<and> z_is_active z) (zones d))) (\<lambda>row.
                 case row of None \<Rightarrow> failG ErrInvalidDeliveryZone
                           | Some z \<Rightarrow> returnG (Some (scanZone z)))
          else bindG (query (\<lambda>d. \<exists>z \<in> set (zones d). z_is_active z)) (\<lambda>zonesExist.
               if zonesExist then failG ErrDeliveryZoneRequired else returnG None)
      | None \<Rightarrow> bindG (query (\<lambda>d. \<exists>z \<in> set (zones d). z_is_active z)) (\<lambda>zonesExist.
               if zonesExist then failG ErrDeliveryZoneRequired else returnG None))"

definition deliveryFee :: "Settings \<Rightarrow> bool \<Rightarrow> DeliveryZone option \<Rightarrow> float64 \<Rightarrow> float64" where
  "deliveryFee st isDelivery zone itemsTotal =
     (if \<not> isDelivery then 0
      else case zone of Some z \<Rightarrow> FeeFor z itemsTotal | None \<Rightarrow> DeliveryFee st)"

definition DeliveryFeeFor :: "Settings \<Rightarrow> bool \<Rightarrow> float64" where
  "DeliveryFeeFor st isDelivery = (if \<not> isDelivery then 0 else DeliveryFee st)"

section \<open>Lemmas\<close>

lemma Normalize_Inr:
  assumes "Normalize i = Inr r"
  obtains fee where "zi_Fee i = Finite fee" "0 \<le> fee" "fee \<le> of_int maxZoneFee"
    and "zi_Fee r = Finite (roundSom fee)"
    and "zi_NameRu r = trim_space (zi_NameRu i)" "zi_NameRu r \<noteq> []"
        "rune_count (zi_NameRu r) \<le> maxZoneNameLen"
    and "zi_NameKy r = trim_space (zi_NameKy i)" "zi_NameKy r \<noteq> []"
        "rune_count (zi_NameKy r) \<le> maxZoneNameLen"
    and "(zi_FreeFrom i = None \<and> zi_FreeFrom r = None) \<or>
         (\<exists>f. zi_FreeFrom i = Some (Finite f) \<and> 0 < f \<and> f \<le> of_int maxZoneFreeFrom \<and>
              zi_FreeFrom r = Some (Finite (roundSom f)))"
  using assms
  by (auto simp: Normalize_def Let_def split: if_splits go_float.splits option.splits)

lemma math_round_mono: "0 \<le> x \<Longrightarrow> x \<le> y \<Longrightarrow> math_round x \<le> math_round y"
  by (simp add: math_round_def floor_mono)

lemma resolve_effect:
  assumes "yields (resolveDeliveryZoneTx env zone) d r d'"
  shows "d' = d"
    and "r = None \<Longrightarrow> (zone = None \<or> zone = Some []) \<and> \<not> (\<exists>z \<in> set (zones d). z_is_active z)"
    and "r = Some z \<Longrightarrow> \<exists>zid row. zone = Some zid \<and> row \<in> set (zones d) \<and> z_id row = zid \<and>
           z_is_active row \<and> z = scanZone row"
  using assms unfolding resolveDeliveryZoneTx_def
  by (auto elim!: go_elim dest!: find_Some_mem split: option.splits if_splits)

end
