(* ===== verification/OrderData.thy ===== *)
theory OrderData
  imports Cart DeliveryZones
begin

text \<open>
  The data of \<^verbatim>\<open>internal/orders/order.go\<close>: the \<^verbatim>\<open>Order\<close> and \<^verbatim>\<open>OrderItem\<close> structs as the service
  returns them, the input of a new order, the snapshot of a variant, and the reads that build an
  \<^verbatim>\<open>Order\<close> from its row and items (\<^verbatim>\<open>scanOrderRow\<close>, \<^verbatim>\<open>attachItems\<close>, \<^verbatim>\<open>GetOrder\<close>, \<^verbatim>\<open>ListOrders\<close>). The
  photo links of \<^verbatim>\<open>attachItemPhotos\<close>, which no decision reads, are left out.
\<close>

record OrderDeliveryZone =
  odz_ID :: string
  odz_NameRu :: string
  odz_NameKy :: string

record OrderItem =
  it_ID :: string
  it_OrderID :: string
  it_VariantID :: string
  it_ProductNameSnapshot :: string
  it_SizeSnapshot :: string
  it_ColorSnapshot :: string
  it_Quantity :: int
  it_Price :: float64

record StatusChange =
  sc_FromStatus :: "OrderStatus option"
  sc_ToStatus :: OrderStatus
  sc_ActorType :: ActorType
  sc_ActorStaffID :: "string option"
  sc_Note :: "string option"
  sc_CreatedAt :: int

record Order =
  ID :: string
  OrderNumber :: string
  CustomerID :: string
  AddressID :: "string option"
  PointID :: "string option"
  Status :: OrderStatus
  Method :: PaymentMethod
  PayStatus :: "PaymentStatus option"
  TotalAmount :: float64
  OrderFee :: float64
  Zone :: "OrderDeliveryZone option"
  RefundRequired :: bool
  Comment :: "string option"
  Items :: "OrderItem list"
  History :: "StatusChange list"
  CreatedAt :: int
  UpdatedAt :: int

record OrderItemInput =
  VariantID :: string
  Quantity :: int

record PlaceOrderInput =
  in_CustomerID :: string
  in_Items :: "OrderItemInput list"
  in_AddressID :: "string option"
  in_PickupPointID :: "string option"
  in_DeliveryZoneID :: "string option"
  in_Comment :: string
  in_IdempotencyKey :: string
  in_ClearCart :: bool

record variantSnapshot =
  vs_ProductID :: string
  vs_ProductName :: string
  vs_Size :: string
  vs_Color :: string
  vs_Price :: float64
  vs_Active :: bool

text \<open>The zero value of the struct, which a lookup of an absent key of a Go map returns.\<close>

definition zero_snapshot :: variantSnapshot where
  "zero_snapshot = \<lparr>vs_ProductID = [], vs_ProductName = [], vs_Size = [], vs_Color = [],
                    vs_Price = 0, vs_Active = False\<rparr>"

definition snap_of :: "(string \<Rightarrow> variantSnapshot option) \<Rightarrow> string \<Rightarrow> variantSnapshot" where
  "snap_of snaps vid = (case snaps vid of Some s \<Rightarrow> s | None \<Rightarrow> zero_snapshot)"

definition label :: "variantSnapshot \<Rightarrow> string" where
  "label v = (if vs_Size v = [] then vs_ProductName v else vs_ProductName v @ '', '' @ vs_Size v)"

section \<open>Reading orders\<close>

definition scanOrderRow :: "db \<Rightarrow> order_row \<Rightarrow> Order" where
  "scanOrderRow d r =
     \<lparr>ID = o_id r, OrderNumber = o_order_number r, CustomerID = o_customer_id r,
      AddressID = o_address_id r, PointID = o_point_id r, Status = o_status r,
      Method = o_payment_method r, PayStatus = o_payment_status r,
      TotalAmount = float_of_numeric (o_total_amount r), OrderFee = float_of_numeric (o_delivery_fee r),
      Zone = map_option (\<lambda>zid. case find (\<lambda>z. z_id z = zid) (zones d) of
                Some z \<Rightarrow> \<lparr>odz_ID = zid, odz_NameRu = z_name_ru z, odz_NameKy = z_name_ky z\<rparr>
              | None \<Rightarrow> \<lparr>odz_ID = zid, odz_NameRu = [], odz_NameKy = []\<rparr>) (o_delivery_zone_id r),
      RefundRequired = o_refund_required r, Comment = o_comment r, Items = [], History = [],
      CreatedAt = o_created_at r, UpdatedAt = o_updated_at r\<rparr>"

definition scanItem :: "item_row \<Rightarrow> OrderItem" where
  "scanItem i = \<lparr>it_ID = i_id i, it_OrderID = i_order_id i, it_VariantID = i_variant_id i,
     it_ProductNameSnapshot = i_product_name_snapshot i, it_SizeSnapshot = i_size_snapshot i,
     it_ColorSnapshot = i_color_snapshot i, it_Quantity = i_quantity i,
     it_Price = float_of_numeric (i_price i)\<rparr>"

definition attachItems :: "Order list \<Rightarrow> Order list go" where
  "attachItems os =
     (if os = [] then returnG os
      else query (\<lambda>d. map (\<lambda>ord. ord\<lparr>Items := Items ord @
             map scanItem (sort_key i_id (filter (\<lambda>i. i_order_id i = ID ord) (order_items d)))\<rparr>) os))"

definition orderKeyPredicate :: "env \<Rightarrow> string \<Rightarrow> order_row \<Rightarrow> bool" where
  "orderKeyPredicate env idOrNumber r =
     (if uuid_validate env idOrNumber then o_id r = idOrNumber else o_order_number r = idOrNumber)"

definition order_not_found :: go_error where
  "order_not_found = AppError (NotFound ''order_not_found'')"

definition select_order :: "(order_row \<Rightarrow> bool) \<Rightarrow> Order go" where
  "select_order P =
     bindG (query (\<lambda>d. map_option (scanOrderRow d) (find P (orders d)))) (\<lambda>row.
     case row of None \<Rightarrow> failG order_not_found | Some ord \<Rightarrow> returnG ord)"

definition with_items :: "Order \<Rightarrow> Order go" where
  "with_items ord = bindG (attachItems [ord]) (\<lambda>os. returnG (hd os))"

definition GetOrder :: "env \<Rightarrow> string \<Rightarrow> string \<Rightarrow> Order go" where
  "GetOrder env customerID orderID =
     bindG (select_order (\<lambda>r. o_customer_id r = customerID \<and> orderKeyPredicate env orderID r)) with_items"

definition ListOrders :: "string \<Rightarrow> Order list go" where
  "ListOrders customerID =
     bindG (query (\<lambda>d. map (scanOrderRow d)
              (sort_key (\<lambda>r. - o_created_at r) (filter (\<lambda>r. o_customer_id r = customerID) (orders d)))))
       attachItems"

definition getOrderAnyCustomer :: "env \<Rightarrow> string \<Rightarrow> Order go" where
  "getOrderAnyCustomer env idOrNumber = bindG (select_order (orderKeyPredicate env idOrNumber)) with_items"

lemma scanOrderRow_fields [simp]:
  "ID (scanOrderRow d r) = o_id r" "CustomerID (scanOrderRow d r) = o_customer_id r"
  "PointID (scanOrderRow d r) = o_point_id r" "Status (scanOrderRow d r) = o_status r"
  "Method (scanOrderRow d r) = o_payment_method r" "PayStatus (scanOrderRow d r) = o_payment_status r"
  "RefundRequired (scanOrderRow d r) = o_refund_required r"
  "OrderNumber (scanOrderRow d r) = o_order_number r"
  "TotalAmount (scanOrderRow d r) = float_of_numeric (o_total_amount r)"
  "AddressID (scanOrderRow d r) = o_address_id r"
  by (simp_all add: scanOrderRow_def)

lemma select_order_effect [go_elim]:
  assumes "yields (select_order P) d ord d'"
    and "\<And>r. r \<in> set (orders d) \<Longrightarrow> P r \<Longrightarrow> find P (orders d) = Some r \<Longrightarrow> ord = scanOrderRow d r \<Longrightarrow>
           d' = d \<Longrightarrow> Q"
  shows Q
proof -
  obtain r where r: "find P (orders d) = Some r" "ord = scanOrderRow d r" "d' = d"
    using assms(1) unfolding select_order_def by (auto elim!: go_elim split: option.splits)
  show Q using find_Some_mem [OF r(1)] r by (intro assms(2)) auto
qed

lemma attachItems_effect:
  "yields (attachItems os) d os' d' \<Longrightarrow> d' = d \<and> map ID os' = map ID os"
  unfolding attachItems_def by (auto elim!: go_elim split: if_splits)

lemma with_items_effect [go_elim]:
  assumes "yields (with_items ord) d r d'"
    and "d' = d \<Longrightarrow> r = ord\<lparr>Items := Items ord @
           map scanItem (sort_key i_id (filter (\<lambda>i. i_order_id i = ID ord) (order_items d)))\<rparr> \<Longrightarrow> Q"
  shows Q
  using assms unfolding with_items_def attachItems_def by (auto elim!: go_elim)

lemma GetOrder_effect:
  assumes "yields (GetOrder env cu k) d ord d'"
  shows "d' = d" and "CustomerID ord = cu"
    and "\<exists>r \<in> set (orders d). o_id r = ID ord \<and> o_customer_id r = cu \<and> orderKeyPredicate env k r"
  using assms unfolding GetOrder_def by (auto elim!: go_elim)

lemma ListOrders_effect:
  "yields (ListOrders cu) d os d' \<Longrightarrow> d' = d \<and>
   map ID os = map o_id (sort_key (\<lambda>r. - o_created_at r) (filter (\<lambda>r. o_customer_id r = cu) (orders d)))"
  unfolding ListOrders_def by (auto elim!: go_elim dest!: attachItems_effect)

end
