(* ===== verification/Checkout.thy ===== *)
theory Checkout
  imports OrderData "HOL-Library.Multiset"
begin

text \<open>
  \<^verbatim>\<open>internal/orders/order.go\<close>: placing an order. The validation of the input, the choice of the
  point that packs it, the stock decrement, the totals, the inserts, and \<^verbatim>\<open>createOrder\<close> with its one
  transaction.
\<close>

section \<open>Validation\<close>

definition present :: "string option \<Rightarrow> bool" where
  "present x \<longleftrightarrow> x \<noteq> None \<and> x \<noteq> Some []"

definition blank_to_nil :: "string option \<Rightarrow> string option" where
  "blank_to_nil x = (if x = Some [] then None else x)"

definition validateFulfillment :: "string option \<Rightarrow> string option \<Rightarrow> go_error + unit" where
  "validateFulfillment addressID pickupPointID =
     (if present addressID = present pickupPointID
      then Inl (AppError (BadRequest ''invalid_fulfillment'')) else Inr ())"

definition qty_too_large :: go_error where
  "qty_too_large = AppError (WithParams (WithVariant (BadRequest ''qty_too_large'') ''order'')
                              [(''max'', itoa MaxCartQty)])"

fun merge_loop :: "env \<Rightarrow> (string \<Rightarrow> int) \<Rightarrow> string list \<Rightarrow> OrderItemInput list \<Rightarrow>
    go_error + ((string \<Rightarrow> int) \<times> string list)" where
  "merge_loop env merged keys [] = Inr (merged, keys)"
| "merge_loop env merged keys (it # its) =
     (let v = VariantID it; merged' = merged(v := merged v + Quantity it) in
      if v = [] then Inl (AppError (BadRequest ''invalid_item''))
      else if \<not> uuid_validate env v then Inl (AppError (BadRequest ''invalid_variant_id''))
      else if Quantity it \<le> 0 then Inl (AppError (BadRequest ''invalid_qty''))
      else if MaxCartQty < Quantity it then Inl qty_too_large
      else if MaxCartQty < merged' v then Inl qty_too_large
      else merge_loop env merged' (if v \<in> set keys then keys else keys @ [v]) its)"

definition mergeItemQuantities ::
  "env \<Rightarrow> OrderItemInput list \<Rightarrow> go_error + ((string \<Rightarrow> int) \<times> string list)" where
  "mergeItemQuantities env items =
     (if items = [] then Inl (AppError (BadRequest ''empty_order''))
      else case merge_loop env (\<lambda>_. 0) [] items of
             Inl e \<Rightarrow> Inl e
           | Inr (merged, keys) \<Rightarrow> Inr (merged, sort keys))"

definition normalizeComment :: "string \<Rightarrow> go_error + string option" where
  "normalizeComment c0 =
     (let c = trim_space c0 in
      if c = [] then Inr None
      else if MaxCommentLen < rune_count c
      then Inl (AppError (WithParams (BadRequest ''comment_too_long'')
                           [(''max'', itoa (int MaxCommentLen))]))
      else Inr (Some c))"

text \<open>
  Ranging over a string decodes runes; a byte of 0x80 or more always yields a rune above 0x7e, so
  the test of every rune is a test of every byte.
\<close>

definition normalizeIdempotencyKey :: "string \<Rightarrow> go_error + string option" where
  "normalizeIdempotencyKey k0 =
     (let k = trim_space k0 in
      if k = [] then Inr None
      else if MaxIdempotencyKeyLen < length k
      then Inl (AppError (WithParams (WithVariant (BadRequest ''invalid_idempotency_key'') ''too_long'')
                           [(''max'', itoa (int MaxIdempotencyKeyLen))]))
      else if \<exists>c \<in> set k. byte c < 0x21 \<or> 0x7e < byte c
      then Inl (AppError (BadRequest ''invalid_idempotency_key''))
      else Inr (Some k))"

section \<open>Reads inside the transaction\<close>

definition findIdempotentOrder :: "string \<Rightarrow> string \<Rightarrow> string go" where
  "findIdempotentOrder customerID key =
     bindG (query (\<lambda>d. map_option (\<lambda>r. (o_id r, clock d - IdempotencyWindow < o_created_at r))
       (find (\<lambda>r. o_customer_id r = customerID \<and> o_idempotency_key r = Some key) (orders d)))) (\<lambda>row.
     case row of
       None \<Rightarrow> returnG []
     | Some (oid, fresh) \<Rightarrow>
         if fresh then returnG oid
         else bindG (stmt (update_orders (\<lambda>r. o_id r = oid) (\<lambda>r. r\<lparr>o_idempotency_key := None\<rparr>)))
                (\<lambda>_. returnG []))"

definition is_open :: "OrderStatus \<Rightarrow> bool" where
  "is_open s \<longleftrightarrow> s \<in> {StatusPlaced, StatusConfirmed, StatusCourierAssigned}"

definition open_orders :: "db \<Rightarrow> string \<Rightarrow> int" where
  "open_orders d customerID =
     int (length (filter (\<lambda>r. o_customer_id r = customerID \<and> is_open (o_status r)) (orders d)))"

definition checkOpenOrdersLimit :: "string \<Rightarrow> int \<Rightarrow> unit go" where
  "checkOpenOrdersLimit customerID max_open =
     bindG (query (\<lambda>d. open_orders d customerID)) (\<lambda>n.
     if max_open \<le> n
     then failG (AppError (WithParams (Conflict ''too_many_open_orders'') [(''count'', itoa n)]))
     else returnG ())"

definition verifyAddressOwnership :: "string \<Rightarrow> string \<Rightarrow> unit go" where
  "verifyAddressOwnership customerID addressID =
     bindG (query (\<lambda>d. \<exists>a \<in> set (addresses d). a_id a = addressID \<and> a_customer_id a = customerID))
       (\<lambda>exists. if \<not> exists then failG (AppError (NotFound ''address_not_found'')) else returnG ())"

definition pointIsActive :: "string \<Rightarrow> bool go" where
  "pointIsActive pointID =
     query (\<lambda>d. case find (\<lambda>p. pt_id p = pointID) (points d) of
                  None \<Rightarrow> False | Some p \<Rightarrow> pt_is_active p)"

definition snapshot_of :: "db \<Rightarrow> string \<Rightarrow> variantSnapshot option" where
  "snapshot_of d vid =
     (case find_variant d vid of
        None \<Rightarrow> None
      | Some v \<Rightarrow>
          (case find_product d (pv_product_id v) of
             None \<Rightarrow> None
           | Some p \<Rightarrow> Some
               \<lparr>vs_ProductID = pv_product_id v, vs_ProductName = pr_name_ru p,
                vs_Size = pv_size v, vs_Color = pv_color v,
                vs_Price = float_of_numeric
                  (case pv_price_override v of Some k \<Rightarrow> k | None \<Rightarrow> pr_base_price p),
                vs_Active = pr_is_active p\<rparr>))"

definition loadVariantSnapshots :: "string list \<Rightarrow> (string \<Rightarrow> variantSnapshot option) go" where
  "loadVariantSnapshots variantIDs =
     (if variantIDs = [] then returnG (\<lambda>_. None)
      else query (\<lambda>d vid. if vid \<in> set variantIDs then snapshot_of d vid else None))"

fun checkSnapshots :: "(string \<Rightarrow> variantSnapshot option) \<Rightarrow> string list \<Rightarrow> go_error + unit" where
  "checkSnapshots snaps [] = Inr ()"
| "checkSnapshots snaps (vid # vids) =
     (case snaps vid of
        None \<Rightarrow> Inl (AppError (WithVariant (NotFound ''variant_not_found'') ''order''))
      | Some snap \<Rightarrow>
          if \<not> vs_Active snap
          then Inl (AppError (WithParams (WithVariant (Conflict ''product_unavailable'') ''named'')
                               [(''name'', label snap)]))
          else checkSnapshots snaps vids)"

section \<open>Stock\<close>

definition stockError :: "variantSnapshot \<Rightarrow> int \<Rightarrow> go_error" where
  "stockError snap available =
     (if available \<le> 0
      then AppError (WithParams (WithVariant (Conflict ''insufficient_stock'') ''sold_out'')
                      [(''name'', label snap)])
      else AppError (WithParams (WithVariant (Conflict ''insufficient_stock'') ''left'')
                      [(''name'', label snap), (''count'', itoa available)]))"

fun pointCoversStock :: "string \<Rightarrow> string list \<Rightarrow> (string \<Rightarrow> int) \<Rightarrow> bool go" where
  "pointCoversStock pointID [] qty = returnG True"
| "pointCoversStock pointID (vid # vids) qty =
     bindG (query (\<lambda>d. stock d (vid, pointID))) (\<lambda>row.
     case row of
       None \<Rightarrow> returnG False
     | Some q \<Rightarrow> if q < qty vid then returnG False else pointCoversStock pointID vids qty)"

fun insufficientStockForDelivery ::
  "string list \<Rightarrow> (string \<Rightarrow> int) \<Rightarrow> (string \<Rightarrow> variantSnapshot option) \<Rightarrow> 'a go" where
  "insufficientStockForDelivery [] qty snaps =
     failG (AppError (WithVariant (Conflict ''insufficient_stock'') ''split''))"
| "insufficientStockForDelivery (vid # vids) qty snaps =
     bindG (query (\<lambda>d. max_active_stock d vid)) (\<lambda>best.
     if best < qty vid then failG (stockError (snap_of snaps vid) best)
     else insufficientStockForDelivery vids qty snaps)"

fun first_covering :: "string list \<Rightarrow> string list \<Rightarrow> (string \<Rightarrow> int) \<Rightarrow> string option go" where
  "first_covering [] vids qty = returnG None"
| "first_covering (pointID # pointIDs) vids qty =
     bindG (pointCoversStock pointID vids qty) (\<lambda>ok.
     if ok then returnG (Some pointID) else first_covering pointIDs vids qty)"

definition active_point_ids :: "db \<Rightarrow> string list" where
  "active_point_ids d = sort (map pt_id (filter pt_is_active (points d)))"

definition pickFulfillmentPoint ::
  "string list \<Rightarrow> (string \<Rightarrow> int) \<Rightarrow> (string \<Rightarrow> variantSnapshot option) \<Rightarrow> string go" where
  "pickFulfillmentPoint vids qty snaps =
     bindG (query active_point_ids) (\<lambda>pointIDs.
     bindG (first_covering pointIDs vids qty) (\<lambda>found.
     case found of
       Some pointID \<Rightarrow> returnG pointID
     | None \<Rightarrow> insufficientStockForDelivery vids qty snaps))"

fun lockAndDecrementStock ::
  "string \<Rightarrow> string list \<Rightarrow> (string \<Rightarrow> int) \<Rightarrow> (string \<Rightarrow> variantSnapshot option) \<Rightarrow> unit go" where
  "lockAndDecrementStock pointID [] qty snaps = returnG ()"
| "lockAndDecrementStock pointID (vid # vids) qty snaps =
     bindG (query (\<lambda>d. stock d (vid, pointID))) (\<lambda>row.
     case row of
       None \<Rightarrow> failG (stockError (snap_of snaps vid) 0)
     | Some q \<Rightarrow>
         if q < qty vid then failG (stockError (snap_of snaps vid) q)
         else bindG (stmt (take_stock vid pointID (qty vid)))
                (\<lambda>_. lockAndDecrementStock pointID vids qty snaps))"

section \<open>The order number\<close>

definition formatOrderNumber :: "string \<Rightarrow> int \<Rightarrow> string" where
  "formatOrderNumber dateStr seq = ''COZY-'' @ dateStr @ ''-'' @ pad_int 3 seq"

definition number_prefix :: "string \<Rightarrow> string" where
  "number_prefix dateStr = ''COZY-'' @ dateStr @ ''-''"

definition numbers_of_day :: "db \<Rightarrow> string \<Rightarrow> int" where
  "numbers_of_day d dateStr =
     int (length (filter (\<lambda>r. prefix (number_prefix dateStr) (o_order_number r)) (orders d)))"

definition nextOrderNumber :: "string go" where
  "nextOrderNumber =
     bindG (query (\<lambda>_. ())) (\<lambda>_.
     bindG (query (\<lambda>d. (date_digits (clock d), numbers_of_day d (date_digits (clock d)))))
       (\<lambda>(dateStr, count). returnG (formatOrderNumber dateStr (count + 1))))"

section \<open>Totals and items\<close>

definition roundSom_total :: "float64 \<Rightarrow> float64 \<Rightarrow> float64" where
  "roundSom_total itemsTotal fee = roundSom (fadd itemsTotal fee)"

definition new_item :: "(string \<Rightarrow> variantSnapshot option) \<Rightarrow> (string \<Rightarrow> int) \<Rightarrow> string \<Rightarrow> OrderItem" where
  "new_item snaps qty vid =
     \<lparr>it_ID = [], it_OrderID = [], it_VariantID = vid,
      it_ProductNameSnapshot = vs_ProductName (snap_of snaps vid),
      it_SizeSnapshot = vs_Size (snap_of snaps vid), it_ColorSnapshot = vs_Color (snap_of snaps vid),
      it_Quantity = qty vid, it_Price = vs_Price (snap_of snaps vid)\<rparr>"

definition items_total :: "(string \<Rightarrow> variantSnapshot option) \<Rightarrow> (string \<Rightarrow> int) \<Rightarrow> string list \<Rightarrow> float64" where
  "items_total snaps qty vids = sum_lines 0 (map (\<lambda>vid. (vs_Price (snap_of snaps vid), qty vid)) vids)"

definition itemsInProductOrder :: "OrderItem list \<Rightarrow> (string \<Rightarrow> variantSnapshot option) \<Rightarrow> nat list" where
  "itemsInProductOrder items snaps =
     sort_key (\<lambda>i. vs_ProductID (snap_of snaps (it_VariantID (items ! i))))
       (sort_key (\<lambda>i. it_VariantID (items ! i)) [0..<length items])"

definition item_row_of :: "string \<Rightarrow> OrderItem \<Rightarrow> item_row" where
  "item_row_of oid it = \<lparr>i_id = [], i_order_id = oid, i_variant_id = it_VariantID it,
     i_product_name_snapshot = it_ProductNameSnapshot it, i_size_snapshot = it_SizeSnapshot it,
     i_color_snapshot = it_ColorSnapshot it, i_quantity = it_Quantity it,
     i_price = numeric_of_float (it_Price it)\<rparr>"

fun insertItems :: "env \<Rightarrow> string \<Rightarrow> nat list \<Rightarrow> OrderItem list \<Rightarrow> OrderItem list go" where
  "insertItems env oid [] items = returnG items"
| "insertItems env oid (i # is) items =
     bindG (stmt (insert_item env (item_row_of oid (items ! i)))) (\<lambda>iid.
     insertItems env oid is (items[i := (items ! i)\<lparr>it_OrderID := oid, it_ID := iid\<rparr>]))"

section \<open>createOrder\<close>

datatype placed = Replayed string | Placed Order string

definition recordStatusTx ::
  "env \<Rightarrow> string \<Rightarrow> OrderStatus option \<Rightarrow> OrderStatus \<Rightarrow> ActorType \<Rightarrow> string \<Rightarrow> string \<Rightarrow> unit go" where
  "recordStatusTx env orderID fromSt toSt actorType staffID note =
     stmt (insert_history env
       \<lparr>h_id = [], h_order_id = orderID, h_from_status = fromSt, h_to_status = toSt,
        h_actor_type = actorType,
        h_actor_staff_id = (if actorType = ActorStaff \<and> staffID \<noteq> [] then Some staffID else None),
        h_note = (if note \<noteq> [] then Some note else None), h_created_at = 0\<rparr>)"

definition new_order_row ::
  "PlaceOrderInput \<Rightarrow> PaymentMethod \<Rightarrow> string option \<Rightarrow> string \<Rightarrow> string \<Rightarrow> string option \<Rightarrow>
   string option \<Rightarrow> DeliveryZone option \<Rightarrow> float64 \<Rightarrow> float64 \<Rightarrow> order_row" where
  "new_order_row inp method addressID pointID number comment idemKey zone fee amount =
     \<lparr>o_id = [], o_order_number = number, o_customer_id = in_CustomerID inp,
      o_address_id = addressID, o_point_id = Some pointID, o_status = StatusPlaced,
      o_payment_method = method,
      o_payment_status = (if method = PaymentOnlineCard then Some PaymentPending else None),
      o_total_amount = numeric_of_float amount, o_delivery_fee = numeric_of_float fee,
      o_refund_required = False, o_comment = comment, o_idempotency_key = idemKey,
      o_delivery_zone_id = map_option dz_ID zone, o_created_at = 0, o_updated_at = 0\<rparr>"

definition order_of_row :: "order_row \<Rightarrow> DeliveryZone option \<Rightarrow> float64 \<Rightarrow> float64 \<Rightarrow> OrderItem list \<Rightarrow> Order" where
  "order_of_row r zone fee amount items =
     \<lparr>ID = o_id r, OrderNumber = o_order_number r, CustomerID = o_customer_id r,
      AddressID = o_address_id r, PointID = o_point_id r, Status = o_status r,
      Method = o_payment_method r, PayStatus = o_payment_status r, TotalAmount = amount,
      OrderFee = fee,
      Zone = map_option (\<lambda>z. \<lparr>odz_ID = dz_ID z, odz_NameRu = dz_NameRu z, odz_NameKy = dz_NameKy z\<rparr>) zone,
      RefundRequired = False, Comment = o_comment r, Items = items, History = [],
      CreatedAt = o_created_at r, UpdatedAt = o_updated_at r\<rparr>"

text \<open>The body of the transaction after the replay check: everything from the open-order limit on.\<close>

definition place_body ::
  "env \<Rightarrow> PlaceOrderInput \<Rightarrow> PaymentMethod \<Rightarrow> (Order \<Rightarrow> string go) \<Rightarrow> string option \<Rightarrow> string option \<Rightarrow>
   (string \<Rightarrow> int) \<Rightarrow> string list \<Rightarrow> string option \<Rightarrow> string option \<Rightarrow> placed go" where
  "place_body env inp method afterInsert addressID pickupPointID qty vids comment idemKey =
     (let st = settings env; customerID = in_CustomerID inp in
      bindG (if 0 < MaxOpenOrders st then checkOpenOrdersLimit customerID (MaxOpenOrders st)
             else returnG ()) (\<lambda>_.
      bindG (case addressID of
               None \<Rightarrow> returnG None
             | Some a \<Rightarrow> bindG (verifyAddressOwnership customerID a)
                           (\<lambda>_. resolveDeliveryZoneTx env (in_DeliveryZoneID inp))) (\<lambda>zone.
      bindG (case pickupPointID of
               None \<Rightarrow> returnG []
             | Some p \<Rightarrow> bindG (pointIsActive p) (\<lambda>active.
                 if \<not> active then failG (AppError (NotFound ''pickup_point_not_found''))
                 else returnG p)) (\<lambda>chosen.
      bindG (loadVariantSnapshots vids) (\<lambda>snaps.
      bindG (liftG (checkSnapshots snaps vids)) (\<lambda>_.
      bindG (if chosen = [] then pickFulfillmentPoint vids qty snaps else returnG chosen) (\<lambda>pointID.
      bindG (lockAndDecrementStock pointID vids qty snaps) (\<lambda>_.
      bindG nextOrderNumber (\<lambda>number.
      let itemsTotal = items_total snaps qty vids;
          fee = deliveryFee st (addressID \<noteq> None) zone itemsTotal;
          amount = roundSom_total itemsTotal fee;
          orderItems = map (new_item snaps qty) vids
      in
      bindG (stmt (insert_order env
               (new_order_row inp method addressID pointID number comment idemKey zone fee amount))) (\<lambda>r.
      bindG (insertItems env (o_id r) (itemsInProductOrder orderItems snaps) orderItems) (\<lambda>items.
      bindG (recordStatusTx env (o_id r) None StatusPlaced ActorCustomer [] []) (\<lambda>_.
      bindG (if in_ClearCart inp then exec (clearCartLines customerID vids) else returnG ()) (\<lambda>_.
      let order = order_of_row r zone fee amount items in
      bindG (afterInsert order) (\<lambda>paymentID. returnG (Placed order paymentID)))))))))))))))"

definition place_tx ::
  "env \<Rightarrow> PlaceOrderInput \<Rightarrow> PaymentMethod \<Rightarrow> (Order \<Rightarrow> string go) \<Rightarrow> string option \<Rightarrow> string option \<Rightarrow>
   (string \<Rightarrow> int) \<Rightarrow> string list \<Rightarrow> string option \<Rightarrow> string option \<Rightarrow> placed go" where
  "place_tx env inp method afterInsert addressID pickupPointID qty vids comment idemKey =
     bindG (query (\<lambda>_. ())) (\<lambda>_.
     bindG (case idemKey of None \<Rightarrow> returnG []
                          | Some k \<Rightarrow> findIdempotentOrder (in_CustomerID inp) k) (\<lambda>replayID.
     if replayID \<noteq> [] then returnG (Replayed replayID)
     else place_body env inp method afterInsert addressID pickupPointID qty vids comment idemKey))"

definition createOrder ::
  "env \<Rightarrow> PlaceOrderInput \<Rightarrow> PaymentMethod \<Rightarrow> (Order \<Rightarrow> string go) \<Rightarrow> (Order \<times> string \<times> bool) go" where
  "createOrder env inp method afterInsert =
     bindG (liftG (validateFulfillment (in_AddressID inp) (in_PickupPointID inp))) (\<lambda>_.
     let addressID = blank_to_nil (in_AddressID inp);
         pickupPointID = blank_to_nil (in_PickupPointID inp) in
     bindG (liftG (mergeItemQuantities env (in_Items inp))) (\<lambda>(qty, vids).
     bindG (liftG (normalizeComment (in_Comment inp))) (\<lambda>comment.
     bindG (liftG (normalizeIdempotencyKey (in_IdempotencyKey inp))) (\<lambda>idemKey.
     bindG (withTx (place_tx env inp method afterInsert addressID pickupPointID qty vids comment idemKey))
       (\<lambda>out.
     case out of
       Replayed oid \<Rightarrow> bindG (GetOrder env (in_CustomerID inp) oid) (\<lambda>existing. returnG (existing, [], False))
     | Placed order paymentID \<Rightarrow>
         bindG (if method = PaymentCashOnDelivery then notify (OrderCreated (ID order)) else returnG ())
           (\<lambda>_. returnG (order, paymentID, True)))))))"

definition PlaceOrder :: "env \<Rightarrow> PlaceOrderInput \<Rightarrow> (Order \<times> bool) go" where
  "PlaceOrder env inp =
     bindG (createOrder env inp PaymentCashOnDelivery (\<lambda>_. returnG []))
       (\<lambda>(order, _, created). returnG (order, created))"

definition CreateOrder ::
  "env \<Rightarrow> string \<Rightarrow> OrderItemInput list \<Rightarrow> string option \<Rightarrow> string option \<Rightarrow> Order go" where
  "CreateOrder env customerID items addressID pickupPointID =
     bindG (PlaceOrder env
       \<lparr>in_CustomerID = customerID, in_Items = items, in_AddressID = addressID,
        in_PickupPointID = pickupPointID, in_DeliveryZoneID = None, in_Comment = [],
        in_IdempotencyKey = [], in_ClearCart = False\<rparr>) (\<lambda>(order, _). returnG order)"

definition FindByIdempotencyKey :: "env \<Rightarrow> string \<Rightarrow> string \<Rightarrow> Order option go" where
  "FindByIdempotencyKey env customerID key =
     bindG (liftG (normalizeIdempotencyKey key)) (\<lambda>k.
     case k of
       None \<Rightarrow> returnG None
     | Some key \<Rightarrow>
         bindG (query (\<lambda>d. map_option o_id (find (\<lambda>r. o_customer_id r = customerID \<and>
                   o_idempotency_key r = Some key \<and> clock d - IdempotencyWindow < o_created_at r)
                   (orders d)))) (\<lambda>row.
         case row of
           None \<Rightarrow> returnG None
         | Some oid \<Rightarrow> bindG (GetOrder env customerID oid) (\<lambda>ord. returnG (Some ord))))"

end
