(* ===== verification/CheckoutFacts.thy ===== *)
theory CheckoutFacts
  imports Checkout
begin

text \<open>
  What the steps of a checkout do: the merged quantities, the chosen point, the decremented stock,
  the inserted rows, and \<open>place_body_effect\<close>, which puts them together for the whole transaction.
\<close>

section \<open>The merged quantities\<close>

lemma merge_loop_Inr:
  assumes "merge_loop env m ks its = Inr (m', ks')" and "distinct ks"
    and "\<forall>v. v \<notin> set ks \<longrightarrow> m v = 0" and "\<forall>v \<in> set ks. 0 < m v \<and> m v \<le> MaxCartQty"
  shows "distinct ks' \<and> set ks' = set ks \<union> VariantID ` set its \<and>
    (\<forall>v. m' v = m v + (\<Sum>it \<leftarrow> its. if VariantID it = v then Quantity it else 0)) \<and>
    (\<forall>v. v \<notin> set ks' \<longrightarrow> m' v = 0) \<and>
    (\<forall>v \<in> set ks'. 0 < m' v \<and> m' v \<le> MaxCartQty) \<and>
    (\<forall>it \<in> set its. uuid_validate env (VariantID it))"
  using assms
proof (induction its arbitrary: m ks)
  case Nil
  then show ?case by auto
next
  case (Cons it its)
  let ?v = "VariantID it" and ?q = "Quantity it"
  let ?ks = "if ?v \<in> set ks then ks else ks @ [?v]"
  have c: "uuid_validate env ?v" "0 < ?q" "m ?v + ?q \<le> MaxCartQty"
    and rec: "merge_loop env (m(?v := m ?v + ?q)) ?ks its = Inr (m', ks')"
    using Cons.prems(1) by (auto simp: Let_def split: if_splits)
  have m0: "0 \<le> m ?v" using Cons.prems(3,4) by (cases "?v \<in> set ks") auto
  have "distinct ?ks" "\<forall>v. v \<notin> set ?ks \<longrightarrow> (m(?v := m ?v + ?q)) v = 0"
    "\<forall>v \<in> set ?ks. 0 < (m(?v := m ?v + ?q)) v \<and> (m(?v := m ?v + ?q)) v \<le> MaxCartQty"
    using Cons.prems(2-4) c m0 by auto
  note ih = Cons.IH [OF rec this]
  have "\<forall>v. m' v = (m(?v := m ?v + ?q)) v + (\<Sum>it \<leftarrow> its. if VariantID it = v then Quantity it else 0)"
    using ih by blast
  then have "\<forall>v. m' v = m v + (\<Sum>it \<leftarrow> it # its. if VariantID it = v then Quantity it else 0)" by simp
  moreover have "set ks' = set ks \<union> VariantID ` set (it # its)" using ih by auto
  moreover have "\<forall>it \<in> set (it # its). uuid_validate env (VariantID it)" using ih c(1) by auto
  ultimately show ?case using ih by blast
qed

lemma mergeItemQuantities_Inr:
  assumes "mergeItemQuantities env its = Inr (qty, vids)"
  shows "sorted vids" "distinct vids" "vids \<noteq> []"
    and "set vids = VariantID ` set its"
    and "qty v = (\<Sum>it \<leftarrow> its. if VariantID it = v then Quantity it else 0)"
    and "v \<in> set vids \<Longrightarrow> 0 < qty v \<and> qty v \<le> MaxCartQty"
    and "v \<notin> set vids \<Longrightarrow> qty v = 0"
    and "it \<in> set its \<Longrightarrow> uuid_validate env (VariantID it)"
proof -
  obtain ks where ne: "its \<noteq> []" and m: "merge_loop env (\<lambda>_. 0) [] its = Inr (qty, ks)"
    and ks: "vids = sort ks"
    using assms by (auto simp: mergeItemQuantities_def split: if_splits sum.splits)
  have "distinct ([] :: string list)" "\<forall>v. v \<notin> set [] \<longrightarrow> (\<lambda>_. 0 :: int) v = 0"
    "\<forall>v \<in> set []. 0 < (\<lambda>_. 0 :: int) v \<and> (\<lambda>_. 0) v \<le> MaxCartQty" by simp_all
  note r = merge_loop_Inr [OF m this]
  show "sorted vids" "distinct vids" "set vids = VariantID ` set its"
    using r by (simp_all add: ks)
  show "vids \<noteq> []" using r ne by (auto simp: ks simp flip: set_empty)
  show "qty v = (\<Sum>it \<leftarrow> its. if VariantID it = v then Quantity it else 0)" using r by simp
  have "\<forall>v \<in> set ks. 0 < qty v \<and> qty v \<le> MaxCartQty" using r by blast
  then show "v \<in> set vids \<Longrightarrow> 0 < qty v \<and> qty v \<le> MaxCartQty" unfolding ks set_sort by blast
  have "\<forall>v. v \<notin> set ks \<longrightarrow> qty v = 0" using r by blast
  then show "v \<notin> set vids \<Longrightarrow> qty v = 0" unfolding ks set_sort by blast
  show "it \<in> set its \<Longrightarrow> uuid_validate env (VariantID it)" using r by simp
qed

section \<open>The point that packs the order\<close>

definition covers :: "db \<Rightarrow> string \<Rightarrow> string list \<Rightarrow> (string \<Rightarrow> int) \<Rightarrow> bool" where
  "covers d p vids qty \<longleftrightarrow> (\<forall>v \<in> set vids. \<exists>q. stock d (v, p) = Some q \<and> qty v \<le> q)"

lemma pointCoversStock_effect [go_elim]:
  assumes "yields (pointCoversStock p vids qty) d b d'"
    and "b = covers d p vids qty \<Longrightarrow> d' = d \<Longrightarrow> P"
  shows P
proof -
  have "b = covers d p vids qty \<and> d' = d"
    using assms(1)
    by (induction vids) (force elim!: go_elim simp: covers_def split: option.splits if_splits)+
  then show P using assms(2) by blast
qed

lemma first_covering_effect:
  "yields (first_covering ps vids qty) d r d' \<Longrightarrow> d' = d \<and>
   (case r of None \<Rightarrow> \<forall>p \<in> set ps. \<not> covers d p vids qty
    | Some p \<Rightarrow> covers d p vids qty \<and> (\<exists>xs ys. ps = xs @ p # ys \<and> (\<forall>x \<in> set xs. \<not> covers d x vids qty)))"
proof (induction ps)
  case Nil
  then show ?case by (auto elim!: go_elim)
next
  case (Cons p ps)
  show ?case
  proof (cases "covers d p vids qty")
    case True
    with Cons.prems show ?thesis by (auto elim!: go_elim split: if_splits) (metis append_Nil empty_iff empty_set)
  next
    case False
    with Cons.prems have "yields (first_covering ps vids qty) d r d'"
      by (auto elim!: go_elim split: if_splits)
    from Cons.IH [OF this] False show ?thesis
      by (auto split: option.splits) (metis append_Cons set_ConsD)
  qed
qed

lemma insufficientStock_no_yield [go_elim]:
  "yields (insufficientStockForDelivery vids qty snaps) d r d' \<Longrightarrow> P"
  by (induction vids) (auto elim!: go_elim split: if_splits)

lemma pickFulfillmentPoint_effect:
  assumes "yields (pickFulfillmentPoint vids qty snaps) d p d'"
  shows "d' = d" and "covers d p vids qty" and "p \<in> set (active_point_ids d)"
    and "x \<in> set (active_point_ids d) \<Longrightarrow> covers d x vids qty \<Longrightarrow> p \<le> x"
proof -
  obtain r d1 where f: "yields (first_covering (active_point_ids d) vids qty) d r d1"
    and k: "yields (case r of Some p \<Rightarrow> returnG p | None \<Rightarrow> insufficientStockForDelivery vids qty snaps) d1 p d'"
    using assms unfolding pickFulfillmentPoint_def by (auto elim!: go_elim)
  have "r = Some p \<and> d' = d1" using k by (auto elim!: go_elim split: option.splits)
  moreover have "d1 = d" using first_covering_effect [OF f] by blast
  ultimately have y: "yields (first_covering (active_point_ids d) vids qty) d (Some p) d \<and> d' = d"
    using f by simp
  then show "d' = d" by blast
  from first_covering_effect [OF conjunct1 [OF y]]
  obtain xs ys where c: "covers d p vids qty" and l: "active_point_ids d = xs @ p # ys"
    and n: "\<forall>x \<in> set xs. \<not> covers d x vids qty" by auto
  show "covers d p vids qty" by (rule c)
  show "p \<in> set (active_point_ids d)" by (simp add: l)
  have "sorted (xs @ p # ys)" using l unfolding active_point_ids_def by (metis sorted_sort)
  then have "\<forall>y \<in> set ys. p \<le> y" by (simp add: sorted_append)
  then show "p \<le> x" if "x \<in> set (active_point_ids d)" "covers d x vids qty"
    using that n by (auto simp: l)
qed

section \<open>The stock decrement\<close>

lemma lockAndDecrement_effect:
  assumes "yields (lockAndDecrementStock p vids qty snaps) d u d'" and "distinct vids"
  shows "d' = d\<lparr>stock := stock d'\<rparr>"
    and "v \<in> set vids \<Longrightarrow> \<exists>q. stock d (v, p) = Some q \<and> qty v \<le> q \<and> stock d' (v, p) = Some (q - qty v)"
    and "(k \<notin> (\<lambda>v. (v, p)) ` set vids) \<Longrightarrow> stock d' k = stock d k"
proof -
  have "d' = d\<lparr>stock := stock d'\<rparr> \<and>
     (\<forall>v \<in> set vids. \<exists>q. stock d (v, p) = Some q \<and> qty v \<le> q \<and> stock d' (v, p) = Some (q - qty v)) \<and>
     (\<forall>k. k \<notin> (\<lambda>v. (v, p)) ` set vids \<longrightarrow> stock d' k = stock d k)"
    using assms
  proof (induction vids arbitrary: d)
    case Nil
    then show ?case by (auto elim!: go_elim)
  next
    case (Cons v vids)
    obtain q where q: "stock d (v, p) = Some q" "qty v \<le> q"
      and y: "yields (lockAndDecrementStock p vids qty snaps) (d\<lparr>stock := (stock d)((v, p) \<mapsto> q - qty v)\<rparr>) u d'"
      using Cons.prems(1)
      by (auto elim!: go_elim simp: take_stock_def split: option.splits if_splits)
    have d: "distinct vids" "v \<notin> set vids" using Cons.prems(2) by auto
    note ih = Cons.IH [OF y d(1)]
    have s: "stock d' (v, p) = Some (q - qty v)" using ih d(2) by (auto simp: image_iff)
    have "d' = d\<lparr>stock := stock d'\<rparr>" using ih by (metis db.surjective db.update_convs(6) db.select_convs(6))
    moreover have "\<exists>q. stock d (x, p) = Some q \<and> qty x \<le> q \<and> stock d' (x, p) = Some (q - qty x)"
      if "x \<in> set (v # vids)" for x
    proof (cases "x = v")
      case True
      then show ?thesis using q s by simp
    next
      case False
      then have "x \<in> set vids" using that by simp
      with ih False show ?thesis by fastforce
    qed
    moreover have "stock d' k = stock d k" if "k \<notin> (\<lambda>v. (v, p)) ` set (v # vids)" for k
    proof -
      have k: "k \<notin> (\<lambda>v. (v, p)) ` set vids" "k \<noteq> (v, p)" using that by auto
      have "stock d' k = stock (d\<lparr>stock := (stock d)((v, p) \<mapsto> q - qty v)\<rparr>) k" using ih k(1) by blast
      then show ?thesis using k(2) by simp
    qed
    ultimately show ?case by blast
  qed
  then show "d' = d\<lparr>stock := stock d'\<rparr>"
    and "v \<in> set vids \<Longrightarrow> \<exists>q. stock d (v, p) = Some q \<and> qty v \<le> q \<and> stock d' (v, p) = Some (q - qty v)"
    and "(k \<notin> (\<lambda>v. (v, p)) ` set vids) \<Longrightarrow> stock d' k = stock d k" by blast+
qed

section \<open>The inserted items\<close>

definition line_of :: "OrderItem \<Rightarrow> string \<times> int" where
  "line_of it = (it_VariantID it, it_Quantity it)"

definition row_line :: "item_row \<Rightarrow> string \<times> int" where
  "row_line i = (i_variant_id i, i_quantity i)"

lemma insert_item_Inr:
  assumes "insert_item env i0 d = Inr (iid, d')"
  shows "iid \<notin> i_id ` set (order_items d) \<and> 0 < i_quantity i0 \<and>
    d' = d\<lparr>order_items := order_items d @ [i0\<lparr>i_id := iid\<rparr>], id_count := Suc (id_count d),
       product_sales := (\<lambda>p. product_sales d p +
          (if order_counts d (i_order_id i0) then item_units d p (i0\<lparr>i_id := iid\<rparr>) else 0))\<rparr>"
  using assms by (auto simp: insert_item_def Let_def cong: if_cong split: if_splits)

lemma item_row_of_fields [simp]:
  "i_order_id (item_row_of oid it) = oid" "i_quantity (item_row_of oid it) = it_Quantity it"
  "i_variant_id (item_row_of oid it) = it_VariantID it"
  by (simp_all add: item_row_of_def)

lemma item_units_cong:
  "variants d = variants d' \<Longrightarrow> item_units d p i = item_units d' p i"
  by (simp add: item_units_def product_of_def)

lemma insertItems_effect:
  assumes "yields (insertItems env oid is items) d items' d'" and "distinct is"
    and "\<forall>i \<in> set is. i < length items"
  shows "\<exists>rows. map row_line rows = map (\<lambda>i. line_of (items ! i)) is \<and>
     (\<forall>r \<in> set rows. i_order_id r = oid \<and> 0 < i_quantity r) \<and>
     (distinct (map i_id (order_items d)) \<longrightarrow> distinct (map i_id (order_items d @ rows))) \<and>
     d' = d\<lparr>order_items := order_items d @ rows, id_count := id_count d + length is,
       product_sales := (\<lambda>p. product_sales d p +
         (if order_counts d oid then (\<Sum>r \<leftarrow> rows. item_units d p r) else 0))\<rparr>"
  using assms
proof (induction "is" arbitrary: items d)
  case Nil
  then have "items' = items" "d' = d" by (auto elim!: go_elim)
  then show ?case by (intro exI [of _ "[]"]) (simp cong: if_cong)
next
  case (Cons i "is")
  obtain iid d1 where ins: "insert_item env (item_row_of oid (items ! i)) d = Inr (iid, d1)"
    and y: "yields (insertItems env oid is (items[i := (items ! i)\<lparr>it_OrderID := oid, it_ID := iid\<rparr>])) d1 items' d'"
    using Cons.prems(1) by (auto elim!: go_elim)
  let ?r = "(item_row_of oid (items ! i))\<lparr>i_id := iid\<rparr>"
  let ?items = "items[i := (items ! i)\<lparr>it_OrderID := oid, it_ID := iid\<rparr>]"
  from insert_item_Inr [OF ins] have r: "iid \<notin> i_id ` set (order_items d)" "0 < i_quantity ?r"
    and d1: "d1 = d\<lparr>order_items := order_items d @ [?r], id_count := Suc (id_count d),
       product_sales := (\<lambda>p. product_sales d p + (if order_counts d oid then item_units d p ?r else 0))\<rparr>"
    by simp_all
  have "distinct is" "\<forall>j \<in> set is. j < length ?items" using Cons.prems(2,3) by auto
  from Cons.IH [OF y this] obtain rows where
      rows: "map row_line rows = map (\<lambda>j. line_of (?items ! j)) is"
      "\<forall>r \<in> set rows. i_order_id r = oid \<and> 0 < i_quantity r"
      "distinct (map i_id (order_items d1)) \<longrightarrow> distinct (map i_id (order_items d1 @ rows))"
    and d': "d' = d1\<lparr>order_items := order_items d1 @ rows, id_count := id_count d1 + length is,
       product_sales := (\<lambda>p. product_sales d1 p +
         (if order_counts d1 oid then (\<Sum>r \<leftarrow> rows. item_units d1 p r) else 0))\<rparr>" by auto
  have "map (\<lambda>j. line_of (?items ! j)) is = map (\<lambda>j. line_of (items ! j)) is"
  proof (intro map_cong refl)
    fix j assume "j \<in> set is"
    then have "j \<noteq> i" using Cons.prems(2) by auto
    then show "line_of (?items ! j) = line_of (items ! j)" by simp
  qed
  then have "map row_line (?r # rows) = map (\<lambda>j. line_of (items ! j)) (i # is)"
    using rows(1) by (simp add: row_line_def line_of_def)
  moreover have "\<forall>r \<in> set (?r # rows). i_order_id r = oid \<and> 0 < i_quantity r"
    using rows(2) r(2) by simp
  moreover have "distinct (map i_id (order_items d)) \<longrightarrow> distinct (map i_id (order_items d @ ?r # rows))"
    using rows(3) r(1) by (simp add: d1)
  moreover have "d' = d\<lparr>order_items := order_items d @ ?r # rows, id_count := id_count d + length (i # is),
       product_sales := (\<lambda>p. product_sales d p +
         (if order_counts d oid then (\<Sum>r \<leftarrow> ?r # rows. item_units d p r) else 0))\<rparr>"
  proof -
    have u: "item_units d1 p r = item_units d p r" for p r by (rule item_units_cong) (simp add: d1)
    have c: "order_counts d1 oid = order_counts d oid" by (simp add: d1 order_counts_def)
    have "product_sales d1 p + (if order_counts d1 oid then (\<Sum>r \<leftarrow> rows. item_units d1 p r) else 0) =
      product_sales d p + (if order_counts d oid then (\<Sum>r \<leftarrow> ?r # rows. item_units d p r) else 0)" for p
      unfolding c u by (simp add: d1)
    then show ?thesis by (simp add: d') (simp add: d1)
  qed
  ultimately show ?case by blast
qed

lemma mset_itemsInProductOrder: "mset (itemsInProductOrder items snaps) = mset [0..<length items]"
  by (simp add: itemsInProductOrder_def)

lemma itemsInProductOrder_props:
  "distinct (itemsInProductOrder items snaps)" "set (itemsInProductOrder items snaps) = {0..<length items}"
  by (simp_all add: itemsInProductOrder_def)

lemma mset_map_nth_perm:
  assumes "mset is = mset [0..<length xs]"
  shows "mset (map (\<lambda>i. f (xs ! i)) is) = mset (map f xs)"
proof -
  have "mset (map (\<lambda>i. f (xs ! i)) is) = mset (map (\<lambda>i. f (xs ! i)) [0..<length xs])"
    using assms by (metis mset_map)
  also have "map (\<lambda>i. f (xs ! i)) [0..<length xs] = map f xs"
    by (rule nth_equalityI) simp_all
  finally show ?thesis .
qed

section \<open>A placed order\<close>

text \<open>
  What the transaction of \<open>createOrder\<close> wrote: the order row \<open>r\<close>, its item rows, the first row of
  its history, packed by the point \<open>p\<close>, between the tables \<open>d\<close> and \<open>d'\<close>. \<open>lines\<close> is what was ordered.
\<close>

definition taken :: "db \<Rightarrow> string \<Rightarrow> string list \<Rightarrow> (string \<Rightarrow> int) \<Rightarrow> string \<times> string \<Rightarrow> int option" where
  "taken d p vids qty k =
     (if snd k = p \<and> fst k \<in> set vids then Some (the (stock d k) - qty (fst k)) else stock d k)"

definition order_lines :: "(string \<Rightarrow> int) \<Rightarrow> string list \<Rightarrow> (string \<times> int) list" where
  "order_lines qty vids = map (\<lambda>v. (v, qty v)) vids"

definition placed_rows ::
  "PlaceOrderInput \<Rightarrow> PaymentMethod \<Rightarrow> (string \<Rightarrow> int) \<Rightarrow> string list \<Rightarrow> db \<Rightarrow> order_row \<Rightarrow> string \<Rightarrow>
   item_row list \<Rightarrow> history_row \<Rightarrow> db \<Rightarrow> bool" where
  "placed_rows inp method qty vids d r p rows h d' \<longleftrightarrow>
     o_customer_id r = in_CustomerID inp \<and> o_status r = StatusPlaced \<and> o_payment_method r = method \<and>
     o_payment_status r = (if method = PaymentOnlineCard then Some PaymentPending else None) \<and>
     o_point_id r = Some p \<and> \<not> o_refund_required r \<and> o_created_at r = clock d \<and> order_check r \<and>
     \<bar>o_total_amount r\<bar> < numeric_10_2_bound \<and>
     o_order_number r = formatOrderNumber (date_digits (clock d)) (numbers_of_day d (date_digits (clock d)) + 1) \<and>
     o_id r \<notin> o_id ` set (orders d) \<and> o_order_number r \<notin> o_order_number ` set (orders d) \<and>
     orders d' = orders d @ [r] \<and>
     covers d p vids qty \<and> stock d' = taken d p vids qty \<and>
     (\<forall>i \<in> set rows. i_order_id i = o_id r \<and> 0 < i_quantity i) \<and>
     mset (map row_line rows) = mset (order_lines qty vids) \<and>
     order_items d' = order_items d @ rows \<and>
     (distinct (map i_id (order_items d)) \<longrightarrow> distinct (map i_id (order_items d'))) \<and>
     h_order_id h = o_id r \<and> h_from_status h = None \<and> h_to_status h = StatusPlaced \<and>
     h_actor_type h = ActorCustomer \<and> h_created_at h = clock d \<and>
     h_id h \<notin> h_id ` set (order_status_history d) \<and>
     order_status_history d' = order_status_history d @ [h] \<and>
     (\<forall>x. product_sales d' x = product_sales d x + (\<Sum>i \<leftarrow> rows. item_units d x i)) \<and>
     cart_items d' = (if in_ClearCart inp then cart_items (clearCartLines (in_CustomerID inp) vids d)
                      else cart_items d) \<and>
     payments d' = payments d \<and> variants d' = variants d \<and> products d' = products d \<and>
     points d' = points d \<and> zones d' = zones d \<and> addresses d' = addresses d \<and> clock d' = clock d"

lemma taken_eqI:
  assumes "\<And>v. v \<in> set vids \<Longrightarrow> \<exists>q. stock d (v, p) = Some q \<and> f (v, p) = Some (q - qty v)"
    and "\<And>k. k \<notin> (\<lambda>v. (v, p)) ` set vids \<Longrightarrow> f k = stock d k"
  shows "f = taken d p vids qty"
proof
  fix k show "f k = taken d p vids qty k"
    using assms(1) [of "fst k"] assms(2) [of k] by (cases k) (auto simp: taken_def)
qed

lemma insert_order_Inr:
  assumes "insert_order env r0 d = Inr (r, d')"
  obtains oid where "r = r0\<lparr>o_id := oid, o_created_at := clock d, o_updated_at := clock d\<rparr>"
    and "d' = d\<lparr>orders := orders d @ [r], id_count := Suc (id_count d)\<rparr>"
    and "oid \<notin> o_id ` set (orders d)" "o_order_number r0 \<notin> o_order_number ` set (orders d)"
    and "order_check r" "\<bar>o_total_amount r\<bar> < numeric_10_2_bound"
proof (rule that)
  show "r = r0\<lparr>o_id := gen_uuid env (id_count d), o_created_at := clock d, o_updated_at := clock d\<rparr>"
    and "d' = d\<lparr>orders := orders d @ [r], id_count := Suc (id_count d)\<rparr>"
    and "gen_uuid env (id_count d) \<notin> o_id ` set (orders d)"
    and "o_order_number r0 \<notin> o_order_number ` set (orders d)"
    and "order_check r" "\<bar>o_total_amount r\<bar> < numeric_10_2_bound"
    using assms by (auto simp: insert_order_def Let_def split: if_splits)
qed

lemma insert_history_Inr:
  assumes "insert_history env h0 d = Inr (u, d')"
  obtains hid where "hid \<notin> h_id ` set (order_status_history d)"
    and "d' = d\<lparr>order_status_history := order_status_history d @ [h0\<lparr>h_id := hid, h_created_at := clock d\<rparr>],
                id_count := Suc (id_count d)\<rparr>"
proof (rule that)
  show "gen_uuid env (id_count d) \<notin> h_id ` set (order_status_history d)"
    and "d' = d\<lparr>order_status_history := order_status_history d @
           [h0\<lparr>h_id := gen_uuid env (id_count d), h_created_at := clock d\<rparr>], id_count := Suc (id_count d)\<rparr>"
    using assms by (auto simp: insert_history_def Let_def split: if_splits)
qed

lemma nextOrderNumber_effect [go_elim]:
  "yields nextOrderNumber d n d' \<Longrightarrow>
   (n = formatOrderNumber (date_digits (clock d)) (numbers_of_day d (date_digits (clock d)) + 1) \<Longrightarrow>
    d' = d \<Longrightarrow> P) \<Longrightarrow> P"
  unfolding nextOrderNumber_def by (auto elim!: go_elim)

lemma checkOpenOrdersLimit_effect [go_elim]:
  "yields (checkOpenOrdersLimit cu m) d u d' \<Longrightarrow> (open_orders d cu < m \<Longrightarrow> d' = d \<Longrightarrow> P) \<Longrightarrow> P"
  unfolding checkOpenOrdersLimit_def by (auto elim!: go_elim split: if_splits)

lemma verifyAddressOwnership_effect [go_elim]:
  "yields (verifyAddressOwnership cu a) d u d' \<Longrightarrow>
   (\<exists>x \<in> set (addresses d). a_id x = a \<and> a_customer_id x = cu \<Longrightarrow> d' = d \<Longrightarrow> P) \<Longrightarrow> P"
  unfolding verifyAddressOwnership_def by (auto elim!: go_elim split: if_splits)

lemma loadVariantSnapshots_effect [go_elim]:
  "yields (loadVariantSnapshots vids) d snaps d' \<Longrightarrow>
   (snaps = (\<lambda>v. if v \<in> set vids then snapshot_of d v else None) \<Longrightarrow> d' = d \<Longrightarrow> P) \<Longrightarrow> P"
  unfolding loadVariantSnapshots_def by (auto elim!: go_elim split: if_splits)

lemma recordStatusTx_effect:
  assumes "yields (recordStatusTx env oid fr to a sid note) d u d'"
  obtains h where "h_order_id h = oid" "h_from_status h = fr" "h_to_status h = to" "h_actor_type h = a"
    "h_created_at h = clock d" "h_id h \<notin> h_id ` set (order_status_history d)"
    "d' = d\<lparr>order_status_history := order_status_history d @ [h], id_count := Suc (id_count d)\<rparr>"
proof -
  from assms show ?thesis
    unfolding recordStatusTx_def
    by (elim yields_stmt insert_history_Inr) (rule that, auto)
qed

lemma place_body_effect:
  assumes "yields (place_body env inp method after address pickup qty vids comment key) d out d'"
    and "distinct vids"
  obtains r p rows h d1 order pid where
    "out = Placed order pid" "yields (after order) d1 pid d'"
    "placed_rows inp method qty vids d r p rows h d1"
    "ID order = o_id r" "CustomerID order = o_customer_id r" "Method order = method"
    "numeric_of_float (TotalAmount order) = o_total_amount r"
    "0 < MaxOpenOrders (settings env) \<Longrightarrow> open_orders d (in_CustomerID inp) < MaxOpenOrders (settings env)"
    "o_idempotency_key r = key" "o_address_id r = address"
    "\<And>q. pickup = Some q \<Longrightarrow> q \<noteq> [] \<Longrightarrow> p = q"
proof -
  let ?st = "settings env" and ?cu = "in_CustomerID inp"
  obtain u1 d1 zone d2 chosen d3 snaps d4 u2 d5 p d6 u3 d7 number d8 r d9 items d10 u4 d11 u5 d12 pid d13 where
      y1: "yields (if 0 < MaxOpenOrders ?st then checkOpenOrdersLimit ?cu (MaxOpenOrders ?st) else returnG ()) d u1 d1"
    and y2: "yields (case address of None \<Rightarrow> returnG None
             | Some a \<Rightarrow> bindG (verifyAddressOwnership ?cu a)
                           (\<lambda>_. resolveDeliveryZoneTx env (in_DeliveryZoneID inp))) d1 zone d2"
    and y3: "yields (case pickup of None \<Rightarrow> returnG []
             | Some p \<Rightarrow> bindG (pointIsActive p) (\<lambda>active.
                 if \<not> active then failG (AppError (NotFound ''pickup_point_not_found''))
                 else returnG p)) d2 chosen d3"
    and y4: "yields (loadVariantSnapshots vids) d3 snaps d4"
    and y5: "yields (liftG (checkSnapshots snaps vids)) d4 u2 d5"
    and y6: "yields (if chosen = [] then pickFulfillmentPoint vids qty snaps else returnG chosen) d5 p d6"
    and y7: "yields (lockAndDecrementStock p vids qty snaps) d6 u3 d7"
    and y8: "yields nextOrderNumber d7 number d8"
    and y9: "yields (stmt (insert_order env (new_order_row inp method address p number comment key zone
               (deliveryFee ?st (address \<noteq> None) zone (items_total snaps qty vids))
               (roundSom_total (items_total snaps qty vids)
                 (deliveryFee ?st (address \<noteq> None) zone (items_total snaps qty vids)))))) d8 r d9"
    and y10: "yields (insertItems env (o_id r) (itemsInProductOrder (map (new_item snaps qty) vids) snaps)
               (map (new_item snaps qty) vids)) d9 items d10"
    and y11: "yields (recordStatusTx env (o_id r) None StatusPlaced ActorCustomer [] []) d10 u4 d11"
    and y12: "yields (if in_ClearCart inp then exec (clearCartLines ?cu vids) else returnG ()) d11 u5 d12"
    and y13: "yields (after (order_of_row r zone
               (deliveryFee ?st (address \<noteq> None) zone (items_total snaps qty vids))
               (roundSom_total (items_total snaps qty vids)
                 (deliveryFee ?st (address \<noteq> None) zone (items_total snaps qty vids))) items)) d12 pid d13"
    and y14: "yields (returnG (Placed (order_of_row r zone
               (deliveryFee ?st (address \<noteq> None) zone (items_total snaps qty vids))
               (roundSom_total (items_total snaps qty vids)
                 (deliveryFee ?st (address \<noteq> None) zone (items_total snaps qty vids))) items) pid)) d13 out d'"
    using assms(1) unfolding place_body_def Let_def
    by (elim yields_bind) (rule that; assumption)
  have d1: "d1 = d" and lim: "0 < MaxOpenOrders ?st \<longrightarrow> open_orders d ?cu < MaxOpenOrders ?st"
    using y1 by (auto elim!: go_elim split: if_splits)
  have d2: "d2 = d1" using y2 by (auto elim!: go_elim dest: resolve_effect(1) split: option.splits)
  have d3: "d3 = d2" and ch: "\<forall>q. pickup = Some q \<longrightarrow> chosen = q" "pickup = None \<longrightarrow> chosen = []"
    using y3 by (auto elim!: go_elim simp: pointIsActive_def split: option.splits if_splits)
  have d4: "d4 = d3" using y4 by (auto elim!: go_elim)
  have d5: "d5 = d4" using y5 by (auto elim!: go_elim)
  have d6: "d6 = d5" using y6 by (auto elim!: go_elim dest: pickFulfillmentPoint_effect(1) split: if_splits)
  have pk: "p = q" if "pickup = Some q" "q \<noteq> []" for q
    using y6 ch that by (auto elim!: go_elim)
  note same = d1 d2 d3 d4 d5 d6
  note dec = lockAndDecrement_effect [OF y7 assms(2)]
  have st7: "stock d7 = taken d p vids qty"
    by (rule taken_eqI) (use dec(2,3) same in \<open>blast+\<close>)
  have cov: "covers d p vids qty" using dec(2) same by (fastforce simp: covers_def)
  have d7: "d7 = d\<lparr>stock := taken d p vids qty\<rparr>" using dec(1) same st7 by metis
  have d8: "d8 = d7" and num: "number = formatOrderNumber (date_digits (clock d))
      (numbers_of_day d (date_digits (clock d)) + 1)"
    using y8 by (auto elim!: go_elim simp: numbers_of_day_def d7)
  let ?fee = "deliveryFee ?st (address \<noteq> None) zone (items_total snaps qty vids)"
  let ?amount = "roundSom_total (items_total snaps qty vids) ?fee"
  let ?r0 = "new_order_row inp method address p number comment key zone ?fee ?amount"
  let ?items = "map (new_item snaps qty) vids"
  let ?is = "itemsInProductOrder ?items snaps"
  from y9 obtain oid where r: "r = ?r0\<lparr>o_id := oid, o_created_at := clock d, o_updated_at := clock d\<rparr>"
    and d9: "d9 = d7\<lparr>orders := orders d @ [r], id_count := Suc (id_count d)\<rparr>"
    and fresh: "oid \<notin> o_id ` set (orders d)" "number \<notin> o_order_number ` set (orders d)"
    and chk: "order_check r" "\<bar>o_total_amount r\<bar> < numeric_10_2_bound"
    unfolding d8 d7 by (elim yields_stmt insert_order_Inr) (auto simp: new_order_row_def)
  have rid: "o_id r = oid" by (simp add: r)
  have "distinct ?is" "\<forall>i \<in> set ?is. i < length ?items" by (simp_all add: itemsInProductOrder_props)
  from insertItems_effect [OF y10 this] obtain rows where
      rows: "map row_line rows = map (\<lambda>i. line_of (?items ! i)) ?is"
      "\<forall>i \<in> set rows. i_order_id i = o_id r \<and> 0 < i_quantity i"
      "distinct (map i_id (order_items d9)) \<longrightarrow> distinct (map i_id (order_items d9 @ rows))"
    and d10: "d10 = d9\<lparr>order_items := order_items d9 @ rows, id_count := id_count d9 + length ?is,
       product_sales := (\<lambda>x. product_sales d9 x +
         (if order_counts d9 (o_id r) then (\<Sum>i \<leftarrow> rows. item_units d9 x i) else 0))\<rparr>" by blast
  have counts: "order_counts d9 (o_id r)" by (auto simp: order_counts_def d9 r new_order_row_def)
  have lines: "mset (map row_line rows) = mset (order_lines qty vids)"
    unfolding rows(1) mset_map_nth_perm [OF mset_itemsInProductOrder]
    by (simp add: order_lines_def line_of_def new_item_def comp_def)
  from y11 obtain h where h: "h_order_id h = o_id r" "h_from_status h = None" "h_to_status h = StatusPlaced"
      "h_actor_type h = ActorCustomer" "h_created_at h = clock d10"
      "h_id h \<notin> h_id ` set (order_status_history d10)"
    and d11: "d11 = d10\<lparr>order_status_history := order_status_history d10 @ [h], id_count := Suc (id_count d10)\<rparr>"
    by (rule recordStatusTx_effect)
  have d12: "d12 = (if in_ClearCart inp then clearCartLines ?cu vids d11 else d11)"
    using y12 by (auto elim!: go_elim)
  have out: "out = Placed (order_of_row r zone ?fee ?amount items) pid" "d' = d13"
    using y14 by (auto elim!: go_elim)
  have u: "item_units d9 = item_units d" by (intro ext item_units_cong) (simp add: d9 d7)
  have sales: "product_sales d10 x = product_sales d x + (\<Sum>i \<leftarrow> rows. item_units d x i)" for x
    using counts by (simp add: d10 u) (simp add: d9 d7)
  have pr: "placed_rows inp method qty vids d r p rows h d12"
    unfolding placed_rows_def
    using rows lines cov chk fresh h num sales
    by (simp add: d12 d11 d10 d9 d7 rid clearCartLines_def) (simp add: r new_order_row_def)
  show ?thesis
  proof (rule that [OF out(1)])
    show "yields (after (order_of_row r zone ?fee ?amount items)) d12 pid d'" using y13 out(2) by simp
    show "placed_rows inp method qty vids d r p rows h d12" by (rule pr)
    show "0 < MaxOpenOrders (settings env) \<Longrightarrow> open_orders d (in_CustomerID inp) < MaxOpenOrders (settings env)"
      using lim by simp
    show "pickup = Some q \<Longrightarrow> q \<noteq> [] \<Longrightarrow> p = q" for q by (rule pk)
  qed (simp_all add: order_of_row_def r new_order_row_def)
qed

section \<open>The whole operation\<close>

text \<open>\<open>findIdempotentOrder\<close> may free the key of one expired order, and changes nothing else.\<close>

definition release_key :: "string \<Rightarrow> db \<Rightarrow> db" where
  "release_key oid d =
     d\<lparr>orders := map (\<lambda>r. if o_id r = oid then r\<lparr>o_idempotency_key := None\<rparr> else r) (orders d)\<rparr>"

lemma sales_shift_same [simp]: "sales_shift s s = 0"
  by (simp add: sales_shift_def)

lemma sum_list_zero: "(\<And>x. x \<in> set xs \<Longrightarrow> f x = (0 :: int)) \<Longrightarrow> (\<Sum>x \<leftarrow> xs. f x) = 0"
  by (induction xs) auto

lemma update_orders_keep_status:
  assumes "update_orders P f d = Inr (n, d')" and "\<And>r. r \<in> set (orders d) \<Longrightarrow> P r \<Longrightarrow> o_status (f r) = o_status r"
  shows "d' = d\<lparr>orders := map (\<lambda>r. if P r then f r else r) (orders d)\<rparr>"
proof -
  have "(\<Sum>r \<leftarrow> orders d. if P r then sales_shift (o_status r) (o_status (f r)) *
          order_units d (o_id r) p else 0) = 0" for p
    using assms(2) by (intro sum_list_zero) auto
  then show ?thesis unfolding update_orders_Inr(2) [OF assms(1)] by simp
qed

lemma findIdempotentOrder_effect:
  assumes "yields (findIdempotentOrder cu key) d oid d'"
  shows "d' = d \<or> (oid = [] \<and> (\<exists>x. d' = release_key x d))"
    and "oid \<noteq> [] \<Longrightarrow> \<exists>r \<in> set (orders d). o_id r = oid \<and> o_customer_id r = cu \<and>
           o_idempotency_key r = Some key \<and> clock d - IdempotencyWindow < o_created_at r"
proof -
  let ?f = "find (\<lambda>r. o_customer_id r = cu \<and> o_idempotency_key r = Some key) (orders d)"
  have "(d' = d \<or> (oid = [] \<and> (\<exists>x. d' = release_key x d))) \<and>
    (oid \<noteq> [] \<longrightarrow> (\<exists>r \<in> set (orders d). o_id r = oid \<and> o_customer_id r = cu \<and>
           o_idempotency_key r = Some key \<and> clock d - IdempotencyWindow < o_created_at r))"
  proof (cases ?f)
    case None
    have "oid = [] \<and> d' = d"
      using assms unfolding findIdempotentOrder_def
      by (elim yields_bind yields_query) (simp add: None, auto elim!: go_elim)
    then show ?thesis by simp
  next
    case (Some r)
    note m = find_Some_mem [OF Some]
    have "(if clock d - IdempotencyWindow < o_created_at r then oid = o_id r \<and> d' = d
           else oid = [] \<and> d' = release_key (o_id r) d)"
      using assms unfolding findIdempotentOrder_def
      by (elim yields_bind yields_query)
         (simp add: Some, auto elim!: go_elim dest!: update_orders_keep_status simp: release_key_def)
    with m show ?thesis by (auto split: if_splits)
  qed
  then show "d' = d \<or> (oid = [] \<and> (\<exists>x. d' = release_key x d))"
    and "oid \<noteq> [] \<Longrightarrow> \<exists>r \<in> set (orders d). o_id r = oid \<and> o_customer_id r = cu \<and>
           o_idempotency_key r = Some key \<and> clock d - IdempotencyWindow < o_created_at r" by blast+
qed

lemma createOrder_effect:
  assumes "yields (createOrder env inp method after) d (order, pid, created) d'"
  obtains (replayed) k where "\<not> created" "pid = []" "d' = d" "CustomerID order = in_CustomerID inp"
      "normalizeIdempotencyKey (in_IdempotencyKey inp) = Inr (Some k)"
      "\<exists>r \<in> set (orders d). o_customer_id r = in_CustomerID inp \<and> o_idempotency_key r = Some k \<and>
           clock d - IdempotencyWindow < o_created_at r"
  | (placed) qty vids d0 d1 r p rows h where "created"
      "mergeItemQuantities env (in_Items inp) = Inr (qty, vids)"
      "d0 = d \<or> (\<exists>x. d0 = release_key x d)"
      "placed_rows inp method qty vids d0 r p rows h d1" "yields (after order) d1 pid d'"
      "ID order = o_id r" "CustomerID order = o_customer_id r" "Method order = method"
      "numeric_of_float (TotalAmount order) = o_total_amount r"
      "0 < MaxOpenOrders (settings env) \<Longrightarrow> open_orders d0 (in_CustomerID inp) < MaxOpenOrders (settings env)"
      "normalizeIdempotencyKey (in_IdempotencyKey inp) = Inr (o_idempotency_key r)"
      "validateFulfillment (in_AddressID inp) (in_PickupPointID inp) = Inr ()"
      "\<And>q. in_PickupPointID inp = Some q \<Longrightarrow> q \<noteq> [] \<Longrightarrow> p = q"
proof -
  let ?a = "blank_to_nil (in_AddressID inp)" and ?p = "blank_to_nil (in_PickupPointID inp)"
  obtain qty vids comment key out d2 where
      v: "validateFulfillment (in_AddressID inp) (in_PickupPointID inp) = Inr ()"
    and m: "mergeItemQuantities env (in_Items inp) = Inr (qty, vids)"
    and k: "normalizeIdempotencyKey (in_IdempotencyKey inp) = Inr key"
    and t: "yields (place_tx env inp method after ?a ?p qty vids comment key) d out d2"
    and o: "yields (case out of
       Replayed oid \<Rightarrow> bindG (GetOrder env (in_CustomerID inp) oid) (\<lambda>existing. returnG (existing, [], False))
     | Placed order paymentID \<Rightarrow>
         bindG (if method = PaymentCashOnDelivery then notify (OrderCreated (ID order)) else returnG ())
           (\<lambda>_. returnG (order, paymentID, True))) d2 (order, pid, created) d'"
    using assms unfolding createOrder_def Let_def
    by (elim yields_bind yields_lift) (auto elim!: yields_bind yields_lift yields_withTx)
  obtain d0 rep where
      f: "yields (case key of None \<Rightarrow> returnG [] | Some k \<Rightarrow> findIdempotentOrder (in_CustomerID inp) k) d rep d0"
    and b: "yields (if rep \<noteq> [] then returnG (Replayed rep)
              else place_body env inp method after ?a ?p qty vids comment key) d0 out d2"
    using t unfolding place_tx_def by (auto elim!: yields_bind yields_query)
  show ?thesis
  proof (cases "rep = []")
    case False
    then obtain c where key: "key = Some c" and fc: "yields (findIdempotentOrder (in_CustomerID inp) c) d rep d0"
      using f by (auto elim!: go_elim split: option.splits)
    have "d0 = d" using findIdempotentOrder_effect(1) [OF fc] False by blast
    moreover have "out = Replayed rep" "d2 = d0" using b False by (auto elim!: go_elim)
    ultimately have "\<not> created" "pid = []" "d' = d" "CustomerID order = in_CustomerID inp"
      using o by (auto elim!: yields_bind yields_return dest: GetOrder_effect)
    then show ?thesis
      using replayed [of c] k key findIdempotentOrder_effect(2) [OF fc False] by blast
  next
    case True
    have d0: "d0 = d \<or> (\<exists>x. d0 = release_key x d)"
      using f by (auto elim!: go_elim dest: findIdempotentOrder_effect(1) split: option.splits)
    have y: "yields (place_body env inp method after ?a ?p qty vids comment key) d0 out d2"
      using b True by simp
    have dv: "distinct vids" using mergeItemQuantities_Inr(2) [OF m] .
    show ?thesis
    proof (rule place_body_effect [OF y dv])
      fix r p rows h d1 ord pid'
      assume out: "out = Placed ord pid'" and *: "yields (after ord) d1 pid' d2"
        "placed_rows inp method qty vids d0 r p rows h d1" "ID ord = o_id r" "CustomerID ord = o_customer_id r"
        "Method ord = method" "numeric_of_float (TotalAmount ord) = o_total_amount r"
        "0 < MaxOpenOrders (settings env) \<Longrightarrow> open_orders d0 (in_CustomerID inp) < MaxOpenOrders (settings env)"
        "o_idempotency_key r = key" "\<And>q. ?p = Some q \<Longrightarrow> q \<noteq> [] \<Longrightarrow> p = q"
      have c: "created" "order = ord" "pid' = pid" "d' = d2"
        using o unfolding out by (auto elim!: go_elim split: if_splits)
      show ?thesis
      proof (rule placed [OF c(1) m d0, of r p rows h d1])
        show "in_PickupPointID inp = Some q \<Longrightarrow> q \<noteq> [] \<Longrightarrow> p = q" for q
          using *(9) [of q] by (simp add: blank_to_nil_def)
      qed (use * c k v in simp_all)
    qed
  qed
qed

end
