(* ===== verification/Lifecycle.thy ===== *)
theory Lifecycle
  imports CheckoutFacts
begin

text \<open>
  \<^verbatim>\<open>internal/orders/lifecycle.go\<close> and \<^verbatim>\<open>admin.go\<close>: every status transition of an order and its side
  effects, the cancellation that returns the stock, the entry points of staff, customer and
  payment system, and the reads of the admin panel. \<open>FOR UPDATE\<close> does not appear (see
  \<^verbatim>\<open>Database\<close>). The name of the acting staff member in the history (\<^verbatim>\<open>actor_name\<close>) is left out.
\<close>

section \<open>The status machine\<close>

definition validStatusTransition :: "OrderStatus \<Rightarrow> OrderStatus \<Rightarrow> bool" where
  "validStatusTransition frm to =
     (if frm = to then False
      else case frm of
        StatusPlaced \<Rightarrow> to = StatusConfirmed \<or> to = StatusCancelled
      | StatusConfirmed \<Rightarrow> to = StatusCourierAssigned \<or> to = StatusCancelled
      | StatusCourierAssigned \<Rightarrow> to = StatusDelivered \<or> to = StatusCancelled
      | _ \<Rightarrow> False)"

definition paymentAllowsConfirm :: "Order \<Rightarrow> bool" where
  "paymentAllowsConfirm ord =
     (if Method ord \<noteq> PaymentOnlineCard then True else PayStatus ord = Some PaymentPaid)"

definition customerCanCancel :: "Order \<Rightarrow> bool" where
  "customerCanCancel ord =
     (if Status ord \<noteq> StatusPlaced then False
      else if Method ord = PaymentOnlineCard \<and> PayStatus ord = Some PaymentPaid then False
      else True)"

section \<open>Actors\<close>

record Staff =
  st_ID :: string
  st_Role :: Role
  st_PointID :: "string option"

record Actor =
  ac_Type :: ActorType
  ac_StaffID :: string
  ac_Role :: "Role option"

definition SystemActor :: Actor where
  "SystemActor = \<lparr>ac_Type = ActorSystem, ac_StaffID = [], ac_Role = None\<rparr>"

definition CustomerActor :: Actor where
  "CustomerActor = \<lparr>ac_Type = ActorCustomer, ac_StaffID = [], ac_Role = None\<rparr>"

definition staffActor :: "Staff option \<Rightarrow> Actor option" where
  "staffActor ctx = map_option
     (\<lambda>st. \<lparr>ac_Type = ActorStaff, ac_StaffID = st_ID st, ac_Role = Some (st_Role st)\<rparr>) ctx"

definition staffCanAccessOrderPoint :: "Staff \<Rightarrow> string option \<Rightarrow> bool" where
  "staffCanAccessOrderPoint st orderPointID =
     (if st_Role st \<noteq> RolePointStaff then True
      else if st_PointID st = None \<or> orderPointID = None then False
      else st_PointID st = orderPointID)"

section \<open>Transitions under the lock\<close>

definition lockOrderTx :: "(order_row \<Rightarrow> bool) \<Rightarrow> Order go" where
  "lockOrderTx P = select_order P"

definition no_rows :: go_error where "no_rows = PlainError ''sql: no rows in result set''"

text \<open>\<^verbatim>\<open>UPDATE orders SET ..., updated_at = now() WHERE id = $n RETURNING updated_at\<close>.\<close>

definition update_order_returning :: "string \<Rightarrow> (order_row \<Rightarrow> order_row) \<Rightarrow> int go" where
  "update_order_returning oid f =
     stmt (\<lambda>d. case update_orders (\<lambda>r. o_id r = oid) (\<lambda>r. (f r)\<lparr>o_updated_at := clock d\<rparr>) d of
       Inl e \<Rightarrow> Inl e
     | Inr (n, d') \<Rightarrow> if n = 0 then Inl no_rows else Inr (clock d, d'))"

fun add_quantities :: "(string \<times> int) list \<Rightarrow> (string \<Rightarrow> int) \<Rightarrow> string list \<Rightarrow> (string \<Rightarrow> int) \<times> string list" where
  "add_quantities [] m keys = (m, keys)"
| "add_quantities ((v, q) # rows) m keys =
     add_quantities rows (m(v := m v + q)) (if v \<in> set keys then keys else keys @ [v])"

definition restockOrderTx :: "string \<Rightarrow> string \<Rightarrow> unit go" where
  "restockOrderTx orderID pointID =
     bindG (query (\<lambda>d. map (\<lambda>i. (i_variant_id i, i_quantity i))
              (filter (\<lambda>i. i_order_id i = orderID) (order_items d)))) (\<lambda>rows.
     case add_quantities rows (\<lambda>_. 0) [] of (qtyByVariant, keys) \<Rightarrow>
       forG (\<lambda>v. stmt (put_back_stock v pointID (qtyByVariant v))) (sort keys))"

definition cancelLockedTx :: "env \<Rightarrow> Order \<Rightarrow> Actor \<Rightarrow> string \<Rightarrow> Order go" where
  "cancelLockedTx env ord actor note =
     (case PointID ord of
        None \<Rightarrow> failG (PlainError (''orders: order '' @ ID ord @ '' has no point_id, cannot return stock''))
      | Some pointID \<Rightarrow>
          if pointID = []
          then failG (PlainError (''orders: order '' @ ID ord @ '' has no point_id, cannot return stock''))
          else
            bindG (restockOrderTx (ID ord) pointID) (\<lambda>_.
            bindG (if Method ord = PaymentOnlineCard
                   then case PayStatus ord of
                          Some PaymentPending \<Rightarrow>
                            bindG (stmt (close_pending (\<lambda>p. p_order_id p = ID ord)))
                              (\<lambda>_. returnG (Some PaymentCancelled, RefundRequired ord))
                        | Some PaymentPaid \<Rightarrow> returnG (PayStatus ord, True)
                        | _ \<Rightarrow> returnG (PayStatus ord, RefundRequired ord)
                   else returnG (PayStatus ord, RefundRequired ord)) (\<lambda>(newPayment, refund).
            bindG (update_order_returning (ID ord)
                     (\<lambda>r. r\<lparr>o_status := StatusCancelled, o_payment_status := newPayment,
                             o_refund_required := refund\<rparr>)) (\<lambda>updatedAt.
            bindG (recordStatusTx env (ID ord) (Some (Status ord)) StatusCancelled (ac_Type actor)
                     (ac_StaffID actor) note) (\<lambda>_.
            returnG (ord\<lparr>Status := StatusCancelled, PayStatus := newPayment, RefundRequired := refund,
                         UpdatedAt := updatedAt\<rparr>))))))"

definition transitionLockedTx :: "env \<Rightarrow> Order \<Rightarrow> OrderStatus \<Rightarrow> Actor \<Rightarrow> string \<Rightarrow> Order go" where
  "transitionLockedTx env ord to actor note =
     (if \<not> validStatusTransition (Status ord) to
      then failG (AppError (WithParams (BadRequest ''invalid_status_transition'')
             [(''from'', Quote (status_text (Status ord))), (''to'', Quote (status_text to))]))
      else if to = StatusConfirmed \<and> \<not> paymentAllowsConfirm ord
      then failG (AppError (Conflict ''payment_not_completed''))
      else if to = StatusCancelled then cancelLockedTx env ord actor note
      else
        bindG (update_order_returning (ID ord) (\<lambda>r. r\<lparr>o_status := to\<rparr>)) (\<lambda>updatedAt.
        bindG (recordStatusTx env (ID ord) (Some (Status ord)) to (ac_Type actor) (ac_StaffID actor) note)
          (\<lambda>_. returnG (ord\<lparr>Status := to, UpdatedAt := updatedAt\<rparr>))))"

section \<open>Entry points\<close>

definition admin_update_tx :: "env \<Rightarrow> Actor \<Rightarrow> string \<Rightarrow> OrderStatus \<Rightarrow> (Order \<times> OrderStatus) go" where
  "admin_update_tx env actor idOrNumber newStatus =
     bindG (lockOrderTx (orderKeyPredicate env idOrNumber)) (\<lambda>ord.
     bindG (transitionLockedTx env ord newStatus actor []) (\<lambda>ord'. returnG (ord', Status ord)))"

text \<open>Loading the items is best-effort: the notification goes out before its error is returned.\<close>

definition enrich_then_notify :: "Order \<Rightarrow> notice \<Rightarrow> Order go" where
  "enrich_then_notify ord n =
     bindG (attempt (attachItems [ord])) (\<lambda>r.
     bindG (notify n) (\<lambda>_.
     case r of Inl itemsErr \<Rightarrow> failG itemsErr | Inr os \<Rightarrow> returnG (hd os)))"

definition AdminUpdateStatus :: "env \<Rightarrow> Staff option \<Rightarrow> string \<Rightarrow> OrderStatus \<Rightarrow> Order go" where
  "AdminUpdateStatus env ctx idOrNumber newStatus =
     (case staffActor ctx of
        None \<Rightarrow> failG (AppError (WithVariant (Forbidden ''forbidden'') ''staff_only''))
      | Some actor \<Rightarrow>
          if newStatus = StatusCancelled \<and> ac_Role actor \<noteq> Some RoleOwner
          then failG (AppError (Forbidden ''cancel_forbidden''))
          else bindG (withTx (admin_update_tx env actor idOrNumber newStatus)) (\<lambda>(ord, frm).
               enrich_then_notify ord (OrderStatusChanged (ID ord) frm)))"

definition ErrNotCancellable :: go_error where
  "ErrNotCancellable = AppError (Conflict ''order_not_cancellable'')"

definition customer_cancel_tx :: "env \<Rightarrow> string \<Rightarrow> string \<Rightarrow> Order go" where
  "customer_cancel_tx env customerID idOrNumber =
     bindG (lockOrderTx (\<lambda>r. o_customer_id r = customerID \<and> orderKeyPredicate env idOrNumber r)) (\<lambda>ord.
     if \<not> customerCanCancel ord then failG ErrNotCancellable
     else cancelLockedTx env ord CustomerActor [])"

definition CancelByCustomer :: "env \<Rightarrow> string \<Rightarrow> string \<Rightarrow> Order go" where
  "CancelByCustomer env customerID idOrNumber =
     bindG (withTx (customer_cancel_tx env customerID idOrNumber)) (\<lambda>ord.
     enrich_then_notify ord (OrderCancelledByCustomer (ID ord)))"

definition NotePaymentExpired :: string where "NotePaymentExpired = ''payment_expired''"
definition NotePaymentOpenFailed :: string where "NotePaymentOpenFailed = ''payment_open_failed''"
definition NotePaymentCancelled :: string where "NotePaymentCancelled = ''payment_cancelled''"

definition CancelUnpaidOrderTx :: "env \<Rightarrow> string \<Rightarrow> string \<Rightarrow> bool go" where
  "CancelUnpaidOrderTx env orderID note =
     bindG (lockOrderTx (\<lambda>r. o_id r = orderID)) (\<lambda>ord.
     if Status ord \<noteq> StatusPlaced then returnG False
     else bindG (cancelLockedTx env ord SystemActor note) (\<lambda>_. returnG True))"

definition MarkRefundRequiredTx :: "string \<Rightarrow> unit go" where
  "MarkRefundRequiredTx orderID =
     bindG (stmt (\<lambda>d. update_orders (\<lambda>r. o_id r = orderID)
              (\<lambda>r. r\<lparr>o_refund_required := True, o_updated_at := clock d\<rparr>) d)) (\<lambda>_. returnG ())"

section \<open>Reads of the admin panel\<close>

definition StatusHistory :: "string \<Rightarrow> StatusChange list go" where
  "StatusHistory orderID =
     query (\<lambda>d. map (\<lambda>h. \<lparr>sc_FromStatus = h_from_status h, sc_ToStatus = h_to_status h,
                 sc_ActorType = h_actor_type h, sc_ActorStaffID = h_actor_staff_id h,
                 sc_Note = h_note h, sc_CreatedAt = h_created_at h\<rparr>)
       (sort_key h_created_at (sort_key h_id
         (filter (\<lambda>h. h_order_id h = orderID) (order_status_history d)))))"

definition AdminGetOrder :: "env \<Rightarrow> string \<Rightarrow> Order go" where
  "AdminGetOrder env idOrNumber =
     bindG (getOrderAnyCustomer env idOrNumber) (\<lambda>ord.
     bindG (StatusHistory (ID ord)) (\<lambda>hist. returnG (ord\<lparr>History := hist\<rparr>)))"

definition NotifyOrderPaid :: "env \<Rightarrow> string \<Rightarrow> unit go" where
  "NotifyOrderPaid env orderID =
     bindG (getOrderAnyCustomer env orderID) (\<lambda>ord.
     if Status ord = StatusCancelled then returnG () else notify (OrderCreated (ID ord)))"

definition AdminPageSize :: int where "AdminPageSize = 50"
definition max_int32 :: int where "max_int32 = 2147483647"

definition adminSafeOffset :: "int \<Rightarrow> int" where
  "adminSafeOffset page =
     (if page \<le> 1 then 0
      else let maxPage = max_int32 div AdminPageSize;
               page' = (if maxPage < page then maxPage else page)
           in (page' - 1) * AdminPageSize)"

record AdminListFilter =
  f_Status :: "OrderStatus option"
  f_PointID :: "string option"
  f_From :: "int option"
  f_To :: "int option"
  f_Query :: string
  f_Page :: int

text \<open>
  \<open>ilike pat s\<close> is the database's \<^verbatim>\<open>s ILIKE pat\<close>, a parameter: its case folding is that of the
  database's locale, and \<^verbatim>\<open>%\<close>, \<^verbatim>\<open>_\<close> and backslashes of the search text act as its wildcards.
\<close>

definition matches_filter :: "(string \<Rightarrow> string \<Rightarrow> bool) \<Rightarrow> AdminListFilter \<Rightarrow> order_row \<Rightarrow> bool" where
  "matches_filter ilike f r \<longleftrightarrow>
     (f_Status f = None \<or> f_Status f = Some (o_status r)) \<and>
     (f_PointID f = None \<or> f_PointID f = o_point_id r) \<and>
     (case f_From f of None \<Rightarrow> True | Some t \<Rightarrow> t \<le> o_created_at r) \<and>
     (case f_To f of None \<Rightarrow> True | Some t \<Rightarrow> o_created_at r \<le> t) \<and>
     (f_Query f = [] \<or> ilike (''%'' @ f_Query f @ ''%'') (o_order_number r))"

definition AdminListOrders ::
  "(string \<Rightarrow> string \<Rightarrow> bool) \<Rightarrow> AdminListFilter \<Rightarrow> (Order list \<times> int) go" where
  "AdminListOrders ilike f =
     (let page = (if f_Page f < 1 then 1 else f_Page f) in
      bindG (query (\<lambda>d. int (length (filter (matches_filter ilike f) (orders d))))) (\<lambda>total.
      bindG (query (\<lambda>d. map (scanOrderRow d)
               (take (nat AdminPageSize) (drop (nat (adminSafeOffset page))
                 (sort_key (\<lambda>r. - o_created_at r) (filter (matches_filter ilike f) (orders d)))))))
        (\<lambda>page_rows. returnG (page_rows, total))))"

section \<open>The admin handlers\<close>

definition getAdminOrderHandler :: "env \<Rightarrow> Staff option \<Rightarrow> string \<Rightarrow> Order go" where
  "getAdminOrderHandler env ctx idOrNumber =
     (case ctx of
        None \<Rightarrow> failG (AppError (Unauthorized ''unauthenticated''))
      | Some st \<Rightarrow>
          bindG (AdminGetOrder env idOrNumber) (\<lambda>ord.
          if \<not> staffCanAccessOrderPoint st (PointID ord)
          then failG (AppError (WithVariant (Forbidden ''forbidden'') ''point_orders_view''))
          else returnG ord))"

text \<open>The decoded body of the request is an argument, \<^verbatim>\<open>decodeJSON\<close>'s error included.\<close>

definition updateAdminOrderStatusHandler ::
  "env \<Rightarrow> Staff option \<Rightarrow> string \<Rightarrow> go_error + string \<Rightarrow> Order go" where
  "updateAdminOrderStatusHandler env ctx idOrNumber req =
     (case ctx of
        None \<Rightarrow> failG (AppError (Unauthorized ''unauthenticated''))
      | Some st \<Rightarrow>
          bindG (AdminGetOrder env idOrNumber) (\<lambda>existing.
          if \<not> staffCanAccessOrderPoint st (PointID existing)
          then failG (AppError (WithVariant (Forbidden ''forbidden'') ''point_orders_edit''))
          else bindG (liftG req) (\<lambda>status.
               AdminUpdateStatus env ctx idOrNumber (parse_status status))))"

definition listAdminOrdersHandler ::
  "(string \<Rightarrow> string \<Rightarrow> bool) \<Rightarrow> Staff option \<Rightarrow> go_error + AdminListFilter \<Rightarrow> (Order list \<times> int) go" where
  "listAdminOrdersHandler ilike ctx parsed =
     (case ctx of
        None \<Rightarrow> failG (AppError (Unauthorized ''unauthenticated''))
      | Some st \<Rightarrow>
          bindG (liftG parsed) (\<lambda>f.
          if st_Role st = RolePointStaff
          then case st_PointID st of
                 None \<Rightarrow> returnG ([], 0)
               | Some p \<Rightarrow> AdminListOrders ilike (f\<lparr>f_PointID := Some p\<rparr>)
          else AdminListOrders ilike f))"

end
