(* ===== verification/LifecycleFacts.thy ===== *)
theory LifecycleFacts
  imports Lifecycle
begin

text \<open>
  What the transitions do to the tables: the restock returns exactly the units of the order
  (\<open>restock_effect\<close>), a cancellation is one restock, one closed payment, one updated row and one
  history row (\<open>cancel_effect\<close>), any other transition one updated row and one history row.
\<close>

section \<open>The restock\<close>

definition units :: "db \<Rightarrow> string \<Rightarrow> string \<Rightarrow> int" where
  "units d oid v =
     (\<Sum>i \<leftarrow> order_items d. if i_order_id i = oid \<and> i_variant_id i = v then i_quantity i else 0)"

definition returned :: "db \<Rightarrow> string \<Rightarrow> (string \<Rightarrow> int) \<Rightarrow> string list \<Rightarrow> string \<times> string \<Rightarrow> int option" where
  "returned d p f vs k =
     (if snd k = p \<and> fst k \<in> set vs then Some (stock_qty d (fst k) p + f (fst k)) else stock d k)"

lemma add_quantities_result:
  assumes "add_quantities rows m keys = (m', keys')" and "distinct keys"
  shows "distinct keys' \<and> set keys' = set keys \<union> fst ` set rows \<and>
    (\<forall>v. m' v = m v + (\<Sum>(w, q) \<leftarrow> rows. if w = v then q else 0))"
  using assms
proof (induction rows m keys rule: add_quantities.induct)
  case (2 v q rows m keys)
  have d: "distinct (if v \<in> set keys then keys else keys @ [v])" using 2(3) by simp
  have e: "add_quantities rows (m(v := m v + q)) (if v \<in> set keys then keys else keys @ [v]) = (m', keys')"
    using 2(2) by simp
  show ?case using 2(1) [OF e d] by auto
qed auto

lemma forG_put_back:
  assumes "yields (forG (\<lambda>v. stmt (put_back_stock v p (f v))) vs) d u d'" and "distinct vs"
  shows "d' = d\<lparr>stock := returned d p f vs\<rparr> \<and>
    (\<forall>v \<in> set vs. 0 \<le> stock_qty d v p + f v \<and> stock_qty d v p + f v \<le> max_int4)"
  using assms
proof (induction vs arbitrary: d)
  case Nil
  then have "d' = d" by (auto elim!: go_elim)
  moreover have "returned d p f [] = stock d" by (auto simp: returned_def)
  ultimately show ?case by simp
next
  case (Cons v vs)
  let ?d1 = "d\<lparr>stock := (stock d)((v, p) \<mapsto> stock_qty d v p + f v)\<rparr>"
  obtain u1 d1 where "put_back_stock v p (f v) d = Inr (u1, d1)"
    and y1: "yields (forG (\<lambda>v. stmt (put_back_stock v p (f v))) vs) d1 u d'"
    using Cons.prems(1) by (auto elim!: go_elim)
  note pb = put_back_stock_Inr [OF this(1)]
  have dv: "distinct vs" and nv: "v \<notin> set vs" using Cons.prems(2) by auto
  have sq: "stock_qty d1 w p = stock_qty d w p" if "w \<in> set vs" for w
  proof -
    have "w \<noteq> v" using that nv by blast
    then show ?thesis by (simp add: pb(1) stock_qty_def)
  qed
  have ret: "returned d1 p f vs = returned d p f (v # vs)"
  proof
    fix k show "returned d1 p f vs k = returned d p f (v # vs) k"
      using sq nv by (cases k) (auto simp: returned_def pb(1))
  qed
  note ih = Cons.IH [OF y1 dv]
  have "d' = d1\<lparr>stock := returned d1 p f vs\<rparr>" using ih by blast
  then have "d' = d\<lparr>stock := returned d p f (v # vs)\<rparr>" unfolding ret by (simp add: pb(1))
  moreover have "\<forall>w \<in> set vs. 0 \<le> stock_qty d w p + f w \<and> stock_qty d w p + f w \<le> max_int4"
    using ih sq by auto
  ultimately show ?case using pb(2,3) by auto
qed

lemma units_filter:
  "(\<Sum>(w, q) \<leftarrow> map (\<lambda>i. (i_variant_id i, i_quantity i)) (filter (\<lambda>i. i_order_id i = oid) is).
      if w = v then q else 0) =
   (\<Sum>i \<leftarrow> is. if i_order_id i = oid \<and> i_variant_id i = v then i_quantity i else 0)"
  by (induction "is") auto

lemma units_absent:
  "v \<notin> i_variant_id ` {i \<in> set (order_items d). i_order_id i = oid} \<Longrightarrow> units d oid v = 0"
  unfolding units_def by (rule sum_list_zero) auto

lemma restock_effect:
  assumes "yields (restockOrderTx oid p) d u d'"
  obtains vs where "d' = d\<lparr>stock := returned d p (units d oid) vs\<rparr>"
    and "set vs = i_variant_id ` {i \<in> set (order_items d). i_order_id i = oid}"
    and "\<And>v. v \<in> set vs \<Longrightarrow> 0 \<le> stock_qty d v p + units d oid v \<and>
           stock_qty d v p + units d oid v \<le> max_int4"
proof -
  let ?rows = "map (\<lambda>i. (i_variant_id i, i_quantity i)) (filter (\<lambda>i. i_order_id i = oid) (order_items d))"
  obtain m keys where a: "add_quantities ?rows (\<lambda>_. 0) [] = (m, keys)" by fastforce
  have y: "yields (forG (\<lambda>v. stmt (put_back_stock v p (m v))) (sort keys)) d u d'"
    using assms unfolding restockOrderTx_def by (auto elim!: yields_bind yields_query simp: a)
  have r: "distinct keys" "set keys = fst ` set ?rows" "m v = units d oid v" for v
    using add_quantities_result [OF a] unfolding units_def units_filter [symmetric] by simp_all
  have m: "m = units d oid" using r(3) by blast
  have "distinct (sort keys)" using r(1) by simp
  note e = forG_put_back [OF y [unfolded m] this]
  show ?thesis
  proof (rule that [of "sort keys"])
    show "d' = d\<lparr>stock := returned d p (units d oid) (sort keys)\<rparr>" using e by blast
    show "set (sort keys) = i_variant_id ` {i \<in> set (order_items d). i_order_id i = oid}"
      using r(2) by (auto simp: image_iff)
  qed (use e in blast)
qed

lemma stock_qty_returned:
  assumes "d' = d\<lparr>stock := returned d p (units d oid) vs\<rparr>"
    and "set vs = i_variant_id ` {i \<in> set (order_items d). i_order_id i = oid}"
  shows "stock_qty d' v q = stock_qty d v q + (if q = p then units d oid v else 0)"
proof -
  have "units d oid v = 0" if "v \<notin> set vs" using units_absent that unfolding assms(2) by blast
  then show ?thesis by (auto simp: assms(1) stock_qty_def returned_def)
qed

section \<open>Updated rows\<close>

lemma update_order_returning_effect:
  assumes "yields (update_order_returning oid f) d t d'"
  shows "t = clock d" and "\<exists>r \<in> set (orders d). o_id r = oid"
    and "d' = d\<lparr>orders := map (\<lambda>r. if o_id r = oid then (f r)\<lparr>o_updated_at := clock d\<rparr> else r) (orders d),
          product_sales := (\<lambda>p. product_sales d p +
             (\<Sum>r \<leftarrow> orders d. if o_id r = oid then sales_shift (o_status r) (o_status (f r)) *
                                        order_units d (o_id r) p else 0))\<rparr>"
    and "\<And>r. r \<in> set (orders d) \<Longrightarrow> o_id r = oid \<Longrightarrow> order_check ((f r)\<lparr>o_updated_at := clock d\<rparr>)"
proof -
  obtain n where n: "update_orders (\<lambda>r. o_id r = oid) (\<lambda>r. (f r)\<lparr>o_updated_at := clock d\<rparr>) d = Inr (n, d')"
    and pos: "n \<noteq> 0" and "t = clock d"
    using assms unfolding update_order_returning_def
    by (auto elim!: go_elim split: sum.splits prod.splits if_splits)
  note u = update_orders_Inr [OF n]
  show "t = clock d" by fact
  show "\<exists>r \<in> set (orders d). o_id r = oid" using pos unfolding u(1) by (auto simp: filter_empty_conv)
  show "d' = d\<lparr>orders := map (\<lambda>r. if o_id r = oid then (f r)\<lparr>o_updated_at := clock d\<rparr> else r) (orders d),
          product_sales := (\<lambda>p. product_sales d p +
             (\<Sum>r \<leftarrow> orders d. if o_id r = oid then sales_shift (o_status r) (o_status (f r)) *
                                        order_units d (o_id r) p else 0))\<rparr>"
    unfolding u(2) by (simp cong: if_cong)
  show "\<And>r. r \<in> set (orders d) \<Longrightarrow> o_id r = oid \<Longrightarrow> order_check ((f r)\<lparr>o_updated_at := clock d\<rparr>)"
    using u(3) by blast
qed

text \<open>The sum over the matching rows of the trigger is one term, since identifiers are unique.\<close>

lemma sum_list_one_row:
  fixes g :: "order_row \<Rightarrow> int"
  shows "distinct (map o_id xs) \<Longrightarrow> r \<in> set xs \<Longrightarrow>
    (\<Sum>x \<leftarrow> xs. if o_id x = o_id r then g x else 0) = g r"
proof (induction xs)
  case (Cons a xs)
  show ?case
  proof (cases "a = r")
    case True
    then have "(\<Sum>x \<leftarrow> xs. if o_id x = o_id r then g x else 0) = 0"
      using Cons.prems(1) by (intro sum_list_zero) (auto simp: image_iff)
    then show ?thesis using True by simp
  next
    case False
    then show ?thesis using Cons by (auto simp: image_iff)
  qed
qed simp

text \<open>
  \<open>moved r r' h d d'\<close>: the row \<open>r\<close> became \<open>r'\<close> and the history gained \<open>h\<close>; the statistics follow the
  trigger; items, payments, stock and the catalog tables are what the caller says.
\<close>

definition set_row :: "order_row \<Rightarrow> order_row \<Rightarrow> db \<Rightarrow> order_row list" where
  "set_row r r' d = map (\<lambda>x. if o_id x = o_id r then r' else x) (orders d)"

definition moved :: "order_row \<Rightarrow> order_row \<Rightarrow> history_row \<Rightarrow> db \<Rightarrow> db \<Rightarrow> bool" where
  "moved r r' h d d' \<longleftrightarrow>
     r \<in> set (orders d) \<and> o_id r' = o_id r \<and> orders d' = set_row r r' d \<and> order_check r' \<and>
     h_order_id h = o_id r \<and> h_from_status h = Some (o_status r) \<and> h_to_status h = o_status r' \<and>
     h_id h \<notin> h_id ` set (order_status_history d) \<and> h_created_at h = clock d \<and>
     order_status_history d' = order_status_history d @ [h] \<and>
     (\<forall>p. product_sales d' p = product_sales d p +
            sales_shift (o_status r) (o_status r') * order_units d (o_id r) p) \<and>
     order_items d' = order_items d \<and> cart_items d' = cart_items d \<and> variants d' = variants d \<and>
     products d' = products d \<and> points d' = points d \<and> zones d' = zones d \<and>
     addresses d' = addresses d \<and> clock d' = clock d"

lemma move_row:
  assumes dist: "distinct (map o_id (orders d))" and r: "r \<in> set (orders d)"
    and upd: "yields (update_order_returning (o_id r) f) d t d1"
    and rec: "yields (recordStatusTx env (o_id r) (Some (o_status r)) (o_status (f r)) a sid note) d1 u d2"
    and id: "o_id (f r) = o_id r"
  obtains h where "moved r ((f r)\<lparr>o_updated_at := clock d\<rparr>) h d d2"
    and "payments d2 = payments d" and "stock d2 = stock d" and "h_actor_type h = a"
proof -
  note e = update_order_returning_effect [OF upd]
  obtain h where h: "h_order_id h = o_id r" "h_from_status h = Some (o_status r)"
      "h_to_status h = o_status (f r)" "h_actor_type h = a" "h_created_at h = clock d1"
      "h_id h \<notin> h_id ` set (order_status_history d1)"
    and d2: "d2 = d1\<lparr>order_status_history := order_status_history d1 @ [h], id_count := Suc (id_count d1)\<rparr>"
    using rec by (rule recordStatusTx_effect)
  let ?r' = "(f r)\<lparr>o_updated_at := clock d\<rparr>"
  have rows: "map (\<lambda>x. if o_id x = o_id r then (f x)\<lparr>o_updated_at := clock d\<rparr> else x) (orders d) = set_row r ?r' d"
    unfolding set_row_def using distinct_map_eqD [OF dist _ r] by (intro map_cong) auto
  have sales: "product_sales d1 p = product_sales d p +
      sales_shift (o_status r) (o_status (f r)) * order_units d (o_id r) p" for p
    unfolding e(3) using sum_list_one_row [OF dist r] by simp
  show ?thesis
  proof (rule that)
    show "moved r ?r' h d d2"
      unfolding moved_def using h r id e(4) [OF r refl] sales
      by (simp add: d2) (simp add: e(3) rows)
  qed (use h in \<open>simp_all add: d2 e(3)\<close>)
qed

lemma order_units_cong:
  "variants d = variants d' \<Longrightarrow> order_items d = order_items d' \<Longrightarrow> order_units d = order_units d'"
  unfolding order_units_def item_units_def product_of_def by (intro ext) (simp cong: if_cong)

lemma moved_cong:
  assumes "moved r r' h d1 d'" and "d1 = d\<lparr>stock := s, payments := ps\<rparr>"
  shows "moved r r' h d d'"
proof -
  have "order_units d1 = order_units d" by (rule order_units_cong) (simp_all add: assms(2))
  then show ?thesis using assms(1) by (simp add: moved_def set_row_def assms(2))
qed

section \<open>A cancellation\<close>

definition closed_pending :: "db \<Rightarrow> string \<Rightarrow> payment_row list" where
  "closed_pending d oid =
     map (\<lambda>p. if p_order_id p = oid \<and> p_status p = PaymentPending
              then p\<lparr>p_status := PaymentCancelled, p_updated_at := clock d\<rparr> else p) (payments d)"

definition cancelled_row :: "order_row \<Rightarrow> int \<Rightarrow> order_row" where
  "cancelled_row r now = r\<lparr>o_status := StatusCancelled,
     o_payment_status := (if o_payment_method r = PaymentOnlineCard \<and> o_payment_status r = Some PaymentPending
                          then Some PaymentCancelled else o_payment_status r),
     o_refund_required := (o_refund_required r \<or>
        o_payment_method r = PaymentOnlineCard \<and> o_payment_status r = Some PaymentPaid),
     o_updated_at := now\<rparr>"

definition cancelled :: "order_row \<Rightarrow> history_row \<Rightarrow> db \<Rightarrow> db \<Rightarrow> bool" where
  "cancelled r h d d' \<longleftrightarrow> (\<exists>p vs. o_point_id r = Some p \<and> p \<noteq> [] \<and>
     moved r (cancelled_row r (clock d)) h d d' \<and>
     payments d' = (if o_payment_method r = PaymentOnlineCard \<and> o_payment_status r = Some PaymentPending
                    then closed_pending d (o_id r) else payments d) \<and>
     stock d' = returned d p (units d (o_id r)) vs \<and>
     set vs = i_variant_id ` {i \<in> set (order_items d). i_order_id i = o_id r} \<and>
     (\<forall>v \<in> set vs. 0 \<le> stock_qty d v p + units d (o_id r) v \<and>
                  stock_qty d v p + units d (o_id r) v \<le> max_int4))"

lemma close_pending_Inr:
  "close_pending P d = Inr (n, d') \<Longrightarrow>
   d' = d\<lparr>payments := map (\<lambda>p. if P p \<and> p_status p = PaymentPending
              then p\<lparr>p_status := PaymentCancelled, p_updated_at := clock d\<rparr> else p) (payments d)\<rparr>"
  by (simp add: close_pending_def update_payments_Inr)

lemma cancel_effect:
  assumes y: "yields (cancelLockedTx env ord actor note) d ord' d'"
    and ord: "ord = scanOrderRow d0 r" and r: "r \<in> set (orders d)" and dist: "distinct (map o_id (orders d))"
  obtains h where "cancelled r h d d'" "h_actor_type h = ac_Type actor"
    "ID ord' = o_id r" "Status ord' = StatusCancelled"
proof -
  have o: "PointID ord = o_point_id r" "ID ord = o_id r" "Method ord = o_payment_method r"
    "PayStatus ord = o_payment_status r" "RefundRequired ord = o_refund_required r" "Status ord = o_status r"
    by (simp_all add: ord)
  obtain p where p: "o_point_id r = Some p" "p \<noteq> []"
    using y unfolding cancelLockedTx_def o by (auto elim!: yields_fail split: option.splits if_splits)
  obtain u1 d1 x d2 t d3 u2 where y1: "yields (restockOrderTx (o_id r) p) d u1 d1"
    and y2: "yields (if o_payment_method r = PaymentOnlineCard
                   then case o_payment_status r of
                          Some PaymentPending \<Rightarrow>
                            bindG (stmt (close_pending (\<lambda>p. p_order_id p = o_id r)))
                              (\<lambda>_. returnG (Some PaymentCancelled, o_refund_required r))
                        | Some PaymentPaid \<Rightarrow> returnG (o_payment_status r, True)
                        | _ \<Rightarrow> returnG (o_payment_status r, o_refund_required r)
                   else returnG (o_payment_status r, o_refund_required r)) d1 x d2"
    and y3: "yields (update_order_returning (o_id r)
                     (\<lambda>r. r\<lparr>o_status := StatusCancelled, o_payment_status := fst x, o_refund_required := snd x\<rparr>)) d2 t d3"
    and y4: "yields (recordStatusTx env (o_id r) (Some (o_status r)) StatusCancelled (ac_Type actor)
                     (ac_StaffID actor) note) d3 u2 d'"
    and ord': "ord' = ord\<lparr>Status := StatusCancelled, PayStatus := fst x, RefundRequired := snd x, UpdatedAt := t\<rparr>"
    using y p unfolding cancelLockedTx_def o split_beta
    by (simp only: option.case if_False) (elim yields_bind yields_return, hypsubst, rule that, (assumption | rule refl)+)
  define np rf where "np = fst x" and "rf = snd x"
  obtain vs where d1: "d1 = d\<lparr>stock := returned d p (units d (o_id r)) vs\<rparr>"
    and vs: "set vs = i_variant_id ` {i \<in> set (order_items d). i_order_id i = o_id r}"
      "\<And>v. v \<in> set vs \<Longrightarrow> 0 \<le> stock_qty d v p + units d (o_id r) v \<and>
           stock_qty d v p + units d (o_id r) v \<le> max_int4"
    by (rule restock_effect [OF y1]) (rule that)
  let ?pend = "o_payment_method r = PaymentOnlineCard \<and> o_payment_status r = Some PaymentPending"
  note y3 = y3 [folded np_def rf_def] and ord' = ord' [folded np_def rf_def]
  have "np = (if ?pend then Some PaymentCancelled else o_payment_status r) \<and>
    rf = (o_refund_required r \<or> o_payment_method r = PaymentOnlineCard \<and> o_payment_status r = Some PaymentPaid) \<and>
    d2 = d1\<lparr>payments := (if ?pend then closed_pending d (o_id r) else payments d)\<rparr>"
  proof (cases ?pend)
    case True
    then show ?thesis using y2 unfolding np_def rf_def
      by (auto elim!: yields_bind yields_stmt yields_return dest!: close_pending_Inr simp: closed_pending_def d1)
  next
    case False
    then have "x = (o_payment_status r, o_refund_required r \<or>
        o_payment_method r = PaymentOnlineCard \<and> o_payment_status r = Some PaymentPaid) \<and> d2 = d1"
      using y2
      by (cases "o_payment_method r"; cases "o_payment_status r" rule: option.exhaust; simp)
         (auto elim!: yields_return split: PaymentStatus.splits)
    then show ?thesis using False unfolding np_def rf_def by (auto simp: d1)
  qed
  then have np: "np = (if ?pend then Some PaymentCancelled else o_payment_status r)"
    and rf: "rf = (o_refund_required r \<or> o_payment_method r = PaymentOnlineCard \<and> o_payment_status r = Some PaymentPaid)"
    and d2: "d2 = d1\<lparr>payments := (if ?pend then closed_pending d (o_id r) else payments d)\<rparr>" by blast+
  have dd: "d2 = d\<lparr>stock := returned d p (units d (o_id r)) vs,
              payments := (if ?pend then closed_pending d (o_id r) else payments d)\<rparr>"
    by (simp add: d2 d1)
  have dist2: "distinct (map o_id (orders d2))" "r \<in> set (orders d2)" using dist r by (simp_all add: dd)
  let ?f = "\<lambda>r. r\<lparr>o_status := StatusCancelled, o_payment_status := np, o_refund_required := rf\<rparr>"
  obtain h where m: "moved r ((?f r)\<lparr>o_updated_at := clock d2\<rparr>) h d2 d'"
    and same: "payments d' = payments d2" "stock d' = stock d2" and h: "h_actor_type h = ac_Type actor"
    using move_row [OF dist2 y3, of env "ac_Type actor" "ac_StaffID actor" "note" u2 d'] y4 by auto
  have "(?f r)\<lparr>o_updated_at := clock d2\<rparr> = cancelled_row r (clock d)"
    by (simp add: cancelled_row_def np rf dd)
  then have m': "moved r (cancelled_row r (clock d)) h d d'" using moved_cong [OF m dd] by simp
  show ?thesis
  proof (rule that [OF _ h])
    show "cancelled r h d d'"
      unfolding cancelled_def using p m' same vs by (intro exI [of _ p] exI [of _ vs]) (simp add: dd)
  qed (simp_all add: ord' o)
qed

section \<open>The other transitions\<close>

definition advanced_row :: "order_row \<Rightarrow> OrderStatus \<Rightarrow> int \<Rightarrow> order_row" where
  "advanced_row r to now = r\<lparr>o_status := to, o_updated_at := now\<rparr>"

text \<open>An order of a customer who pays cash, or one whose online payment is in.\<close>

definition may_confirm :: "order_row \<Rightarrow> bool" where
  "may_confirm r \<longleftrightarrow> (o_payment_method r = PaymentOnlineCard \<longrightarrow> o_payment_status r = Some PaymentPaid)"

lemma transition_effect:
  assumes y: "yields (transitionLockedTx env ord to actor nt) d ord' d'"
    and ord: "ord = scanOrderRow d0 r" and r: "r \<in> set (orders d)" and dist: "distinct (map o_id (orders d))"
  obtains (cancel) h where "to = StatusCancelled" "validStatusTransition (o_status r) to"
      "cancelled r h d d'" "h_actor_type h = ac_Type actor" "ID ord' = o_id r" "Status ord' = to"
  | (advance) h where "to \<noteq> StatusCancelled" "validStatusTransition (o_status r) to"
      "to = StatusConfirmed \<Longrightarrow> may_confirm r" "moved r (advanced_row r to (clock d)) h d d'"
      "payments d' = payments d" "stock d' = stock d" "h_actor_type h = ac_Type actor"
      "ID ord' = o_id r" "Status ord' = to"
proof -
  have o: "ID ord = o_id r" "Method ord = o_payment_method r"
    "PayStatus ord = o_payment_status r" "Status ord = o_status r"
    by (simp_all add: ord)
  have v: "validStatusTransition (o_status r) to" and g: "to = StatusConfirmed \<Longrightarrow> may_confirm r"
    using y unfolding transitionLockedTx_def
    by (auto simp: o paymentAllowsConfirm_def may_confirm_def elim!: yields_fail split: if_splits)
  show ?thesis
  proof (cases "to = StatusCancelled")
    case True
    have "yields (cancelLockedTx env ord actor nt) d ord' d'"
      using y True v by (simp add: transitionLockedTx_def o)
    then show ?thesis by (rule cancel_effect [OF _ ord r dist]) (rule cancel [OF True v]; simp add: True)
  next
    case False
    have "\<not> (to = StatusConfirmed \<and> \<not> paymentAllowsConfirm ord)"
      using g by (auto simp: paymentAllowsConfirm_def may_confirm_def o)
    then obtain t d1 u where y1: "yields (update_order_returning (o_id r) (\<lambda>r. r\<lparr>o_status := to\<rparr>)) d t d1"
      and y2: "yields (recordStatusTx env (o_id r) (Some (o_status r)) to (ac_Type actor) (ac_StaffID actor) nt) d1 u d'"
      and ord': "ord' = ord\<lparr>Status := to, UpdatedAt := t\<rparr>"
      using y False v unfolding transitionLockedTx_def o
      by (auto elim!: yields_bind yields_return)
    obtain h where "moved r ((r\<lparr>o_status := to\<rparr>)\<lparr>o_updated_at := clock d\<rparr>) h d d'"
      "payments d' = payments d" "stock d' = stock d" "h_actor_type h = ac_Type actor"
      by (rule move_row [OF dist r y1, of env "ac_Type actor" "ac_StaffID actor" nt u d'])
         (use y2 in \<open>simp_all\<close>)
    then show ?thesis using False v g
      by (intro advance [of h]) (simp_all add: advanced_row_def ord' o)
  qed
qed

lemma lockOrderTx_effect [go_elim]:
  assumes "yields (lockOrderTx P) d ord d'"
    and "\<And>r. r \<in> set (orders d) \<Longrightarrow> P r \<Longrightarrow> find P (orders d) = Some r \<Longrightarrow> ord = scanOrderRow d r \<Longrightarrow>
           d' = d \<Longrightarrow> Q"
  shows Q
  using assms unfolding lockOrderTx_def by (rule select_order_effect)

lemma admin_update_effect:
  assumes y: "yields (admin_update_tx env actor k to) d x d'" and dist: "distinct (map o_id (orders d))"
  obtains (cancel) r h where "r \<in> set (orders d)" "orderKeyPredicate env k r" "to = StatusCancelled"
      "validStatusTransition (o_status r) to" "cancelled r h d d'" "snd x = o_status r" "ID (fst x) = o_id r"
  | (advance) r h where "r \<in> set (orders d)" "orderKeyPredicate env k r" "to \<noteq> StatusCancelled"
      "validStatusTransition (o_status r) to" "to = StatusConfirmed \<Longrightarrow> may_confirm r"
      "moved r (advanced_row r to (clock d)) h d d'" "payments d' = payments d" "stock d' = stock d"
      "snd x = o_status r" "ID (fst x) = o_id r"
proof -
  obtain r ord' where r: "r \<in> set (orders d)" "orderKeyPredicate env k r"
    and t: "yields (transitionLockedTx env (scanOrderRow d r) to actor []) d ord' d'"
    and x: "x = (ord', o_status r)"
    using y unfolding admin_update_tx_def by (auto elim!: yields_bind yields_return lockOrderTx_effect)
  show ?thesis
    using t by (rule transition_effect [OF _ refl r(1) dist])
      (use cancel r x in force, use advance r x in force)
qed

lemma customer_cancel_effect:
  assumes y: "yields (customer_cancel_tx env cu k) d x d'" and dist: "distinct (map o_id (orders d))"
  obtains r h where "r \<in> set (orders d)" "orderKeyPredicate env k r" "o_customer_id r = cu"
    "o_status r = StatusPlaced"
    "\<not> (o_payment_method r = PaymentOnlineCard \<and> o_payment_status r = Some PaymentPaid)"
    "cancelled r h d d'" "ID x = o_id r"
proof -
  obtain r where r: "r \<in> set (orders d)" "orderKeyPredicate env k r" "o_customer_id r = cu"
    and c: "customerCanCancel (scanOrderRow d r)"
    and t: "yields (cancelLockedTx env (scanOrderRow d r) CustomerActor []) d x d'"
    using y unfolding customer_cancel_tx_def
    by (auto elim!: yields_bind yields_fail lockOrderTx_effect split: if_splits)
  from t show ?thesis
    by (rule cancel_effect [OF _ refl r(1) dist])
       (use that r c in \<open>auto simp: customerCanCancel_def split: if_splits\<close>)
qed

lemma CancelUnpaid_effect:
  assumes y: "yields (CancelUnpaidOrderTx env oid nt) d b d'" and dist: "distinct (map o_id (orders d))"
  obtains (kept) r where "\<not> b" "d' = d" "r \<in> set (orders d)" "o_id r = oid" "o_status r \<noteq> StatusPlaced"
  | (undone) r h where "b" "r \<in> set (orders d)" "o_id r = oid" "o_status r = StatusPlaced" "cancelled r h d d'"
      "h_actor_type h = ActorSystem"
proof -
  obtain r where r: "r \<in> set (orders d)" "o_id r = oid"
    and t: "yields (if o_status r \<noteq> StatusPlaced then returnG False
       else bindG (cancelLockedTx env (scanOrderRow d r) SystemActor nt) (\<lambda>_. returnG True)) d b d'"
    using y unfolding CancelUnpaidOrderTx_def by (auto elim!: yields_bind lockOrderTx_effect)
  show ?thesis
  proof (cases "o_status r = StatusPlaced")
    case True
    then obtain ord' where c: "yields (cancelLockedTx env (scanOrderRow d r) SystemActor nt) d ord' d'" and b: "b"
      using t by (auto elim!: yields_bind yields_return)
    from c show ?thesis
      by (rule cancel_effect [OF _ refl r(1) dist]) (use undone b r True in \<open>auto simp: SystemActor_def\<close>)
  next
    case False
    then show ?thesis using t kept r by (auto elim!: yields_return)
  qed
qed

lemma MarkRefund_effect:
  assumes "yields (MarkRefundRequiredTx oid) d u d'"
  shows "d' = d\<lparr>orders := map (\<lambda>r. if o_id r = oid
      then r\<lparr>o_refund_required := True, o_updated_at := clock d\<rparr> else r) (orders d)\<rparr>"
  using assms unfolding MarkRefundRequiredTx_def
  by (elim yields_bind yields_stmt yields_return) (drule update_orders_keep_status, simp_all)

end
