(* ===== verification/Payments.thy ===== *)
theory Payments
  imports LifecycleFacts
begin

text \<open>
  Online payment: \<^verbatim>\<open>internal/orders/payment.go\<close> (an online order, a new attempt on it) and
  \<^verbatim>\<open>internal/payments\<close> (\<^verbatim>\<open>provider.go\<close>, \<^verbatim>\<open>service.go\<close>, \<^verbatim>\<open>expiry.go\<close>). The bank is a \<open>provider\<close>, a
  record of the methods of the Go interface; what it answers to a request is a function of the
  request, which carries the identifier of the payment and is made once per payment. \<open>json_valid\<close>
  and \<open>json_string\<close> are \<^verbatim>\<open>json.Valid\<close> and \<^verbatim>\<open>json.Marshal\<close> of a string: they decide only the text kept
  in \<^verbatim>\<open>payments.raw_webhook\<close>. Logging, and the ticker of \<^verbatim>\<open>RunPendingExpiry\<close>, are left out.
\<close>

section \<open>orders/payment.go\<close>

definition CreateOnlineOrder :: "env \<Rightarrow> PlaceOrderInput \<Rightarrow> string \<Rightarrow> (Order \<times> string \<times> bool) go" where
  "CreateOnlineOrder env inp provider =
     createOrder env inp PaymentOnlineCard
       (\<lambda>ord. stmt (insert_payment env (ID ord) provider (numeric_of_float (TotalAmount ord))))"

definition MaxPaymentAttempts :: nat where "MaxPaymentAttempts = 10"

definition ErrPaymentNotRetryable :: go_error where
  "ErrPaymentNotRetryable = AppError (Conflict ''payment_not_retryable'')"

definition PaymentRetryable :: "Order \<Rightarrow> bool" where
  "PaymentRetryable ord =
     (if Method ord \<noteq> PaymentOnlineCard \<or> Status ord \<noteq> StatusPlaced \<or> PayStatus ord = None then False
      else PayStatus ord = Some PaymentPending \<or> PayStatus ord = Some PaymentFailed)"

definition LockOrderTx :: "string \<Rightarrow> Order go" where
  "LockOrderTx orderID = lockOrderTx (\<lambda>r. o_id r = orderID)"

definition attempts_of :: "db \<Rightarrow> string \<Rightarrow> nat" where
  "attempts_of d oid = length (filter (\<lambda>p. p_order_id p = oid) (payments d))"

definition retry_tx :: "env \<Rightarrow> string \<Rightarrow> string \<Rightarrow> string \<Rightarrow> (Order \<times> string) go" where
  "retry_tx env customerID idOrNumber provider =
     bindG (lockOrderTx (\<lambda>r. o_customer_id r = customerID \<and> orderKeyPredicate env idOrNumber r)) (\<lambda>ord.
     if \<not> PaymentRetryable ord then failG ErrPaymentNotRetryable
     else
       bindG (query (\<lambda>d. attempts_of d (ID ord))) (\<lambda>attempts.
       if MaxPaymentAttempts \<le> attempts
       then failG (AppError (WithVariant (Conflict ''payment_not_retryable'') ''too_many''))
       else
         bindG (stmt (close_pending (\<lambda>p. p_order_id p = ID ord))) (\<lambda>_.
         bindG (stmt (insert_payment env (ID ord) provider (numeric_of_float (TotalAmount ord)))) (\<lambda>paymentID.
         bindG (update_order_returning (ID ord) (\<lambda>r. r\<lparr>o_payment_status := Some PaymentPending\<rparr>)) (\<lambda>updatedAt.
         returnG (ord\<lparr>PayStatus := Some PaymentPending, UpdatedAt := updatedAt\<rparr>, paymentID))))))"

definition PrepareRetryPayment :: "env \<Rightarrow> string \<Rightarrow> string \<Rightarrow> string \<Rightarrow> (Order \<times> string) go" where
  "PrepareRetryPayment env customerID idOrNumber provider =
     withTx (retry_tx env customerID idOrNumber provider)"

section \<open>The provider\<close>

record CreateRequest =
  cr_PaymentID :: string
  cr_OrderID :: string
  cr_OrderNumber :: string
  cr_Amount :: float64
  cr_Currency :: string
  cr_ReturnURL :: string

record Session =
  se_ExternalID :: string
  se_RedirectURL :: string

record CallbackEvent =
  ev_ExternalID :: string
  ev_Status :: PaymentStatus
  ev_Amount :: float64
  ev_Raw :: string

text \<open>A request header, by canonical name; an absent one reads as the empty string.\<close>

type_synonym header = "string \<Rightarrow> string"

record provider =
  prov_Name :: string
  prov_Ready :: "go_error + unit"
  prov_CreatePayment :: "CreateRequest \<Rightarrow> go_error + Session"
  prov_ParseCallback :: "header \<Rightarrow> string \<Rightarrow> go_error + CallbackEvent"
  prov_QREnabled :: "bool option"
  prov_GenerateQR :: "float64 \<Rightarrow> string \<Rightarrow> go_error + string \<times> string"

record service =
  s_provider :: provider
  s_publicBaseURL :: string
  s_json_valid :: "string \<Rightarrow> bool"
  s_json_string :: "string \<Rightarrow> string"

definition Currency :: string where "Currency = ''KGS''"
definition WebhookTokenHeader :: string where "WebhookTokenHeader = ''X-Webhook-Token''"
definition ErrNotConfigured :: go_error where
  "ErrNotConfigured = AppError (New 503 ''payments_not_configured'')"
definition ErrQRNotConfigured :: go_error where
  "ErrQRNotConfigured = AppError (New 501 ''qr_not_configured'')"

section \<open>Opening a session\<close>

definition QRAvailable :: "service \<Rightarrow> bool" where
  "QRAvailable s = (prov_QREnabled (s_provider s) = Some True)"

definition ReturnPath :: "string \<Rightarrow> string" where
  "ReturnPath orderID = ''/pay/return/'' @ orderID"

definition ReturnURL :: "service \<Rightarrow> string \<Rightarrow> string" where
  "ReturnURL s orderID = s_publicBaseURL s @ ReturnPath orderID"

definition store_session :: "string \<Rightarrow> string \<Rightarrow> (payment_row \<Rightarrow> payment_row) \<Rightarrow> unit go" where
  "store_session paymentID tx f =
     bindG (stmt (set_provider_tx paymentID tx f)) (\<lambda>_. returnG ())"

definition openSession :: "service \<Rightarrow> Order \<Rightarrow> string \<Rightarrow> string go" where
  "openSession s order paymentID =
     bindG (liftG (prov_CreatePayment (s_provider s)
       \<lparr>cr_PaymentID = paymentID, cr_OrderID = ID order, cr_OrderNumber = OrderNumber order,
        cr_Amount = TotalAmount order, cr_Currency = Currency, cr_ReturnURL = ReturnURL s (ID order)\<rparr>)) (\<lambda>sess.
     bindG (store_session paymentID (se_ExternalID sess)
              (\<lambda>r. r\<lparr>p_redirect_url := Some (se_RedirectURL sess)\<rparr>))
       (\<lambda>_. returnG (se_RedirectURL sess)))"

definition sessionError :: "go_error \<Rightarrow> go_error" where
  "sessionError err = (case err of AppError e \<Rightarrow> err
                       | _ \<Rightarrow> AppError (New 502 ''payment_create_failed''))"

definition fail_attempt_tx :: "string \<Rightarrow> string \<Rightarrow> unit go" where
  "fail_attempt_tx paymentID orderID =
     bindG (LockOrderTx orderID) (\<lambda>_.
     bindG (stmt (\<lambda>d. update_payments (\<lambda>p. p_id p = paymentID \<and> p_status p = PaymentPending)
              (\<lambda>p. p\<lparr>p_status := PaymentFailed, p_updated_at := clock d\<rparr>) d)) (\<lambda>n.
     if n = 0 then returnG ()
     else bindG (stmt (\<lambda>d. update_orders (\<lambda>r. o_id r = orderID \<and> o_status r = StatusPlaced)
                   (\<lambda>r. r\<lparr>o_payment_status := Some PaymentFailed, o_updated_at := clock d\<rparr>) d))
            (\<lambda>_. returnG ())))"

definition abort_tx :: "env \<Rightarrow> string \<Rightarrow> string \<Rightarrow> unit go" where
  "abort_tx env paymentID orderID =
     bindG (LockOrderTx orderID) (\<lambda>_.
     bindG (stmt (\<lambda>d. update_payments (\<lambda>p. p_id p = paymentID \<and> p_status p = PaymentPending)
              (\<lambda>p. p\<lparr>p_status := PaymentFailed, p_updated_at := clock d\<rparr>) d)) (\<lambda>n.
     if n = 0 then returnG ()
     else
       bindG (stmt (\<lambda>d. update_orders (\<lambda>r. o_id r = orderID)
                (\<lambda>r. r\<lparr>o_payment_status := Some PaymentFailed, o_idempotency_key := None,
                        o_updated_at := clock d\<rparr>) d)) (\<lambda>_.
       bindG (CancelUnpaidOrderTx env orderID NotePaymentOpenFailed) (\<lambda>_. returnG ()))))"

definition failAttempt :: "string \<Rightarrow> string \<Rightarrow> unit go" where
  "failAttempt paymentID orderID = withTx (fail_attempt_tx paymentID orderID)"

definition abort :: "env \<Rightarrow> string \<Rightarrow> string \<Rightarrow> unit go" where
  "abort env paymentID orderID = withTx (abort_tx env paymentID orderID)"

definition latest_payment :: "db \<Rightarrow> string \<Rightarrow> payment_row option" where
  "latest_payment d oid =
     (case rev (sort_key p_created_at (sort_key p_id
             (filter (\<lambda>p. p_order_id p = oid) (payments d)))) of
        [] \<Rightarrow> None | p # _ \<Rightarrow> Some p)"

definition pendingPaymentURL :: "string \<Rightarrow> string go" where
  "pendingPaymentURL orderID =
     bindG (query (\<lambda>d. latest_payment d orderID)) (\<lambda>row.
     case row of
       None \<Rightarrow> returnG []
     | Some p \<Rightarrow>
         if p_status p \<noteq> PaymentPending then returnG []
         else returnG (case p_redirect_url p of None \<Rightarrow> [] | Some url \<Rightarrow> url))"

definition PlaceOnlineOrder :: "env \<Rightarrow> service \<Rightarrow> PlaceOrderInput \<Rightarrow> (Order \<times> string \<times> bool) go" where
  "PlaceOnlineOrder env s inp =
     bindG (liftG (prov_Ready (s_provider s))) (\<lambda>_.
     bindG (CreateOnlineOrder env inp (prov_Name (s_provider s))) (\<lambda>(order, paymentID, created).
     if \<not> created
     then bindG (pendingPaymentURL (ID order)) (\<lambda>url. returnG (order, url, False))
     else
       bindG (attempt (openSession s order paymentID)) (\<lambda>r.
       case r of
         Inr url \<Rightarrow> returnG (order, url, True)
       | Inl err \<Rightarrow>
           bindG (attempt (abort env paymentID (ID order))) (\<lambda>_. failG (sessionError err)))))"

definition RetryPayment :: "env \<Rightarrow> service \<Rightarrow> string \<Rightarrow> string \<Rightarrow> string go" where
  "RetryPayment env s customerID orderID =
     bindG (liftG (prov_Ready (s_provider s))) (\<lambda>_.
     bindG (PrepareRetryPayment env customerID orderID (prov_Name (s_provider s))) (\<lambda>(order, paymentID).
     bindG (attempt (openSession s order paymentID)) (\<lambda>r.
     case r of
       Inr url \<Rightarrow> returnG url
     | Inl err \<Rightarrow>
         bindG (attempt (failAttempt paymentID (ID order))) (\<lambda>_. failG (sessionError err)))))"

definition GetPaymentQR :: "env \<Rightarrow> service \<Rightarrow> string \<Rightarrow> string \<Rightarrow> (string \<times> string) go" where
  "GetPaymentQR env s customerID idOrNumber =
     (if \<not> QRAvailable s then failG ErrQRNotConfigured
      else
        bindG (liftG (prov_Ready (s_provider s))) (\<lambda>_.
        bindG (PrepareRetryPayment env customerID idOrNumber (prov_Name (s_provider s)))
          (\<lambda>(order, paymentID).
        case prov_GenerateQR (s_provider s) (TotalAmount order) paymentID of
          Inl err \<Rightarrow>
            bindG (attempt (failAttempt paymentID (ID order))) (\<lambda>_. failG (sessionError err))
        | Inr qr \<Rightarrow> bindG (store_session paymentID paymentID (\<lambda>r. r)) (\<lambda>_. returnG qr))))"

section \<open>Callbacks\<close>

record CallbackResult =
  cb_PaymentID :: string
  cb_OrderID :: string
  cb_Status :: PaymentStatus
  cb_Applied :: bool
  cb_OrderCancelled :: bool
  cb_RefundRequired :: bool

definition isUnpaidFinal :: "PaymentStatus \<Rightarrow> bool" where
  "isUnpaidFinal st \<longleftrightarrow> st = PaymentFailed \<or> st = PaymentCancelled"

definition transition :: "PaymentStatus \<Rightarrow> PaymentStatus \<Rightarrow> bool \<times> bool" where
  "transition frm to =
     (if to = PaymentPending \<or> frm = to then (False, False)
      else if isUnpaidFinal frm \<and> isUnpaidFinal to then (False, False)
      else if frm = PaymentPending \<and> (to = PaymentPaid \<or> to = PaymentFailed \<or> to = PaymentCancelled)
      then (True, False)
      else if frm = PaymentPaid \<and> to = PaymentRefunded then (True, False)
      else (False, True))"

definition lateSuccess :: "PaymentStatus \<Rightarrow> PaymentStatus \<Rightarrow> Order \<Rightarrow> bool" where
  "lateSuccess current to order =
     (if to \<noteq> PaymentPaid \<or> \<not> isUnpaidFinal current then False else PaymentRetryable order)"

text \<open>The decision of \<^verbatim>\<open>HandleCallback\<close> once the order and the payment are locked.\<close>

definition verdict :: "PaymentStatus \<Rightarrow> PaymentStatus \<Rightarrow> Order \<Rightarrow> bool \<times> bool" where
  "verdict current to order =
     (case transition current to of (apply, conflict) \<Rightarrow>
        if conflict \<and> lateSuccess current to order then (True, False) else (apply, conflict))"

definition set_payment :: "string \<Rightarrow> (payment_row \<Rightarrow> payment_row) \<Rightarrow> unit go" where
  "set_payment paymentID f =
     bindG (stmt (\<lambda>d. update_payments (\<lambda>p. p_id p = paymentID)
              (\<lambda>p. (f p)\<lparr>p_updated_at := clock d\<rparr>) d)) (\<lambda>_. returnG ())"

definition set_payment_status_returning :: "string \<Rightarrow> PaymentStatus \<Rightarrow> OrderStatus go" where
  "set_payment_status_returning orderID st =
     stmt (\<lambda>d. case update_orders (\<lambda>r. o_id r = orderID)
                    (\<lambda>r. r\<lparr>o_payment_status := Some st, o_updated_at := clock d\<rparr>) d of
       Inl e \<Rightarrow> Inl e
     | Inr (n, d') \<Rightarrow>
         (case find (\<lambda>r. o_id r = orderID) (orders d') of
            None \<Rightarrow> Inl no_rows | Some r \<Rightarrow> Inr (o_status r, d')))"

text \<open>The part of the transaction that applies an event to its payment and its order.\<close>

definition apply_event ::
  "env \<Rightarrow> CallbackEvent \<Rightarrow> string \<Rightarrow> float64 \<Rightarrow> CallbackResult \<Rightarrow> CallbackResult go" where
  "apply_event env ev raw amount res =
     (let pid = cb_PaymentID res; oid = cb_OrderID res; st = ev_Status ev in
      if st = PaymentPaid \<and> toTyiyn (ev_Amount ev) \<noteq> toTyiyn amount
      then failG (AppError (BadRequest ''amount_mismatch''))
      else
        bindG (set_payment pid (\<lambda>p. p\<lparr>p_status := st, p_raw_webhook := Some raw\<rparr>)) (\<lambda>_.
        bindG (if st = PaymentPaid
               then bindG (stmt (close_pending (\<lambda>p. p_order_id p = oid \<and> p_id p \<noteq> pid))) (\<lambda>_. returnG ())
               else returnG ()) (\<lambda>_.
        bindG (set_payment_status_returning oid st) (\<lambda>orderStatus.
        bindG (if st = PaymentPaid \<and> orderStatus = StatusCancelled
               then bindG (MarkRefundRequiredTx oid) (\<lambda>_. returnG True) else returnG False) (\<lambda>refund.
        bindG (if st = PaymentCancelled then CancelUnpaidOrderTx env oid NotePaymentCancelled
               else returnG False) (\<lambda>cancelled.
        returnG (res\<lparr>cb_Status := st, cb_Applied := True, cb_OrderCancelled := cancelled,
                     cb_RefundRequired := refund\<rparr>)))))))"

definition callback_tx :: "env \<Rightarrow> string \<Rightarrow> CallbackEvent \<Rightarrow> string \<Rightarrow> CallbackResult go" where
  "callback_tx env providerName ev raw =
     bindG (query (\<lambda>d. map_option (\<lambda>p. (p_id p, p_order_id p))
       (find (\<lambda>p. p_provider p = providerName \<and> p_provider_tx_id p = Some (ev_ExternalID ev)) (payments d)))) (\<lambda>row.
     case row of
       None \<Rightarrow> failG (AppError (NotFound ''payment_not_found''))
     | Some (pid, oid) \<Rightarrow>
         bindG (LockOrderTx oid) (\<lambda>order.
         bindG (query (\<lambda>d. map_option (\<lambda>p. (p_status p, float_of_numeric (p_amount p)))
                        (find (\<lambda>p. p_id p = pid) (payments d)))) (\<lambda>prow.
         case prow of
           None \<Rightarrow> failG no_rows
         | Some (current, amount) \<Rightarrow>
             let res = \<lparr>cb_PaymentID = pid, cb_OrderID = oid, cb_Status = current, cb_Applied = False,
                        cb_OrderCancelled = False, cb_RefundRequired = False\<rparr>;
                 (apply, conflict) = verdict current (ev_Status ev) order
             in
             if conflict
             then
               if ev_Status ev = PaymentPaid \<and> isUnpaidFinal current
               then bindG (set_payment pid (\<lambda>p. p\<lparr>p_raw_webhook := Some raw\<rparr>)) (\<lambda>_.
                    bindG (MarkRefundRequiredTx oid) (\<lambda>_.
                    returnG (res\<lparr>cb_RefundRequired := True\<rparr>)))
               else returnG res
             else if \<not> apply then returnG res
             else apply_event env ev raw amount res)))"

definition HandleCallback ::
  "env \<Rightarrow> service \<Rightarrow> string \<Rightarrow> header \<Rightarrow> string \<Rightarrow> CallbackResult go" where
  "HandleCallback env s providerName hdr body =
     (if providerName \<noteq> prov_Name (s_provider s)
      then failG (AppError (NotFound ''payment_provider_not_found''))
      else
        bindG (liftG (prov_ParseCallback (s_provider s) hdr body)) (\<lambda>ev.
        let raw = (if s_json_valid s (ev_Raw ev) then ev_Raw ev else s_json_string s (ev_Raw ev)) in
        bindG (withTx (callback_tx env providerName ev raw)) (\<lambda>res.
        bindG (if cb_Applied res \<and> cb_Status res = PaymentPaid \<and> \<not> cb_RefundRequired res
               then bindG (attempt (NotifyOrderPaid env (cb_OrderID res))) (\<lambda>_. returnG ())
               else returnG ()) (\<lambda>_. returnG res))))"

section \<open>Looking a payment up\<close>

record Payment =
  py_ID :: string
  py_OrderID :: string
  py_OrderNumber :: string
  py_Provider :: string
  py_ExternalID :: string
  py_Status :: PaymentStatus
  py_Amount :: float64
  py_Currency :: string

definition payment_join :: "db \<Rightarrow> payment_row \<Rightarrow> string \<Rightarrow> Payment option" where
  "payment_join d p ext =
     map_option (\<lambda>r. \<lparr>py_ID = p_id p, py_OrderID = p_order_id p, py_OrderNumber = o_order_number r,
        py_Provider = p_provider p, py_ExternalID = ext, py_Status = p_status p,
        py_Amount = float_of_numeric (p_amount p), py_Currency = p_currency p\<rparr>)
       (find (\<lambda>r. o_id r = p_order_id p) (orders d))"

definition GetByExternalID :: "string \<Rightarrow> string \<Rightarrow> Payment go" where
  "GetByExternalID provider ext =
     bindG (query (\<lambda>d. case find (\<lambda>p. p_provider p = provider \<and> p_provider_tx_id p = Some ext) (payments d) of
              None \<Rightarrow> None | Some p \<Rightarrow> payment_join d p ext)) (\<lambda>row.
     case row of None \<Rightarrow> failG (AppError (NotFound ''payment_not_found'')) | Some p \<Rightarrow> returnG p)"

section \<open>The expiry job\<close>

definition expiryBatch :: nat where "expiryBatch = 100"

definition unpaidExpired :: "int \<Rightarrow> db \<Rightarrow> order_row \<Rightarrow> bool" where
  "unpaidExpired ttl d r \<longleftrightarrow>
     o_status r = StatusPlaced \<and> o_payment_method r = PaymentOnlineCard \<and>
     (o_payment_status r = Some PaymentPending \<or> o_payment_status r = Some PaymentFailed) \<and>
     (case latest_payment d (o_id r) of
        None \<Rightarrow> o_created_at r
      | Some p \<Rightarrow> if p_status p = PaymentPending then p_created_at p else p_updated_at p) < clock d - ttl"

definition expire_tx :: "env \<Rightarrow> string \<Rightarrow> int \<Rightarrow> bool go" where
  "expire_tx env orderID ttl =
     bindG (attempt (LockOrderTx orderID)) (\<lambda>locked.
     case locked of
       Inl err \<Rightarrow> if is_app_error err ''order_not_found'' then returnG False else failG err
     | Inr _ \<Rightarrow>
         bindG (query (\<lambda>d. \<exists>r \<in> set (orders d). unpaidExpired ttl d r \<and> o_id r = orderID)) (\<lambda>still.
         if \<not> still then returnG False
         else CancelUnpaidOrderTx env orderID NotePaymentExpired))"

definition expireOne :: "env \<Rightarrow> string \<Rightarrow> int \<Rightarrow> bool go" where
  "expireOne env orderID ttl = withTx (expire_tx env orderID ttl)"

fun expire_all :: "env \<Rightarrow> int \<Rightarrow> string list \<Rightarrow> nat \<Rightarrow> nat go" where
  "expire_all env ttl [] expired = returnG expired"
| "expire_all env ttl (oid # ids) expired =
     bindG (attempt (expireOne env oid ttl)) (\<lambda>r.
     expire_all env ttl ids (if r = Inr True then Suc expired else expired))"

definition ExpirePending :: "env \<Rightarrow> int \<Rightarrow> nat go" where
  "ExpirePending env ttl =
     bindG (query (\<lambda>d. take expiryBatch (map o_id
              (sort_key o_created_at (filter (unpaidExpired ttl d) (orders d))))))
       (\<lambda>ids. expire_all env ttl ids 0)"

end
