(* ===== verification/Invariant.thy ===== *)
theory Invariant
  imports Payments
begin

text \<open>
  What holds of the tables at every moment, in the groups the proofs use: unique identifiers
  (\<open>keys_ok\<close>), the rows that hang on an order (\<open>links_ok\<close>), the single order row (\<open>row_ok\<close>), the
  payments of an order (\<open>pay_ok\<close>), its history (\<open>history_ok\<close>), the stock (\<open>stock_ok\<close>); and the two
  accounts the program must not lose: \<open>goods\<close>, the units of a variant at a point, on the shelf or
  reserved by orders, and \<open>live_units\<close>, what the sales statistics count.
\<close>

section \<open>The invariant\<close>

definition keys_ok :: "db \<Rightarrow> bool" where
  "keys_ok d \<longleftrightarrow> distinct (map o_id (orders d)) \<and> distinct (map o_order_number (orders d)) \<and>
     distinct (map i_id (order_items d)) \<and> distinct (map h_id (order_status_history d)) \<and>
     distinct (map p_id (payments d))"

definition links_ok :: "db \<Rightarrow> bool" where
  "links_ok d \<longleftrightarrow>
     i_order_id ` set (order_items d) \<subseteq> o_id ` set (orders d) \<and>
     h_order_id ` set (order_status_history d) \<subseteq> o_id ` set (orders d) \<and>
     p_order_id ` set (payments d) \<subseteq> o_id ` set (orders d) \<and>
     (\<forall>i \<in> set (order_items d). 0 < i_quantity i)"

text \<open>
  An online order past \<^verbatim>\<open>placed\<close> is paid (or was, and is refunded); a cancelled one that is paid is
  flagged for refund; its amount fits the column.
\<close>

definition row_ok :: "order_row \<Rightarrow> bool" where
  "row_ok r \<longleftrightarrow> order_check r \<and>
     (o_payment_method r = PaymentOnlineCard \<and>
        o_status r \<in> {StatusConfirmed, StatusCourierAssigned, StatusDelivered}
        \<longrightarrow> o_payment_status r = Some PaymentPaid \<or> o_payment_status r = Some PaymentRefunded) \<and>
     (o_status r = StatusCancelled \<and> o_payment_status r = Some PaymentPaid \<longrightarrow> o_refund_required r) \<and>
     \<bar>o_total_amount r\<bar> < numeric_10_2_bound \<and>
     (\<forall>s. o_status r \<noteq> StatusOther s)"

definition payments_of :: "db \<Rightarrow> string \<Rightarrow> payment_row list" where
  "payments_of d oid = filter (\<lambda>p. p_order_id p = oid) (payments d)"

definition settled :: "PaymentStatus \<Rightarrow> bool" where
  "settled st \<longleftrightarrow> st = PaymentPaid \<or> st = PaymentRefunded"

text \<open>
  The payments \<open>ps\<close> of the order \<open>r\<close>: a pending one only while the order waits for money, at most
  one at a time; at most one settled one, and then the order says so; amounts are the total, and
  the attempts are bounded.
\<close>

definition pay_ok :: "order_row \<Rightarrow> payment_row list \<Rightarrow> bool" where
  "pay_ok r ps \<longleftrightarrow>
     (ps \<noteq> [] \<longrightarrow> o_payment_method r = PaymentOnlineCard) \<and>
     (\<forall>p \<in> set ps. p_amount p = o_total_amount r) \<and>
     length ps \<le> MaxPaymentAttempts \<and>
     length (filter (\<lambda>p. p_status p = PaymentPending) ps) =
       (if o_payment_status r = Some PaymentPending then 1 else 0) \<and>
     (o_payment_status r = Some PaymentPending \<longrightarrow> o_status r = StatusPlaced) \<and>
     map p_status (filter (\<lambda>p. settled (p_status p)) ps) =
       (case o_payment_status r of
          Some PaymentPaid \<Rightarrow> [PaymentPaid] | Some PaymentRefunded \<Rightarrow> [PaymentRefunded] | _ \<Rightarrow> [])"

fun chain :: "OrderStatus option \<Rightarrow> history_row list \<Rightarrow> OrderStatus option \<Rightarrow> bool" where
  "chain s [] t \<longleftrightarrow> s = t"
| "chain s (h # hs) t \<longleftrightarrow> h_from_status h = s \<and>
     (case s of None \<Rightarrow> h_to_status h = StatusPlaced | Some a \<Rightarrow> validStatusTransition a (h_to_status h)) \<and>
     chain (Some (h_to_status h)) hs t"

definition history_of :: "db \<Rightarrow> string \<Rightarrow> history_row list" where
  "history_of d oid = filter (\<lambda>h. h_order_id h = oid) (order_status_history d)"

definition stock_ok :: "db \<Rightarrow> bool" where
  "stock_ok d \<longleftrightarrow> (\<forall>k q. stock d k = Some q \<longrightarrow> 0 \<le> q \<and> q \<le> max_int4)"

definition order_ok :: "db \<Rightarrow> order_row \<Rightarrow> bool" where
  "order_ok d r \<longleftrightarrow> row_ok r \<and> pay_ok r (payments_of d (o_id r)) \<and>
     chain None (history_of d (o_id r)) (Some (o_status r))"

text \<open>
  An order that waits for its payment can still be paid, or be expired: its payment status is
  never \<^verbatim>\<open>cancelled\<close>. This holds between transactions only, so it stands apart.
\<close>

definition payable :: "db \<Rightarrow> bool" where
  "payable d \<longleftrightarrow> (\<forall>r \<in> set (orders d). o_status r = StatusPlaced \<longrightarrow> o_payment_status r \<noteq> Some PaymentCancelled)"

definition consistent :: "db \<Rightarrow> bool" where
  "consistent d \<longleftrightarrow> keys_ok d \<and> links_ok d \<and> stock_ok d \<and> (\<forall>r \<in> set (orders d). order_ok d r)"

section \<open>The accounts\<close>

definition reserved :: "db \<Rightarrow> string \<Rightarrow> string \<Rightarrow> int" where
  "reserved d v p = (\<Sum>r \<leftarrow> orders d.
     if o_status r \<noteq> StatusCancelled \<and> o_point_id r = Some p then units d (o_id r) v else 0)"

definition goods :: "db \<Rightarrow> string \<Rightarrow> string \<Rightarrow> int" where
  "goods d v p = stock_qty d v p + reserved d v p"

definition live_units :: "db \<Rightarrow> string \<Rightarrow> int" where
  "live_units d x = (\<Sum>r \<leftarrow> orders d. if o_status r \<noteq> StatusCancelled then order_units d (o_id r) x else 0)"

definition sales_gap :: "db \<Rightarrow> string \<Rightarrow> int" where
  "sales_gap d x = product_sales d x - live_units d x"

text \<open>What a step of the program may not change: the two accounts and the catalog.\<close>

definition conserves :: "db \<Rightarrow> db \<Rightarrow> bool" where
  "conserves d d' \<longleftrightarrow> goods d' = goods d \<and> sales_gap d' = sales_gap d \<and> variants d' = variants d"

lemma conserves_refl [simp]: "conserves d d" by (simp add: conserves_def)

lemma conserves_trans [trans]: "conserves a b \<Longrightarrow> conserves b c \<Longrightarrow> conserves a c"
  by (simp add: conserves_def)

section \<open>Sums over the orders\<close>

lemma sum_set_row:
  fixes g :: "order_row \<Rightarrow> int"
  assumes "distinct (map o_id (orders d))" "r \<in> set (orders d)"
  shows "(\<Sum>x \<leftarrow> set_row r r' d. g x) = (\<Sum>x \<leftarrow> orders d. g x) - g r + g r'"
  using sum_list_map_update [OF assms, of g "\<lambda>_. r'"] by (simp add: set_row_def)

lemma sum_list_cong: "(\<And>x. x \<in> set xs \<Longrightarrow> f x = g x) \<Longrightarrow> (\<Sum>x \<leftarrow> xs. f x) = (\<Sum>x \<leftarrow> xs. g x)"
  by (metis map_cong)

lemma units_cong: "order_items d = order_items d' \<Longrightarrow> units d = units d'"
  by (intro ext) (simp add: units_def)

lemma reserved_cong:
  "order_items d = order_items d' \<Longrightarrow>
   map (\<lambda>r. (o_id r, o_status r, o_point_id r)) (orders d) = map (\<lambda>r. (o_id r, o_status r, o_point_id r)) (orders d') \<Longrightarrow>
   reserved d = reserved d'"
proof (intro ext)
  fix v p
  assume i: "order_items d = order_items d'"
    and o: "map (\<lambda>r. (o_id r, o_status r, o_point_id r)) (orders d) =
            map (\<lambda>r. (o_id r, o_status r, o_point_id r)) (orders d')"
  let ?f = "\<lambda>(oid, st, pt :: string option). if st \<noteq> StatusCancelled \<and> pt = Some p then units d oid v else 0"
  have "reserved d v p = sum_list (map ?f (map (\<lambda>r. (o_id r, o_status r, o_point_id r)) (orders d)))"
    by (simp add: reserved_def comp_def)
  also have "\<dots> = reserved d' v p"
    unfolding o units_cong [OF i] by (simp add: reserved_def comp_def)
  finally show "reserved d v p = reserved d' v p" .
qed

lemma live_units_cong:
  "order_items d = order_items d' \<Longrightarrow> variants d = variants d' \<Longrightarrow>
   map (\<lambda>r. (o_id r, o_status r)) (orders d) = map (\<lambda>r. (o_id r, o_status r)) (orders d') \<Longrightarrow>
   live_units d = live_units d'"
proof (intro ext)
  fix x
  assume i: "order_items d = order_items d'" "variants d = variants d'"
    and o: "map (\<lambda>r. (o_id r, o_status r)) (orders d) = map (\<lambda>r. (o_id r, o_status r)) (orders d')"
  let ?f = "\<lambda>(oid, st). if st \<noteq> StatusCancelled then order_units d oid x else 0"
  have "live_units d x = sum_list (map ?f (map (\<lambda>r. (o_id r, o_status r)) (orders d)))"
    by (simp add: live_units_def comp_def)
  also have "\<dots> = live_units d' x"
    unfolding o order_units_cong [OF i(2,1)] by (simp add: live_units_def comp_def)
  finally show "live_units d x = live_units d' x" .
qed

lemma distinct_set_row:
  assumes "o_id r' = o_id r" shows "map o_id (set_row r r' d) = map o_id (orders d)"
  using assms by (auto simp: set_row_def)

lemma map_set_row:
  assumes "distinct (map o_id (orders d))" "r \<in> set (orders d)" "k r' = k r"
  shows "map k (set_row r r' d) = map k (orders d)"
  unfolding set_row_def using assms distinct_map_eqD [OF assms(1) _ assms(2)] by auto

lemma set_set_row:
  assumes "distinct (map o_id (orders d))" "r \<in> set (orders d)"
  shows "set (set_row r r' d) = insert r' (set (orders d) - {r})"
  unfolding set_row_def using distinct_map_eqD [OF assms(1) _ assms(2)] assms(2) by (auto simp: image_iff)

section \<open>Moves conserve\<close>

lemma moved_conserves:
  assumes m: "moved r r' h d d'" and dist: "distinct (map o_id (orders d))"
    and live: "o_status r \<noteq> StatusCancelled" "o_status r' \<noteq> StatusCancelled"
    and pt: "o_point_id r' = o_point_id r" and st: "stock d' = stock d"
  shows "conserves d d'"
proof -
  note m' = m [unfolded moved_def]
  have r: "r \<in> set (orders d)" using m' by blast
  have i: "order_items d' = order_items d" "variants d' = variants d" "orders d' = set_row r r' d"
    using m' by blast+
  note s = sum_set_row [OF dist r, of _ r']
  have u: "units d' = units d" "order_units d' = order_units d"
    using units_cong order_units_cong i by metis+
  have "reserved d' v p = reserved d v p" for v p
    unfolding reserved_def i(3) u s using m' live pt by simp
  then have "goods d' = goods d" by (intro ext) (simp add: goods_def stock_qty_def st)
  moreover have "live_units d' x = live_units d x" for x
    unfolding live_units_def i(3) u s using m' live by simp
  then have "sales_gap d' = sales_gap d"
    using m' live by (intro ext) (simp add: sales_gap_def sales_shift_def)
  ultimately show ?thesis using i(2) by (simp add: conserves_def)
qed

lemma cancelled_conserves:
  assumes c: "cancelled r h d d'" and dist: "distinct (map o_id (orders d))"
    and live: "o_status r \<noteq> StatusCancelled"
  shows "conserves d d'"
proof -
  obtain p vs where p: "o_point_id r = Some p"
    and m: "moved r (cancelled_row r (clock d)) h d d'"
    and st: "stock d' = returned d p (units d (o_id r)) vs"
    and vs: "set vs = i_variant_id ` {i \<in> set (order_items d). i_order_id i = o_id r}"
    using c unfolding cancelled_def by blast
  note m' = m [unfolded moved_def]
  let ?r' = "cancelled_row r (clock d)"
  have r: "r \<in> set (orders d)" using m' by blast
  have i: "order_items d' = order_items d" "variants d' = variants d" "orders d' = set_row r ?r' d"
    using m' by blast+
  note s = sum_set_row [OF dist r, of _ ?r']
  have u: "units d' = units d" "order_units d' = order_units d"
    using units_cong order_units_cong i by metis+
  have rs: "o_status ?r' = StatusCancelled" by (simp add: cancelled_row_def)
  have sq: "stock_qty d' v q = stock_qty d v q + (if q = p then units d (o_id r) v else 0)" for v q
    using stock_qty_returned [OF refl vs, of p v q] by (simp add: st stock_qty_def)
  have "reserved d' v q = reserved d v q - (if q = p then units d (o_id r) v else 0)" for v q
    unfolding reserved_def i(3) u s using rs live p by auto
  then have "goods d' = goods d" by (intro ext) (simp add: goods_def sq)
  moreover have "live_units d' x = live_units d x - order_units d (o_id r) x" for x
    unfolding live_units_def i(3) u s using rs live by simp
  then have "sales_gap d' = sales_gap d"
    using m' live rs by (intro ext) (simp add: sales_gap_def sales_shift_def)
  ultimately show ?thesis using i(2) by (simp add: conserves_def)
qed

end
