(* ===== verification/Preservation.thy ===== *)
theory Preservation
  imports Invariant
begin

text \<open>
  The invariant is kept by what the transactions do: by a change of one order with its payments and
  its history (\<open>inv_one_order\<close>), so by a cancellation and by every other transition, and by a new
  order (\<open>inv_new_order\<close>).
\<close>

section \<open>Payments of one order\<close>

definition pend :: "payment_row list \<Rightarrow> nat" where
  "pend ps = length (filter (\<lambda>p. p_status p = PaymentPending) ps)"

definition sett :: "payment_row list \<Rightarrow> PaymentStatus list" where
  "sett ps = map p_status (filter (\<lambda>p. settled (p_status p)) ps)"

definition expected_sett :: "PaymentStatus option \<Rightarrow> PaymentStatus list" where
  "expected_sett st = (case st of Some PaymentPaid \<Rightarrow> [PaymentPaid]
     | Some PaymentRefunded \<Rightarrow> [PaymentRefunded] | _ \<Rightarrow> [])"

lemma pay_ok_alt:
  "pay_ok r ps \<longleftrightarrow>
     (ps \<noteq> [] \<longrightarrow> o_payment_method r = PaymentOnlineCard) \<and>
     (\<forall>p \<in> set ps. p_amount p = o_total_amount r) \<and>
     length ps \<le> MaxPaymentAttempts \<and>
     pend ps = (if o_payment_status r = Some PaymentPending then 1 else 0) \<and>
     (o_payment_status r = Some PaymentPending \<longrightarrow> o_status r = StatusPlaced) \<and>
     sett ps = expected_sett (o_payment_status r)"
  by (simp add: pay_ok_def pend_def sett_def expected_sett_def)

lemma pend_simps [simp]:
  "pend [] = 0" "pend (ps @ qs) = pend ps + pend qs"
  "pend (p # ps) = (if p_status p = PaymentPending then Suc (pend ps) else pend ps)"
  by (simp_all add: pend_def)

lemma sett_simps [simp]:
  "sett [] = []" "sett (ps @ qs) = sett ps @ sett qs"
  "sett (p # ps) = (if settled (p_status p) then p_status p # sett ps else sett ps)"
  by (simp_all add: sett_def)

lemma settled_simps [simp]:
  "settled PaymentPaid" "settled PaymentRefunded"
  "\<not> settled PaymentPending" "\<not> settled PaymentFailed" "\<not> settled PaymentCancelled"
  by (simp_all add: settled_def)

lemma expected_sett_simps [simp]:
  "expected_sett None = []" "expected_sett (Some PaymentPaid) = [PaymentPaid]"
  "expected_sett (Some PaymentRefunded) = [PaymentRefunded]"
  "expected_sett (Some PaymentPending) = []" "expected_sett (Some PaymentFailed) = []"
  "expected_sett (Some PaymentCancelled) = []"
  by (simp_all add: expected_sett_def)

lemma pend_0: "pend ps = 0 \<longleftrightarrow> (\<forall>p \<in> set ps. p_status p \<noteq> PaymentPending)"
  by (auto simp: pend_def filter_empty_conv)

lemma sett_Nil: "sett ps = [] \<longleftrightarrow> (\<forall>p \<in> set ps. \<not> settled (p_status p))"
  by (auto simp: sett_def filter_empty_conv)

definition close :: "int \<Rightarrow> payment_row \<Rightarrow> payment_row" where
  "close now p = (if p_status p = PaymentPending then p\<lparr>p_status := PaymentCancelled, p_updated_at := now\<rparr> else p)"

lemma close_keeps [simp]:
  "p_id (close t p) = p_id p" "p_order_id (close t p) = p_order_id p" "p_amount (close t p) = p_amount p"
  "p_status (close t p) = PaymentPending \<longleftrightarrow> False"
  "settled (p_status (close t p)) = settled (p_status p)"
  by (simp_all add: close_def)

lemma pend_close [simp]: "pend (map (close t) ps) = 0"
  by (simp add: pend_0)

lemma sett_close [simp]: "sett (map (close t) ps) = sett ps"
  by (induction ps) (auto simp: close_def)

section \<open>Payments of all orders\<close>

lemma payments_of_map:
  assumes "\<And>p. p_order_id (f p) = p_order_id p"
  shows "filter (\<lambda>p. p_order_id p = oid) (map f ps) = map f (filter (\<lambda>p. p_order_id p = oid) ps)"
  by (induction ps) (simp_all add: assms)

lemma closed_pending_map:
  "closed_pending d oid = map (\<lambda>p. if p_order_id p = oid then close (clock d) p else p) (payments d)"
  by (auto simp: closed_pending_def close_def)

lemma payments_of_closed:
  assumes "payments d' = closed_pending d oid"
  shows "payments_of d' x = (if x = oid then map (close (clock d)) (payments_of d x) else payments_of d x)"
proof -
  have "payments_of d' x = map (\<lambda>p. if p_order_id p = oid then close (clock d) p else p) (payments_of d x)"
    unfolding payments_of_def assms closed_pending_map by (rule payments_of_map) simp
  then show ?thesis by (auto simp: payments_of_def intro!: map_idI)
qed

lemma p_id_closed: "map p_id (closed_pending d oid) = map p_id (payments d)"
  "map p_order_id (closed_pending d oid) = map p_order_id (payments d)"
  by (auto simp: closed_pending_map)

lemma closed_order_ids: "p_order_id ` set (closed_pending d oid) = p_order_id ` set (payments d)"
  by (metis p_id_closed(2) list.set_map)

section \<open>History\<close>

lemma chain_snoc:
  "chain s hs (Some a) \<Longrightarrow> h_from_status h = Some a \<Longrightarrow> validStatusTransition a (h_to_status h) \<Longrightarrow>
   chain s (hs @ [h]) (Some (h_to_status h))"
  by (induction s hs "Some a" rule: chain.induct) auto

lemma history_of_snoc:
  "order_status_history d' = order_status_history d @ [h] \<Longrightarrow>
   history_of d' x = history_of d x @ (if h_order_id h = x then [h] else [])"
  by (simp add: history_of_def)

section \<open>One order changes\<close>

lemma order_ok_cong:
  "payments_of d' (o_id r) = payments_of d (o_id r) \<Longrightarrow> history_of d' (o_id r) = history_of d (o_id r) \<Longrightarrow>
   order_ok d' r = order_ok d r"
  by (simp add: order_ok_def)

lemma inv_one_order:
  assumes i: "consistent d" and r: "r \<in> set (orders d)" and o: "orders d' = set_row r r' d"
    and same: "o_id r' = o_id r" "o_order_number r' = o_order_number r" "order_items d' = order_items d"
    and pays: "map p_id (payments d') = map p_id (payments d) \<or> distinct (map p_id (payments d'))"
      "p_order_id ` set (payments d') \<subseteq> o_id ` set (orders d)"
      "\<And>x. x \<noteq> o_id r \<Longrightarrow> payments_of d' x = payments_of d x"
    and hist: "order_status_history d' = order_status_history d \<or>
      (\<exists>h. order_status_history d' = order_status_history d @ [h] \<and> h_order_id h = o_id r \<and>
           h_id h \<notin> h_id ` set (order_status_history d))"
    and st: "stock_ok d'" and ok: "order_ok d' r'"
  shows "consistent d'"
proof -
  have k: "keys_ok d" and l: "links_ok d" and a: "\<forall>x \<in> set (orders d). order_ok d x"
    using i by (simp_all add: consistent_def)
  have dist: "distinct (map o_id (orders d))" using k by (simp add: keys_ok_def)
  have ids: "map o_id (orders d') = map o_id (orders d)" "o_id ` set (orders d') = o_id ` set (orders d)"
    using map_set_row [OF dist r, of o_id, OF same(1)] unfolding o by (simp, metis list.set_map)
  have nums: "map o_order_number (orders d') = map o_order_number (orders d)"
    using map_set_row [OF dist r, of o_order_number, OF same(2)] unfolding o by simp
  have "keys_ok d'" using k hist pays(1) unfolding keys_ok_def ids(1) nums same(3) by auto
  moreover have "h_order_id ` set (order_status_history d') \<subseteq> o_id ` set (orders d)"
    using hist
  proof (elim disjE exE conjE)
    fix h assume "order_status_history d' = order_status_history d @ [h]" "h_order_id h = o_id r"
    then have "h_order_id ` set (order_status_history d') =
        insert (o_id r) (h_order_id ` set (order_status_history d))" by simp
    then show ?thesis using l r unfolding links_ok_def by simp
  qed (use l in \<open>simp add: links_ok_def\<close>)
  then have "links_ok d'" using l pays(2) unfolding links_ok_def ids(2) same(3) by blast
  moreover have "order_ok d' x" if x: "x \<in> set (orders d')" for x
  proof (cases "x = r'")
    case False
    then have x': "x \<in> set (orders d)" "x \<noteq> r" using x unfolding o set_set_row [OF dist r] by auto
    then have ne: "o_id x \<noteq> o_id r" using distinct_map_eqD [OF dist _ r] by blast
    have "history_of d' (o_id x) = history_of d (o_id x)"
      using hist ne history_of_snoc [of d' d _ "o_id x"] by (auto simp: history_of_def)
    then show ?thesis using order_ok_cong [OF pays(3) [OF ne]] a x'(1) by blast
  qed (use ok in simp)
  ultimately show ?thesis using st \<open>links_ok d'\<close> by (simp add: consistent_def)
qed

lemma inv_keys:
  assumes "consistent d"
  shows "distinct (map o_id (orders d))" "distinct (map p_id (payments d))"
    and "r \<in> set (orders d) \<Longrightarrow> order_ok d r"
    and "p_order_id ` set (payments d) \<subseteq> o_id ` set (orders d)" and "stock_ok d"
  using assms by (simp_all add: consistent_def keys_ok_def links_ok_def)

section \<open>Transitions\<close>

lemma stock_ok_returned:
  assumes "stock_ok d" and "\<forall>v \<in> set vs. 0 \<le> stock_qty d v p + f v \<and> stock_qty d v p + f v \<le> max_int4"
  shows "stock_ok (d\<lparr>stock := returned d p f vs\<rparr>)"
  using assms by (auto simp: stock_ok_def returned_def split: if_splits)

lemma cancelled_inv:
  assumes i: "consistent d" and c: "cancelled r h d d'" and v: "validStatusTransition (o_status r) StatusCancelled"
  shows "consistent d'"
proof -
  obtain p vs where
      m: "moved r (cancelled_row r (clock d)) h d d'"
    and pay: "payments d' = (if o_payment_method r = PaymentOnlineCard \<and> o_payment_status r = Some PaymentPending
                    then closed_pending d (o_id r) else payments d)"
    and st: "stock d' = returned d p (units d (o_id r)) vs"
    and b: "\<forall>v \<in> set vs. 0 \<le> stock_qty d v p + units d (o_id r) v \<and>
                  stock_qty d v p + units d (o_id r) v \<le> max_int4"
    using c unfolding cancelled_def by blast
  note m' = m [unfolded moved_def]
  let ?r' = "cancelled_row r (clock d)"
  have r: "r \<in> set (orders d)" using m' by blast
  note k = inv_keys [OF i]
  note ok = k(3) [OF r, unfolded order_ok_def pay_ok_alt]
  have oc: "order_check r" using ok by (simp add: row_ok_def)
  have pof: "payments_of d' x = (if x = o_id r \<and> o_payment_method r = PaymentOnlineCard \<and>
        o_payment_status r = Some PaymentPending then map (close (clock d)) (payments_of d x)
      else payments_of d x)" for x
    using payments_of_closed [of d' d "o_id r" x] pay by (auto simp: payments_of_def split: if_splits)
  show ?thesis
  proof (rule inv_one_order [OF i r, of d' ?r'])
    show "orders d' = set_row r ?r' d" "o_id ?r' = o_id r" "order_items d' = order_items d"
      using m' by blast+
    show "o_order_number ?r' = o_order_number r" by (simp add: cancelled_row_def)
    show "map p_id (payments d') = map p_id (payments d) \<or> distinct (map p_id (payments d'))"
      by (simp add: pay p_id_closed)
    show "p_order_id ` set (payments d') \<subseteq> o_id ` set (orders d)"
      using k(4) by (simp add: pay closed_order_ids)
    show "payments_of d' x = payments_of d x" if "x \<noteq> o_id r" for x using that by (simp add: pof)
    show "order_status_history d' = order_status_history d \<or>
      (\<exists>h. order_status_history d' = order_status_history d @ [h] \<and> h_order_id h = o_id r \<and>
           h_id h \<notin> h_id ` set (order_status_history d))" using m' by blast
    have "stock_ok (d\<lparr>stock := stock d'\<rparr>)" using stock_ok_returned [OF k(5) b] by (simp add: st)
    then show "stock_ok d'" by (simp add: stock_ok_def)
    have "row_ok ?r'"
    proof -
      have "order_check ?r'" using m' by blast
      moreover have "\<bar>o_total_amount r\<bar> < numeric_10_2_bound" using ok unfolding row_ok_def by blast
      ultimately show ?thesis using oc unfolding row_ok_def by (auto simp: cancelled_row_def order_check_def)
    qed
    moreover have "pay_ok ?r' (payments_of d' (o_id r))"
    proof (cases "o_payment_method r = PaymentOnlineCard \<and> o_payment_status r = Some PaymentPending")
      case True
      then have po: "payments_of d' (o_id r) = map (close (clock d)) (payments_of d (o_id r))" by (simp add: pof)
      have r': "o_payment_status ?r' = Some PaymentCancelled" "o_payment_method ?r' = PaymentOnlineCard"
        "o_total_amount ?r' = o_total_amount r" using True by (simp_all add: cancelled_row_def)
      show ?thesis using ok True unfolding po pay_ok_alt r' by simp
    next
      case False
      then have po: "payments_of d' (o_id r) = payments_of d (o_id r)" by (auto simp: pof)
      have ne: "o_payment_status r \<noteq> Some PaymentPending" using False oc by (auto simp: order_check_def)
      have r': "o_payment_status ?r' = o_payment_status r" "o_payment_method ?r' = o_payment_method r"
        "o_total_amount ?r' = o_total_amount r" using False by (auto simp: cancelled_row_def)
      show ?thesis using ok ne unfolding po pay_ok_alt r' by simp
    qed
    moreover have "chain None (history_of d' (o_id r)) (Some StatusCancelled)"
    proof -
      have h: "h_from_status h = Some (o_status r)" "h_to_status h = StatusCancelled" "h_order_id h = o_id r"
        "order_status_history d' = order_status_history d @ [h]"
        using m' by (simp_all add: cancelled_row_def)
      have "chain None (history_of d (o_id r)) (Some (o_status r))" using ok by blast
      from chain_snoc [OF this h(1)] v h(2,3) show ?thesis by (simp add: history_of_snoc [OF h(4)])
    qed
    ultimately show "order_ok d' ?r'" by (simp add: order_ok_def cancelled_row_def)
  qed
qed

lemma advanced_inv:
  assumes i: "consistent d" and m: "moved r (advanced_row r to (clock d)) h d d'"
    and same: "payments d' = payments d" "stock d' = stock d"
    and v: "validStatusTransition (o_status r) to" "to \<noteq> StatusCancelled"
    and g: "to = StatusConfirmed \<Longrightarrow> may_confirm r"
  shows "consistent d'"
proof -
  note m' = m [unfolded moved_def]
  let ?r' = "advanced_row r to (clock d)"
  have r: "r \<in> set (orders d)" using m' by blast
  note k = inv_keys [OF i]
  note ok = k(3) [OF r, unfolded order_ok_def]
  have oc: "order_check r" using ok by (simp add: row_ok_def)
  have pof: "payments_of d' = payments_of d" by (intro ext) (simp add: payments_of_def same)
  have to: "o_status r = StatusPlaced \<and> to = StatusConfirmed \<or>
      o_status r = StatusConfirmed \<and> to = StatusCourierAssigned \<or>
      o_status r = StatusCourierAssigned \<and> to = StatusDelivered"
    using v by (cases "o_status r") (auto simp: validStatusTransition_def split: if_splits)
  show ?thesis
  proof (rule inv_one_order [OF i r, of d' ?r'])
    show "orders d' = set_row r ?r' d" "o_id ?r' = o_id r" "order_items d' = order_items d"
      using m' by blast+
    show "o_order_number ?r' = o_order_number r" by (simp add: advanced_row_def)
    show "map p_id (payments d') = map p_id (payments d) \<or> distinct (map p_id (payments d'))"
      "p_order_id ` set (payments d') \<subseteq> o_id ` set (orders d)"
      using k(4) by (simp_all add: same)
    show "payments_of d' x = payments_of d x" for x by (simp add: pof)
    show "order_status_history d' = order_status_history d \<or>
      (\<exists>h. order_status_history d' = order_status_history d @ [h] \<and> h_order_id h = o_id r \<and>
           h_id h \<notin> h_id ` set (order_status_history d))" using m' by blast
    show "stock_ok d'" using k(5) by (simp add: stock_ok_def same)
    have "row_ok ?r'"
      using ok to g unfolding row_ok_def may_confirm_def
      by (auto simp: advanced_row_def order_check_def)
    moreover have "pay_ok ?r' (payments_of d' (o_id r))"
      using ok oc to g unfolding pof pay_ok_def may_confirm_def
      by (auto simp: advanced_row_def order_check_def)
    moreover have "chain None (history_of d' (o_id r)) (Some to)"
    proof -
      have h: "h_from_status h = Some (o_status r)" "h_to_status h = to" "h_order_id h = o_id r"
        "order_status_history d' = order_status_history d @ [h]"
        using m' by (simp_all add: advanced_row_def)
      have "chain None (history_of d (o_id r)) (Some (o_status r))" using ok by blast
      from chain_snoc [OF this h(1)] v h(2,3) show ?thesis by (simp add: history_of_snoc [OF h(4)])
    qed
    ultimately show "order_ok d' ?r'" by (simp add: order_ok_def advanced_row_def)
  qed
qed

section \<open>A new order\<close>

lemma sum_list_mset_cong: "mset xs = mset ys \<Longrightarrow> sum_list xs = sum_list (ys :: int list)"
  by (metis sum_mset_sum_list)

lemma sum_lines_of:
  "distinct vids \<Longrightarrow> (\<Sum>(w, q) \<leftarrow> order_lines qty vids. if w = v then q else 0) = (if v \<in> set vids then qty v else 0)"
  by (induction vids) (auto simp: order_lines_def)

lemma units_of_rows:
  assumes "mset (map row_line rows) = mset (order_lines qty vids)" and "distinct vids"
  shows "(\<Sum>i \<leftarrow> rows. if i_variant_id i = v then i_quantity i else 0) = (if v \<in> set vids then qty v else 0)"
proof -
  let ?g = "\<lambda>(w, q). if w = v then q else (0 :: int)"
  have "(\<Sum>i \<leftarrow> rows. if i_variant_id i = v then i_quantity i else 0) = sum_list (map ?g (map row_line rows))"
    by (simp add: row_line_def comp_def)
  also have "\<dots> = sum_list (map ?g (order_lines qty vids))"
    by (rule sum_list_mset_cong) (metis assms(1) mset_map)
  finally show ?thesis unfolding sum_lines_of [OF assms(2)] .
qed

lemma placed_units:
  assumes p: "placed_rows inp method qty vids d r p rows h d'" and l: "links_ok d" and dv: "distinct vids"
  shows "units d' x v = (if x = o_id r then (if v \<in> set vids then qty v else 0) else units d x v)"
    and "order_units d' x y = (if x = o_id r then (\<Sum>i \<leftarrow> rows. item_units d y i) else order_units d x y)"
    and "units d (o_id r) v = 0"
proof -
  have fresh: "o_id r \<notin> o_id ` set (orders d)" and ri: "\<forall>i \<in> set rows. i_order_id i = o_id r"
    and it: "order_items d' = order_items d @ rows" and va: "variants d' = variants d"
    and ml: "mset (map row_line rows) = mset (order_lines qty vids)"
    using p unfolding placed_rows_def by blast+
  have old: "\<forall>i \<in> set (order_items d). i_order_id i \<noteq> o_id r" using fresh l unfolding links_ok_def by (metis image_eqI subsetD)
  show z: "units d (o_id r) v = 0" unfolding units_def by (rule sum_list_zero) (use old in auto)
  have "units d' x v = units d x v + (\<Sum>i \<leftarrow> rows. if i_order_id i = x \<and> i_variant_id i = v then i_quantity i else 0)"
    by (simp add: units_def it)
  also have "(\<Sum>i \<leftarrow> rows. if i_order_id i = x \<and> i_variant_id i = v then i_quantity i else 0) =
      (if x = o_id r then (\<Sum>i \<leftarrow> rows. if i_variant_id i = v then i_quantity i else 0) else 0)"
    using ri by (auto intro!: sum_list_cong sum_list_zero)
  finally show "units d' x v = (if x = o_id r then (if v \<in> set vids then qty v else 0) else units d x v)"
    using z units_of_rows [OF ml dv] by simp
  have iu: "item_units d' = item_units d" by (intro ext item_units_cong) (simp add: va)
  have "order_units d (o_id r) y = 0" unfolding order_units_def by (rule sum_list_zero) (use old in auto)
  moreover have "order_units d' x y = order_units d x y + (\<Sum>i \<leftarrow> rows. if i_order_id i = x then item_units d y i else 0)"
    unfolding order_units_def it iu by simp
  moreover have "(\<Sum>i \<leftarrow> rows. if i_order_id i = x then item_units d y i else 0) =
      (if x = o_id r then (\<Sum>i \<leftarrow> rows. item_units d y i) else 0)"
    using ri by (auto intro!: sum_list_cong sum_list_zero)
  ultimately show "order_units d' x y = (if x = o_id r then (\<Sum>i \<leftarrow> rows. item_units d y i) else order_units d x y)"
    by simp
qed

lemma placed_conserves:
  assumes p: "placed_rows inp method qty vids d r p rows h d'" and l: "links_ok d" and dv: "distinct vids"
  shows "conserves d d'"
proof -
  note u = placed_units [OF assms]
  have f: "o_status r = StatusPlaced" "o_point_id r = Some p" "orders d' = orders d @ [r]"
    "o_id r \<notin> o_id ` set (orders d)" "stock d' = taken d p vids qty" "covers d p vids qty"
    "variants d' = variants d" "\<forall>x. product_sales d' x = product_sales d x + (\<Sum>i \<leftarrow> rows. item_units d x i)"
    using p unfolding placed_rows_def by blast+
  have ne: "x \<in> set (orders d) \<Longrightarrow> o_id x \<noteq> o_id r" for x using f(4) by (metis image_eqI)
  have "reserved d' v q = reserved d v q + (if q = p \<and> v \<in> set vids then qty v else 0)" for v q
    unfolding reserved_def f(3) using ne by (auto simp: u f(1,2) intro!: sum_list_cong)
  moreover have "stock_qty d' v q = stock_qty d v q - (if q = p \<and> v \<in> set vids then qty v else 0)" for v q
    using f(6) by (auto simp: stock_qty_def f(5) taken_def covers_def split: option.splits)
  ultimately have "goods d' = goods d" by (intro ext) (simp add: goods_def)
  moreover have "live_units d' x = live_units d x + (\<Sum>i \<leftarrow> rows. item_units d x i)" for x
    unfolding live_units_def f(3) using ne by (auto simp: u f(1) intro!: sum_list_cong)
  then have "sales_gap d' = sales_gap d" using f(8) by (intro ext) (simp add: sales_gap_def)
  ultimately show ?thesis using f(7) by (simp add: conserves_def)
qed

lemma stock_ok_taken:
  assumes "stock_ok d" "covers d p vids qty" "\<forall>v \<in> set vids. 0 < qty v"
  shows "stock_ok (d\<lparr>stock := taken d p vids qty\<rparr>)"
  unfolding stock_ok_def
proof (intro allI impI)
  fix k q assume e: "stock (d\<lparr>stock := taken d p vids qty\<rparr>) k = Some q"
  show "0 \<le> q \<and> q \<le> max_int4"
  proof (cases "snd k = p \<and> fst k \<in> set vids")
    case True
    then obtain x where x: "stock d k = Some x" "qty (fst k) \<le> x"
      using assms(2) by (cases k) (auto simp: covers_def)
    then have "x \<le> max_int4" "0 < qty (fst k)" using assms(1,3) True unfolding stock_ok_def by blast+
    then show ?thesis using e True x by (auto simp: taken_def)
  next
    case False
    then have "stock d k = Some q" using e by (auto simp: taken_def)
    then show ?thesis using assms(1) unfolding stock_ok_def by blast
  qed
qed

text \<open>
  A new order, with the payments \<open>ps\<close> its \<open>afterInsert\<close> wrote: none for a cash order, a pending one
  of its amount for an online order.
\<close>

lemma placed_inv:
  assumes i: "consistent d" and p: "placed_rows inp method qty vids d r p rows h d1"
    and q: "\<forall>v \<in> set vids. 0 < qty v"
    and ps: "payments d2 = payments d @ ps" "\<forall>x \<in> set ps. p_order_id x = o_id r" "distinct (map p_id (payments d2))"
      "pay_ok r ps"
    and d2: "orders d2 = orders d1" "order_items d2 = order_items d1" "stock d2 = stock d1"
      "order_status_history d2 = order_status_history d1"
  shows "consistent d2"
proof -
  have k: "keys_ok d" and l: "links_ok d" and s: "stock_ok d" and a: "\<forall>x \<in> set (orders d). order_ok d x"
    using i by (simp_all add: consistent_def)
  note f = p [unfolded placed_rows_def]
  have o: "orders d2 = orders d @ [r]" "o_id r \<notin> o_id ` set (orders d)"
    "o_order_number r \<notin> o_order_number ` set (orders d)" unfolding d2 using f by blast+
  have it: "order_items d2 = order_items d @ rows" "\<forall>x \<in> set rows. i_order_id x = o_id r \<and> 0 < i_quantity x"
    "distinct (map i_id (order_items d2))" unfolding d2 using f k unfolding keys_ok_def by blast+
  have hi: "order_status_history d2 = order_status_history d @ [h]" "h_order_id h = o_id r"
    "h_id h \<notin> h_id ` set (order_status_history d)" "h_from_status h = None" "h_to_status h = StatusPlaced"
    unfolding d2 using f by blast+
  have "keys_ok d2" using k o it(3) hi ps(3) by (simp add: keys_ok_def)
  moreover have "links_ok d2"
    using l it(1,2) hi(2) ps(2) unfolding links_ok_def o(1) hi(1) it(1) ps(1) by auto
  moreover have "stock_ok d2"
    using stock_ok_taken [OF s _ q, of p] f d2(3) by (simp add: stock_ok_def)
  moreover have "order_ok d2 x" if "x \<in> set (orders d)" for x
  proof -
    have ne: "o_id x \<noteq> o_id r" using that o(2) by (metis image_eqI)
    have "payments_of d2 (o_id x) = payments_of d (o_id x)"
      using ps(2) ne by (auto simp: payments_of_def ps(1) filter_empty_conv)
    moreover have "history_of d2 (o_id x) = history_of d (o_id x)"
      using ne hi(2) by (simp add: history_of_snoc [OF hi(1)])
    ultimately show ?thesis using order_ok_cong a that by blast
  qed
  moreover have "order_ok d2 r"
  proof -
    have none: "\<forall>x \<in> set (payments d). p_order_id x \<noteq> o_id r"
      "\<forall>x \<in> set (order_status_history d). h_order_id x \<noteq> o_id r"
      using l o(2) unfolding links_ok_def by (metis image_eqI subsetD)+
    have "payments_of d2 (o_id r) = ps"
      using none(1) ps(2) by (simp add: payments_of_def ps(1) filter_empty_conv filter_id_conv)
    moreover have "history_of d2 (o_id r) = [h]"
      using none(2) hi(2) by (simp add: history_of_def hi(1) filter_empty_conv)
    moreover have "row_ok r" using f by (auto simp: row_ok_def)
    moreover have "o_status r = StatusPlaced" using f by simp
    ultimately show ?thesis using ps(4) hi by (simp add: order_ok_def)
  qed
  ultimately show ?thesis by (auto simp: consistent_def o(1))
qed

lemma release_inv: "consistent d \<Longrightarrow> consistent (release_key oid d)"
proof -
  assume i: "consistent d"
  let ?d = "release_key oid d"
  have m: "map o_id (orders ?d) = map o_id (orders d)" "map o_order_number (orders ?d) = map o_order_number (orders d)"
    by (simp_all add: release_key_def)
  then have s: "o_id ` set (orders ?d) = o_id ` set (orders d)" by (metis list.set_map)
  have e: "order_items ?d = order_items d" "payments ?d = payments d" "stock ?d = stock d"
    "order_status_history ?d = order_status_history d" by (simp_all add: release_key_def)
  have p: "payments_of ?d = payments_of d" "history_of ?d = history_of d"
    by (intro ext, simp add: payments_of_def history_of_def e)+
  have "order_ok ?d x" if mem: "x \<in> set (orders ?d)" for x
  proof -
    obtain r where r: "r \<in> set (orders d)" and x: "x = r \<or> x = r\<lparr>o_idempotency_key := None\<rparr>"
      using mem by (auto simp: release_key_def split: if_splits)
    then have "order_ok d r" using i by (simp add: consistent_def)
    moreover have "order_ok ?d r = order_ok d r" "order_ok ?d (r\<lparr>o_idempotency_key := None\<rparr>) = order_ok d r"
      by (simp_all add: order_ok_def p row_ok_def order_check_def pay_ok_def)
    ultimately show ?thesis using x by metis
  qed
  then show ?thesis using i unfolding consistent_def keys_ok_def links_ok_def stock_ok_def m s e by blast
qed

lemma release_conserves: "conserves d (release_key oid d)"
proof -
  let ?d = "release_key oid d"
  have e: "order_items d = order_items ?d" "variants d = variants ?d" "stock ?d = stock d"
    "product_sales ?d = product_sales d" by (simp_all add: release_key_def)
  have "reserved ?d = reserved d" "live_units ?d = live_units d"
    by (rule reserved_cong live_units_cong; simp add: release_key_def comp_def; rule map_cong; simp)+
  then show ?thesis using e
    by (simp add: conserves_def goods_def sales_gap_def stock_qty_def fun_eq_iff)
qed

end
