(* ===== verification/PaymentFacts.thy ===== *)
theory PaymentFacts
  imports Preservation
begin

text \<open>
  The payment transactions keep the invariant and the accounts: each of them is one change of an
  order row and of its payments (\<open>pay_step\<close>), at most followed by a cancellation.
\<close>

section \<open>A change of an order and its payments\<close>

lemma closed_ids: "p_id ` set (closed_pending d oid) = p_id ` set (payments d)"
  by (metis p_id_closed(1) list.set_map)

definition pay_change :: "order_row \<Rightarrow> order_row \<Rightarrow> payment_row list \<Rightarrow> db \<Rightarrow> db \<Rightarrow> bool" where
  "pay_change r r' ps d d' \<longleftrightarrow> (\<exists>n. d' = d\<lparr>orders := set_row r r' d, payments := ps, id_count := n\<rparr>)"

lemma pay_step:
  assumes i: "consistent d" and r: "r \<in> set (orders d)" and c: "pay_change r r' ps d d'"
    and same: "o_id r' = o_id r" "o_order_number r' = o_order_number r" "o_status r' = o_status r"
      "o_point_id r' = o_point_id r"
    and ps: "distinct (map p_id ps)" "p_order_id ` set ps \<subseteq> o_id ` set (orders d)"
      "\<And>x. x \<noteq> o_id r \<Longrightarrow> filter (\<lambda>p. p_order_id p = x) ps = payments_of d x"
    and ok: "row_ok r'" "pay_ok r' (filter (\<lambda>p. p_order_id p = o_id r) ps)"
  shows "consistent d'" and "conserves d d'"
proof -
  obtain n where d': "d' = d\<lparr>orders := set_row r r' d, payments := ps, id_count := n\<rparr>"
    using c by (auto simp: pay_change_def)
  note k = inv_keys [OF i]
  have h: "history_of d' = history_of d" by (intro ext) (simp add: history_of_def d')
  show "consistent d'"
  proof (rule inv_one_order [OF i r, of d' r'])
    show "order_ok d' r'"
      using ok k(3) [OF r] by (simp add: order_ok_def same h) (simp add: payments_of_def d')
    show "stock_ok d'" using k(5) by (simp add: stock_ok_def d')
    show "payments_of d' x = payments_of d x" if "x \<noteq> o_id r" for x
      using ps(3) [OF that] by (simp add: payments_of_def d')
  qed (use same ps in \<open>simp_all add: d'\<close>)
  have m: "map (\<lambda>r. (o_id r, o_status r, o_point_id r)) (orders d) = map (\<lambda>r. (o_id r, o_status r, o_point_id r)) (orders d')"
    "map (\<lambda>r. (o_id r, o_status r)) (orders d) = map (\<lambda>r. (o_id r, o_status r)) (orders d')"
    using map_set_row [OF k(1) r, of "\<lambda>r. (o_id r, o_status r, o_point_id r)" r']
      map_set_row [OF k(1) r, of "\<lambda>r. (o_id r, o_status r)" r'] same by (simp_all add: d')
  have "reserved d' = reserved d" by (rule reserved_cong [symmetric]) (use m in \<open>simp_all add: d'\<close>)
  moreover have "live_units d' = live_units d" by (rule live_units_cong [symmetric]) (use m in \<open>simp_all add: d'\<close>)
  ultimately show "conserves d d'"
    by (simp add: conserves_def goods_def sales_gap_def fun_eq_iff stock_qty_def) (simp add: d')
qed

lemma rows_of_id:
  assumes "distinct (map o_id (orders d))" "r \<in> set (orders d)"
  shows "map (\<lambda>x. if o_id x = o_id r then f x else x) (orders d) = set_row r (f r) d"
  unfolding set_row_def using distinct_map_eqD [OF assms(1) _ assms(2)] by (intro map_cong) auto

lemma payable_set_row:
  assumes "payable d" "orders d' = set_row r r' d" "distinct (map o_id (orders d))" "r \<in> set (orders d)"
    and "o_status r' = StatusPlaced \<Longrightarrow> o_payment_status r' \<noteq> Some PaymentCancelled"
  shows "payable d'"
  using assms unfolding payable_def assms(2) set_set_row [OF assms(3,4)] by blast

lemma payable_change:
  assumes "payable d" "pay_change r r' ps d d'" "distinct (map o_id (orders d))" "r \<in> set (orders d)"
    and "o_status r' = StatusPlaced \<Longrightarrow> o_payment_status r' \<noteq> Some PaymentCancelled"
  shows "payable d'"
  by (rule payable_set_row [OF assms(1) _ assms(3-5)]) (use assms(2) in \<open>auto simp: pay_change_def\<close>)

lemma returning_keeps_status:
  assumes "yields (update_order_returning (o_id r) f) d t d'" and "\<And>r. o_status (f r) = o_status r"
    and "distinct (map o_id (orders d))" "r \<in> set (orders d)"
  shows "d' = d\<lparr>orders := set_row r ((f r)\<lparr>o_updated_at := clock d\<rparr>) d\<rparr>" and "t = clock d"
    and "order_check ((f r)\<lparr>o_updated_at := clock d\<rparr>)"
proof -
  note e = update_order_returning_effect [OF assms(1)]
  have "(\<Sum>x \<leftarrow> orders d. if o_id x = o_id r then sales_shift (o_status x) (o_status (f x)) *
          order_units d (o_id x) p else 0) = 0" for p
    by (intro sum_list_zero) (simp add: assms(2))
  then show "d' = d\<lparr>orders := set_row r ((f r)\<lparr>o_updated_at := clock d\<rparr>) d\<rparr>"
    using e(3) unfolding rows_of_id [OF assms(3,4), of "\<lambda>r. (f r)\<lparr>o_updated_at := clock d\<rparr>"] by simp
  show "t = clock d" by (rule e(1))
  show "order_check ((f r)\<lparr>o_updated_at := clock d\<rparr>)" by (rule e(4) [OF assms(4) refl])
qed

lemma insert_payment_Inr:
  assumes "insert_payment env oid prov amount d = Inr (pid, d')"
  shows "d' = d\<lparr>payments := payments d @ [\<lparr>p_id = pid, p_order_id = oid, p_provider = prov,
               p_provider_tx_id = None, p_status = PaymentPending, p_amount = amount,
               p_currency = ''KGS'', p_redirect_url = None, p_raw_webhook = None,
               p_created_at = clock d, p_updated_at = clock d\<rparr>], id_count := Suc (id_count d)\<rparr>"
    and "pid \<notin> p_id ` set (payments d)"
  using assms by (auto simp: insert_payment_def Let_def split: if_splits)

section \<open>A new attempt\<close>

definition retryable :: "order_row \<Rightarrow> bool" where
  "retryable r \<longleftrightarrow> o_payment_method r = PaymentOnlineCard \<and> o_status r = StatusPlaced \<and>
     (o_payment_status r = Some PaymentPending \<or> o_payment_status r = Some PaymentFailed)"

lemma PaymentRetryable_scan: "PaymentRetryable (scanOrderRow d r) = retryable r"
  by (auto simp: PaymentRetryable_def retryable_def)

lemma retry_effect:
  assumes y: "yields (retry_tx env cu k prov) d x d'" and dist: "distinct (map o_id (orders d))"
  obtains r p where "r \<in> set (orders d)" "o_customer_id r = cu" "orderKeyPredicate env k r" "retryable r"
    "attempts_of d (o_id r) < MaxPaymentAttempts"
    "pay_change r (r\<lparr>o_payment_status := Some PaymentPending, o_updated_at := clock d\<rparr>)
       (closed_pending d (o_id r) @ [p]) d d'"
    "p_id p = snd x" "p_id p \<notin> p_id ` set (payments d)" "p_order_id p = o_id r" "p_status p = PaymentPending"
    "p_amount p = numeric_of_float (float_of_numeric (o_total_amount r))" "p_provider p = prov"
    "ID (fst x) = o_id r" "order_check (r\<lparr>o_payment_status := Some PaymentPending, o_updated_at := clock d\<rparr>)"
    "p_provider_tx_id p = None"
proof -
  obtain r where r: "r \<in> set (orders d)" "o_customer_id r = cu" "orderKeyPredicate env k r"
    and rest: "yields ((\<lambda>ord. if \<not> PaymentRetryable ord then failG ErrPaymentNotRetryable
     else
       bindG (query (\<lambda>d. attempts_of d (ID ord))) (\<lambda>attempts.
       if MaxPaymentAttempts \<le> attempts
       then failG (AppError (WithVariant (Conflict ''payment_not_retryable'') ''too_many''))
       else
         bindG (stmt (close_pending (\<lambda>p. p_order_id p = ID ord))) (\<lambda>_.
         bindG (stmt (insert_payment env (ID ord) prov (numeric_of_float (TotalAmount ord)))) (\<lambda>paymentID.
         bindG (update_order_returning (ID ord) (\<lambda>r. r\<lparr>o_payment_status := Some PaymentPending\<rparr>)) (\<lambda>updatedAt.
         returnG (ord\<lparr>PayStatus := Some PaymentPending, UpdatedAt := updatedAt\<rparr>, paymentID))))))
       (scanOrderRow d r)) d x d'"
    using y unfolding retry_tx_def by (elim yields_bind lockOrderTx_effect) blast
  have ret: "retryable r" using rest by (auto simp: PaymentRetryable_scan elim!: yields_fail split: if_splits)
  obtain n d1 pid d2 t where att: "attempts_of d (o_id r) < MaxPaymentAttempts"
    and c: "close_pending (\<lambda>p. p_order_id p = o_id r) d = Inr (n, d1)"
    and ins: "insert_payment env (o_id r) prov (numeric_of_float (float_of_numeric (o_total_amount r))) d1 = Inr (pid, d2)"
    and upd: "yields (update_order_returning (o_id r) (\<lambda>r. r\<lparr>o_payment_status := Some PaymentPending\<rparr>)) d2 t d'"
    and x: "x = ((scanOrderRow d r)\<lparr>PayStatus := Some PaymentPending, UpdatedAt := t\<rparr>, pid)"
    using rest ret unfolding PaymentRetryable_scan
    by (auto elim!: yields_bind yields_query yields_stmt yields_return yields_fail split: if_splits)
  have d1: "d1 = d\<lparr>payments := closed_pending d (o_id r)\<rparr>"
    using close_pending_Inr [OF c] by (simp add: closed_pending_def)
  note i = insert_payment_Inr [OF ins]
  have d2: "orders d2 = orders d" "clock d2 = clock d" by (simp_all add: i(1) d1)
  note u = returning_keeps_status [OF upd, unfolded d2]
  have new: "pid \<notin> p_id ` set (payments d)" using i(2) unfolding d1 by (simp add: closed_ids)
  show ?thesis
  proof (rule that [OF r ret att])
    show "pay_change r (r\<lparr>o_payment_status := Some PaymentPending, o_updated_at := clock d\<rparr>)
       (closed_pending d (o_id r) @ [\<lparr>p_id = pid, p_order_id = o_id r, p_provider = prov,
               p_provider_tx_id = None, p_status = PaymentPending,
               p_amount = numeric_of_float (float_of_numeric (o_total_amount r)),
               p_currency = ''KGS'', p_redirect_url = None, p_raw_webhook = None,
               p_created_at = clock d, p_updated_at = clock d\<rparr>]) d d'"
      unfolding pay_change_def using u(1) dist r(1)
      by (intro exI [of _ "Suc (id_count d)"]) (simp add: i(1) d1 set_row_def)
    show "order_check (r\<lparr>o_payment_status := Some PaymentPending, o_updated_at := clock d\<rparr>)"
      using u(3) dist r(1) by simp
  qed (simp_all add: new x)
qed

lemma retry_keeps:
  assumes y: "yields (retry_tx env cu k prov) d x d'" and i: "consistent d"
  shows "consistent d' \<and> conserves d d'"
  using y inv_keys(1) [OF i]
proof (rule retry_effect)
  note k = inv_keys [OF i]
  fix r :: order_row and p
  let ?r' = "r\<lparr>o_payment_status := Some PaymentPending, o_updated_at := clock d\<rparr>"
  let ?ps = "closed_pending d (o_id r) @ [p]"
  assume r: "r \<in> set (orders d)" and ret: "retryable r" and att: "attempts_of d (o_id r) < MaxPaymentAttempts"
    and c: "pay_change r ?r' ?ps d d'" and p: "p_id p \<notin> p_id ` set (payments d)" "p_order_id p = o_id r"
      "p_status p = PaymentPending" "p_amount p = numeric_of_float (float_of_numeric (o_total_amount r))"
    and chk: "order_check ?r'"
  note ok = k(3) [OF r, unfolded order_ok_def pay_ok_alt]
  have "\<bar>o_total_amount r\<bar> < numeric_10_2_bound" using ok unfolding row_ok_def by blast
  then have amt: "p_amount p = o_total_amount r"
    using p(4) numeric_roundtrip [of "o_total_amount r"] by (simp add: numeric_10_2_bound_def)
  have pof: "filter (\<lambda>p. p_order_id p = x) ?ps =
      (if x = o_id r then map (close (clock d)) (payments_of d x) @ [p] else payments_of d x)" for x
    using payments_of_closed [of "d\<lparr>payments := closed_pending d (o_id r)\<rparr>" d "o_id r" x] p(2)
    by (simp add: payments_of_def)
  have "row_ok ?r'"
    using ok chk ret unfolding row_ok_def retryable_def by auto
  moreover have "pay_ok ?r' (filter (\<lambda>p. p_order_id p = o_id r) ?ps)"
    using ok ret att p(3) amt unfolding pof pay_ok_alt retryable_def attempts_of_def payments_of_def by auto
  moreover have "distinct (map p_id ?ps)" using k(2) p(1) by (simp add: p_id_closed closed_ids)
  moreover have "p_order_id ` set ?ps \<subseteq> o_id ` set (orders d)"
    using k(4) r p(2) by (simp add: closed_order_ids)
  moreover have "\<And>x. x \<noteq> o_id r \<Longrightarrow> filter (\<lambda>p. p_order_id p = x) ?ps = payments_of d x"
    unfolding pof by simp
  ultimately show ?thesis using pay_step [OF i r c] by simp
qed

section \<open>One payment changes\<close>

text \<open>A guard that the row with the key satisfies does not matter to an update by the key.\<close>

lemma map_guard:
  assumes "distinct (map k xs)" "x \<in> set xs" "P x"
  shows "map (\<lambda>y. if k y = k x \<and> P y then f y else y) xs = map (\<lambda>y. if k y = k x then f y else y) xs"
proof (rule map_cong [OF refl])
  fix y assume y: "y \<in> set xs"
  show "(if k y = k x \<and> P y then f y else y) = (if k y = k x then f y else y)"
    using distinct_map_eqD [OF assms(1) y assms(2)] assms(3) by (cases "k y = k x") auto
qed

definition set_pay :: "string \<Rightarrow> (payment_row \<Rightarrow> payment_row) \<Rightarrow> payment_row list \<Rightarrow> payment_row list" where
  "set_pay pid f ps = map (\<lambda>p. if p_id p = pid then f p else p) ps"

lemma set_pay_id: "(\<And>p. p_id p = pid \<Longrightarrow> p \<in> set ps \<Longrightarrow> f p = p) \<Longrightarrow> set_pay pid f ps = ps"
  unfolding set_pay_def by (rule map_idI) auto

lemma set_pay_ids:
  assumes "\<And>p. p_id (f p) = p_id p" "\<And>p. p_order_id (f p) = p_order_id p"
  shows "map p_id (set_pay pid f ps) = map p_id ps" "map p_order_id (set_pay pid f ps) = map p_order_id ps"
    and "p_order_id ` set (set_pay pid f ps) = p_order_id ` set ps"
proof -
  show "map p_id (set_pay pid f ps) = map p_id ps" and *: "map p_order_id (set_pay pid f ps) = map p_order_id ps"
    using assms by (auto simp: set_pay_def)
  show "p_order_id ` set (set_pay pid f ps) = p_order_id ` set ps" using * by (metis list.set_map)
qed

lemma set_pay_split:
  assumes "distinct (map p_id (payments d))" "p0 \<in> set (payments d)" "\<And>p. p_order_id (f p) = p_order_id p"
  obtains as bs where "payments_of d (p_order_id p0) = as @ p0 # bs"
    and "filter (\<lambda>p. p_order_id p = p_order_id p0) (set_pay (p_id p0) f (payments d)) = as @ f p0 # bs"
    and "\<And>x. x \<noteq> p_order_id p0 \<Longrightarrow>
           filter (\<lambda>p. p_order_id p = x) (set_pay (p_id p0) f (payments d)) = payments_of d x"
    and "\<forall>p \<in> set (as @ bs). p_id p \<noteq> p_id p0"
proof -
  have fl: "filter (\<lambda>p. p_order_id p = x) (set_pay (p_id p0) f (payments d)) = set_pay (p_id p0) f (payments_of d x)" for x
    unfolding set_pay_def payments_of_def by (rule payments_of_map) (simp add: assms(3))
  have "p0 \<in> set (payments_of d (p_order_id p0))" using assms(2) by (simp add: payments_of_def)
  then obtain as bs where sp: "payments_of d (p_order_id p0) = as @ p0 # bs" by (meson split_list)
  have "distinct (map p_id (payments_of d (p_order_id p0)))"
    unfolding payments_of_def by (rule distinct_map_filter [OF assms(1)])
  then have ne: "\<forall>p \<in> set (as @ bs). p_id p \<noteq> p_id p0" unfolding sp by (auto simp: image_iff)
  then have "set_pay (p_id p0) f as = as" "set_pay (p_id p0) f bs = bs"
    by (intro set_pay_id; metis Un_iff set_append)+
  then have "set_pay (p_id p0) f (payments_of d (p_order_id p0)) = as @ f p0 # bs"
    unfolding sp by (simp add: set_pay_def)
  moreover have "set_pay (p_id p0) f (payments_of d x) = payments_of d x" if "x \<noteq> p_order_id p0" for x
    using that distinct_map_eqD [OF assms(1) _ assms(2)] by (intro set_pay_id) (auto simp: payments_of_def)
  ultimately show ?thesis using that [OF sp] ne unfolding fl by blast
qed

text \<open>
  What the invariant says of a payment and its order: a pending one belongs to an order that waits
  for it, a settled one to an order that says so.
\<close>

lemma payment_order:
  assumes i: "consistent d" and p: "p0 \<in> set (payments d)"
  obtains r where "r \<in> set (orders d)" "o_id r = p_order_id p0" "o_payment_method r = PaymentOnlineCard"
    and "p_status p0 = PaymentPending \<Longrightarrow> o_status r = StatusPlaced \<and> o_payment_status r = Some PaymentPending"
    and "p_status p0 = PaymentPaid \<Longrightarrow> o_payment_status r = Some PaymentPaid"
    and "p_status p0 = PaymentRefunded \<Longrightarrow> o_payment_status r = Some PaymentRefunded"
    and "p_amount p0 = o_total_amount r"
proof -
  note k = inv_keys [OF i]
  obtain r where r: "r \<in> set (orders d)" "o_id r = p_order_id p0" using k(4) p by (metis image_iff image_subset_iff)
  have mem: "p0 \<in> set (payments_of d (o_id r))" using p r(2) by (simp add: payments_of_def)
  then obtain as bs where sp: "payments_of d (o_id r) = as @ p0 # bs" by (meson split_list)
  have ok: "pay_ok r (as @ p0 # bs)" using k(3) [OF r(1)] sp by (simp add: order_ok_def)
  show ?thesis
  proof (rule that [OF r])
    show "p_status p0 = PaymentPaid \<Longrightarrow> o_payment_status r = Some PaymentPaid"
      and "p_status p0 = PaymentRefunded \<Longrightarrow> o_payment_status r = Some PaymentRefunded"
      using ok unfolding pay_ok_alt
      by (auto simp: expected_sett_def append_eq_Cons_conv split: option.splits PaymentStatus.splits)
  qed (use ok in \<open>auto simp: pay_ok_alt split: if_splits\<close>)
qed

text \<open>A payment that becomes failed or cancelled while its order waits for it.\<close>

lemma pay_ok_unpaid:
  assumes ok: "pay_ok r (as @ p0 # bs)" and st: "p_status p0 = PaymentPending"
    and q: "p_status q = st" "p_amount q = p_amount p0" "st = PaymentFailed \<or> st = PaymentCancelled"
    and r': "o_payment_method r' = o_payment_method r" "o_total_amount r' = o_total_amount r"
      "o_payment_status r' = Some st"
  shows "pay_ok r' (as @ q # bs)"
  using ok st q r' unfolding pay_ok_alt by (auto split: if_splits)

lemma row_ok_payment:
  assumes "row_ok r" "order_check r'" "o_status r = StatusPlaced" "o_status r' = StatusPlaced"
    "o_total_amount r' = o_total_amount r"
  shows "row_ok r'"
  using assms unfolding row_ok_def by auto

lemma unpaid_change:
  assumes i: "consistent d" and p0: "p0 \<in> set (payments d)" "p_status p0 = PaymentPending"
    and r: "r \<in> set (orders d)" "o_id r = p_order_id p0"
    and f: "\<And>p. p_id (f p) = p_id p" "\<And>p. p_order_id (f p) = p_order_id p" "\<And>p. p_amount (f p) = p_amount p"
      "p_status (f p0) = st" "st = PaymentFailed \<or> st = PaymentCancelled"
    and r': "o_id r' = o_id r" "o_order_number r' = o_order_number r" "o_status r' = o_status r"
      "o_point_id r' = o_point_id r" "o_payment_method r' = o_payment_method r"
      "o_total_amount r' = o_total_amount r" "o_payment_status r' = Some st" "order_check r'"
    and c: "pay_change r r' (set_pay (p_id p0) f (payments d)) d d'"
  shows "consistent d' \<and> conserves d d'"
proof -
  note k = inv_keys [OF i]
  note ok = k(3) [OF r(1), unfolded order_ok_def]
  have placed: "o_status r = StatusPlaced"
    using payment_order [OF i p0(1)] p0(2) r distinct_map_eqD [OF k(1)] by metis
  obtain as bs where sp: "payments_of d (o_id r) = as @ p0 # bs"
    "filter (\<lambda>p. p_order_id p = o_id r) (set_pay (p_id p0) f (payments d)) = as @ f p0 # bs"
    "\<And>x. x \<noteq> o_id r \<Longrightarrow> filter (\<lambda>p. p_order_id p = x) (set_pay (p_id p0) f (payments d)) = payments_of d x"
    using set_pay_split [of d p0 f, OF k(2) p0(1) f(2)] unfolding r(2) by metis
  have "pay_ok r' (as @ f p0 # bs)"
    by (rule pay_ok_unpaid [OF _ p0(2) f(4,3,5) r'(5,6,7)]) (use ok sp(1) in simp)
  then have pay: "pay_ok r' (filter (\<lambda>p. p_order_id p = o_id r) (set_pay (p_id p0) f (payments d)))"
    unfolding sp(2) .
  have row: "row_ok r'" using row_ok_payment ok r'(3,6,8) placed by metis
  have ids: "distinct (map p_id (set_pay (p_id p0) f (payments d)))"
    "p_order_id ` set (set_pay (p_id p0) f (payments d)) \<subseteq> o_id ` set (orders d)"
    using set_pay_ids [of f, OF f(1,2)] k(2,4) by metis+
  show ?thesis using pay_step [OF i r(1) c r'(1-4) ids sp(3) row pay] by blast
qed

lemma update_pending_one:
  assumes "update_payments (\<lambda>p. p_id p = pid \<and> p_status p = PaymentPending) f d = Inr (n, d1)"
    and "distinct (map p_id (payments d))"
  shows "n = 0 \<and> d1 = d \<or> (\<exists>p0 \<in> set (payments d). n \<noteq> 0 \<and> p_id p0 = pid \<and> p_status p0 = PaymentPending \<and>
           d1 = d\<lparr>payments := set_pay (p_id p0) f (payments d)\<rparr>)"
proof -
  have u: "n = length (filter (\<lambda>p. p_id p = pid \<and> p_status p = PaymentPending) (payments d))"
    "d1 = d\<lparr>payments := map (\<lambda>p. if p_id p = pid \<and> p_status p = PaymentPending then f p else p) (payments d)\<rparr>"
    using assms(1) by (simp_all add: update_payments_Inr)
  show ?thesis
  proof (cases "\<exists>p0 \<in> set (payments d). p_id p0 = pid \<and> p_status p0 = PaymentPending")
    case True
    then obtain p0 where p0: "p0 \<in> set (payments d)" "p_id p0 = pid" "p_status p0 = PaymentPending" by blast
    have "map (\<lambda>p. if p_id p = pid \<and> p_status p = PaymentPending then f p else p) (payments d) =
        set_pay (p_id p0) f (payments d)"
      unfolding set_pay_def p0(2) [symmetric] by (rule map_guard [of p_id, OF assms(2) p0(1)]) (rule p0(3))
    moreover have "n \<noteq> 0" using p0 u(1) by (auto simp: filter_empty_conv)
    ultimately show ?thesis using p0 u(2) by auto
  next
    case False
    then have "map (\<lambda>p. if p_id p = pid \<and> p_status p = PaymentPending then f p else p) (payments d) = payments d"
      by (intro map_idI) auto
    moreover have "n = 0" using False u(1) by (auto simp: filter_empty_conv)
    ultimately show ?thesis using u(2) by simp
  qed
qed

text \<open>A payment that failed to open: the identifier of the order belongs to the payment.\<close>

definition belongs :: "db \<Rightarrow> string \<Rightarrow> string \<Rightarrow> bool" where
  "belongs d pid oid \<longleftrightarrow> (\<forall>p \<in> set (payments d). p_id p = pid \<longrightarrow> p_order_id p = oid)"

lemma fail_attempt_keeps:
  assumes y: "yields (fail_attempt_tx pid oid) d u d'" and i: "consistent d" and b: "belongs d pid oid"
  shows "consistent d' \<and> conserves d d' \<and> (payable d \<longrightarrow> payable d')"
proof -
  note k = inv_keys [OF i]
  let ?f = "\<lambda>p. p\<lparr>p_status := PaymentFailed, p_updated_at := clock d\<rparr>"
  obtain n d1 where up: "update_payments (\<lambda>p. p_id p = pid \<and> p_status p = PaymentPending) ?f d = Inr (n, d1)"
    and rest: "yields (if n = 0 then returnG ()
     else bindG (stmt (\<lambda>d. update_orders (\<lambda>r. o_id r = oid \<and> o_status r = StatusPlaced)
                   (\<lambda>r. r\<lparr>o_payment_status := Some PaymentFailed, o_updated_at := clock d\<rparr>) d))
            (\<lambda>_. returnG ())) d1 u d'"
    using y unfolding fail_attempt_tx_def LockOrderTx_def
    by (elim yields_bind lockOrderTx_effect yields_stmt) blast
  from update_pending_one [OF up k(2)] show ?thesis
  proof (elim disjE bexE conjE)
    assume "n = 0" "d1 = d"
    then show ?thesis using rest i by (auto elim!: yields_return)
  next
    fix p0
    assume n: "n \<noteq> 0" and p0: "p0 \<in> set (payments d)" "p_id p0 = pid" "p_status p0 = PaymentPending"
      and d1: "d1 = d\<lparr>payments := set_pay (p_id p0) ?f (payments d)\<rparr>"
    from payment_order [OF i p0(1)] p0(3) b p0 obtain r where r: "r \<in> set (orders d)" "o_id r = p_order_id p0"
      and pl: "o_status r = StatusPlaced" and oid: "o_id r = oid" unfolding belongs_def by metis
    let ?g = "\<lambda>r. r\<lparr>o_payment_status := Some PaymentFailed, o_updated_at := clock d\<rparr>"
    obtain m where m: "update_orders (\<lambda>r. o_id r = oid \<and> o_status r = StatusPlaced) ?g d1 = Inr (m, d')"
      using rest n d1 by (auto elim!: yields_bind yields_stmt yields_return)
    have "map (\<lambda>x. if o_id x = oid \<and> o_status x = StatusPlaced then ?g x else x) (orders d) = set_row r (?g r) d"
      unfolding oid [symmetric]
      by (rule trans [OF map_guard [where P = "\<lambda>r. o_status r = StatusPlaced", OF k(1) r(1) pl]
            rows_of_id [OF k(1) r(1)]])
    then have "d' = d1\<lparr>orders := set_row r (?g r) d\<rparr>"
      using update_orders_keep_status [OF m] by (simp add: d1)
    then have c: "pay_change r (?g r) (set_pay (p_id p0) ?f (payments d)) d d'"
      unfolding pay_change_def by (intro exI [of _ "id_count d"]) (simp add: d1)
    have "order_check (?g r)" using update_orders_Inr(3) [OF m] r(1) oid pl by (simp add: d1)
    then have "consistent d' \<and> conserves d d'"
      by (intro unpaid_change [OF i p0(1,3) r, of ?f PaymentFailed "?g r", OF _ _ _ _ _ _ _ _ _ _ _ _ _ c]) simp_all
    moreover have "payable d \<longrightarrow> payable d'" using payable_change [OF _ c k(1) r(1)] by simp
    ultimately show ?thesis by blast
  qed
qed

section \<open>Abandoned and cancelled\<close>

lemma cancel_unpaid_keeps:
  assumes y: "yields (CancelUnpaidOrderTx env oid nt) d b d'" and i: "consistent d"
  shows "consistent d' \<and> conserves d d'"
  using y inv_keys(1) [OF i]
proof (cases rule: CancelUnpaid_effect)
  case (undone r h)
  have v: "validStatusTransition (o_status r) StatusCancelled" by (simp add: undone validStatusTransition_def)
  show ?thesis
    using cancelled_inv [OF i undone(5) v] cancelled_conserves [OF undone(5) inv_keys(1) [OF i]] undone(4) by simp
qed (use i in simp)

lemma cancelled_payable:
  assumes c: "cancelled r h d d'" and dist: "distinct (map o_id (orders d))"
    and o: "\<And>x. x \<in> set (orders d) \<Longrightarrow> o_id x \<noteq> o_id r \<Longrightarrow> o_status x = StatusPlaced \<Longrightarrow>
      o_payment_status x \<noteq> Some PaymentCancelled"
  shows "payable d'"
proof -
  have m: "r \<in> set (orders d)" "orders d' = set_row r (cancelled_row r (clock d)) d"
    using c unfolding cancelled_def moved_def by blast+
  have "o_status (cancelled_row r (clock d)) \<noteq> StatusPlaced" by (simp add: cancelled_row_def)
  then show ?thesis
    using o distinct_map_eqD [OF dist _ m(1)] unfolding payable_def m(2) set_set_row [OF dist m(1)] by blast
qed

lemma cancel_unpaid_payable:
  assumes y: "yields (CancelUnpaidOrderTx env oid nt) d b d'" and dist: "distinct (map o_id (orders d))"
    and o: "\<And>x. x \<in> set (orders d) \<Longrightarrow> o_id x \<noteq> oid \<Longrightarrow> o_status x = StatusPlaced \<Longrightarrow>
      o_payment_status x \<noteq> Some PaymentCancelled"
  shows "payable d'"
  using y dist
proof (cases rule: CancelUnpaid_effect)
  case (kept r)
  then show ?thesis using o distinct_map_eqD [OF dist _ kept(3)] unfolding payable_def by metis
next
  case (undone r h)
  then show ?thesis using cancelled_payable [OF undone(5) dist] o by blast
qed

lemma update_order_row:
  assumes "update_orders (\<lambda>r. o_id r = o_id r0) f d = Inr (m, d')" and "\<And>r. o_status (f r) = o_status r"
    and "distinct (map o_id (orders d))" "r0 \<in> set (orders d)"
  shows "d' = d\<lparr>orders := set_row r0 (f r0) d\<rparr>" and "order_check (f r0)"
  using update_orders_keep_status [OF assms(1)] assms(2) update_orders_Inr(3) [OF assms(1)] assms(4)
  by (simp_all add: rows_of_id [OF assms(3,4)])

lemma abort_keeps:
  assumes y: "yields (abort_tx env pid oid) d u d'" and i: "consistent d" and b: "belongs d pid oid"
  shows "consistent d' \<and> conserves d d' \<and> (payable d \<longrightarrow> payable d')"
proof -
  note k = inv_keys [OF i]
  let ?f = "\<lambda>p. p\<lparr>p_status := PaymentFailed, p_updated_at := clock d\<rparr>"
  obtain n d1 where up: "update_payments (\<lambda>p. p_id p = pid \<and> p_status p = PaymentPending) ?f d = Inr (n, d1)"
    and rest: "yields (if n = 0 then returnG ()
     else
       bindG (stmt (\<lambda>d. update_orders (\<lambda>r. o_id r = oid)
                (\<lambda>r. r\<lparr>o_payment_status := Some PaymentFailed, o_idempotency_key := None,
                        o_updated_at := clock d\<rparr>) d)) (\<lambda>_.
       bindG (CancelUnpaidOrderTx env oid NotePaymentOpenFailed) (\<lambda>_. returnG ()))) d1 u d'"
    using y unfolding abort_tx_def LockOrderTx_def
    by (elim yields_bind lockOrderTx_effect yields_stmt) blast
  from update_pending_one [OF up k(2)] show ?thesis
  proof (elim disjE bexE conjE)
    assume "n = 0" "d1 = d"
    then show ?thesis using rest i by (auto elim!: yields_return)
  next
    fix p0
    assume n: "n \<noteq> 0" and p0: "p0 \<in> set (payments d)" "p_id p0 = pid" "p_status p0 = PaymentPending"
      and d1: "d1 = d\<lparr>payments := set_pay (p_id p0) ?f (payments d)\<rparr>"
    from payment_order [OF i p0(1)] p0(3) b p0 obtain r where r: "r \<in> set (orders d)" "o_id r = p_order_id p0"
      and oid: "o_id r = oid" unfolding belongs_def by metis
    let ?g = "\<lambda>r. r\<lparr>o_payment_status := Some PaymentFailed, o_idempotency_key := None, o_updated_at := clock d\<rparr>"
    obtain m d2 b where m: "update_orders (\<lambda>r. o_id r = oid) ?g d1 = Inr (m, d2)"
      and can: "yields (CancelUnpaidOrderTx env oid NotePaymentOpenFailed) d2 b d'"
      using rest n d1 by (auto elim!: yields_bind yields_stmt yields_return)
    have r1: "distinct (map o_id (orders d1))" "r \<in> set (orders d1)" using k(1) r by (simp_all add: d1)
    note u = update_order_row [OF m [folded oid] _ r1]
    have c: "pay_change r (?g r) (set_pay (p_id p0) ?f (payments d)) d d2"
      unfolding pay_change_def using u(1) by (intro exI [of _ "id_count d"]) (simp add: d1 set_row_def)
    have "order_check (?g r)" using u(2) by simp
    then have s: "consistent d2 \<and> conserves d d2"
      by (intro unpaid_change [OF i p0(1,3) r, of ?f PaymentFailed "?g r", OF _ _ _ _ _ _ _ _ _ _ _ _ _ c]) simp_all
    moreover have "payable d'" if "payable d"
    proof (rule cancel_unpaid_payable [OF can])
      have "payable d2" by (rule payable_change [OF that c k(1) r(1)]) simp
      then show "x \<in> set (orders d2) \<Longrightarrow> o_status x = StatusPlaced \<Longrightarrow>
        o_payment_status x \<noteq> Some PaymentCancelled" for x unfolding payable_def by blast
    qed (use s inv_keys(1) in blast)
    ultimately show ?thesis using cancel_unpaid_keeps [OF can] conserves_trans by blast
  qed
qed

lemma refund_keeps:
  assumes i: "consistent d" and r: "r \<in> set (orders d)"
    and c: "pay_change r (r\<lparr>o_refund_required := True, o_updated_at := t\<rparr>) ps d d'"
    and ps: "distinct (map p_id ps)" "p_order_id ` set ps \<subseteq> o_id ` set (orders d)"
      "\<And>x. x \<noteq> o_id r \<Longrightarrow> filter (\<lambda>p. p_order_id p = x) ps = payments_of d x"
      "pay_ok r (filter (\<lambda>p. p_order_id p = o_id r) ps)"
  shows "consistent d' \<and> conserves d d'"
proof -
  let ?r' = "r\<lparr>o_refund_required := True, o_updated_at := t\<rparr>"
  have "row_ok r" using inv_keys(3) [OF i r] by (simp add: order_ok_def)
  then have "row_ok ?r'" by (auto simp: row_ok_def order_check_def)
  moreover have "pay_ok ?r' (filter (\<lambda>p. p_order_id p = o_id r) ps)" using ps(4) by (simp add: pay_ok_def)
  ultimately show ?thesis using pay_step [OF i r c _ _ _ _ ps(1-3)] by simp
qed

section \<open>The verdict on a callback\<close>

lemma verdict_apply:
  "verdict cur to ord = (True, False) \<longleftrightarrow>
     (cur = PaymentPending \<and> (to = PaymentPaid \<or> to = PaymentFailed \<or> to = PaymentCancelled)) \<or>
     (cur = PaymentPaid \<and> to = PaymentRefunded) \<or>
     (isUnpaidFinal cur \<and> to = PaymentPaid \<and> PaymentRetryable ord)"
  by (cases cur; cases to) (auto simp: verdict_def transition_def lateSuccess_def isUnpaidFinal_def)

lemma verdict_conflict:
  "snd (verdict cur to ord) \<longleftrightarrow> snd (transition cur to) \<and> \<not> lateSuccess cur to ord"
  by (auto simp: verdict_def split: prod.splits)

lemma verdict_cases:
  "verdict cur to ord \<in> {(False, False), (True, False), (False, True)}"
  by (cases cur; cases to) (auto simp: verdict_def transition_def lateSuccess_def isUnpaidFinal_def)

section \<open>Applying a callback\<close>

definition event_pay :: "CallbackEvent \<Rightarrow> string \<Rightarrow> int \<Rightarrow> payment_row \<Rightarrow> payment_row" where
  "event_pay ev raw now p = p\<lparr>p_status := ev_Status ev, p_raw_webhook := Some raw, p_updated_at := now\<rparr>"

definition event_row :: "CallbackEvent \<Rightarrow> int \<Rightarrow> order_row \<Rightarrow> order_row" where
  "event_row ev now r = r\<lparr>o_payment_status := Some (ev_Status ev), o_updated_at := now\<rparr>"

text \<open>The payments after the event: its own, and for money received every other one closed.\<close>

definition event_pays :: "CallbackEvent \<Rightarrow> string \<Rightarrow> string \<Rightarrow> string \<Rightarrow> db \<Rightarrow> payment_row list" where
  "event_pays ev raw pid oid d =
     (let ps = set_pay pid (event_pay ev raw (clock d)) (payments d) in
      if ev_Status ev = PaymentPaid
      then map (\<lambda>p. if p_order_id p = oid then close (clock d) p else p) ps else ps)"

lemma set_payment_effect:
  "yields (set_payment pid f) d u d' \<Longrightarrow>
   d' = d\<lparr>payments := set_pay pid (\<lambda>p. (f p)\<lparr>p_updated_at := clock d\<rparr>) (payments d)\<rparr>"
  unfolding set_payment_def
  by (elim yields_bind yields_stmt yields_return) (simp add: update_payments_Inr set_pay_def)

lemma set_status_returning_effect:
  assumes y: "yields (set_payment_status_returning (o_id r) st) d s d'"
    and dist: "distinct (map o_id (orders d))" "r \<in> set (orders d)"
  shows "d' = d\<lparr>orders := set_row r (r\<lparr>o_payment_status := Some st, o_updated_at := clock d\<rparr>) d\<rparr>"
    and "s = o_status r" and "order_check (r\<lparr>o_payment_status := Some st, o_updated_at := clock d\<rparr>)"
proof -
  let ?f = "\<lambda>r. r\<lparr>o_payment_status := Some st, o_updated_at := clock d\<rparr>"
  obtain n x where u: "update_orders (\<lambda>x. o_id x = o_id r) ?f d = Inr (n, d')"
    and x: "find (\<lambda>x. o_id x = o_id r) (orders d') = Some x" "s = o_status x"
    using y unfolding set_payment_status_returning_def
    by (auto elim!: yields_stmt split: sum.splits prod.splits option.splits)
  note e = update_order_row [OF u _ dist]
  show d': "d' = d\<lparr>orders := set_row r (?f r) d\<rparr>" using e(1) by simp
  show "order_check (?f r)" using e(2) by simp
  have "x \<in> set (set_row r (?f r) d)" "o_id x = o_id r" using find_Some_mem [OF x(1)] by (simp_all add: d')
  then have "x = ?f r"
    using set_set_row [OF dist, of "?f r"] distinct_map_eqD [OF dist(1) _ dist(2)] by auto
  then show "s = o_status r" by (simp add: x(2))
qed

lemma apply_event_effect:
  assumes y: "yields (apply_event env ev raw amount res) d res' d'"
    and r: "distinct (map o_id (orders d))" "r \<in> set (orders d)" "o_id r = cb_OrderID res"
    and ids: "distinct (map p_id (payments d))"
  obtains d3 b where
    "pay_change r (event_row ev (clock d) r) (event_pays ev raw (cb_PaymentID res) (o_id r) d) d d3"
    "order_check (event_row ev (clock d) r)"
    "ev_Status ev = PaymentPaid \<Longrightarrow> toTyiyn (ev_Amount ev) = toTyiyn amount"
    "res' = res\<lparr>cb_Status := ev_Status ev, cb_Applied := True, cb_OrderCancelled := b,
               cb_RefundRequired := (ev_Status ev = PaymentPaid \<and> o_status r = StatusCancelled)\<rparr>"
    "if ev_Status ev = PaymentPaid \<and> o_status r = StatusCancelled
     then \<not> b \<and> yields (MarkRefundRequiredTx (o_id r)) d3 () d'
     else if ev_Status ev = PaymentCancelled
     then yields (CancelUnpaidOrderTx env (o_id r) NotePaymentCancelled) d3 b d'
     else \<not> b \<and> d' = d3"
proof -
  let ?st = "ev_Status ev" and ?pid = "cb_PaymentID res"
  have amt: "?st = PaymentPaid \<Longrightarrow> toTyiyn (ev_Amount ev) = toTyiyn amount"
    using y unfolding apply_event_def Let_def by (auto elim!: yields_fail split: if_splits)
  have "\<not> (?st = PaymentPaid \<and> toTyiyn (ev_Amount ev) \<noteq> toTyiyn amount)" using amt by blast
  note y' = y [unfolded apply_event_def Let_def r(3) [symmetric] if_not_P [OF this]]
  obtain u1 d1 u2 d2 os d3 ref d4 b d5 where
      y1: "yields (set_payment ?pid (\<lambda>p. p\<lparr>p_status := ?st, p_raw_webhook := Some raw\<rparr>)) d u1 d1"
    and y2: "yields (if ?st = PaymentPaid
         then bindG (stmt (close_pending (\<lambda>p. p_order_id p = o_id r \<and> p_id p \<noteq> ?pid))) (\<lambda>_. returnG ())
         else returnG ()) d1 u2 d2"
    and y3: "yields (set_payment_status_returning (o_id r) ?st) d2 os d3"
    and y4: "yields (if ?st = PaymentPaid \<and> os = StatusCancelled
         then bindG (MarkRefundRequiredTx (o_id r)) (\<lambda>_. returnG True) else returnG False) d3 ref d4"
    and y5: "yields (if ?st = PaymentCancelled then CancelUnpaidOrderTx env (o_id r) NotePaymentCancelled
         else returnG False) d4 b d5"
    and y6: "yields (returnG (res\<lparr>cb_Status := ?st, cb_Applied := True, cb_OrderCancelled := b,
         cb_RefundRequired := ref\<rparr>)) d5 res' d'"
    using y' by (elim yields_bind) (rule that; assumption)
  have d1: "d1 = d\<lparr>payments := set_pay ?pid (event_pay ev raw (clock d)) (payments d)\<rparr>"
    using set_payment_effect [OF y1] by (simp add: event_pay_def [abs_def])
  have other: "(p_order_id p = o_id r \<and> p_id p \<noteq> ?pid) \<and> p_status p = PaymentPending \<longleftrightarrow>
      p_order_id p = o_id r \<and> p_status p = PaymentPending"
    if "p \<in> set (payments d1)" "?st = PaymentPaid" for p
    using that by (auto simp: d1 set_pay_def event_pay_def)
  have d2: "d2 = d\<lparr>payments := event_pays ev raw ?pid (o_id r) d\<rparr>"
  proof (cases "?st = PaymentPaid")
    case True
    then obtain n where "close_pending (\<lambda>p. p_order_id p = o_id r \<and> p_id p \<noteq> ?pid) d1 = Inr (n, d2)"
      using y2 by (auto elim!: yields_bind yields_stmt yields_return)
    from close_pending_Inr [OF this]
    have "d2 = d1\<lparr>payments := map (\<lambda>p. if p_order_id p = o_id r then close (clock d) p else p) (payments d1)\<rparr>"
      using other [OF _ True] by (auto simp: close_def d1)
    then show ?thesis using True by (simp add: event_pays_def d1 Let_def)
  next
    case False
    then show ?thesis using y2 by (auto elim!: yields_return simp: event_pays_def d1 Let_def)
  qed
  have r2: "distinct (map o_id (orders d2))" "r \<in> set (orders d2)" using r by (simp_all add: d2)
  note s = set_status_returning_effect [OF y3 r2]
  have c: "pay_change r (event_row ev (clock d) r) (event_pays ev raw ?pid (o_id r) d) d d3"
    unfolding pay_change_def using s(1) by (intro exI [of _ "id_count d"]) (simp add: d2 event_row_def set_row_def)
  have res': "res' = res\<lparr>cb_Status := ?st, cb_Applied := True, cb_OrderCancelled := b, cb_RefundRequired := ref\<rparr>"
    and d5: "d' = d5" using y6 by (auto elim!: yields_return)
  show ?thesis
  proof (rule that [OF c])
    show "order_check (event_row ev (clock d) r)" using s(3) by (simp add: event_row_def d2)
    show "?st = PaymentPaid \<Longrightarrow> toTyiyn (ev_Amount ev) = toTyiyn amount" by (rule amt)
    have ref: "ref = (?st = PaymentPaid \<and> o_status r = StatusCancelled)"
      using y4 s(2) by (auto elim!: yields_bind yields_return split: if_splits)
    show "res' = res\<lparr>cb_Status := ?st, cb_Applied := True, cb_OrderCancelled := b,
               cb_RefundRequired := (?st = PaymentPaid \<and> o_status r = StatusCancelled)\<rparr>"
      using res' ref by simp
    show "if ?st = PaymentPaid \<and> o_status r = StatusCancelled
     then \<not> b \<and> yields (MarkRefundRequiredTx (o_id r)) d3 () d'
     else if ?st = PaymentCancelled
     then yields (CancelUnpaidOrderTx env (o_id r) NotePaymentCancelled) d3 b d'
     else \<not> b \<and> d' = d3"
      using y4 y5 s(2) d5 by (auto elim!: yields_bind yields_return split: if_splits)
  qed
qed

lemma event_keeps_ids [simp]:
  "p_id (event_pay ev raw t p) = p_id p" "p_order_id (event_pay ev raw t p) = p_order_id p"
  "p_amount (event_pay ev raw t p) = p_amount p" "p_status (event_pay ev raw t p) = ev_Status ev"
  "o_id (event_row ev t r) = o_id r" "o_order_number (event_row ev t r) = o_order_number r"
  "o_status (event_row ev t r) = o_status r" "o_point_id (event_row ev t r) = o_point_id r"
  "o_payment_method (event_row ev t r) = o_payment_method r" "o_total_amount (event_row ev t r) = o_total_amount r"
  "o_payment_status (event_row ev t r) = Some (ev_Status ev)"
  by (simp_all add: event_pay_def event_row_def)

lemma event_pays_props:
  assumes ids: "distinct (map p_id (payments d))" and p0: "p0 \<in> set (payments d)" and oid: "p_order_id p0 = oid"
  obtains as bs where "payments_of d (oid) = as @ p0 # bs"
    and "filter (\<lambda>p. p_order_id p = oid) (event_pays ev raw (p_id p0) (oid) d) =
      (if ev_Status ev = PaymentPaid
       then map (close (clock d)) as @ event_pay ev raw (clock d) p0 # map (close (clock d)) bs
       else as @ event_pay ev raw (clock d) p0 # bs)"
    and "\<And>x. x \<noteq> oid \<Longrightarrow>
      filter (\<lambda>p. p_order_id p = x) (event_pays ev raw (p_id p0) (oid) d) = payments_of d x"
    and "distinct (map p_id (event_pays ev raw (p_id p0) (oid) d))"
    and "p_order_id ` set (event_pays ev raw (p_id p0) (oid) d) = p_order_id ` set (payments d)"
proof -
  let ?o = oid and ?c = "close (clock d)"
  let ?q = "event_pay ev raw (clock d)"
  let ?s = "set_pay (p_id p0) ?q (payments d)"
  let ?m = "map (\<lambda>p. if p_order_id p = ?o then ?c p else p)"
  obtain as bs where sp: "payments_of d ?o = as @ p0 # bs"
    "filter (\<lambda>p. p_order_id p = ?o) ?s = as @ ?q p0 # bs"
    "\<And>x. x \<noteq> ?o \<Longrightarrow> filter (\<lambda>p. p_order_id p = x) ?s = payments_of d x"
    using set_pay_split [of d p0 ?q, OF ids p0] event_keeps_ids(2) unfolding oid by metis
  have fm: "filter (\<lambda>p. p_order_id p = x) (?m ps) = ?m (filter (\<lambda>p. p_order_id p = x) ps)" for x ps
    by (rule payments_of_map) simp
  have mo: "?m (filter (\<lambda>p. p_order_id p = ?o) ps) = map ?c (filter (\<lambda>p. p_order_id p = ?o) ps)" for ps
    by (rule map_cong) auto
  have mx: "?m (filter (\<lambda>p. p_order_id p = x) ps) = filter (\<lambda>p. p_order_id p = x) ps" if "x \<noteq> ?o" for x ps
    using that by (intro map_idI) auto
  have cq: "?c (?q p0) = ?q p0" if "ev_Status ev = PaymentPaid" using that by (simp add: close_def)
  have mid: "map p_id (?m ps) = map p_id ps" "p_order_id ` set (?m ps) = p_order_id ` set ps" for ps
    by (induction ps) auto
  note si = set_pay_ids [of ?q "p_id p0" "payments d", OF event_keeps_ids(1,2)]
  show ?thesis
  proof (rule that [OF sp(1)])
    show "filter (\<lambda>p. p_order_id p = ?o) (event_pays ev raw (p_id p0) ?o d) =
      (if ev_Status ev = PaymentPaid then map ?c as @ ?q p0 # map ?c bs else as @ ?q p0 # bs)"
    proof (cases "ev_Status ev = PaymentPaid")
      case True
      have "filter (\<lambda>p. p_order_id p = ?o) (?m ?s) = map ?c (as @ ?q p0 # bs)" unfolding fm unfolding mo unfolding sp(2) by (rule refl)
      then show ?thesis using True cq by (simp only: event_pays_def Let_def if_True) simp
    next
      case False
      then show ?thesis using sp(2) by (simp add: event_pays_def Let_def)
    qed
    show "filter (\<lambda>p. p_order_id p = x) (event_pays ev raw (p_id p0) ?o d) = payments_of d x" if "x \<noteq> ?o" for x
    proof -
      have "?m (payments_of d x) = payments_of d x" using mx [OF that, of "payments d"] by (simp only: payments_of_def)
      then show ?thesis using sp(3) [OF that] unfolding event_pays_def Let_def
        by (cases "ev_Status ev = PaymentPaid") (simp_all only: simp_thms if_True if_False fm)
    qed
    show "distinct (map p_id (event_pays ev raw (p_id p0) ?o d))"
      using ids unfolding event_pays_def Let_def
      by (cases "ev_Status ev = PaymentPaid") (simp_all only: simp_thms if_True if_False mid si)
    show "p_order_id ` set (event_pays ev raw (p_id p0) ?o d) = p_order_id ` set (payments d)"
      unfolding event_pays_def Let_def
      by (cases "ev_Status ev = PaymentPaid") (simp_all only: simp_thms if_True if_False mid si)
  qed
qed

lemma expected_single: "xs @ y # ys = expected_sett st \<Longrightarrow> xs = [] \<and> ys = [] \<and> st = Some y"
  by (auto simp: expected_sett_def append_eq_Cons_conv split: option.splits PaymentStatus.splits)

lemma event_change:
  assumes i: "consistent d" and p0: "p0 \<in> set (payments d)" and r: "r \<in> set (orders d)" "o_id r = p_order_id p0"
    and v: "verdict (p_status p0) (ev_Status ev) (scanOrderRow d r) = (True, False)"
    and c: "pay_change r (event_row ev (clock d) r) (event_pays ev raw (p_id p0) (o_id r) d) d d'"
    and chk: "order_check (event_row ev (clock d) r)"
  shows "consistent d' \<and> conserves d d'"
proof -
  note k = inv_keys [OF i]
  note ok = k(3) [OF r(1), unfolded order_ok_def]
  let ?r' = "event_row ev (clock d) r"
  obtain as bs where sp: "payments_of d (o_id r) = as @ p0 # bs"
    and e: "filter (\<lambda>p. p_order_id p = o_id r) (event_pays ev raw (p_id p0) (o_id r) d) =
      (if ev_Status ev = PaymentPaid
       then map (close (clock d)) as @ event_pay ev raw (clock d) p0 # map (close (clock d)) bs
       else as @ event_pay ev raw (clock d) p0 # bs)"
    and x: "\<And>x. x \<noteq> o_id r \<Longrightarrow>
      filter (\<lambda>p. p_order_id p = x) (event_pays ev raw (p_id p0) (o_id r) d) = payments_of d x"
    and ids: "distinct (map p_id (event_pays ev raw (p_id p0) (o_id r) d))"
      "p_order_id ` set (event_pays ev raw (p_id p0) (o_id r) d) = p_order_id ` set (payments d)"
    by (rule event_pays_props [OF k(2) p0 r(2) [symmetric], of ev raw]) (rule that)
  have pay: "pay_ok r (as @ p0 # bs)" using ok sp by simp
  have waits: "o_status r = StatusPlaced" if "ev_Status ev \<noteq> PaymentRefunded"
    using v pay that unfolding verdict_apply pay_ok_alt PaymentRetryable_scan
    by (auto simp: retryable_def split: if_splits)
  have "row_ok ?r'"
  proof (cases "ev_Status ev = PaymentRefunded")
    case True
    then show ?thesis using ok chk unfolding row_ok_def by auto
  next
    case False
    then show ?thesis using row_ok_payment [of r ?r'] ok chk waits by simp
  qed
  moreover have "pay_ok ?r' (filter (\<lambda>p. p_order_id p = o_id r) (event_pays ev raw (p_id p0) (o_id r) d))"
    using v pay waits unfolding e verdict_apply pay_ok_alt PaymentRetryable_scan
    by (auto simp: retryable_def isUnpaidFinal_def dest: expected_single split: if_splits)
  moreover have "p_order_id ` set (event_pays ev raw (p_id p0) (o_id r) d) \<subseteq> o_id ` set (orders d)"
    using ids(2) k(4) by simp
  ultimately show ?thesis using pay_step [OF i r(1) c _ _ _ _ ids(1) _ x] by simp
qed

section \<open>The callback transaction\<close>

definition matches_event :: "string \<Rightarrow> CallbackEvent \<Rightarrow> db \<Rightarrow> payment_row \<Rightarrow> order_row \<Rightarrow> bool" where
  "matches_event prov ev d p0 r \<longleftrightarrow> p0 \<in> set (payments d) \<and> p_provider p0 = prov \<and>
     p_provider_tx_id p0 = Some (ev_ExternalID ev) \<and> r \<in> set (orders d) \<and> o_id r = p_order_id p0"

definition blank_result :: "payment_row \<Rightarrow> CallbackResult" where
  "blank_result p0 = \<lparr>cb_PaymentID = p_id p0, cb_OrderID = p_order_id p0, cb_Status = p_status p0,
     cb_Applied = False, cb_OrderCancelled = False, cb_RefundRequired = False\<rparr>"

lemma callback_found:
  assumes y: "yields (callback_tx env prov ev raw) d res d'" and ids: "distinct (map p_id (payments d))"
  obtains p0 r where "matches_event prov ev d p0 r"
    "yields (case verdict (p_status p0) (ev_Status ev) (scanOrderRow d r) of (apply, conflict) \<Rightarrow>
       if conflict
       then
         if ev_Status ev = PaymentPaid \<and> isUnpaidFinal (p_status p0)
         then bindG (set_payment (p_id p0) (\<lambda>p. p\<lparr>p_raw_webhook := Some raw\<rparr>)) (\<lambda>_.
              bindG (MarkRefundRequiredTx (p_order_id p0)) (\<lambda>_.
              returnG ((blank_result p0)\<lparr>cb_RefundRequired := True\<rparr>)))
         else returnG (blank_result p0)
       else if \<not> apply then returnG (blank_result p0)
       else apply_event env ev raw (float_of_numeric (p_amount p0)) (blank_result p0)) d res d'"
proof -
  let ?F = "find (\<lambda>p. p_provider p = prov \<and> p_provider_tx_id p = Some (ev_ExternalID ev)) (payments d)"
  obtain p0 where f: "?F = Some p0"
    using y unfolding callback_tx_def
    by (cases ?F) (auto elim!: yields_bind yields_query yields_fail)
  note m = find_Some_mem [OF f]
  have g: "find (\<lambda>p. p_id p = p_id p0) (payments d) = Some p0" using find_distinct [OF ids] m by blast
  obtain r where r: "r \<in> set (orders d)" "o_id r = p_order_id p0"
    and rest: "yields (case verdict (p_status p0) (ev_Status ev) (scanOrderRow d r) of (apply, conflict) \<Rightarrow>
       if conflict
       then
         if ev_Status ev = PaymentPaid \<and> isUnpaidFinal (p_status p0)
         then bindG (set_payment (p_id p0) (\<lambda>p. p\<lparr>p_raw_webhook := Some raw\<rparr>)) (\<lambda>_.
              bindG (MarkRefundRequiredTx (p_order_id p0)) (\<lambda>_.
              returnG ((blank_result p0)\<lparr>cb_RefundRequired := True\<rparr>)))
         else returnG (blank_result p0)
       else if \<not> apply then returnG (blank_result p0)
       else apply_event env ev raw (float_of_numeric (p_amount p0)) (blank_result p0)) d res d'"
    using y unfolding callback_tx_def LockOrderTx_def blank_result_def Let_def
    by (elim yields_bind yields_query)
       (simp only: f option.map option.case prod.case, elim yields_bind lockOrderTx_effect yields_query,
        simp only: g option.map option.case prod.case)
  show ?thesis by (rule that [OF _ rest]) (use m r in \<open>simp add: matches_event_def\<close>)
qed

lemma mark_refund_row:
  assumes "yields (MarkRefundRequiredTx (o_id r)) d u d'" "distinct (map o_id (orders d))" "r \<in> set (orders d)"
  shows "d' = d\<lparr>orders := set_row r (r\<lparr>o_refund_required := True, o_updated_at := clock d\<rparr>) d\<rparr>"
  using MarkRefund_effect [OF assms(1)] rows_of_id [OF assms(2,3)] by simp

lemma callback_effect:
  assumes y: "yields (callback_tx env prov ev raw) d res d'" and i: "consistent d"
  obtains (ignored) p0 r where "matches_event prov ev d p0 r" "d' = d" "res = blank_result p0"
      "fst (verdict (p_status p0) (ev_Status ev) (scanOrderRow d r)) = False"
      "\<not> (verdict (p_status p0) (ev_Status ev) (scanOrderRow d r) = (False, True) \<and>
          ev_Status ev = PaymentPaid \<and> isUnpaidFinal (p_status p0))"
  | (refund) p0 r where "matches_event prov ev d p0 r" "res = (blank_result p0)\<lparr>cb_RefundRequired := True\<rparr>"
      "verdict (p_status p0) (ev_Status ev) (scanOrderRow d r) = (False, True)"
      "ev_Status ev = PaymentPaid" "isUnpaidFinal (p_status p0)"
      "pay_change r (r\<lparr>o_refund_required := True, o_updated_at := clock d\<rparr>)
         (set_pay (p_id p0) (\<lambda>p. p\<lparr>p_raw_webhook := Some raw, p_updated_at := clock d\<rparr>) (payments d)) d d'"
  | (applied) p0 r d3 b where "matches_event prov ev d p0 r"
      "verdict (p_status p0) (ev_Status ev) (scanOrderRow d r) = (True, False)"
      "ev_Status ev = PaymentPaid \<Longrightarrow> toTyiyn (ev_Amount ev) = toTyiyn (float_of_numeric (p_amount p0))"
      "pay_change r (event_row ev (clock d) r) (event_pays ev raw (p_id p0) (o_id r) d) d d3"
      "order_check (event_row ev (clock d) r)"
      "res = (blank_result p0)\<lparr>cb_Status := ev_Status ev, cb_Applied := True, cb_OrderCancelled := b,
               cb_RefundRequired := (ev_Status ev = PaymentPaid \<and> o_status r = StatusCancelled)\<rparr>"
      "if ev_Status ev = PaymentPaid \<and> o_status r = StatusCancelled
       then \<not> b \<and> yields (MarkRefundRequiredTx (o_id r)) d3 () d'
       else if ev_Status ev = PaymentCancelled
       then yields (CancelUnpaidOrderTx env (o_id r) NotePaymentCancelled) d3 b d'
       else \<not> b \<and> d' = d3"
proof -
  note k = inv_keys [OF i]
  obtain p0 r where m: "matches_event prov ev d p0 r"
    and rest: "yields (case verdict (p_status p0) (ev_Status ev) (scanOrderRow d r) of (apply, conflict) \<Rightarrow>
       if conflict
       then
         if ev_Status ev = PaymentPaid \<and> isUnpaidFinal (p_status p0)
         then bindG (set_payment (p_id p0) (\<lambda>p. p\<lparr>p_raw_webhook := Some raw\<rparr>)) (\<lambda>_.
              bindG (MarkRefundRequiredTx (p_order_id p0)) (\<lambda>_.
              returnG ((blank_result p0)\<lparr>cb_RefundRequired := True\<rparr>)))
         else returnG (blank_result p0)
       else if \<not> apply then returnG (blank_result p0)
       else apply_event env ev raw (float_of_numeric (p_amount p0)) (blank_result p0)) d res d'"
    using callback_found [OF y k(2)] by metis
  have r: "r \<in> set (orders d)" "o_id r = p_order_id p0" using m by (simp_all add: matches_event_def)
  show ?thesis
  proof (cases "verdict (p_status p0) (ev_Status ev) (scanOrderRow d r) = (True, False)")
    case True
    then have a: "yields (apply_event env ev raw (float_of_numeric (p_amount p0)) (blank_result p0)) d res d'"
      using rest by simp
    have br: "o_id r = cb_OrderID (blank_result p0)" "cb_PaymentID (blank_result p0) = p_id p0"
      by (simp_all add: blank_result_def r(2))
    show ?thesis
      by (rule apply_event_effect [OF a k(1) r(1) br(1) k(2)]) (rule applied [OF m True]; simp add: br)
  next
    case False
    then have v: "verdict (p_status p0) (ev_Status ev) (scanOrderRow d r) \<in> {(False, False), (False, True)}"
      using verdict_cases by blast
    show ?thesis
    proof (cases "verdict (p_status p0) (ev_Status ev) (scanOrderRow d r) = (False, True) \<and>
        ev_Status ev = PaymentPaid \<and> isUnpaidFinal (p_status p0)")
      case True
      obtain d1 u where s: "yields (set_payment (p_id p0) (\<lambda>p. p\<lparr>p_raw_webhook := Some raw\<rparr>)) d u d1"
        and mr: "yields (MarkRefundRequiredTx (o_id r)) d1 () d'"
        and res: "res = (blank_result p0)\<lparr>cb_RefundRequired := True\<rparr>"
        using rest True unfolding r(2) by (auto elim!: yields_bind yields_return)
      note d1 = set_payment_effect [OF s]
      have "d' = d1\<lparr>orders := set_row r (r\<lparr>o_refund_required := True, o_updated_at := clock d1\<rparr>) d1\<rparr>"
        by (rule mark_refund_row [OF mr]) (use k(1) r in \<open>simp_all add: d1\<close>)
      then show ?thesis using True res
        by (intro refund [OF m]) (auto simp: pay_change_def d1 set_row_def intro!: exI [of _ "id_count d"])
    next
      case False
      then have "d' = d" "res = blank_result p0" using rest v by (auto elim!: yields_return split: if_splits)
      then show ?thesis using v False by (intro ignored [OF m]) auto
    qed
  qed
qed

lemma callback_keeps:
  assumes y: "yields (callback_tx env prov ev raw) d res d'" and i: "consistent d"
  shows "consistent d' \<and> conserves d d' \<and> (payable d \<longrightarrow> payable d')"
  using y i
proof (cases rule: callback_effect)
  case (ignored p0 r)
  then show ?thesis using i by simp
next
  case (refund p0 r)
  note k = inv_keys [OF i]
  have r: "r \<in> set (orders d)" "o_id r = p_order_id p0" "p0 \<in> set (payments d)"
    using refund(1) by (simp_all add: matches_event_def)
  let ?f = "\<lambda>p. p\<lparr>p_raw_webhook := Some raw, p_updated_at := clock d\<rparr>"
  obtain as bs where sp: "payments_of d (p_order_id p0) = as @ p0 # bs"
    "filter (\<lambda>p. p_order_id p = p_order_id p0) (set_pay (p_id p0) ?f (payments d)) = as @ ?f p0 # bs"
    "\<And>x. x \<noteq> p_order_id p0 \<Longrightarrow> filter (\<lambda>p. p_order_id p = x) (set_pay (p_id p0) ?f (payments d)) = payments_of d x"
    by (rule set_pay_split [of d p0 ?f, OF k(2) r(3)], simp, rule that)
  note sp = sp [folded r(2)]
  have "pay_ok r (as @ p0 # bs)" using k(3) [OF r(1)] sp(1) by (simp add: order_ok_def)
  then have ok: "pay_ok r (filter (\<lambda>p. p_order_id p = o_id r) (set_pay (p_id p0) ?f (payments d)))"
    unfolding sp(2) pay_ok_alt by (auto split: if_splits)
  have si: "map p_id (set_pay (p_id p0) ?f (payments d)) = map p_id (payments d)"
    "p_order_id ` set (set_pay (p_id p0) ?f (payments d)) = p_order_id ` set (payments d)"
    by (rule set_pay_ids; simp)+
  have "consistent d' \<and> conserves d d'"
    by (rule refund_keeps [OF i r(1) refund(6) _ _ sp(3) ok]) (use k si in simp_all)
  moreover have "payable d'" if "payable d"
    by (rule payable_change [OF that refund(6) k(1) r(1)]) (use that r(1) in \<open>simp add: payable_def\<close>)
  ultimately show ?thesis by blast
next
  case (applied p0 r d3 b)
  have r: "r \<in> set (orders d)" "o_id r = p_order_id p0" "p0 \<in> set (payments d)"
    using applied(1) by (simp_all add: matches_event_def)
  have s: "consistent d3 \<and> conserves d d3"
    by (rule event_change [OF i r(3) r(1,2) applied(2,4,5)])
  have live: "\<not> (ev_Status ev = PaymentPaid \<and> o_status r = StatusCancelled)"
  proof
    assume a: "ev_Status ev = PaymentPaid \<and> o_status r = StatusCancelled"
    have "pay_ok r (payments_of d (o_id r))" using inv_keys(3) [OF i r(1)] by (simp add: order_ok_def)
    moreover have "p0 \<in> set (payments_of d (o_id r))" using r by (simp add: payments_of_def)
    ultimately have "p_status p0 \<noteq> PaymentPending" using a by (auto simp: pay_ok_alt pend_0 split: if_splits)
    then show False using applied(2) a by (simp add: verdict_apply PaymentRetryable_scan retryable_def)
  qed
  show ?thesis
  proof (cases "ev_Status ev = PaymentCancelled")
    case True
    then have "yields (CancelUnpaidOrderTx env (o_id r) NotePaymentCancelled) d3 b d'" using applied(7) by simp
    moreover have "payable d'" if "payable d"
    proof (rule cancel_unpaid_payable [OF calculation])
      show "distinct (map o_id (orders d3))" using s inv_keys(1) by blast
      have "orders d3 = set_row r (event_row ev (clock d) r) d" using applied(4) by (auto simp: pay_change_def)
      then show "x \<in> set (orders d3) \<Longrightarrow> o_id x \<noteq> o_id r \<Longrightarrow> o_status x = StatusPlaced \<Longrightarrow>
        o_payment_status x \<noteq> Some PaymentCancelled" for x
        using that set_set_row [OF inv_keys(1) [OF i] r(1)] by (auto simp: payable_def)
    qed
    ultimately show ?thesis using cancel_unpaid_keeps s conserves_trans by blast
  next
    case False
    have "payable d3" if "payable d"
      by (rule payable_change [OF that applied(4) inv_keys(1) [OF i] r(1)]) (use False in simp)
    moreover have "d' = d3" using False applied(7) live by (simp split: if_splits)
    ultimately show ?thesis using s by blast
  qed
qed

end
