(* ===== verification/Shop.thy ===== *)
theory Shop
  imports PaymentFacts
begin

text \<open>
  The program as a state machine on its tables. \<open>step\<close> is one committed transaction of the order and
  payment code, by any of its entry points; \<open>outside\<close> is anything the rest of the server does to the
  other tables (catalog, stock entered by staff, carts, addresses, zones, the clock). \<open>reachable\<close>
  are the tables that arise from an empty shop. Every run of a service operation, successful or
  not, under any schedule of failures, is a sequence of such steps (\<open>only_steps\<close>).
\<close>

section \<open>Steps\<close>

definition online_after :: "env \<Rightarrow> string \<Rightarrow> Order \<Rightarrow> string go" where
  "online_after env provider ord = stmt (insert_payment env (ID ord) provider (numeric_of_float (TotalAmount ord)))"

inductive step :: "env \<Rightarrow> db \<Rightarrow> db \<Rightarrow> bool" for env where
  place_cash: "mergeItemQuantities env (in_Items inp) = Inr (qty, vids) \<Longrightarrow>
    yields (place_tx env inp PaymentCashOnDelivery (\<lambda>_. returnG []) a p qty vids c k) d out d' \<Longrightarrow> step env d d'"
| place_online: "mergeItemQuantities env (in_Items inp) = Inr (qty, vids) \<Longrightarrow>
    yields (place_tx env inp PaymentOnlineCard (online_after env prov) a p qty vids c k) d out d' \<Longrightarrow> step env d d'"
| admin_update: "yields (admin_update_tx env actor key to) d x d' \<Longrightarrow> step env d d'"
| customer_cancel: "yields (customer_cancel_tx env cu key) d ord d' \<Longrightarrow> step env d d'"
| retry: "yields (retry_tx env cu key prov) d z d' \<Longrightarrow> step env d d'"
| store_url: "yields (store_session pid tx (\<lambda>r. r\<lparr>p_redirect_url := url\<rparr>)) d u d' \<Longrightarrow> step env d d'"
| store_qr: "yields (store_session pid tx (\<lambda>r. r)) d u d' \<Longrightarrow> step env d d'"
| fail_attempt: "yields (fail_attempt_tx pid oid) d u d' \<Longrightarrow> belongs d pid oid \<Longrightarrow> step env d d'"
| abort: "yields (abort_tx env pid oid) d u d' \<Longrightarrow> belongs d pid oid \<Longrightarrow> step env d d'"
| callback: "yields (callback_tx env prov ev raw) d res d' \<Longrightarrow> step env d d'"
| expire: "yields (expire_tx env oid ttl) d b d' \<Longrightarrow> step env d d'"

definition outside :: "db \<Rightarrow> db \<Rightarrow> bool" where
  "outside d d' \<longleftrightarrow> orders d' = orders d \<and> order_items d' = order_items d \<and> payments d' = payments d \<and>
     order_status_history d' = order_status_history d \<and> stock_ok d'"

definition empty_shop :: "db \<Rightarrow> bool" where
  "empty_shop d \<longleftrightarrow> orders d = [] \<and> order_items d = [] \<and> payments d = [] \<and>
     order_status_history d = [] \<and> stock_ok d"

inductive reachable :: "env \<Rightarrow> db \<Rightarrow> bool" for env where
  start: "empty_shop d \<Longrightarrow> reachable env d"
| by_step: "reachable env d \<Longrightarrow> step env d d' \<Longrightarrow> reachable env d'"
| by_outside: "reachable env d \<Longrightarrow> outside d d' \<Longrightarrow> reachable env d'"

section \<open>Every step keeps the invariant and the accounts\<close>

lemma place_tx_effect:
  assumes y: "yields (place_tx env inp method after a p qty vids c k) d out d'" and dv: "distinct vids"
  obtains (replayed) oid where "out = Replayed oid" "d' = d"
  | (placed) d0 r q rows h d1 ord pid where "d0 = d \<or> (\<exists>x. d0 = release_key x d)" "out = Placed ord pid"
      "placed_rows inp method qty vids d0 r q rows h d1" "yields (after ord) d1 pid d'"
      "ID ord = o_id r" "numeric_of_float (TotalAmount ord) = o_total_amount r"
proof -
  obtain d0 rep where
      f: "yields (case k of None \<Rightarrow> returnG [] | Some k \<Rightarrow> findIdempotentOrder (in_CustomerID inp) k) d rep d0"
    and b: "yields (if rep \<noteq> [] then returnG (Replayed rep)
              else place_body env inp method after a p qty vids c k) d0 out d'"
    using y unfolding place_tx_def by (auto elim!: yields_bind yields_query)
  have d0: "d0 = d \<or> (rep = [] \<and> (\<exists>x. d0 = release_key x d))"
    using f findIdempotentOrder_effect(1) by (auto elim!: yields_return split: option.splits)
  show ?thesis
  proof (cases "rep = []")
    case True
    then have "yields (place_body env inp method after a p qty vids c k) d0 out d'" using b by simp
    then show ?thesis by (rule place_body_effect [OF _ dv]) (rule placed, use d0 in auto)
  next
    case False
    then show ?thesis using b d0 replayed by (auto elim!: yields_return)
  qed
qed

lemma place_keeps:
  assumes y: "yields (place_tx env inp method after a p qty vids c k) d out d'"
    and m: "mergeItemQuantities env (in_Items inp) = Inr (qty, vids)" and i: "consistent d"
    and after: "(method = PaymentCashOnDelivery \<and> after = (\<lambda>_. returnG [])) \<or>
                (method = PaymentOnlineCard \<and> after = online_after env prov)"
  shows "consistent d' \<and> conserves d d'"
  using y mergeItemQuantities_Inr(2) [OF m]
proof (cases rule: place_tx_effect)
  case (replayed oid)
  then show ?thesis using i by simp
next
  case (placed d0 r q rows h d1 ord pid)
  have d0: "consistent d0 \<and> conserves d d0" using placed(1) i release_inv release_conserves by auto
  have c: "conserves d0 d1"
    by (rule placed_conserves [OF placed(3) _ mergeItemQuantities_Inr(2) [OF m]])
       (use d0 in \<open>simp add: consistent_def\<close>)
  have pos: "\<forall>v \<in> set vids. 0 < qty v" using mergeItemQuantities_Inr(6) [OF m] by blast
  have pays: "payments d1 = payments d0" and pm: "o_payment_method r = method" and st: "o_status r = StatusPlaced"
    and ps: "o_payment_status r = (if method = PaymentOnlineCard then Some PaymentPending else None)"
    using placed(3) unfolding placed_rows_def by blast+
  have k: "distinct (map p_id (payments d0))" using d0 inv_keys(2) by blast
  have "consistent d' \<and> conserves d1 d'"
    using after
  proof (elim disjE conjE)
    assume a: "method = PaymentCashOnDelivery" "after = (\<lambda>_. returnG [])"
    have d': "d' = d1" using placed(4) a by (auto elim!: yields_return)
    have "consistent d1"
      by (rule placed_inv [OF _ placed(3) pos, of _ "[]"])
         (use d0 k pays ps st a in \<open>simp_all add: pay_ok_def\<close>)
    then show ?thesis using d' by simp
  next
    assume a: "method = PaymentOnlineCard" "after = online_after env prov"
    obtain ins: "insert_payment env (o_id r) prov (o_total_amount r) d1 = Inr (pid, d')"
      using placed(4-6) a unfolding online_after_def by (auto elim!: yields_stmt)
    note e = insert_payment_Inr [OF ins]
    have "consistent d'"
      by (rule placed_inv [OF _ placed(3) pos, of _ "[\<lparr>p_id = pid, p_order_id = o_id r, p_provider = prov,
               p_provider_tx_id = None, p_status = PaymentPending, p_amount = o_total_amount r,
               p_currency = ''KGS'', p_redirect_url = None, p_raw_webhook = None,
               p_created_at = clock d1, p_updated_at = clock d1\<rparr>]"])
         (use d0 k pays ps st a pm e(2) in \<open>simp_all add: e(1) pay_ok_def MaxPaymentAttempts_def settled_def\<close>)
    moreover have "conserves d1 d'"
    proof -
      have "reserved d' = reserved d1" "live_units d' = live_units d1"
        by (rule reserved_cong live_units_cong; simp add: e(1))+
      then show ?thesis by (simp add: conserves_def goods_def sales_gap_def fun_eq_iff stock_qty_def) (simp add: e(1))
    qed
    ultimately show ?thesis by simp
  qed
  then show ?thesis using d0 c conserves_trans by blast
qed

lemma store_keeps:
  assumes y: "yields (store_session pid tx f) d u d'" and i: "consistent d"
    and f: "\<And>p. p_id (f p) = p_id p" "\<And>p. p_order_id (f p) = p_order_id p" "\<And>p. p_amount (f p) = p_amount p"
      "\<And>p. p_status (f p) = p_status p"
  shows "consistent d' \<and> conserves d d'" and "orders d' = orders d"
    and "belongs d' x oid = belongs d x oid"
proof -
  let ?g = "\<lambda>p. if p_id p = pid then (f p)\<lparr>p_provider_tx_id := Some tx, p_updated_at := clock d\<rparr> else p"
  have d': "d' = d\<lparr>payments := map ?g (payments d)\<rparr>"
    using y unfolding store_session_def set_provider_tx_def
    by (elim yields_bind yields_stmt yields_return) (auto simp: update_payments_Inr split: if_splits)
  have g: "p_id (?g p) = p_id p" "p_order_id (?g p) = p_order_id p" "p_amount (?g p) = p_amount p"
    "p_status (?g p) = p_status p" for p by (simp_all add: f)
  have m: "map p_id (map ?g ps) = map p_id ps" "p_order_id ` set (map ?g ps) = p_order_id ` set ps" for ps
    by (induction ps) (simp_all add: f)
  have pd: "payments d' = map ?g (payments d)" by (simp add: d')
  have po: "payments_of d' x = map ?g (payments_of d x)" for x
    unfolding payments_of_def pd by (rule payments_of_map) (simp add: f)
  have ps: "pend (map ?g ps) = pend ps" "sett (map ?g ps) = sett ps" for ps
    by (induction ps) (simp_all add: f)
  have am: "(\<forall>p \<in> set (map ?g ps). p_amount p = t) = (\<forall>p \<in> set ps. p_amount p = t)" for ps t
    by (induction ps) (simp_all add: f)
  have "pay_ok r (payments_of d' x) = pay_ok r (payments_of d x)" for r x
    unfolding po pay_ok_alt ps am by simp
  then have "order_ok d' r = order_ok d r" for r
    by (simp add: order_ok_def history_of_def) (simp add: d')
  moreover have "orders d' = orders d" "order_items d' = order_items d" "stock d' = stock d"
    "order_status_history d' = order_status_history d" "variants d' = variants d" "product_sales d' = product_sales d"
    by (simp_all add: d')
  moreover have "map p_id (payments d') = map p_id (payments d)"
    "p_order_id ` set (payments d') = p_order_id ` set (payments d)" unfolding pd by (rule m)+
  moreover have "reserved d' = reserved d" "live_units d' = live_units d"
    by (rule reserved_cong live_units_cong; simp add: d')+
  ultimately show "consistent d' \<and> conserves d d'"
    using i
    by (simp add: consistent_def keys_ok_def links_ok_def stock_ok_def conserves_def goods_def
        sales_gap_def stock_qty_def fun_eq_iff)
  show "orders d' = orders d" by (simp add: d')
  have "(\<forall>p \<in> set (map ?g ps). p_id p = x \<longrightarrow> p_order_id p = oid) =
      (\<forall>p \<in> set ps. p_id p = x \<longrightarrow> p_order_id p = oid)" for ps
    by (induction ps) (simp_all add: f)
  then show "belongs d' x oid = belongs d x oid" unfolding belongs_def pd .
qed

lemma lock_tables: "tables (snd (lockOrderTx P w)) = tables w"
  unfolding lockOrderTx_def select_order_def
  using tables_query [of "\<lambda>d. map_option (scanOrderRow d) (find P (orders d))" w]
  by (auto simp: bindG_def returnG_def failG_def split: prod.splits sum.splits option.splits)

lemma attempt_lock:
  assumes "yields (attempt (lockOrderTx P)) d l d1" shows "d1 = d"
proof -
  obtain w w' where w: "attempt (lockOrderTx P) w = (Inr l, w')" "tables w = d" "tables w' = d1"
    using assms by (auto simp: yields_def)
  then have "w' = snd (lockOrderTx P w)" by (auto simp: attempt_def split: prod.splits)
  then show ?thesis using lock_tables w by metis
qed

lemma expire_effect:
  assumes "yields (expire_tx env oid ttl) d b d'"
  shows "d' = d \<and> \<not> b \<or> yields (CancelUnpaidOrderTx env oid NotePaymentExpired) d b d' \<and>
           (\<exists>r \<in> set (orders d). unpaidExpired ttl d r \<and> o_id r = oid)"
proof -
  obtain l d1 where l: "yields (attempt (LockOrderTx oid)) d l d1"
    and rest: "yields (case l of
       Inl err \<Rightarrow> if is_app_error err ''order_not_found'' then returnG False else failG err
     | Inr _ \<Rightarrow>
         bindG (query (\<lambda>d. \<exists>r \<in> set (orders d). unpaidExpired ttl d r \<and> o_id r = oid)) (\<lambda>still.
         if \<not> still then returnG False
         else CancelUnpaidOrderTx env oid NotePaymentExpired)) d1 b d'"
    using assms unfolding expire_tx_def by (elim yields_bind)
  have d1: "d1 = d" using l unfolding LockOrderTx_def by (rule attempt_lock)
  show ?thesis
  proof (cases l)
    case (Inl e)
    then show ?thesis using rest d1 by (auto elim!: yields_return yields_fail split: if_splits)
  next
    case (Inr x)
    let ?c = "\<exists>r \<in> set (orders d). unpaidExpired ttl d r \<and> o_id r = oid"
    have y: "yields (if \<not> ?c then returnG False else CancelUnpaidOrderTx env oid NotePaymentExpired) d b d'"
      using rest unfolding Inr d1 sum.case by (elim yields_bind yields_query) (hypsubst, assumption)
    then show ?thesis
    proof (cases ?c)
      case True
      with y have "yields (CancelUnpaidOrderTx env oid NotePaymentExpired) d b d'" by (simp only: simp_thms if_False)
      with True show ?thesis by blast
    next
      case False
      with y have "yields (returnG False) d b d'" by (simp only: simp_thms if_True)
      then show ?thesis by (elim yields_return) simp
    qed
  qed
qed

lemma valid_from_live: "validStatusTransition a b \<Longrightarrow> a \<noteq> StatusCancelled"
  by (cases "a = b"; cases a) (simp_all add: validStatusTransition_def)

lemma step_keeps:
  assumes "step env d d'" and "consistent d"
  shows "consistent d' \<and> conserves d d'"
  using assms
proof (cases rule: step.cases)
  case (place_cash inp qty vids a p c k out)
  then show ?thesis using place_keeps assms(2) by blast
next
  case (place_online inp qty vids prov a p c k out)
  then show ?thesis using place_keeps assms(2) by blast
next
  case (admin_update actor key to x)
  show ?thesis using admin_update inv_keys(1) [OF assms(2)]
  proof (cases rule: admin_update_effect)
    case (cancel r h)
    have live: "o_status r \<noteq> StatusCancelled" using valid_from_live [OF cancel(4)] .
    show ?thesis
      using cancelled_inv [OF assms(2) cancel(5)] cancelled_conserves [OF cancel(5) inv_keys(1) [OF assms(2)] live]
        cancel(3,4) by simp
  next
    case (advance r h)
    have live: "o_status r \<noteq> StatusCancelled" using valid_from_live [OF advance(4)] .
    have "conserves d d'"
      by (rule moved_conserves [OF advance(6) inv_keys(1) [OF assms(2)] live])
         (use advance in \<open>simp_all add: advanced_row_def\<close>)
    then show ?thesis using advanced_inv [OF assms(2) advance(6,7,8,4,3,5)] by simp
  qed
next
  case (customer_cancel cu key ord)
  show ?thesis using customer_cancel inv_keys(1) [OF assms(2)]
  proof (cases rule: customer_cancel_effect)
    case (1 r h)
    have v: "validStatusTransition (o_status r) StatusCancelled" by (simp add: 1 validStatusTransition_def)
    show ?thesis
      using cancelled_inv [OF assms(2) 1(6) v] cancelled_conserves [OF 1(6) inv_keys(1) [OF assms(2)]] 1(4) by simp
  qed
next
  case (retry cu key prov z)
  then show ?thesis using retry_keeps assms(2) by blast
next
  case (store_url pid tx url u)
  then show ?thesis using store_keeps(1) [OF _ assms(2)] by force
next
  case (store_qr pid tx u)
  then show ?thesis using store_keeps(1) [OF _ assms(2)] by force
next
  case (fail_attempt pid oid u)
  then show ?thesis using fail_attempt_keeps assms(2) by blast
next
  case (abort pid oid u)
  then show ?thesis using abort_keeps assms(2) by blast
next
  case (callback prov ev raw res)
  then show ?thesis using callback_keeps assms(2) by blast
next
  case (expire oid ttl b)
  then show ?thesis using expire_effect cancel_unpaid_keeps assms(2) by fastforce
qed

lemma outside_consistent:
  assumes "outside d d'" "consistent d" shows "consistent d'"
proof -
  have "order_ok d' r = order_ok d r" for r
    using assms(1) by (simp add: order_ok_def payments_of_def history_of_def outside_def)
  then show ?thesis
    using assms by (simp add: consistent_def outside_def keys_ok_def links_ok_def)
qed

lemma empty_consistent: "empty_shop d \<Longrightarrow> consistent d"
  by (simp add: empty_shop_def consistent_def keys_ok_def links_ok_def)

lemma reachable_consistent_aux: "reachable env d \<Longrightarrow> consistent d"
  by (induction rule: reachable.induct) (auto dest: empty_consistent step_keeps outside_consistent)

section \<open>A waiting order stays payable\<close>

lemma advanced_payable:
  assumes "moved r (advanced_row r to (clock d)) h d d'" "distinct (map o_id (orders d))" "payable d"
    and "validStatusTransition (o_status r) to"
  shows "payable d'"
proof -
  have m: "r \<in> set (orders d)" "orders d' = set_row r (advanced_row r to (clock d)) d"
    using assms(1) unfolding moved_def by blast+
  have "to \<noteq> StatusPlaced" using assms(4) by (cases "o_status r = to"; cases "o_status r") (auto simp: validStatusTransition_def)
  then show ?thesis by (intro payable_set_row [OF assms(3) m(2) assms(2) m(1)]) (simp add: advanced_row_def)
qed

lemma place_payable:
  assumes y: "yields (place_tx env inp method after a p qty vids c k) d out d'" and dv: "distinct vids"
    and after: "\<And>ord d1 pid d2. yields (after ord) d1 pid d2 \<Longrightarrow> orders d2 = orders d1" and pa: "payable d"
  shows "payable d'"
  using y dv
proof (cases rule: place_tx_effect)
  case (placed d0 r q rows h d1 ord pid)
  have "payable d0" using placed(1) pa by (auto simp: payable_def release_key_def)
  moreover have "orders d' = orders d0 @ [r]" "o_payment_status r \<noteq> Some PaymentCancelled"
    using after [OF placed(4)] placed(3) unfolding placed_rows_def by (auto split: if_splits)
  ultimately show ?thesis by (auto simp: payable_def)
qed (use pa in simp)

lemma step_payable:
  assumes "step env d d'" and "consistent d" and "payable d"
  shows "payable d'"
  using assms(1)
proof (cases rule: step.cases)
  case (place_cash inp qty vids a p c k out)
  show ?thesis
    by (rule place_payable [OF place_cash(2) mergeItemQuantities_Inr(2) [OF place_cash(1)] _ assms(3)])
       (auto elim!: yields_return)
next
  case (place_online inp qty vids prov a p c k out)
  show ?thesis
    by (rule place_payable [OF place_online(2) mergeItemQuantities_Inr(2) [OF place_online(1)] _ assms(3)])
       (auto simp: online_after_def elim!: yields_stmt dest!: insert_payment_Inr(1))
next
  case (admin_update actor key to x)
  show ?thesis using admin_update inv_keys(1) [OF assms(2)]
  proof (cases rule: admin_update_effect)
    case (cancel r h)
    show ?thesis
      by (rule cancelled_payable [OF cancel(5) inv_keys(1) [OF assms(2)]]) (use assms(3) in \<open>auto simp: payable_def\<close>)
  next
    case (advance r h)
    show ?thesis by (rule advanced_payable [OF advance(6) inv_keys(1) [OF assms(2)] assms(3) advance(4)])
  qed
next
  case (customer_cancel cu key ord)
  show ?thesis using customer_cancel inv_keys(1) [OF assms(2)]
  proof (cases rule: customer_cancel_effect)
    case (1 r h)
    show ?thesis
      by (rule cancelled_payable [OF 1(6) inv_keys(1) [OF assms(2)]]) (use assms(3) in \<open>auto simp: payable_def\<close>)
  qed
next
  case (retry cu key prov z)
  show ?thesis using retry inv_keys(1) [OF assms(2)]
  proof (cases rule: retry_effect)
    case (1 r p)
    show ?thesis by (rule payable_change [OF assms(3) 1(6) inv_keys(1) [OF assms(2)] 1(1)]) simp
  qed
next
  case (store_url pid tx url u)
  show ?thesis using store_keeps(2) [OF store_url assms(2)] assms(3) by (simp add: payable_def)
next
  case (store_qr pid tx u)
  show ?thesis using store_keeps(2) [OF store_qr assms(2)] assms(3) by (simp add: payable_def)
next
  case (fail_attempt pid oid u)
  then show ?thesis using fail_attempt_keeps assms(2,3) by blast
next
  case (abort pid oid u)
  then show ?thesis using abort_keeps assms(2,3) by blast
next
  case (callback prov ev raw res)
  then show ?thesis using callback_keeps assms(2,3) by blast
next
  case (expire oid ttl b)
  from expire_effect [OF this] show ?thesis
  proof (elim disjE conjE)
    assume "yields (CancelUnpaidOrderTx env oid NotePaymentExpired) d b d'"
    then show ?thesis
      by (rule cancel_unpaid_payable [OF _ inv_keys(1) [OF assms(2)]]) (use assms(3) in \<open>auto simp: payable_def\<close>)
  qed (use assms(3) in simp)
qed

lemma outside_payable: "outside d d' \<Longrightarrow> payable d \<Longrightarrow> payable d'"
  by (simp add: outside_def payable_def)

lemma reachable_aux: "reachable env d \<Longrightarrow> consistent d \<and> payable d"
proof (induction rule: reachable.induct)
  case (start d)
  then show ?case by (simp add: empty_consistent) (simp add: empty_shop_def payable_def)
qed (auto dest: step_keeps step_payable outside_consistent outside_payable)

section \<open>Every run is made of steps\<close>

definition steps :: "env \<Rightarrow> db \<Rightarrow> db \<Rightarrow> bool" where
  "steps env = (step env)\<^sup>*\<^sup>*"

lemma steps_refl [simp]: "steps env d d" by (simp add: steps_def)

lemma steps_trans [trans]: "steps env a b \<Longrightarrow> steps env b c \<Longrightarrow> steps env a c"
  by (simp add: steps_def)

lemma steps_one: "step env a b \<Longrightarrow> steps env a b" by (simp add: steps_def)

lemma steps_keep: "steps env d d' \<Longrightarrow> consistent d \<Longrightarrow> consistent d' \<and> conserves d d' \<and> (payable d \<longrightarrow> payable d')"
  unfolding steps_def
proof (induction rule: rtranclp_induct)
  case (step y z)
  then show ?case using step_keeps step_payable conserves_trans by blast
qed simp

text \<open>\<open>only_steps env m\<close>: whatever a run of \<open>m\<close> returns, it moved the tables by steps.\<close>

definition only_steps :: "env \<Rightarrow> 'a go \<Rightarrow> bool" where
  "only_steps env m \<longleftrightarrow> (\<forall>w. steps env (tables w) (tables (snd (m w))))"

definition reads_only :: "'a go \<Rightarrow> bool" where
  "reads_only m \<longleftrightarrow> (\<forall>w. tables (snd (m w)) = tables w)"

named_theorems run_intro \<open>programs that read only, or move by steps\<close>

lemma reads_only_steps: "reads_only m \<Longrightarrow> only_steps env m"
  by (simp add: reads_only_def only_steps_def)

lemma reads_basic [run_intro]:
  "reads_only (returnG x)" "reads_only (failG e)" "reads_only (liftG r)" "reads_only (query f)" "reads_only (notify n)"
  by (simp_all add: reads_only_def returnG_def failG_def liftG_def notify_def tables_query)

lemma reads_bind [run_intro]: "reads_only m \<Longrightarrow> (\<And>x. reads_only (f x)) \<Longrightarrow> reads_only (bindG m f)"
  unfolding reads_only_def
proof
  fix w assume m: "\<forall>w. tables (snd (m w)) = tables w" and f: "\<And>x. \<forall>w. tables (snd (f x w)) = tables w"
  show "tables (snd (bindG m f w)) = tables w"
    using m [rule_format, of w] f by (cases "m w") (auto simp: bindG_def split: sum.splits)
qed

lemma steps_bind [run_intro]: "only_steps env m \<Longrightarrow> (\<And>x. only_steps env (f x)) \<Longrightarrow> only_steps env (bindG m f)"
  unfolding only_steps_def
proof
  fix w assume m: "\<forall>w. steps env (tables w) (tables (snd (m w)))"
    and f: "\<And>x. \<forall>w. steps env (tables w) (tables (snd (f x w)))"
  obtain r w' where mw: "m w = (r, w')" by fastforce
  have s: "steps env (tables w) (tables w')" using m [rule_format, of w] mw by simp
  show "steps env (tables w) (tables (snd (bindG m f w)))"
  proof (cases r)
    case (Inr x)
    have "steps env (tables w') (tables (snd (f x w')))" using f by blast
    then show ?thesis using steps_trans [OF s] Inr by (simp add: bindG_def mw)
  qed (simp add: bindG_def mw s)
qed

lemma steps_attempt [run_intro]: "only_steps env m \<Longrightarrow> only_steps env (attempt m)"
  unfolding only_steps_def attempt_def by (simp add: split_beta)

lemma reads_attempt [run_intro]: "reads_only m \<Longrightarrow> reads_only (attempt m)"
  unfolding reads_only_def attempt_def by (simp add: split_beta)

lemma steps_withTx:
  assumes "\<And>d x d'. yields fn d x d' \<Longrightarrow> steps env d d'"
  shows "only_steps env (withTx fn)"
  unfolding only_steps_def
proof
  fix w
  show "steps env (tables w) (tables (snd (withTx fn w)))"
  proof (cases "withTx fn w")
    case (Pair r w')
    show ?thesis
    proof (cases r)
      case (Inl e)
      then have "tables w' = tables w" using withTx_error Pair by simp
      then show ?thesis using Pair by simp
    next
      case (Inr x)
      then have y: "yields (withTx fn) (tables w) x (tables w')" using yieldsI [of "withTx fn" w x w'] Pair by simp
      have "yields fn (tables w) x (tables w')" by (rule yields_withTx [OF y])
      then show ?thesis using assms Pair by simp
    qed
  qed
qed

lemma steps_stmt:
  assumes "\<And>d x d'. g d = Inr (x, d') \<Longrightarrow> steps env d d'"
  shows "only_steps env (stmt g)"
  unfolding only_steps_def
proof
  fix w
  show "steps env (tables w) (tables (snd (stmt g w)))"
  proof (cases "stmt g w")
    case (Pair r w')
    show ?thesis
    proof (cases r)
      case (Inl e)
      then have "tables w' = tables w"
        using Pair by (auto simp: stmt_def run_stmt_def split: list.splits if_splits sum.splits)
      then show ?thesis using Pair by simp
    next
      case (Inr x)
      then show ?thesis using assms stmt_Inr [of g w x w'] Pair by simp
    qed
  qed
qed

section \<open>The service operations\<close>

lemma steps_yields:
  assumes "\<And>w e w'. m w = (Inl e, w') \<Longrightarrow> tables w' = tables w"
    and "\<And>d x d'. yields m d x d' \<Longrightarrow> steps env d d'"
  shows "only_steps env m"
  unfolding only_steps_def
proof
  fix w
  obtain r w' where m: "m w = (r, w')" by fastforce
  show "steps env (tables w) (tables (snd (m w)))"
  proof (cases r)
    case (Inl e)
    then show ?thesis using assms(1) [of w e w'] m by simp
  next
    case (Inr x)
    then show ?thesis using assms(2) [of "tables w" x "tables w'"] yieldsI [of m w x w'] m by simp
  qed
qed

lemma steps_lift: "(\<And>x. r = Inr x \<Longrightarrow> only_steps env (f x)) \<Longrightarrow> only_steps env (bindG (liftG r) f)"
  by (cases r) (simp_all add: only_steps_def bindG_def liftG_def)

lemma reads_orders [run_intro]:
  "reads_only (attachItems os)" "reads_only (with_items ord)" "reads_only (select_order P)"
  "reads_only (GetOrder env cu k)" "reads_only (getOrderAnyCustomer env k)" "reads_only (NotifyOrderPaid env k)"
  "reads_only (enrich_then_notify ord n)" "reads_only (pendingPaymentURL k)"
  unfolding attachItems_def with_items_def select_order_def GetOrder_def getOrderAnyCustomer_def
    NotifyOrderPaid_def enrich_then_notify_def pendingPaymentURL_def
  by (auto intro!: run_intro split: option.split sum.split)

lemma place_only_steps:
  assumes after: "(method = PaymentCashOnDelivery \<and> after = (\<lambda>_. returnG [])) \<or>
                (method = PaymentOnlineCard \<and> after = online_after env prov)"
  shows "only_steps env (createOrder env inp method after)"
proof -
  let ?a = "blank_to_nil (in_AddressID inp)" and ?p = "blank_to_nil (in_PickupPointID inp)"
  have tx: "only_steps env (withTx (place_tx env inp method after ?a ?p qty vids c k))"
    if m: "mergeItemQuantities env (in_Items inp) = Inr (qty, vids)" for qty vids c k
  proof (rule steps_withTx)
    fix d out d' assume "yields (place_tx env inp method after ?a ?p qty vids c k) d out d'"
    then show "steps env d d'" using after step.place_cash [OF m] step.place_online [OF m] by (auto intro: steps_one)
  qed
  have run: "only_steps env (case out of
       Replayed oid \<Rightarrow> bindG (GetOrder env (in_CustomerID inp) oid) (\<lambda>existing. returnG (existing, [], False))
     | Placed order paymentID \<Rightarrow>
         bindG (if method = PaymentCashOnDelivery then notify (OrderCreated (ID order)) else returnG ())
           (\<lambda>_. returnG (order, paymentID, True)))" for out
    by (cases out) (auto intro!: reads_only_steps run_intro)
  show ?thesis
    unfolding createOrder_def Let_def
    by (intro steps_lift, simp only: split_paired_all prod.case, intro steps_lift steps_bind tx run)
qed

lemma CreateOnline_after: "CreateOnlineOrder env inp prov = createOrder env inp PaymentOnlineCard (online_after env prov)"
  by (simp add: CreateOnlineOrder_def online_after_def [abs_def])

lemma AdminUpdateStatus_steps [run_intro]: "only_steps env (AdminUpdateStatus env ctx k to)"
proof -
  have "only_steps env (withTx (admin_update_tx env actor k to))" for actor
    by (rule steps_withTx) (rule steps_one, rule step.admin_update)
  then show ?thesis
    unfolding AdminUpdateStatus_def
    by (auto intro!: run_intro reads_only_steps [OF reads_basic(2)] reads_only_steps [OF reads_orders(7)]
        split: option.split prod.split)
qed

lemma CancelByCustomer_steps [run_intro]: "only_steps env (CancelByCustomer env cu k)"
  unfolding CancelByCustomer_def
  by (intro steps_bind steps_withTx reads_only_steps [OF reads_orders(7)]) (rule steps_one, rule step.customer_cancel)

lemma PrepareRetry_steps [run_intro]: "only_steps env (PrepareRetryPayment env cu k prov)"
  unfolding PrepareRetryPayment_def by (rule steps_withTx) (rule steps_one, rule step.retry)

lemma HandleCallback_steps [run_intro]: "only_steps env (HandleCallback env s prov hdr body)"
proof -
  have tx: "only_steps env (withTx (callback_tx env prov ev raw))" for ev raw
    by (rule steps_withTx) (rule steps_one, rule step.callback)
  have told: "only_steps env (if c then bindG (attempt (NotifyOrderPaid env k)) (\<lambda>_. returnG ()) else returnG ())" for c k
    by (cases c) (auto intro!: reads_only_steps run_intro)
  show ?thesis
  proof (cases "prov \<noteq> prov_Name (s_provider s)")
    case True
    then show ?thesis by (simp add: HandleCallback_def reads_only_steps reads_basic)
  next
    case False
    then show ?thesis
      unfolding HandleCallback_def Let_def
      by (simp only: if_False) (intro steps_lift steps_bind tx told reads_only_steps [OF reads_basic(1)])
  qed
qed

lemma expire_all_steps: "only_steps env (expire_all env ttl ids n)"
proof (induction ids arbitrary: n)
  case (Cons oid ids)
  have "only_steps env (expireOne env oid ttl)"
    unfolding expireOne_def by (rule steps_withTx) (rule steps_one, rule step.expire)
  then show ?case using Cons by (auto intro!: steps_bind steps_attempt)
qed (simp add: reads_only_steps reads_basic)

lemma ExpirePending_steps [run_intro]: "only_steps env (ExpirePending env ttl)"
  unfolding ExpirePending_def by (intro steps_bind expire_all_steps reads_only_steps [OF reads_basic(4)])

text \<open>The compensations of a session that did not open act on the payment just made.\<close>

lemma insert_payment_belongs: "insert_payment env oid prov amount d = Inr (pid, d') \<Longrightarrow> belongs d' pid oid"
  using insert_payment_Inr [of env oid prov amount d pid d'] by (auto simp: belongs_def)

lemma retry_belongs:
  assumes "yields (retry_tx env cu k prov) d x d'" "distinct (map o_id (orders d))"
  shows "belongs d' (snd x) (ID (fst x))"
  using assms
proof (cases rule: retry_effect)
  case (1 r p)
  have "payments d' = closed_pending d (o_id r) @ [p]" using 1(6) by (auto simp: pay_change_def)
  moreover have "\<forall>q \<in> set (closed_pending d (o_id r)). p_id q \<noteq> snd x"
    using 1(7,8) closed_ids [of d "o_id r"] by (metis image_eqI)
  ultimately show ?thesis using 1 by (auto simp: belongs_def)
qed

lemma store_url_steps: "only_steps env (store_session pid tx (\<lambda>r. r\<lparr>p_redirect_url := url\<rparr>))"
  and store_qr_steps: "only_steps env (store_session pid tx (\<lambda>r. r))"
proof -
  have err: "tables w' = tables w" if "store_session pid tx f w = (Inl e, w')" for f w e w'
    using that unfolding store_session_def
    by (auto simp: bindG_def returnG_def stmt_def run_stmt_def split: prod.splits sum.splits list.splits if_splits)
  show "only_steps env (store_session pid tx (\<lambda>r. r\<lparr>p_redirect_url := url\<rparr>))"
    by (rule steps_yields [OF err]) (auto intro: steps_one step.store_url)
  show "only_steps env (store_session pid tx (\<lambda>r. r))"
    by (rule steps_yields [OF err]) (auto intro: steps_one step.store_qr)
qed

lemma openSession_steps: "only_steps env (openSession s ord pid)"
  unfolding openSession_def by (intro steps_lift steps_bind store_url_steps reads_only_steps [OF reads_basic(1)])

lemma store_belongs:
  assumes "\<And>p. p_id (f p) = p_id p" "\<And>p. p_order_id (f p) = p_order_id p"
  shows "belongs (tables (snd (store_session pid tx f w))) x oid = belongs (tables w) x oid"
proof -
  have *: "belongs (d\<lparr>payments := map (\<lambda>p. if p_id p = pid then (f p)\<lparr>p_provider_tx_id := Some tx, p_updated_at := clock d\<rparr> else p)
       (payments d)\<rparr>) x oid = belongs d x oid" for d
  proof -
    have "(\<forall>p \<in> set (map (\<lambda>p. if p_id p = pid then (f p)\<lparr>p_provider_tx_id := Some tx, p_updated_at := c\<rparr> else p) ps).
         p_id p = x \<longrightarrow> p_order_id p = oid) = (\<forall>p \<in> set ps. p_id p = x \<longrightarrow> p_order_id p = oid)" for ps c
      by (induction ps) (simp_all add: assms)
    then show ?thesis by (simp add: belongs_def del: set_map)
  qed
  show ?thesis
    unfolding store_session_def bindG_def stmt_def run_stmt_def set_provider_tx_def
    using * by (auto simp: update_payments_def returnG_def split: list.split)
qed

lemma openSession_belongs:
  "belongs (tables (snd (openSession s ord pid w))) x oid = belongs (tables w) x oid"
proof -
  have "belongs (tables (snd (bindG (store_session pid tx (\<lambda>r. r\<lparr>p_redirect_url := url\<rparr>)) (\<lambda>_. returnG y) w))) x oid =
      belongs (tables w) x oid" for tx url and y :: string
    using store_belongs [of "\<lambda>r. r\<lparr>p_redirect_url := url\<rparr>" pid tx w x oid]
    by (auto simp: bindG_def returnG_def split: prod.splits sum.splits)
  then show ?thesis
    unfolding openSession_def by (auto simp: bindG_def [of "liftG _"] liftG_def split: sum.split)
qed

section \<open>Operations that open a session\<close>

text \<open>
  \<open>guarded env P m Q\<close>: from tables with \<open>P\<close>, \<open>m\<close> moves by steps only, and when it returns a value
  \<open>x\<close> the tables have \<open>Q x\<close>.
\<close>

definition guarded :: "env \<Rightarrow> (db \<Rightarrow> bool) \<Rightarrow> 'a go \<Rightarrow> ('a \<Rightarrow> db \<Rightarrow> bool) \<Rightarrow> bool" where
  "guarded env P m Q \<longleftrightarrow>
     (\<forall>w. P (tables w) \<longrightarrow> steps env (tables w) (tables (snd (m w))) \<and>
        (\<forall>x. fst (m w) = Inr x \<longrightarrow> Q x (tables (snd (m w)))))"

lemma guarded_bind:
  assumes "guarded env P m R" "\<And>x. guarded env (R x) (f x) Q"
  shows "guarded env P (bindG m f) Q"
  unfolding guarded_def
proof (intro allI impI)
  fix w :: world assume P: "P (tables w)"
  obtain r w' where mw: "m w = (r, w')" by fastforce
  have s: "steps env (tables w) (tables w')" using assms(1) P mw by (force simp: guarded_def)
  show "steps env (tables w) (tables (snd (bindG m f w))) \<and>
      (\<forall>x. fst (bindG m f w) = Inr x \<longrightarrow> Q x (tables (snd (bindG m f w))))"
  proof (cases r)
    case (Inr x)
    have "R x (tables w')" using assms(1) P mw Inr by (force simp: guarded_def)
    then show ?thesis using assms(2) [of x] steps_trans [OF s] mw Inr by (auto simp: guarded_def bindG_def)
  qed (simp add: bindG_def mw s)
qed

lemma guardedI:
  assumes "only_steps env m" "\<And>d x d'. P d \<Longrightarrow> yields m d x d' \<Longrightarrow> Q x d'"
  shows "guarded env P m Q"
  unfolding guarded_def
proof (intro allI impI conjI)
  fix w :: world assume P: "P (tables w)"
  show "steps env (tables w) (tables (snd (m w)))" using assms(1) by (simp add: only_steps_def)
  show "Q x (tables (snd (m w)))" if "fst (m w) = Inr x" for x
    using assms(2) [OF P yieldsI [of m w x "snd (m w)"]] that by (metis prod.collapse)
qed

lemma guarded_steps: "only_steps env m \<Longrightarrow> guarded env P m (\<lambda>_ _. True)"
  by (simp add: guarded_def only_steps_def)

lemma guarded_cases: "(c \<Longrightarrow> guarded env P m Q) \<Longrightarrow> (\<not> c \<Longrightarrow> guarded env P n Q) \<Longrightarrow> guarded env P (if c then m else n) Q"
  by simp

lemma guarded_false: "guarded env (\<lambda>_. False) m Q"
  by (simp add: guarded_def)

lemma guarded_pre: "guarded env P m Q \<Longrightarrow> (\<And>d. P' d \<Longrightarrow> P d) \<Longrightarrow> guarded env P' m Q"
  by (simp add: guarded_def)

lemma guarded_withTx:
  assumes "\<And>d x d'. P d \<Longrightarrow> yields fn d x d' \<Longrightarrow> steps env d d'"
  shows "guarded env P (attempt (withTx fn)) (\<lambda>_ _. True)"
  unfolding guarded_def
proof (intro allI impI conjI TrueI)
  fix w :: world assume P: "P (tables w)"
  have "steps env (tables w) (tables (snd (withTx fn w)))"
  proof (cases "withTx fn w")
    case (Pair r w')
    show ?thesis
    proof (cases r)
      case (Inl e)
      then have "tables w' = tables w" using withTx_error Pair by simp
      then show ?thesis using Pair by simp
    next
      case (Inr x)
      then have "yields (withTx fn) (tables w) x (tables w')" using yieldsI [of "withTx fn" w x w'] Pair by simp
      then have "yields fn (tables w) x (tables w')" by (rule yields_withTx)
      then show ?thesis using assms P Pair by simp
    qed
  qed
  then show "steps env (tables w) (tables (snd (attempt (withTx fn) w)))" by (simp add: attempt_def split_beta)
qed

lemma guarded_open:
  "guarded env (\<lambda>d. belongs d pid oid) (attempt (openSession s ord pid)) (\<lambda>_ d. belongs d pid oid)"
proof -
  have "snd (attempt (openSession s ord pid) w) = snd (openSession s ord pid w)" for w
    by (simp add: attempt_def split_beta)
  then show ?thesis
    using openSession_steps [of env s ord pid] openSession_belongs [of s ord pid]
    by (simp add: guarded_def only_steps_def)
qed

lemma fail_attempt_guarded: "guarded env (\<lambda>d. belongs d pid oid) (attempt (failAttempt pid oid)) (\<lambda>_ _. True)"
  unfolding failAttempt_def by (rule guarded_withTx) (rule steps_one, rule step.fail_attempt)

lemma abort_guarded: "guarded env (\<lambda>d. belongs d pid oid) (attempt (abort env pid oid)) (\<lambda>_ _. True)"
  unfolding abort_def by (rule guarded_withTx) (rule steps_one, rule step.abort)

lemma PrepareRetry_guarded:
  "guarded env consistent (PrepareRetryPayment env cu k prov) (\<lambda>x d. belongs d (snd x) (ID (fst x)))"
proof (rule guardedI [OF PrepareRetry_steps])
  fix d x d' assume i: "consistent d" and y: "yields (PrepareRetryPayment env cu k prov) d x d'"
  have "yields (retry_tx env cu k prov) d x d'" using y unfolding PrepareRetryPayment_def by (rule yields_withTx)
  then show "belongs d' (snd x) (ID (fst x))" using inv_keys(1) [OF i] by (rule retry_belongs)
qed

lemma CreateOnline_guarded:
  "guarded env consistent (CreateOnlineOrder env inp prov)
     (\<lambda>(ord, pid, created) d. created \<longrightarrow> belongs d pid (ID ord))"
  unfolding CreateOnline_after
proof (rule guardedI [OF place_only_steps])
  fix d x d' assume i: "consistent d"
    and y: "yields (createOrder env inp PaymentOnlineCard (online_after env prov)) d x d'"
  obtain ord pid created where x: "x = (ord, pid, created)" by (cases x)
  have "created \<longrightarrow> belongs d' pid (ID ord)"
    using y unfolding x
  proof (cases rule: createOrder_effect)
    case (placed qty vids d0 d1 r p rows h)
    then show ?thesis unfolding online_after_def by (auto elim!: yields_stmt dest: insert_payment_belongs)
  qed simp
  then show "(case x of (ord, pid, created) \<Rightarrow> \<lambda>d. created \<longrightarrow> belongs d pid (ID ord)) d'" by (simp add: x)
qed simp

lemma guarded_lift: "(\<And>x. r = Inr x \<Longrightarrow> guarded env P (f x) Q) \<Longrightarrow> guarded env P (bindG (liftG r) f) Q"
  by (cases r) (simp_all add: guarded_def bindG_def liftG_def)

lemma failing_guarded: "guarded env P (bindG m (\<lambda>_. failG e)) Q" if "guarded env P m (\<lambda>_ _. True)"
  by (rule guarded_bind [OF that]) (simp add: guarded_def failG_def)

lemma returning_guarded: "guarded env P (returnG x) (\<lambda>_ _. True)"
  by (simp add: guarded_def returnG_def)

lemma PlaceOnline_guarded: "guarded env consistent (PlaceOnlineOrder env s inp) (\<lambda>_ _. True)"
proof -
  have rest: "guarded env (\<lambda>d. created \<longrightarrow> belongs d pid (ID ord))
      (if \<not> created then bindG (pendingPaymentURL (ID ord)) (\<lambda>url. returnG (ord, url, False))
       else bindG (attempt (openSession s ord pid)) (\<lambda>r.
         case r of Inr url \<Rightarrow> returnG (ord, url, True)
         | Inl err \<Rightarrow> bindG (attempt (abort env pid (ID ord))) (\<lambda>_. failG (sessionError err)))) (\<lambda>_ _. True)"
    for ord pid created
  proof (rule guarded_cases)
    show "guarded env (\<lambda>d. created \<longrightarrow> belongs d pid (ID ord))
        (bindG (pendingPaymentURL (ID ord)) (\<lambda>url. returnG (ord, url, False))) (\<lambda>_ _. True)"
      by (intro guarded_steps reads_only_steps) (auto intro!: run_intro)
  next
    assume "\<not> \<not> created"
    show "guarded env (\<lambda>d. created \<longrightarrow> belongs d pid (ID ord))
        (bindG (attempt (openSession s ord pid)) (\<lambda>r.
         case r of Inr url \<Rightarrow> returnG (ord, url, True)
         | Inl err \<Rightarrow> bindG (attempt (abort env pid (ID ord))) (\<lambda>_. failG (sessionError err)))) (\<lambda>_ _. True)"
    proof (rule guarded_bind [OF guarded_pre [OF guarded_open [of env pid "ID ord"]]])
      fix r :: "go_error + string"
      show "guarded env (\<lambda>d. belongs d pid (ID ord)) (case r of Inr url \<Rightarrow> returnG (ord, url, True)
         | Inl err \<Rightarrow> bindG (attempt (abort env pid (ID ord))) (\<lambda>_. failG (sessionError err))) (\<lambda>_ _. True)"
        by (cases r) (simp_all add: returning_guarded failing_guarded abort_guarded)
    qed (use \<open>\<not> \<not> created\<close> in simp)
  qed
  show ?thesis
    unfolding PlaceOnlineOrder_def
    by (rule guarded_lift, rule guarded_bind [OF CreateOnline_guarded])
       (use rest in \<open>simp only: split_paired_all prod.case\<close>)
qed

lemma RetryPayment_guarded: "guarded env consistent (RetryPayment env s cu k) (\<lambda>_ _. True)"
proof -
  have after: "guarded env (\<lambda>d. belongs d pid (ID ord)) (case r of Inr url \<Rightarrow> returnG url
       | Inl err \<Rightarrow> bindG (attempt (failAttempt pid (ID ord))) (\<lambda>_. failG (sessionError err))) (\<lambda>_ _. True)"
    for r and ord :: Order and pid
    by (cases r) (simp_all add: returning_guarded failing_guarded fail_attempt_guarded)
  show ?thesis
    unfolding RetryPayment_def
    by (rule guarded_lift, rule guarded_bind [OF PrepareRetry_guarded], simp only: split_beta,
        rule guarded_bind [OF guarded_open after])
qed

lemma GetPaymentQR_guarded: "guarded env consistent (GetPaymentQR env s cu k) (\<lambda>_ _. True)"
proof -
  have after: "guarded env (\<lambda>d. belongs d pid (ID ord))
      (case prov_GenerateQR (s_provider s) (TotalAmount ord) pid of
         Inl err \<Rightarrow> bindG (attempt (failAttempt pid (ID ord))) (\<lambda>_. failG (sessionError err))
       | Inr qr \<Rightarrow> bindG (store_session pid pid (\<lambda>r. r)) (\<lambda>_. returnG qr)) (\<lambda>_ _. True)"
    for ord :: Order and pid
  proof (cases "prov_GenerateQR (s_provider s) (TotalAmount ord) pid")
    case (Inr qr)
    have "only_steps env (bindG (store_session pid pid (\<lambda>r. r)) (\<lambda>_. returnG qr))"
      by (intro steps_bind store_qr_steps reads_only_steps reads_basic)
    then show ?thesis using Inr by (simp add: guarded_steps)
  qed (simp add: failing_guarded fail_attempt_guarded)
  show ?thesis
  proof (cases "QRAvailable s")
    case True
    show ?thesis
      unfolding GetPaymentQR_def
      by (simp only: True simp_thms if_False, rule guarded_lift,
          rule guarded_bind [OF PrepareRetry_guarded], simp only: split_beta, rule after)
  next
    case False
    then show ?thesis by (simp add: GetPaymentQR_def guarded_steps reads_only_steps reads_basic)
  qed
qed

text \<open>The entry points of the two packages, as one family of operations.\<close>

datatype entry =
    EPlace PlaceOrderInput | EPlaceOnline PlaceOrderInput | ERetry string string | EQR string string
  | ECancel string string | EAdmin "Staff option" string OrderStatus
  | ECallback string header string | EExpire int

definition void :: "'a go \<Rightarrow> unit go" where
  "void m = bindG m (\<lambda>_. returnG ())"

fun serve :: "env \<Rightarrow> service \<Rightarrow> entry \<Rightarrow> unit go" where
  "serve env s (EPlace inp) = void (PlaceOrder env inp)"
| "serve env s (EPlaceOnline inp) = void (PlaceOnlineOrder env s inp)"
| "serve env s (ERetry cu k) = void (RetryPayment env s cu k)"
| "serve env s (EQR cu k) = void (GetPaymentQR env s cu k)"
| "serve env s (ECancel cu k) = void (CancelByCustomer env cu k)"
| "serve env s (EAdmin st k to) = void (AdminUpdateStatus env st k to)"
| "serve env s (ECallback prov hdr body) = void (HandleCallback env s prov hdr body)"
| "serve env s (EExpire ttl) = void (ExpirePending env ttl)"

lemma PlaceOrder_steps: "only_steps env (PlaceOrder env inp)"
proof -
  have "only_steps env (createOrder env inp PaymentCashOnDelivery (\<lambda>_. returnG []))"
    by (rule place_only_steps) simp
  then show ?thesis
    unfolding PlaceOrder_def
    by (intro steps_bind) (simp_all add: split_paired_all reads_only_steps reads_basic)
qed

lemma void_guarded: "guarded env P m (\<lambda>_ _. True) \<Longrightarrow> guarded env P (void m) (\<lambda>_ _. True)"
  unfolding void_def by (erule guarded_bind) (rule returning_guarded)

lemma serve_guarded: "guarded env consistent (serve env s e) (\<lambda>_ _. True)"
  by (cases e)
     (simp_all add: void_guarded PlaceOnline_guarded RetryPayment_guarded GetPaymentQR_guarded
        guarded_steps PlaceOrder_steps CancelByCustomer_steps AdminUpdateStatus_steps
        HandleCallback_steps ExpirePending_steps)

end
