(* ===== verification/Notices.thy ===== *)
theory Notices
  imports Shop
begin

text \<open>
  Runs of the services taken apart, and who is told what (\<^verbatim>\<open>internal/orders/notifier.go\<close>): a transaction tells
  nobody (\<open>quiet\<close>); the notification of a committed status change goes out whether or not the items
  of the order can be loaded afterwards (\<open>enrich_run\<close>).
\<close>

section \<open>Failing runs\<close>

lemma reads_only_snd: "reads_only m \<Longrightarrow> m w = (r, w') \<Longrightarrow> tables w' = tables w"
  unfolding reads_only_def by (metis snd_conv)

lemma withTx_Inr_yields: "withTx fn w = (Inr x, w') \<Longrightarrow> yields fn (tables w) x (tables w')"
  by (rule yields_withTx [OF yieldsI])

lemma returned_stock:
  assumes "cancelled r h d d'"
  shows "\<exists>p. o_point_id r = Some p \<and>
    (\<forall>v q. stock_qty d' v q = stock_qty d v q + (if q = p then units d (o_id r) v else 0))"
proof -
  obtain p vs where c: "o_point_id r = Some p" "stock d' = returned d p (units d (o_id r)) vs"
      "set vs = i_variant_id ` {i \<in> set (order_items d). i_order_id i = o_id r}"
    using assms unfolding cancelled_def by blast
  have "stock_qty d' v q = stock_qty d v q + (if q = p then units d (o_id r) v else 0)" for v q
    using stock_qty_returned [OF refl c(3), of p v q] c(2) by (simp add: stock_qty_def)
  then show ?thesis using c(1) by blast
qed

lemma moved_in: "moved r r' h d d' \<Longrightarrow> r' \<in> set (orders d')"
  unfolding moved_def set_row_def by force

lemma bind_Inl:
  assumes "bindG m f w = (Inl e, w')"
  obtains "m w = (Inl e, w')" | x w1 where "m w = (Inr x, w1)" "f x w1 = (Inl e, w')"
  using assms by (cases "m w") (auto simp: bindG_def split: sum.splits)

lemma lift_Inl: "bindG (liftG r) f w = (Inl e, w') \<Longrightarrow>
   (r = Inl e \<Longrightarrow> w' = w \<Longrightarrow> P) \<Longrightarrow> (\<And>x. r = Inr x \<Longrightarrow> f x w = (Inl e, w') \<Longrightarrow> P) \<Longrightarrow> P"
  by (cases r) (auto simp: bindG_def liftG_def)

lemma lift_Inl2: "bindG (liftG r) (\<lambda>(a, b). g a b) w = (Inl e, w') \<Longrightarrow>
   (r = Inl e \<Longrightarrow> w' = w \<Longrightarrow> P) \<Longrightarrow> (\<And>a b. r = Inr (a, b) \<Longrightarrow> g a b w = (Inl e, w') \<Longrightarrow> P) \<Longrightarrow> P"
  by (cases r) (auto simp: bindG_def liftG_def)

section \<open>Who is told\<close>

text \<open>A program that tells nobody: every transaction is one.\<close>

definition quiet :: "'a go \<Rightarrow> bool" where
  "quiet m \<longleftrightarrow> (\<forall>w. notices (snd (m w)) = notices w)"

named_theorems quiet_intro \<open>programs that tell nobody\<close>

lemma notices_run_stmt: "notices (snd (run_stmt g w)) = notices w"
  by (auto simp: run_stmt_def split: sum.splits prod.splits)

lemma notices_stmt: "notices (snd (stmt g w)) = notices w"
proof (cases "faults w")
  case (Cons a fs)
  then show ?thesis using notices_run_stmt [of g "w\<lparr>faults := fs\<rparr>"] by (simp add: stmt_def)
qed (simp add: stmt_def notices_run_stmt)

lemma quiet_stmt [quiet_intro]: "quiet (stmt g)"
  by (simp add: quiet_def notices_stmt)

lemma quiet_basic [quiet_intro]:
  "quiet (returnG x)" "quiet (failG e)" "quiet (liftG r)" "quiet (query f)" "quiet (exec k)"
  by (simp_all add: quiet_def returnG_def failG_def liftG_def query_def exec_def notices_stmt)

lemma quiet_bind [quiet_intro]: "quiet m \<Longrightarrow> (\<And>x. quiet (f x)) \<Longrightarrow> quiet (bindG m f)"
  unfolding quiet_def
proof
  fix w assume m: "\<forall>w. notices (snd (m w)) = notices w" and f: "\<And>x. \<forall>w. notices (snd (f x w)) = notices w"
  show "notices (snd (bindG m f w)) = notices w"
    using m [rule_format, of w] f by (cases "m w") (auto simp: bindG_def split: sum.splits)
qed

lemma quiet_if [quiet_intro]: "quiet m \<Longrightarrow> quiet n \<Longrightarrow> quiet (if c then m else n)"
  by simp

lemma quiet_attempt [quiet_intro]: "quiet m \<Longrightarrow> quiet (attempt m)"
  by (simp add: quiet_def attempt_def split_beta)

lemma quiet_withTx [quiet_intro]:
  assumes "quiet fn" shows "quiet (withTx fn)"
  unfolding quiet_def
proof
  fix w :: world
  have b: "notices (snd (begin_tx v)) = notices v" "notices (snd (commit_tx v)) = notices v" for v
    by (simp_all add: begin_tx_def commit_tx_def query_def notices_stmt)
  have f: "notices (snd (fn v)) = notices v" for v using assms by (simp add: quiet_def)
  show "notices (snd (withTx fn w)) = notices w"
  proof (cases "begin_tx w")
    case (Pair r w1)
    have w1: "notices w1 = notices w" using b(1) [of w] Pair by simp
    obtain s w2 where fw: "fn w1 = (s, w2)" by fastforce
    have w2: "notices w2 = notices w" using f [of w1] fw w1 by simp
    obtain t w3 where cw: "commit_tx w2 = (t, w3)" by fastforce
    have "notices w3 = notices w" using b(2) [of w2] cw w2 by simp
    then show ?thesis using Pair fw cw w1 w2 by (simp add: withTx_def split: sum.split)
  qed
qed

lemma quiet_forG [quiet_intro]: "(\<And>x. quiet (f x)) \<Longrightarrow> quiet (forG f xs)"
  by (induction xs) (auto intro: quiet_intro)

lemma quiet_cancel [quiet_intro]: "quiet (cancelLockedTx env ord actor nt)"
  unfolding cancelLockedTx_def restockOrderTx_def update_order_returning_def recordStatusTx_def
  by (auto intro!: quiet_intro split: option.split prod.split PaymentStatus.split)

lemma quiet_lock [quiet_intro]: "quiet (lockOrderTx P)"
  unfolding lockOrderTx_def select_order_def by (auto intro!: quiet_intro split: option.split)

lemma quiet_admin [quiet_intro]: "quiet (admin_update_tx env actor k to)"
  unfolding admin_update_tx_def transitionLockedTx_def update_order_returning_def recordStatusTx_def
  by (auto intro!: quiet_intro)

lemma quiet_customer [quiet_intro]: "quiet (customer_cancel_tx env cu k)"
  unfolding customer_cancel_tx_def by (auto intro!: quiet_intro)

lemma quiet_snd: "quiet m \<Longrightarrow> m w = (r, w') \<Longrightarrow> notices w' = notices w"
  unfolding quiet_def by (metis snd_conv)

lemma enrich_run:
  assumes "enrich_then_notify ord n w = (r, w')"
  shows "tables w' = tables w" "notices w' = notices w @ [n]"
    and "r = Inr x \<Longrightarrow> ID x = ID ord \<and> Status x = Status ord"
proof -
  show "tables w' = tables w" using assms reads_only_snd reads_orders(7) by blast
  obtain q w1 where a: "attempt (attachItems [ord]) w = (q, w1)" by fastforce
  have q: "quiet (attempt (attachItems [ord]))"
    unfolding attachItems_def by (auto intro!: quiet_intro)
  have "notices w1 = notices w" using quiet_snd [OF q a] .
  then show "notices w' = notices w @ [n]"
    using assms a by (auto simp: enrich_then_notify_def bindG_def notify_def failG_def returnG_def attempt_def
        split: prod.splits sum.splits)
  assume r: "r = Inr x"
  show "ID x = ID ord \<and> Status x = Status ord"
  proof (cases q)
    case (Inl e)
    then show ?thesis using assms a r by (simp add: enrich_then_notify_def bindG_def attempt_def split: prod.splits)
  next
    case (Inr z)
    show ?thesis
    proof (cases z)
      case (Inl e)
      then show ?thesis using assms a r Inr by (simp add: enrich_then_notify_def bindG_def notify_def failG_def)
    next
      case (Inr os)
      then have "x = hd os" using assms a r \<open>q = Inr z\<close>
        by (simp add: enrich_then_notify_def bindG_def notify_def returnG_def)
      moreover have "attachItems [ord] w = (Inr os, w1)"
        using a \<open>q = Inr z\<close> Inr by (simp add: attempt_def split: prod.splits)
      then have "yields (attachItems [ord]) (tables w) os (tables w1)" by (rule yieldsI)
      ultimately show ?thesis by (auto simp: attachItems_def elim!: yields_query)
    qed
  qed
qed

end
