(* ===== verification/Demo.thy ===== *)
theory Demo
  imports Invariant
begin

text \<open>
  A small shop on which the properties are applied: one customer with one address, two products,
  two points with stock, one delivery zone. Identifiers are short texts; \<open>demo_env\<close> accepts as a
  UUID every text that starts with a hash sign and draws the fresh ones from the row counter.
\<close>

definition demo_uuid :: "string \<Rightarrow> bool" where
  "demo_uuid s = (case s of [] \<Rightarrow> False | c # _ \<Rightarrow> c = CHR ''#'')"

definition demo_env :: env where
  "demo_env = \<lparr>uuid_validate = demo_uuid, gen_uuid = (\<lambda>n. CHR ''#'' # decimal (int n)),
               collation_key = (\<lambda>s. s), settings = DefaultSettings\<rparr>"

definition demo_stock :: "string \<times> string \<Rightarrow> int option" where
  "demo_stock k = (if k = (''#v1'', ''#p1'') then Some 1 else if k = (''#v1'', ''#p2'') then Some 5
                   else if k = (''#v2'', ''#p2'') then Some 3 else None)"

definition demo_point :: "string \<Rightarrow> point_row" where
  "demo_point pid = \<lparr>pt_id = pid, pt_is_active = True, pt_created_at = 0, pt_name = ''Shop'', pt_city = ''Bishkek'',
     pt_address = ''Chui 1'', pt_working_hours = [], pt_latitude = None, pt_longitude = None\<rparr>"

lemma demo_point_fields [simp]: "pt_id (demo_point pid) = pid" "pt_is_active (demo_point pid)"
  by (simp_all add: demo_point_def)

definition demo_db :: db where
  "demo_db = \<lparr>
     variants = [\<lparr>pv_id = ''#v1'', pv_product_id = ''#a'', pv_size = ''38'', pv_color = ''red'', pv_price_override = None, pv_sku = Some ''S1''\<rparr>,
                 \<lparr>pv_id = ''#v2'', pv_product_id = ''#b'', pv_size = [], pv_color = [], pv_price_override = Some 100000, pv_sku = None\<rparr>],
     products = [\<lparr>pr_id = ''#a'', pr_name_ru = ''Boots'', pr_name_ky = ''Otuk'', pr_base_price = 250000, pr_is_active = True, pr_category_id = ''#cat'', pr_brand = None, pr_description_ru = None,
                  pr_description_ky = None, pr_model_code = Some ''M1'', pr_created_at = 0, pr_updated_at = 0\<rparr>,
                 \<lparr>pr_id = ''#b'', pr_name_ru = ''Socks'', pr_name_ky = ''Baipak'', pr_base_price = 10000, pr_is_active = True, pr_category_id = ''#cat'', pr_brand = None, pr_description_ru = None,
                  pr_description_ky = None, pr_model_code = None, pr_created_at = 0, pr_updated_at = 0\<rparr>],
     points = [demo_point ''#p1'', demo_point ''#p2''],
     zones = [\<lparr>z_id = ''#z'', z_name_ru = ''Centre'', z_name_ky = ''Borbor'', z_fee = 15000,
               z_free_from = Some 1000000, z_is_active = True, z_sort_order = 1\<rparr>],
     addresses = [\<lparr>a_id = ''#home'', a_customer_id = ''#c'', a_label = None, a_text = ''Chui 1'',
       a_lat = None, a_lng = None, a_is_default = True, a_created_at = 0\<rparr>],
     stock = demo_stock,
     cart_items = [\<lparr>c_customer_id = ''#c'', c_variant_id = ''#v1'', c_qty = 2, c_created_at = 0\<rparr>],
     orders = [], order_items = [], order_status_history = [], payments = [],
     customers = [\<lparr>cu_id = ''#c'', cu_phone = ''+996700123456'', cu_name = Some ''Aida'', cu_lang = ''ru'',
                   cu_promo_push = False, cu_promo_push_asked_at = None, cu_created_at = 0,
                   cu_updated_at = 0, cu_deleted_at = None\<rparr>],
     favorites = [], device_tokens = [], otp_codes = [], refresh_tokens = [],
     staff_accounts = [], staff_sessions = [],
     product_sales = (\<lambda>_. 0), clock = 20710 * usec_per_day, id_count = 1,
     categories = [\<lparr>cat_id = ''#cat'', cat_name_ru = ''Shoes'', cat_name_ky = ''Butkiim'', cat_slug = ''shoes'',
       cat_parent_id = None, cat_sort_order = 0, cat_image_key = None\<rparr>],
     product_images = [], broadcasts = [], home_banner = None\<rparr>"

definition demo_input :: PlaceOrderInput where
  "demo_input = \<lparr>in_CustomerID = ''#c'',
     in_Items = [\<lparr>VariantID = ''#v2'', Quantity = 1\<rparr>, \<lparr>VariantID = ''#v1'', Quantity = 1\<rparr>,
                 \<lparr>VariantID = ''#v1'', Quantity = 1\<rparr>],
     in_AddressID = Some ''#home'', in_PickupPointID = None, in_DeliveryZoneID = Some ''#z'',
     in_Comment = '' ring the bell '', in_IdempotencyKey = ''k-1'', in_ClearCart = True\<rparr>"

section \<open>Its values\<close>

lemma calm_fields [simp]: "tables (calm d) = d" "notices (calm d) = []" "faults (calm d) = []"
  by (simp_all add: calm_def)

lemma demo_tables [simp]:
  "clock demo_db = 20710 * usec_per_day" "id_count demo_db = 1" "stock demo_db = demo_stock"
  "orders demo_db = []" "order_items demo_db = []" "order_status_history demo_db = []" "payments demo_db = []"
  "addresses demo_db = [\<lparr>a_id = ''#home'', a_customer_id = ''#c'', a_label = None, a_text = ''Chui 1'',
       a_lat = None, a_lng = None, a_is_default = True, a_created_at = 0\<rparr>]"
  "points demo_db = [demo_point ''#p1'', demo_point ''#p2'']"
  by (simp_all add: demo_db_def)

lemmas demo_catalog = demo_db_def [THEN arg_cong [of _ _ zones], simplified db.simps]
  demo_db_def [THEN arg_cong [of _ _ variants], simplified db.simps]
  demo_db_def [THEN arg_cong [of _ _ products], simplified db.simps]

lemma demo_settings [simp]:
  "MaxOpenOrders (settings demo_env) = 5" "uuid_validate demo_env = demo_uuid"
  "gen_uuid demo_env = (\<lambda>n. CHR ''#'' # decimal (int n))"
  by (simp_all add: demo_env_def DefaultSettings_def)

lemma demo_money:
  "float_of_numeric 250000 = 2500" "float_of_numeric 100000 = 1000" "float_of_numeric 15000 = 150"
  "float_of_numeric 1000000 = 10000" "fadd (fadd 0 (fmul 2500 2)) (fmul 1000 1) = 6000"
  "roundSom_total 6000 150 = 6150" "numeric_of_float 6150 = 615000" "numeric_of_float 150 = 15000"
  "numeric_of_float 2500 = 250000" "numeric_of_float 1000 = 100000"
  "toTyiyn 6000 = 600000" "toTyiyn 10000 = 1000000"
  by (simp_all add: float_eval roundSom_total_def)

lemma demo_next:
  "faults w = [] \<Longrightarrow> orders (tables w) = [] \<Longrightarrow> clock (tables w) = 20710 * usec_per_day \<Longrightarrow>
   nextOrderNumber w = (Inr ''COZY-20260914-001'', w)"
proof -
  assume "faults w = []" "orders (tables w) = []" "clock (tables w) = 20710 * usec_per_day"
  moreover have "date_digits (20710 * usec_per_day) = ''20260914''"
    by (simp add: text_eval cong: run_congs)
  ultimately show ?thesis
    by (simp add: nextOrderNumber_def go_eval numbers_of_day_def formatOrderNumber_def pad_int_def
        decimal_code Let_def replicate_numeral cong: run_congs)
qed

lemma demo_two_items:
  "vs_ProductID (snap_of snaps (it_VariantID x)) \<le> vs_ProductID (snap_of snaps (it_VariantID y)) \<Longrightarrow>
   it_VariantID x \<le> it_VariantID y \<Longrightarrow> itemsInProductOrder [x, y] snaps = [0, 1]"
  by (simp add: itemsInProductOrder_def upt_rec)

text \<open>The order of \<open>demo_input\<close> goes through: packed by the second point, with its delivery.\<close>

lemma demo_merged: "\<exists>f. mergeItemQuantities demo_env (in_Items demo_input) = Inr (f, [''#v1'', ''#v2'']) \<and>
    f ''#v1'' = 2 \<and> f ''#v2'' = 1"
  by (simp add: mergeItemQuantities_def demo_input_def demo_uuid_def MaxCartQty_def Let_def)

lemma demo_texts: "normalizeComment (in_Comment demo_input) = Inr (Some ''ring the bell'')"
  "normalizeIdempotencyKey (in_IdempotencyKey demo_input) = Inr (Some ''k-1'')"
  by code_simp+

lemma demo_places: "\<exists>ord w. PlaceOrder demo_env demo_input (calm demo_db) = (Inr (ord, True), w)"
  using demo_merged demo_texts
  apply (elim exE conjE)
  apply (simp add: PlaceOrder_def createOrder_def go_eval validateFulfillment_def present_def blank_to_nil_def cong: run_congs)
  apply (simp add: demo_input_def place_tx_def go_eval findIdempotentOrder_def cong: run_congs)
  apply (simp add: place_body_def go_eval checkOpenOrdersLimit_def open_orders_def verifyAddressOwnership_def demo_uuid_def
    resolveDeliveryZoneTx_def Let_def demo_catalog cong: run_congs)
  apply (simp add: loadVariantSnapshots_def go_eval snapshot_of_def find_variant_def find_product_def demo_catalog pickFulfillmentPoint_def
     active_point_ids_def demo_stock_def snap_of_def take_stock_def cong: run_congs)
  apply (simp add: demo_next cong: run_congs)
  apply (simp add: items_total_def snap_of_def snapshot_of_def find_variant_def find_product_def demo_catalog demo_money deliveryFee_def FeeFor_def scanZone_def)
  apply (simp add: new_order_row_def insert_order_def Let_def order_check_def numeric_10_2_bound_def demo_money go_eval cong: run_congs)
  apply (simp add: demo_two_items new_item_def snap_of_def snapshot_of_def find_variant_def find_product_def demo_catalog demo_money)
  apply (simp add: go_eval insert_item_def item_row_of_def Let_def decimal_code recordStatusTx_def insert_history_def cong: run_congs)
  done

section \<open>A shop with orders under way\<close>

text \<open>
  \<open>open_db\<close>: a cash order \<^verbatim>\<open>#o1\<close> just placed and an online order \<^verbatim>\<open>#o2\<close> that waits for the payment
  \<^verbatim>\<open>#pay\<close> its customer is making at the mock provider, both packed by the second point.
\<close>

definition cash_row :: order_row where
  "cash_row = \<lparr>o_id = ''#o1'', o_order_number = ''COZY-20260914-001'', o_customer_id = ''#c'',
     o_address_id = Some ''#home'', o_point_id = Some ''#p2'', o_status = StatusPlaced,
     o_payment_method = PaymentCashOnDelivery, o_payment_status = None, o_total_amount = 515000,
     o_delivery_fee = 15000, o_refund_required = False, o_comment = None, o_idempotency_key = Some ''k-1'',
     o_delivery_zone_id = Some ''#z'', o_created_at = 20710 * usec_per_day, o_updated_at = 20710 * usec_per_day\<rparr>"

definition card_row :: order_row where
  "card_row = \<lparr>o_id = ''#o2'', o_order_number = ''COZY-20260914-002'', o_customer_id = ''#c'',
     o_address_id = None, o_point_id = Some ''#p2'', o_status = StatusPlaced,
     o_payment_method = PaymentOnlineCard, o_payment_status = Some PaymentPending, o_total_amount = 100000,
     o_delivery_fee = 0, o_refund_required = False, o_comment = None, o_idempotency_key = None,
     o_delivery_zone_id = None, o_created_at = 20710 * usec_per_day, o_updated_at = 20710 * usec_per_day\<rparr>"

definition card_payment :: payment_row where
  "card_payment = \<lparr>p_id = ''#pay'', p_order_id = ''#o2'', p_provider = ''mock'', p_provider_tx_id = Some ''mock_1'',
     p_status = PaymentPending, p_amount = 100000, p_currency = ''KGS'', p_redirect_url = Some ''/pay'',
     p_raw_webhook = None, p_created_at = 20710 * usec_per_day, p_updated_at = 20710 * usec_per_day\<rparr>"

definition open_db :: db where
  "open_db = demo_db\<lparr>orders := [cash_row, card_row],
     order_items := [\<lparr>i_id = ''#i1'', i_order_id = ''#o1'', i_variant_id = ''#v1'', i_product_name_snapshot = ''Boots'',
                      i_size_snapshot = ''38'', i_color_snapshot = ''red'', i_quantity = 2, i_price = 250000\<rparr>,
                    \<lparr>i_id = ''#i2'', i_order_id = ''#o2'', i_variant_id = ''#v2'', i_product_name_snapshot = ''Socks'',
                      i_size_snapshot = [], i_color_snapshot = [], i_quantity = 1, i_price = 100000\<rparr>],
     order_status_history := [\<lparr>h_id = ''#h1'', h_order_id = ''#o1'', h_from_status = None, h_to_status = StatusPlaced,
                      h_actor_type = ActorCustomer, h_actor_staff_id = None, h_note = None, h_created_at = 20710 * usec_per_day\<rparr>,
                    \<lparr>h_id = ''#h2'', h_order_id = ''#o2'', h_from_status = None, h_to_status = StatusPlaced,
                      h_actor_type = ActorCustomer, h_actor_staff_id = None, h_note = None, h_created_at = 20710 * usec_per_day\<rparr>],
     payments := [card_payment]\<rparr>"

lemma open_tables [simp]:
  "orders open_db = [cash_row, card_row]" "payments open_db = [card_payment]" "clock open_db = 20710 * usec_per_day"
  "stock open_db = demo_stock" "id_count open_db = 1" "zones open_db = zones demo_db"
  "order_items open_db = [\<lparr>i_id = ''#i1'', i_order_id = ''#o1'', i_variant_id = ''#v1'', i_product_name_snapshot = ''Boots'',
                      i_size_snapshot = ''38'', i_color_snapshot = ''red'', i_quantity = 2, i_price = 250000\<rparr>,
                    \<lparr>i_id = ''#i2'', i_order_id = ''#o2'', i_variant_id = ''#v2'', i_product_name_snapshot = ''Socks'',
                      i_size_snapshot = [], i_color_snapshot = [], i_quantity = 1, i_price = 100000\<rparr>]"
  "order_status_history open_db = [\<lparr>h_id = ''#h1'', h_order_id = ''#o1'', h_from_status = None, h_to_status = StatusPlaced,
                      h_actor_type = ActorCustomer, h_actor_staff_id = None, h_note = None, h_created_at = 20710 * usec_per_day\<rparr>,
                    \<lparr>h_id = ''#h2'', h_order_id = ''#o2'', h_from_status = None, h_to_status = StatusPlaced,
                      h_actor_type = ActorCustomer, h_actor_staff_id = None, h_note = None, h_created_at = 20710 * usec_per_day\<rparr>]"
  by (simp_all add: open_db_def)

lemma open_rows [simp]:
  "o_id cash_row = ''#o1''" "o_id card_row = ''#o2''" "o_customer_id cash_row = ''#c''" "o_customer_id card_row = ''#c''"
  "o_status cash_row = StatusPlaced" "o_status card_row = StatusPlaced"
  "o_order_number cash_row = ''COZY-20260914-001''" "o_order_number card_row = ''COZY-20260914-002''"
  "o_payment_method cash_row = PaymentCashOnDelivery" "o_payment_method card_row = PaymentOnlineCard"
  "o_payment_status cash_row = None" "o_payment_status card_row = Some PaymentPending"
  "o_point_id cash_row = Some ''#p2''" "o_point_id card_row = Some ''#p2''"
  "o_total_amount cash_row = 515000" "o_total_amount card_row = 100000"
  "o_refund_required cash_row = False" "o_refund_required card_row = False"
  "o_delivery_fee cash_row = 15000" "o_delivery_fee card_row = 0"
  "o_idempotency_key cash_row = Some ''k-1''" "o_idempotency_key card_row = None"
  "o_created_at cash_row = 20710 * usec_per_day" "o_created_at card_row = 20710 * usec_per_day"
  by (simp_all add: cash_row_def card_row_def)

lemma card_payment_fields [simp]:
  "p_id card_payment = ''#pay''" "p_order_id card_payment = ''#o2''" "p_status card_payment = PaymentPending"
  "p_amount card_payment = 100000" "p_provider card_payment = ''mock''" "p_provider_tx_id card_payment = Some ''mock_1''"
  "p_created_at card_payment = 20710 * usec_per_day" "p_redirect_url card_payment = Some ''/pay''"
  by (simp_all add: card_payment_def)

lemma open_consistent: "consistent open_db"
proof -
  have k: "keys_ok open_db" by (simp add: keys_ok_def open_db_def cash_row_def card_row_def)
  have l: "links_ok open_db" by (simp add: links_ok_def open_db_def)
  have s: "stock_ok open_db" by (simp add: stock_ok_def demo_stock_def max_int4_def)
  have c: "order_ok open_db cash_row"
    by (simp add: order_ok_def row_ok_def order_check_def pay_ok_def payments_of_def history_of_def numeric_10_2_bound_def
        open_db_def cash_row_def card_row_def)
  have d: "order_ok open_db card_row"
    by (simp add: order_ok_def row_ok_def order_check_def pay_ok_def payments_of_def history_of_def numeric_10_2_bound_def
        open_db_def cash_row_def card_row_def MaxPaymentAttempts_def settled_def)
  show ?thesis using k l s c d by (simp add: consistent_def)
qed

end
