(* ===== verification/OrderProperties.thy ===== *)
theory OrderProperties
  imports Notices Demo
begin

text \<open>
  What the order service promises to its callers: the effect of a placement and of its failure, and the
  replay of a key, each with a witness on the shop of \<^verbatim>\<open>Demo\<close>.
\<close>

section \<open>Placement\<close>

lemma PlaceOrder_yields:
  assumes "PlaceOrder env inp w = (Inr (order, created), w')"
  obtains pid where "yields (createOrder env inp PaymentCashOnDelivery (\<lambda>_. returnG []))
     (tables w) (order, pid, created) (tables w')"
proof -
  have "yields (PlaceOrder env inp) (tables w) (order, created) (tables w')" using assms by (rule yieldsI)
  then obtain x d where "yields (createOrder env inp PaymentCashOnDelivery (\<lambda>_. returnG [])) (tables w) x d"
      "yields (case x of (order, _, created) \<Rightarrow> returnG (order, created)) d (order, created) (tables w')"
    unfolding PlaceOrder_def by (rule yields_bind)
  then show ?thesis by (auto elim!: yields_return intro: that split: prod.splits)
qed

lemma placed_by:
  assumes "PlaceOrder env inp w = (Inr (order, True), w')"
  obtains qty vids d0 r p rows h where "mergeItemQuantities env (in_Items inp) = Inr (qty, vids)"
    "d0 = tables w \<or> (\<exists>x. d0 = release_key x (tables w))"
    "placed_rows inp PaymentCashOnDelivery qty vids d0 r p rows h (tables w')"
    "ID order = o_id r" "numeric_of_float (TotalAmount order) = o_total_amount r"
    "0 < MaxOpenOrders (settings env) \<Longrightarrow> open_orders d0 (in_CustomerID inp) < MaxOpenOrders (settings env)"
    "\<And>q. in_PickupPointID inp = Some q \<Longrightarrow> q \<noteq> [] \<Longrightarrow> p = q"
    "normalizeIdempotencyKey (in_IdempotencyKey inp) = Inr (o_idempotency_key r)"
proof -
  obtain pid where "yields (createOrder env inp PaymentCashOnDelivery (\<lambda>_. returnG []))
     (tables w) (order, pid, True) (tables w')" using assms by (rule PlaceOrder_yields)
  then show ?thesis
  proof (cases rule: createOrder_effect)
    case (placed qty vids d0 d1 r p rows h)
    have "tables w' = d1" using placed(5) by (auto elim: yields_return)
    then show ?thesis using placed by (intro that) auto
  qed simp
qed

lemma stock_qty_taken:
  assumes "covers d p vids qty" "stock d' = taken d p vids qty"
  shows "stock_qty d' v q = stock_qty d v q - (if q = p \<and> v \<in> set vids then qty v else 0)"
  using assms by (auto simp: stock_qty_def taken_def covers_def split: option.splits)

lemma release_stock [simp]: "stock (release_key x d) = stock d" "order_items (release_key x d) = order_items d"
  by (simp_all add: release_key_def)

text \<open>
  C4. A cash order that is created is packed by exactly one point, which had every variant in full; its
  stock goes down by exactly the ordered quantities (the repeated lines of a variant added up), no
  other stock moves, and a pickup order is packed by the point the customer chose.
\<close>

theorem placement_takes_stock:
  assumes "PlaceOrder env inp w = (Inr (order, True), w')"
  shows "\<exists>qty vids p. mergeItemQuantities env (in_Items inp) = Inr (qty, vids) \<and>
    (\<forall>v q. stock_qty (tables w') v q =
        stock_qty (tables w) v q - (if q = p \<and> v \<in> VariantID ` set (in_Items inp)
          then (\<Sum>it \<leftarrow> in_Items inp. if VariantID it = v then Quantity it else 0) else 0)) \<and>
    (\<forall>v \<in> set vids. 0 < qty v \<and> qty v \<le> stock_qty (tables w) v p) \<and>
    (\<forall>q. in_PickupPointID inp = Some q \<longrightarrow> q \<noteq> [] \<longrightarrow> p = q)"
  using assms
proof (rule placed_by)
  fix qty vids d0 r p rows h
  assume m: "mergeItemQuantities env (in_Items inp) = Inr (qty, vids)"
    and d0: "d0 = tables w \<or> (\<exists>x. d0 = release_key x (tables w))"
    and pl: "placed_rows inp PaymentCashOnDelivery qty vids d0 r p rows h (tables w')"
    and pk: "\<And>q. in_PickupPointID inp = Some q \<Longrightarrow> q \<noteq> [] \<Longrightarrow> p = q"
  have s: "stock d0 = stock (tables w)" using d0 by auto
  have c: "covers d0 p vids qty" "stock (tables w') = taken d0 p vids qty"
    using pl unfolding placed_rows_def by blast+
  note mq = mergeItemQuantities_Inr [OF m]
  have q0: "stock_qty d0 v q = stock_qty (tables w) v q" for v q by (simp add: stock_qty_def s)
  have "\<forall>v \<in> set vids. 0 < qty v \<and> qty v \<le> stock_qty (tables w) v p"
    using c(1) mq(6) by (fastforce simp: covers_def stock_qty_def s)
  moreover have "\<forall>v q. stock_qty (tables w') v q =
        stock_qty (tables w) v q - (if q = p \<and> v \<in> VariantID ` set (in_Items inp)
          then (\<Sum>it \<leftarrow> in_Items inp. if VariantID it = v then Quantity it else 0) else 0)"
    unfolding stock_qty_taken [OF c] q0 mq(4) using mq(5) by auto
  ultimately show ?thesis using m pk by blast
qed

theorem placement_takes_stock_witness:
  "\<exists>order w' qty vids p. PlaceOrder demo_env demo_input (calm demo_db) = (Inr (order, True), w') \<and>
     mergeItemQuantities demo_env (in_Items demo_input) = Inr (qty, vids) \<and>
     (\<forall>v \<in> set vids. 0 < qty v \<and> qty v \<le> stock_qty demo_db v p)"
proof -
  obtain order w' where r: "PlaceOrder demo_env demo_input (calm demo_db) = (Inr (order, True), w')"
    using demo_places by blast
  from placement_takes_stock [OF r] r show ?thesis by (auto simp: calm_def)
qed



text \<open>
  C10. A placement that returns an error, at whatever statement it fails and for whatever reason, leaves
  every table as it was.
\<close>

lemma place_tx_replays:
  assumes "yields (place_tx env inp method after a p qty vids c k) d (Replayed oid) d'" "distinct vids"
  shows "d' = d"
  using assms by (cases rule: place_tx_effect) auto

lemma createOrder_error:
  assumes "createOrder env inp method after w = (Inl e, w')"
  shows "tables w' = tables w"
proof -
  let ?a = "blank_to_nil (in_AddressID inp)" and ?p = "blank_to_nil (in_PickupPointID inp)"
  have tail: "tables w' = tables w"
    if m: "mergeItemQuantities env (in_Items inp) = Inr (qty, vids)"
      and b: "bindG (withTx (place_tx env inp method after ?a ?p qty vids c k)) (\<lambda>out. case out of
       Replayed oid \<Rightarrow> bindG (GetOrder env (in_CustomerID inp) oid) (\<lambda>existing. returnG (existing, [], False))
     | Placed order paymentID \<Rightarrow>
         bindG (if method = PaymentCashOnDelivery then notify (OrderCreated (ID order)) else returnG ())
           (\<lambda>_. returnG (order, paymentID, True))) w = (Inl e, w')" for qty vids c k
    using b
  proof (cases rule: bind_Inl)
    case 1
    then show ?thesis by (rule withTx_error)
  next
    case (2 out w1)
    show ?thesis
    proof (cases out)
      case (Replayed oid)
      have "yields (withTx (place_tx env inp method after ?a ?p qty vids c k)) (tables w) (Replayed oid) (tables w1)"
        using 2(1) Replayed by (auto intro: yieldsI)
      then have "tables w1 = tables w"
        using place_tx_replays mergeItemQuantities_Inr(2) [OF m] by (elim yields_withTx) blast
      moreover have "tables w' = tables w1"
        using 2(2) Replayed reads_only_snd [of "bindG (GetOrder env (in_CustomerID inp) oid) (\<lambda>existing. returnG (existing, [], False))"]
        by (auto intro!: run_intro)
      ultimately show ?thesis by simp
    next
      case (Placed order pid)
      then show ?thesis using 2(2) by (auto simp: bindG_def notify_def returnG_def split: if_splits)
    qed
  qed
  show ?thesis
    using assms unfolding createOrder_def Let_def
    by (elim lift_Inl2 lift_Inl) (simp_all add: tail)
qed

theorem failed_placement_changes_nothing:
  assumes "PlaceOrder env inp w = (Inl e, w')"
  shows "tables w' = tables w"
  using assms unfolding PlaceOrder_def
proof (cases rule: bind_Inl)
  case 1
  then show ?thesis by (rule createOrder_error)
qed (auto simp: returnG_def split: prod.splits)

theorem failed_placement_changes_nothing_witness:
  "\<exists>w'. PlaceOrder demo_env demo_input \<lparr>tables = demo_db, faults = [True], notices = []\<rparr> = (Inl ConnError, w') \<and>
     tables w' = demo_db"
proof -
  have "\<exists>w'. PlaceOrder demo_env demo_input \<lparr>tables = demo_db, faults = [True], notices = []\<rparr> = (Inl ConnError, w')"
    using demo_merged demo_texts
    by (elim exE conjE) (simp add: PlaceOrder_def createOrder_def go_eval validateFulfillment_def present_def
        blank_to_nil_def demo_input_def cong: run_congs)
  then show ?thesis using failed_placement_changes_nothing by fastforce
qed

section \<open>The replay of a key\<close>

lemma GetOrder_found:
  assumes "faults w = []" "r \<in> set (orders (tables w))" "o_customer_id r = cu" "uuid_validate env (o_id r)"
    and "distinct (map o_id (orders (tables w)))"
  shows "\<exists>ord. GetOrder env cu (o_id r) w = (Inr ord, w) \<and> ID ord = o_id r \<and> OrderNumber ord = o_order_number r \<and>
    Status ord = o_status r \<and> TotalAmount ord = float_of_numeric (o_total_amount r)"
proof -
  have "\<exists>x. find (\<lambda>r'. o_customer_id r' = cu \<and> orderKeyPredicate env (o_id r) r') (orders (tables w)) = Some x"
    using assms(2-4) by (auto simp: find_None_iff orderKeyPredicate_def simp flip: not_None_eq)
  then obtain x where x: "find (\<lambda>r'. o_customer_id r' = cu \<and> orderKeyPredicate env (o_id r) r') (orders (tables w)) = Some x"
    by blast
  have "x = r"
    using find_Some_mem [OF x] assms(2,4) distinct_map_eqD [OF assms(5)] by (auto simp: orderKeyPredicate_def)
  then show ?thesis
    using x assms(1) by (simp add: GetOrder_def select_order_def with_items_def attachItems_def go_eval cong: run_congs)
qed

text \<open>
  C11. Sending the request again with the same key: when the key belongs to an order of the customer less
  than a day old, the call returns that order as not created and changes nothing at all; the stock,
  the limits and the cart are not even looked at.
\<close>

theorem same_key_replays:
  assumes "faults w = []" and "distinct (map o_id (orders (tables w)))"
    and "validateFulfillment (in_AddressID inp) (in_PickupPointID inp) = Inr ()"
    and "mergeItemQuantities env (in_Items inp) = Inr qv" and "normalizeComment (in_Comment inp) = Inr c"
    and "normalizeIdempotencyKey (in_IdempotencyKey inp) = Inr (Some k)"
    and "find (\<lambda>r. o_customer_id r = in_CustomerID inp \<and> o_idempotency_key r = Some k) (orders (tables w)) = Some r"
    and "clock (tables w) - IdempotencyWindow < o_created_at r"
    and "uuid_validate env (o_id r)" "o_id r \<noteq> []"
  shows "\<exists>ord. PlaceOrder env inp w = (Inr (ord, False), w) \<and> ID ord = o_id r \<and>
    OrderNumber ord = o_order_number r \<and> TotalAmount ord = float_of_numeric (o_total_amount r)"
proof -
  have r: "r \<in> set (orders (tables w))" "o_customer_id r = in_CustomerID inp" using find_Some_mem [OF assms(7)] by auto
  obtain ord where g: "GetOrder env (in_CustomerID inp) (o_id r) w = (Inr ord, w)"
      "ID ord = o_id r" "OrderNumber ord = o_order_number r" "TotalAmount ord = float_of_numeric (o_total_amount r)"
    using GetOrder_found [OF assms(1) r(1) r(2) assms(9,2)] by blast
  obtain qty vids where qv: "qv = (qty, vids)" by (cases qv)
  have "findIdempotentOrder (in_CustomerID inp) k w = (Inr (o_id r), w)"
    using assms(1,7,8) by (simp add: findIdempotentOrder_def go_eval cong: run_congs)
  then have "withTx (place_tx env inp PaymentCashOnDelivery (\<lambda>_. returnG []) a p qty vids c (Some k)) w =
      (Inr (Replayed (o_id r)), w)" for a p c
    using assms(1,10) by (simp add: place_tx_def go_eval cong: run_congs)
  then show ?thesis
    using g assms(3-6) qv by (simp add: PlaceOrder_def createOrder_def go_eval cong: run_congs)
qed

theorem same_key_replays_witness:
  "\<exists>ord. PlaceOrder demo_env demo_input (calm open_db) = (Inr (ord, False), calm open_db) \<and> ID ord = ''#o1''"
proof -
  obtain f where f: "mergeItemQuantities demo_env (in_Items demo_input) = Inr (f, [''#v1'', ''#v2''])"
    using demo_merged by blast
  have "\<exists>ord. PlaceOrder demo_env demo_input (calm open_db) = (Inr (ord, False), calm open_db) \<and> ID ord = o_id cash_row \<and>
    OrderNumber ord = o_order_number cash_row \<and> TotalAmount ord = float_of_numeric (o_total_amount cash_row)"
    by (rule same_key_replays [OF _ _ _ f demo_texts])
       (simp_all add: calm_def validateFulfillment_def present_def demo_input_def IdempotencyWindow_def
          usec_per_sec_def demo_uuid_def)
  then show ?thesis by auto
qed

end
