(* ===== verification/LifecycleProperties.thy ===== *)
theory LifecycleProperties
  imports Notices Demo
begin

text \<open>
  What the order service promises once an order exists: staff and customer status changes, the
  stock that comes back, and who may do what.
\<close>

section \<open>Two runs\<close>

lemma demo_confirms:
  "\<exists>ord w'. AdminUpdateStatus demo_env (Some \<lparr>st_ID = ''#m'', st_Role = RoleManager, st_PointID = None\<rparr>) ''#o1''
     StatusConfirmed (calm open_db) = (Inr ord, w')"
  by (simp add: AdminUpdateStatus_def staffActor_def admin_update_tx_def lockOrderTx_def select_order_def go_eval
      orderKeyPredicate_def demo_uuid_def transitionLockedTx_def validStatusTransition_def paymentAllowsConfirm_def
      update_order_returning_def update_orders_def order_check_def recordStatusTx_def insert_history_def Let_def
      enrich_then_notify_def attachItems_def decimal_code cong: run_congs)

lemma demo_customer_cancels:
  "\<exists>ord w'. CancelByCustomer demo_env ''#c'' ''COZY-20260914-002'' (calm open_db) = (Inr ord, w')"
  by (simp add: CancelByCustomer_def customer_cancel_tx_def lockOrderTx_def select_order_def go_eval
      orderKeyPredicate_def demo_uuid_def customerCanCancel_def cancelLockedTx_def restockOrderTx_def
      put_back_stock_def stock_qty_def demo_stock_def max_int4_def Let_def cong: run_congs)
     (simp add: close_pending_def update_payments_def update_order_returning_def update_orders_def order_check_def
      recordStatusTx_def insert_history_def go_eval Let_def decimal_code enrich_then_notify_def attachItems_def
      cong: run_congs)

section \<open>Staff\<close>

lemma admin_update_status:
  assumes "yields (admin_update_tx env actor k to) d x d'" and dist: "distinct (map o_id (orders d))"
  shows "Status (fst x) = to"
proof -
  obtain ord d1 where l: "yields (lockOrderTx (orderKeyPredicate env k)) d ord d1"
    and b: "yields (bindG (transitionLockedTx env ord to actor []) (\<lambda>ord'. returnG (ord', Status ord))) d1 x d'"
    using assms(1) unfolding admin_update_tx_def by (rule yields_bind)
  obtain r where r: "r \<in> set (orders d)" "ord = scanOrderRow d r" "d1 = d"
    using l by (rule lockOrderTx_effect) blast
  obtain ord' where t: "yields (transitionLockedTx env ord to actor []) d1 ord' d'" "x = (ord', Status ord)"
    using b by (auto elim!: yields_bind yields_return)
  have "Status ord' = to"
    using t(1) [unfolded r(3)] r(2,1) dist by (cases rule: transition_effect) auto
  then show ?thesis using t(2) by simp
qed

text \<open>What a committed transition did, and that it was told, whether or not its items loaded.\<close>

definition transition_told :: "env \<Rightarrow> string \<Rightarrow> OrderStatus \<Rightarrow> go_error + Order \<Rightarrow> world \<Rightarrow> world \<Rightarrow> order_row \<Rightarrow> order_row \<Rightarrow> history_row \<Rightarrow> bool" where
  "transition_told env k to res w w' r r' h \<longleftrightarrow>
     r \<in> set (orders (tables w)) \<and> orderKeyPredicate env k r \<and> validStatusTransition (o_status r) to \<and>
     (to = StatusConfirmed \<and> o_payment_method r = PaymentOnlineCard \<longrightarrow> o_payment_status r = Some PaymentPaid) \<and>
     moved r r' h (tables w) (tables w') \<and> o_status r' = to \<and>
     (\<forall>v q. stock_qty (tables w') v q = stock_qty (tables w) v q +
        (if to = StatusCancelled \<and> o_point_id r = Some q then units (tables w) (o_id r) v else 0)) \<and>
     notices w' = notices w @ [OrderStatusChanged (o_id r) (o_status r)] \<and>
     (\<forall>ord. res = Inr ord \<longrightarrow> ID ord = o_id r \<and> Status ord = to)"

lemma committed_transition:
  assumes y: "yields (admin_update_tx env actor k to) (tables w) x (tables w1)" and i: "consistent (tables w)"
    and n1: "notices w1 = notices w"
    and e: "enrich_then_notify (fst x) (OrderStatusChanged (ID (fst x)) (snd x)) w1 = (res, w')"
  shows "\<exists>r r' h. transition_told env k to res w w' r r' h"
  using y inv_keys(1) [OF i]
proof (cases rule: admin_update_effect)
  note er = enrich_run [OF e] and st = admin_update_status [OF y inv_keys(1) [OF i]]
  case (cancel r h)
  obtain p where p: "o_point_id r = Some p" and
    s: "\<And>v q. stock_qty (tables w1) v q = stock_qty (tables w) v q + (if q = p then units (tables w) (o_id r) v else 0)"
    using returned_stock [OF cancel(5)] by blast
  have m: "moved r (cancelled_row r (clock (tables w))) h (tables w) (tables w')"
    using cancel(5) er(1) unfolding cancelled_def by auto
  have "transition_told env k to res w w' r (cancelled_row r (clock (tables w))) h"
    unfolding transition_told_def by (intro conjI m) (use cancel er n1 p s st in \<open>auto simp: cancelled_row_def\<close>)
  then show ?thesis by blast
next
  note er = enrich_run [OF e] and st = admin_update_status [OF y inv_keys(1) [OF i]]
  case (advance r h)
  have s: "stock_qty (tables w1) v q = stock_qty (tables w) v q" for v q using advance(8) by (simp add: stock_qty_def)
  have m: "moved r (advanced_row r to (clock (tables w))) h (tables w) (tables w')" using advance(6) er(1) by simp
  have "transition_told env k to res w w' r (advanced_row r to (clock (tables w))) h"
    unfolding transition_told_def by (intro conjI m) (use advance er n1 s st in \<open>auto simp: advanced_row_def may_confirm_def\<close>)
  then show ?thesis by blast
qed

lemma AdminUpdateStatus_cases:
  assumes run: "AdminUpdateStatus env ctx k to w = (res, w')" and i: "consistent (tables w)"
  obtains (refused) e where "res = Inl e" "tables w' = tables w" "notices w' = notices w"
  | (told) st r r' h where "ctx = Some st" "to = StatusCancelled \<longrightarrow> st_Role st = RoleOwner"
      "transition_told env k to res w w' r r' h"
proof (cases "\<exists>st. ctx = Some st \<and> (to = StatusCancelled \<longrightarrow> st_Role st = RoleOwner)")
  case False
  then show thesis using run refused
    by (auto simp: AdminUpdateStatus_def staffActor_def failG_def split: option.splits)
next
  case True
  then obtain st actor where st: "ctx = Some st" "to = StatusCancelled \<longrightarrow> st_Role st = RoleOwner"
    and actor: "staffActor ctx = Some actor" "ac_Role actor = Some (st_Role st)" by (auto simp: staffActor_def)
  have b: "bindG (withTx (admin_update_tx env actor k to)) (\<lambda>(ord, frm).
      enrich_then_notify ord (OrderStatusChanged (ID ord) frm)) w = (res, w')"
    using run actor st by (auto simp: AdminUpdateStatus_def)
  obtain t w1 where t: "withTx (admin_update_tx env actor k to) w = (t, w1)" by fastforce
  have n1: "notices w1 = notices w"
    by (rule quiet_snd [of "withTx (admin_update_tx env actor k to)", OF _ t]) (intro quiet_intro)
  show thesis
  proof (cases t)
    case (Inl e)
    then show thesis using b t n1 withTx_error [of _ w e w1] refused by (auto simp: bindG_def)
  next
    case (Inr x)
    have "yields (admin_update_tx env actor k to) (tables w) x (tables w1)"
      using withTx_Inr_yields [of "admin_update_tx env actor k to" w x w1] t Inr by simp
    moreover have "enrich_then_notify (fst x) (OrderStatusChanged (ID (fst x)) (snd x)) w1 = (res, w')"
      using b t Inr by (simp add: bindG_def split_beta)
    ultimately show thesis using committed_transition [OF _ i n1] told [OF st] by blast
  qed
qed

text \<open>
  C7. Every call of \<^verbatim>\<open>AdminUpdateStatus\<close> has one of two outcomes. Either it changed no table and told nobody,
  and returns an error. Or the transition was committed: the caller is staff, and the owner for a
  cancellation; the pair of statuses is in the transition table; an unpaid online order was not
  confirmed; the history got the one row that says so; a cancellation gave the stock back to the
  packing point, any other change left the stock alone; and the notifier was told exactly once,
  even when loading the items afterwards failed and the call returns that error.
\<close>

theorem admin_update_outcomes:
  assumes "AdminUpdateStatus env ctx k to w = (res, w')" and "consistent (tables w)"
  shows "(\<exists>e. res = Inl e) \<and> tables w' = tables w \<and> notices w' = notices w \<or>
    (\<exists>st r r' h. ctx = Some st \<and> (to = StatusCancelled \<longrightarrow> st_Role st = RoleOwner) \<and>
       r \<in> set (orders (tables w)) \<and> orderKeyPredicate env k r \<and> validStatusTransition (o_status r) to \<and>
       (to = StatusConfirmed \<and> o_payment_method r = PaymentOnlineCard \<longrightarrow> o_payment_status r = Some PaymentPaid) \<and>
       moved r r' h (tables w) (tables w') \<and> o_status r' = to \<and>
       (\<forall>v q. stock_qty (tables w') v q = stock_qty (tables w) v q +
          (if to = StatusCancelled \<and> o_point_id r = Some q then units (tables w) (o_id r) v else 0)) \<and>
       notices w' = notices w @ [OrderStatusChanged (o_id r) (o_status r)] \<and>
       (\<forall>ord. res = Inr ord \<longrightarrow> ID ord = o_id r \<and> Status ord = to))"
  using assms
proof (cases rule: AdminUpdateStatus_cases)
  case (told st r r' h)
  then show ?thesis unfolding transition_told_def by blast
qed simp

theorem admin_update_outcomes_witness:
  "\<exists>res w' r'. AdminUpdateStatus demo_env (Some \<lparr>st_ID = ''#m'', st_Role = RoleManager, st_PointID = None\<rparr>) ''#o1''
       StatusConfirmed (calm open_db) = (res, w') \<and>
     r' \<in> set (orders (tables w')) \<and> o_id r' = ''#o1'' \<and> o_status r' = StatusConfirmed \<and>
     notices w' = [OrderStatusChanged ''#o1'' StatusPlaced]"
proof -
  let ?ctx = "Some \<lparr>st_ID = ''#m'', st_Role = RoleManager, st_PointID = None\<rparr>"
  obtain ord w' where run: "AdminUpdateStatus demo_env ?ctx ''#o1'' StatusConfirmed (calm open_db) = (Inr ord, w')"
    using demo_confirms by blast
  from admin_update_outcomes [OF run] obtain r r' h where
      "r \<in> set (orders open_db)" "orderKeyPredicate demo_env ''#o1'' r" "moved r r' h open_db (tables w')"
      "o_status r' = StatusConfirmed" "notices w' = [OrderStatusChanged (o_id r) (o_status r)]"
    by (auto simp: open_consistent)
  moreover have "r = cash_row" using calculation(1,2) by (auto simp: orderKeyPredicate_def demo_uuid_def)
  moreover have "r' \<in> set (orders (tables w'))" "o_id r' = o_id r"
    using calculation(3) moved_in unfolding moved_def by auto
  ultimately show ?thesis using run by auto
qed

section \<open>Customers\<close>

text \<open>
  C8. Every call of \<^verbatim>\<open>CancelByCustomer\<close> has one of two outcomes: an error with every table as before and
  nobody told, or the cancellation of an order of this very customer that staff had not touched and
  that was not paid, with its reserved units back on the shelf of its point, a pending payment
  closed, one history row by the customer, and one notification.
\<close>

theorem customer_cancel_outcomes:
  assumes "CancelByCustomer env cu k w = (res, w')" and "consistent (tables w)"
  shows "(\<exists>e. res = Inl e) \<and> tables w' = tables w \<and> notices w' = notices w \<or>
    (\<exists>r h. r \<in> set (orders (tables w)) \<and> o_customer_id r = cu \<and> orderKeyPredicate env k r \<and>
       o_status r = StatusPlaced \<and>
       \<not> (o_payment_method r = PaymentOnlineCard \<and> o_payment_status r = Some PaymentPaid) \<and>
       cancelled r h (tables w) (tables w') \<and>
       (\<forall>v q. stock_qty (tables w') v q = stock_qty (tables w) v q +
          (if o_point_id r = Some q then units (tables w) (o_id r) v else 0)) \<and>
       (\<forall>p \<in> set (payments (tables w')). p_order_id p = o_id r \<longrightarrow> p_status p \<noteq> PaymentPending) \<and>
       notices w' = notices w @ [OrderCancelledByCustomer (o_id r)])"
proof -
  obtain t w1 where t: "withTx (customer_cancel_tx env cu k) w = (t, w1)" by fastforce
  have run: "bindG (withTx (customer_cancel_tx env cu k)) (\<lambda>ord.
      enrich_then_notify ord (OrderCancelledByCustomer (ID ord))) w = (res, w')"
    using assms(1) by (simp add: CancelByCustomer_def)
  have n1: "notices w1 = notices w"
    by (rule quiet_snd [of "withTx (customer_cancel_tx env cu k)", OF _ t]) (intro quiet_intro)
  show ?thesis
  proof (cases t)
    case (Inl e)
    then show ?thesis using run t n1 withTx_error [of _ w e w1] by (auto simp: bindG_def)
  next
    case (Inr x)
    then have y: "yields (customer_cancel_tx env cu k) (tables w) x (tables w1)" using withTx_Inr_yields [of "customer_cancel_tx env cu k" w x w1] t by simp
    have e: "enrich_then_notify x (OrderCancelledByCustomer (ID x)) w1 = (res, w')"
      using run t Inr by (simp add: bindG_def)
    note er = enrich_run [OF e]
    show ?thesis
      using y inv_keys(1) [OF assms(2)]
    proof (cases rule: customer_cancel_effect)
      case (1 r h)
      have s: "\<forall>v q. stock_qty (tables w') v q = stock_qty (tables w) v q +
          (if o_point_id r = Some q then units (tables w) (o_id r) v else 0)"
        using returned_stock [OF 1(6)] er(1) by auto
      have "consistent (tables w1)"
        by (rule cancelled_inv [OF assms(2) 1(6)]) (simp add: 1 validStatusTransition_def)
      moreover have "moved r (cancelled_row r (clock (tables w))) h (tables w) (tables w1)"
        using 1(6) unfolding cancelled_def by blast
      then have "cancelled_row r (clock (tables w)) \<in> set (orders (tables w1))" by (rule moved_in)
      ultimately have "pay_ok (cancelled_row r (clock (tables w))) (payments_of (tables w1) (o_id r))"
        unfolding consistent_def order_ok_def by (auto simp: cancelled_row_def)
      then have "\<forall>p \<in> set (payments (tables w1)). p_order_id p = o_id r \<longrightarrow> p_status p \<noteq> PaymentPending"
        unfolding pay_ok_alt by (auto simp: cancelled_row_def pend_0 payments_of_def split: if_splits)
      then show ?thesis using 1 er n1 s by auto
    qed
  qed
qed

theorem customer_cancel_outcomes_witness:
  "\<exists>res w'. CancelByCustomer demo_env ''#c'' ''COZY-20260914-002'' (calm open_db) = (res, w') \<and>
     stock_qty (tables w') ''#v2'' ''#p2'' = 4 \<and> notices w' = [OrderCancelledByCustomer ''#o2'']"
proof -
  obtain ord w' where run: "CancelByCustomer demo_env ''#c'' ''COZY-20260914-002'' (calm open_db) = (Inr ord, w')"
    using demo_customer_cancels by blast
  from customer_cancel_outcomes [OF run, unfolded calm_fields, OF open_consistent] obtain r where
      r: "r \<in> set (orders open_db)" "orderKeyPredicate demo_env ''COZY-20260914-002'' r"
      "\<forall>v q. stock_qty (tables w') v q = stock_qty open_db v q + (if o_point_id r = Some q then units open_db (o_id r) v else 0)"
      "notices w' = [OrderCancelledByCustomer (o_id r)]"
    by auto
  have "r = card_row" using r(1,2) by (auto simp: orderKeyPredicate_def demo_uuid_def)
  then have "stock_qty (tables w') ''#v2'' ''#p2'' = 4"
    using r(3) by (simp add: stock_qty_def demo_stock_def units_def)
  then show ?thesis using run r(4) \<open>r = card_row\<close> by auto
qed

end
