(* ===== verification/OrderLog.thy ===== *)
theory OrderLog
  imports Notices
begin

text \<open>
  What no step of the program ever undoes: an order keeps its identity, number, customer, packing point,
  payment method, amounts and creation time, its status only moves along the transition table, and
  the items and the history only grow.
\<close>

section \<open>Orders persist\<close>

definition order_core :: "order_row \<Rightarrow> string \<times> string \<times> string \<times> string option \<times> PaymentMethod \<times> int \<times> int \<times> int" where
  "order_core r = (o_id r, o_order_number r, o_customer_id r, o_point_id r, o_payment_method r,
     o_total_amount r, o_delivery_fee r, o_created_at r)"

definition later :: "order_row \<Rightarrow> order_row \<Rightarrow> bool" where
  "later r r' \<longleftrightarrow> order_core r' = order_core r \<and> validStatusTransition\<^sup>*\<^sup>* (o_status r) (o_status r')"

definition grows :: "db \<Rightarrow> db \<Rightarrow> bool" where
  "grows d d' \<longleftrightarrow> (\<forall>r \<in> set (orders d). \<exists>r' \<in> set (orders d'). later r r') \<and>
     prefix (order_items d) (order_items d') \<and>
     prefix (order_status_history d) (order_status_history d')"

lemma later_refl [simp]: "later r r" by (simp add: later_def)

lemma later_trans: "later a b \<Longrightarrow> later b c \<Longrightarrow> later a c"
  unfolding later_def by (auto intro: rtranclp_trans)

lemma grows_refl [simp]: "grows d d" by (auto simp: grows_def intro: later_refl)

lemma grows_trans [trans]: "grows a b \<Longrightarrow> grows b c \<Longrightarrow> grows a c"
  unfolding grows_def by (meson later_trans prefix_order.trans)

lemma grows_orders:
  assumes "\<And>r. r \<in> set (orders d) \<Longrightarrow> \<exists>r' \<in> set (orders d'). later r r'"
    and "order_items d' = order_items d" "order_status_history d' = order_status_history d"
  shows "grows d d'"
  using assms by (simp add: grows_def)

lemma grows_map:
  assumes "orders d' = map f (orders d)" "\<And>r. r \<in> set (orders d) \<Longrightarrow> later r (f r)"
    and "order_items d' = order_items d" "order_status_history d' = order_status_history d"
  shows "grows d d'"
  using assms by (intro grows_orders) auto

lemma later_same: "order_core r' = order_core r \<Longrightarrow> o_status r' = o_status r \<Longrightarrow> later r r'"
  by (simp add: later_def)

lemma grows_set_row:
  assumes "orders d' = set_row r r' d" "later r r'" "distinct (map o_id (orders d))" "r \<in> set (orders d)"
    and "order_items d' = order_items d" "order_status_history d' = order_status_history d"
  shows "grows d d'"
  using assms(1) unfolding set_row_def
  by (rule grows_map) (use assms distinct_map_eqD [OF assms(3) _ assms(4)] in auto)

lemma grows_moved:
  assumes m: "moved r r' h d d'" and l: "later r r'" and dist: "distinct (map o_id (orders d))"
  shows "grows d d'"
proof -
  let ?d = "d'\<lparr>order_status_history := order_status_history d\<rparr>"
  have "grows d ?d"
    by (rule grows_set_row [OF _ l dist]) (use m in \<open>auto simp: moved_def\<close>)
  moreover have "order_status_history d' = order_status_history d @ [h]" using m unfolding moved_def by blast
  ultimately show ?thesis by (simp add: grows_def)
qed

lemma grows_cancelled:
  assumes c: "cancelled r h d d'" and dist: "distinct (map o_id (orders d))"
    and v: "validStatusTransition (o_status r) StatusCancelled"
  shows "grows d d'"
proof (rule grows_moved [OF _ _ dist])
  show "moved r (cancelled_row r (clock d)) h d d'" using c unfolding cancelled_def by blast
  show "later r (cancelled_row r (clock d))" using v by (simp add: later_def order_core_def cancelled_row_def r_into_rtranclp)
qed

lemma grows_pay_change:
  assumes "pay_change r r' ps d d'" "later r r'" "distinct (map o_id (orders d))" "r \<in> set (orders d)"
  shows "grows d d'"
proof -
  obtain n where "d' = d\<lparr>orders := set_row r r' d, payments := ps, id_count := n\<rparr>"
    using assms(1) unfolding pay_change_def by blast
  then show ?thesis by (intro grows_set_row [OF _ assms(2-4)]) simp_all
qed

lemma grows_update:
  assumes "update_orders P f d = Inr (n, d')" "\<And>r. order_core (f r) = order_core r" "\<And>r. o_status (f r) = o_status r"
  shows "grows d d'"
proof -
  have "d' = d\<lparr>orders := map (\<lambda>r. if P r then f r else r) (orders d)\<rparr>"
    using update_orders_keep_status [OF assms(1)] assms(3) by simp
  then show ?thesis by (intro grows_map [where f = "\<lambda>r. if P r then f r else r"]) (simp_all add: later_same assms)
qed

lemma grows_payments: "grows d (d\<lparr>payments := ps\<rparr>)"
  by (simp add: grows_def) (meson later_refl)

lemma grows_cancel_unpaid:
  assumes "yields (CancelUnpaidOrderTx env oid nt) d b d'" and dist: "distinct (map o_id (orders d))"
  shows "grows d d'"
  using assms
proof (cases rule: CancelUnpaid_effect)
  case (undone r h)
  show ?thesis by (rule grows_cancelled [OF undone(5) dist]) (simp add: undone validStatusTransition_def)
qed simp

lemma ids_update:
  assumes "update_orders P f d = Inr (n, d')" "\<And>r. o_id (f r) = o_id r"
  shows "map o_id (orders d') = map o_id (orders d)"
  using assms by (auto simp: update_orders_def split: if_splits)

lemma lock_same: "yields (LockOrderTx oid) d x d' \<Longrightarrow> d' = d"
  unfolding LockOrderTx_def by (erule lockOrderTx_effect) simp

lemma grows_fail_attempt:
  assumes "yields (fail_attempt_tx pid oid) d u d'"
  shows "grows d d'"
  using assms unfolding fail_attempt_tx_def
proof (elim yields_bind yields_stmt)
  fix x d1 n d2
  assume l: "yields (LockOrderTx oid) d x d1"
    and p: "update_payments (\<lambda>p. p_id p = pid \<and> p_status p = PaymentPending)
         (\<lambda>p. p\<lparr>p_status := PaymentFailed, p_updated_at := clock d1\<rparr>) d1 = Inr (n, d2)"
    and rest: "yields (if n = 0 then returnG ()
         else bindG (stmt (\<lambda>d. update_orders (\<lambda>r. o_id r = oid \<and> o_status r = StatusPlaced)
              (\<lambda>r. r\<lparr>o_payment_status := Some PaymentFailed, o_updated_at := clock d\<rparr>) d)) (\<lambda>_. returnG ())) d2 u d'"
  have "grows d d2" using lock_same [OF l] p grows_payments by (auto simp: update_payments_def)
  also have "grows d2 d'"
    using rest by (auto elim!: yields_bind yields_return yields_stmt grows_update simp: order_core_def split: if_splits)
  finally show ?thesis .
qed

lemma grows_abort:
  assumes "yields (abort_tx env pid oid) d u d'" and dist: "distinct (map o_id (orders d))"
  shows "grows d d'"
  using assms(1) unfolding abort_tx_def
proof (elim yields_bind yields_stmt)
  fix x d1 n d2
  assume l: "yields (LockOrderTx oid) d x d1"
    and p: "update_payments (\<lambda>p. p_id p = pid \<and> p_status p = PaymentPending)
         (\<lambda>p. p\<lparr>p_status := PaymentFailed, p_updated_at := clock d1\<rparr>) d1 = Inr (n, d2)"
    and rest: "yields (if n = 0 then returnG ()
         else bindG (stmt (\<lambda>d. update_orders (\<lambda>r. o_id r = oid)
                (\<lambda>r. r\<lparr>o_payment_status := Some PaymentFailed, o_idempotency_key := None,
                        o_updated_at := clock d\<rparr>) d)) (\<lambda>_.
              bindG (CancelUnpaidOrderTx env oid NotePaymentOpenFailed) (\<lambda>_. returnG ()))) d2 u d'"
  have d2: "grows d d2" "orders d2 = orders d" using lock_same [OF l] p grows_payments by (auto simp: update_payments_def)
  have "grows d2 d'"
  proof (cases "n = 0")
    case True
    then show ?thesis using rest by (auto elim: yields_return)
  next
    case False
    then obtain m d3 b d4 where u: "update_orders (\<lambda>r. o_id r = oid)
          (\<lambda>r. r\<lparr>o_payment_status := Some PaymentFailed, o_idempotency_key := None, o_updated_at := clock d2\<rparr>) d2 = Inr (m, d3)"
        and c: "yields (CancelUnpaidOrderTx env oid NotePaymentOpenFailed) d3 b d4" "d' = d4"
      using rest by (auto elim!: yields_bind yields_stmt yields_return)
    have "grows d2 d3" by (rule grows_update [OF u]) (simp_all add: order_core_def)
    also have "map o_id (orders d3) = map o_id (orders d2)" by (rule ids_update [OF u]) simp
    then have "grows d3 d'" using grows_cancel_unpaid [OF c(1)] dist d2 c(2) by simp
    finally show ?thesis .
  qed
  with d2(1) show ?thesis by (rule grows_trans)
qed

lemma grows_callback:
  assumes y: "yields (callback_tx env prov ev raw) d res d'" and i: "consistent d"
  shows "grows d d'"
  using assms
proof (cases rule: callback_effect)
  case (refund p0 r)
  have r: "r \<in> set (orders d)" using refund(1) by (simp add: matches_event_def)
  show ?thesis
    by (rule grows_pay_change [OF refund(6) _ inv_keys(1) [OF i] r]) (simp add: later_same order_core_def)
next
  case (applied p0 r d3 b)
  have r: "r \<in> set (orders d)" using applied(1) by (simp add: matches_event_def)
  have g: "grows d d3"
    by (rule grows_pay_change [OF applied(4) _ inv_keys(1) [OF i] r])
       (simp add: later_same order_core_def event_row_def)
  have "orders d3 = set_row r (event_row ev (clock d) r) d" using applied(4) unfolding pay_change_def by auto
  then have dist: "distinct (map o_id (orders d3))"
    using distinct_set_row [of "event_row ev (clock d) r" r d] inv_keys(1) [OF i] by simp
  have "grows d3 d'"
  proof (cases "ev_Status ev = PaymentPaid \<and> o_status r = StatusCancelled")
    case True
    then have "yields (MarkRefundRequiredTx (o_id r)) d3 () d'" using applied(7) by simp
    from MarkRefund_effect [OF this] show ?thesis
      by (intro grows_map [where f = "\<lambda>x. if o_id x = o_id r then x\<lparr>o_refund_required := True, o_updated_at := clock d3\<rparr> else x"])
         (simp_all add: later_same order_core_def)
  next
    case False
    show ?thesis
    proof (cases "ev_Status ev = PaymentCancelled")
      case True
      then have "yields (CancelUnpaidOrderTx env (o_id r) NotePaymentCancelled) d3 b d'" using applied(7) by simp
      then show ?thesis using dist by (rule grows_cancel_unpaid)
    qed (use applied(7) False in auto)
  qed
  with g show ?thesis by (rule grows_trans)
qed simp

lemma grows_placed:
  assumes "placed_rows inp method qty vids d r p rows h d'" shows "grows d d'"
proof -
  have "orders d' = orders d @ [r]" "order_items d' = order_items d @ rows"
      "order_status_history d' = order_status_history d @ [h]"
    using assms unfolding placed_rows_def by blast+
  then show ?thesis by (auto simp: grows_def intro: later_refl)
qed

lemma grows_release: "grows d (release_key x d)"
  by (rule grows_map [where f = "\<lambda>r. if o_id r = x then r\<lparr>o_idempotency_key := None\<rparr> else r"])
     (simp_all add: release_key_def later_same order_core_def)

lemma grows_place:
  assumes y: "yields (place_tx env inp method after a p qty vids c k) d out d'" and dv: "distinct vids"
    and after: "\<And>ord d1 pid d2. yields (after ord) d1 pid d2 \<Longrightarrow> grows d1 d2"
  shows "grows d d'"
  using y dv
proof (cases rule: place_tx_effect)
  case (placed d0 r q rows h d1 ord pid)
  have "grows d d0" using placed(1) grows_release by auto
  also have "grows d0 d1" using grows_placed placed(3) by blast
  also have "grows d1 d'" using after placed(4) by blast
  finally show ?thesis .
qed simp

lemma step_grows:
  assumes "step env d d'" and i: "consistent d"
  shows "grows d d'"
  using assms(1)
proof (cases rule: step.cases)
  case (place_cash inp qty vids a p c k out)
  show ?thesis
    by (rule grows_place [OF place_cash(2) mergeItemQuantities_Inr(2) [OF place_cash(1)]]) (auto elim: yields_return)
next
  case (place_online inp qty vids prov a p c k out)
  show ?thesis
    by (rule grows_place [OF place_online(2) mergeItemQuantities_Inr(2) [OF place_online(1)]])
       (auto simp: online_after_def grows_def elim!: yields_stmt dest!: insert_payment_Inr(1) intro: later_refl)
next
  case (admin_update actor key to x)
  show ?thesis using admin_update inv_keys(1) [OF i]
  proof (cases rule: admin_update_effect)
    case (cancel r h)
    then show ?thesis using grows_cancelled [OF _ inv_keys(1) [OF i]] by blast
  next
    case (advance r h)
    show ?thesis
      by (rule grows_moved [OF advance(6) _ inv_keys(1) [OF i]])
         (use advance(4) in \<open>simp add: later_def order_core_def advanced_row_def r_into_rtranclp\<close>)
  qed
next
  case (customer_cancel cu key ord)
  show ?thesis using customer_cancel inv_keys(1) [OF i]
  proof (cases rule: customer_cancel_effect)
    case (1 r h)
    show ?thesis by (rule grows_cancelled [OF 1(6) inv_keys(1) [OF i]]) (simp add: 1 validStatusTransition_def)
  qed
next
  case (retry cu key prov z)
  show ?thesis using retry inv_keys(1) [OF i]
  proof (cases rule: retry_effect)
    case (1 r p)
    show ?thesis by (rule grows_pay_change [OF 1(6) _ inv_keys(1) [OF i] 1(1)]) (simp add: later_same order_core_def)
  qed
next
  case (store_url pid tx url u)
  then show ?thesis
    unfolding store_session_def set_provider_tx_def
    by (elim yields_bind yields_stmt yields_return) (auto simp: update_payments_def grows_payments split: if_splits)
next
  case (store_qr pid tx u)
  then show ?thesis
    unfolding store_session_def set_provider_tx_def
    by (elim yields_bind yields_stmt yields_return) (auto simp: update_payments_def grows_payments split: if_splits)
next
  case (fail_attempt pid oid u)
  then show ?thesis using grows_fail_attempt by blast
next
  case (abort pid oid u)
  then show ?thesis using grows_abort inv_keys(1) [OF i] by blast
next
  case (callback prov ev raw res)
  then show ?thesis using grows_callback i by blast
next
  case (expire oid ttl b)
  then show ?thesis using expire_effect grows_cancel_unpaid inv_keys(1) [OF i] by fastforce
qed

lemma steps_grow: "steps env d d' \<Longrightarrow> consistent d \<Longrightarrow> grows d d'"
  unfolding steps_def
proof (induction rule: rtranclp_induct)
  case (step y z)
  have "consistent y" using steps_keep [of env d y] step by (simp add: steps_def)
  then show ?case using step grows_trans step_grows by blast
qed simp

text \<open>The two final statuses are never left.\<close>

lemma final_status:
  assumes "validStatusTransition\<^sup>*\<^sup>* a b" "a = StatusDelivered \<or> a = StatusCancelled" shows "b = a"
  using assms by (induction rule: rtranclp_induct) (auto simp: validStatusTransition_def split: if_splits)

end
