(* ===== verification/PaymentLog.thy ===== *)
theory PaymentLog
  imports OrderLog
begin

text \<open>
  What no step ever undoes in \<^verbatim>\<open>payments\<close>: an attempt keeps its identifier, order, provider and amount, and its
  status only moves along \<open>pay_next\<close>: money that was received is never forgotten, a refund is final.
  The unique index on (provider, provider_tx_id) is an invariant too (\<open>ext_unique\<close>).
\<close>

section \<open>The life of an attempt\<close>

definition pay_next :: "PaymentStatus \<Rightarrow> PaymentStatus \<Rightarrow> bool" where
  "pay_next a b \<longleftrightarrow>
     a = PaymentPending \<and> (b = PaymentPaid \<or> b = PaymentFailed \<or> b = PaymentCancelled) \<or>
     (a = PaymentFailed \<or> a = PaymentCancelled) \<and> b = PaymentPaid \<or>
     a = PaymentPaid \<and> b = PaymentRefunded"

definition pay_core :: "payment_row \<Rightarrow> string \<times> string \<times> string \<times> int \<times> string" where
  "pay_core p = (p_id p, p_order_id p, p_provider p, p_amount p, p_currency p)"

definition pay_later :: "payment_row \<Rightarrow> payment_row \<Rightarrow> bool" where
  "pay_later p p' \<longleftrightarrow> pay_core p' = pay_core p \<and> pay_next\<^sup>*\<^sup>* (p_status p) (p_status p')"

text \<open>\<open>pays_grow\<close>: the rows of before, each moved on and with its external id, then the new ones without one.\<close>

definition pays_grow :: "db \<Rightarrow> db \<Rightarrow> bool" where
  "pays_grow d d' \<longleftrightarrow> (\<exists>f qs. payments d' = map f (payments d) @ qs \<and>
     (\<forall>p \<in> set (payments d). pay_later p (f p) \<and> p_provider_tx_id (f p) = p_provider_tx_id p) \<and>
     (\<forall>q \<in> set qs. p_provider_tx_id q = None))"

definition pays_persist :: "db \<Rightarrow> db \<Rightarrow> bool" where
  "pays_persist d d' \<longleftrightarrow> (\<forall>p \<in> set (payments d). \<exists>p' \<in> set (payments d'). pay_later p p')"

definition ext_unique :: "db \<Rightarrow> bool" where
  "ext_unique d \<longleftrightarrow> (\<forall>p \<in> set (payments d). \<forall>q \<in> set (payments d).
     p_provider p = p_provider q \<and> p_provider_tx_id p = p_provider_tx_id q \<and> p_provider_tx_id p \<noteq> None
       \<longrightarrow> p_id p = p_id q)"

lemma pay_later_refl [simp]: "pay_later p p" by (simp add: pay_later_def)

lemma pay_later_trans: "pay_later a b \<Longrightarrow> pay_later b c \<Longrightarrow> pay_later a c"
  unfolding pay_later_def by (auto intro: rtranclp_trans)

lemma pay_later_one: "pay_core p' = pay_core p \<Longrightarrow> p_status p' = p_status p \<or> pay_next (p_status p) (p_status p') \<Longrightarrow> pay_later p p'"
  by (auto simp: pay_later_def)

lemma pays_growI:
  assumes "payments d' = map f (payments d) @ qs"
    and "\<And>p. p \<in> set (payments d) \<Longrightarrow> pay_later p (f p) \<and> p_provider_tx_id (f p) = p_provider_tx_id p"
    and "\<And>q. q \<in> set qs \<Longrightarrow> p_provider_tx_id q = None"
  shows "pays_grow d d'"
  using assms unfolding pays_grow_def by blast

lemma pays_map:
  assumes "payments d' = map f (payments d)"
    and "\<And>p. p \<in> set (payments d) \<Longrightarrow> pay_later p (f p) \<and> p_provider_tx_id (f p) = p_provider_tx_id p"
  shows "pays_grow d d'"
  by (rule pays_growI [of d' f d "[]"]) (use assms in auto)

lemma pays_same: "payments d' = payments d \<Longrightarrow> pays_grow d d'"
  by (rule pays_map [where f = id]) simp_all

lemma pays_trans [trans]:
  assumes "pays_grow a b" "pays_grow b c" shows "pays_grow a c"
proof -
  obtain f qs where f: "payments b = map f (payments a) @ qs"
      "\<forall>p \<in> set (payments a). pay_later p (f p) \<and> p_provider_tx_id (f p) = p_provider_tx_id p"
      "\<forall>q \<in> set qs. p_provider_tx_id q = None" using assms(1) unfolding pays_grow_def by blast
  obtain g rs where g: "payments c = map g (payments b) @ rs"
      "\<forall>p \<in> set (payments b). pay_later p (g p) \<and> p_provider_tx_id (g p) = p_provider_tx_id p"
      "\<forall>q \<in> set rs. p_provider_tx_id q = None" using assms(2) unfolding pays_grow_def by blast
  show ?thesis
  proof (rule pays_growI [where f = "g \<circ> f" and qs = "map g qs @ rs"])
    show "payments c = map (g \<circ> f) (payments a) @ map g qs @ rs" using f(1) g(1) by simp
    show "pay_later p ((g \<circ> f) p) \<and> p_provider_tx_id ((g \<circ> f) p) = p_provider_tx_id p" if "p \<in> set (payments a)" for p
      using f(1,2) g(2) that pay_later_trans by auto
    show "p_provider_tx_id q = None" if "q \<in> set (map g qs @ rs)" for q using f(1,3) g(2,3) that by auto
  qed
qed

lemma pays_grow_persist: "pays_grow d d' \<Longrightarrow> pays_persist d d'"
  unfolding pays_grow_def pays_persist_def by force

lemma pays_grow_ext:
  assumes "pays_grow d d'" "ext_unique d" shows "ext_unique d'"
proof -
  obtain f qs where f: "payments d' = map f (payments d) @ qs"
      "\<forall>p \<in> set (payments d). pay_later p (f p) \<and> p_provider_tx_id (f p) = p_provider_tx_id p"
      "\<forall>q \<in> set qs. p_provider_tx_id q = None" using assms(1) unfolding pays_grow_def by blast
  have old: "p_provider (f p) = p_provider p \<and> p_provider_tx_id (f p) = p_provider_tx_id p \<and> p_id (f p) = p_id p"
    if "p \<in> set (payments d)" for p
    using f(2) that by (auto simp: pay_later_def pay_core_def)
  show ?thesis
    unfolding ext_unique_def f(1)
  proof (intro ballI impI)
    fix x y assume xy: "x \<in> set (map f (payments d) @ qs)" "y \<in> set (map f (payments d) @ qs)"
      and e: "p_provider x = p_provider y \<and> p_provider_tx_id x = p_provider_tx_id y \<and> p_provider_tx_id x \<noteq> None"
    then obtain p q where "p \<in> set (payments d)" "x = f p" "q \<in> set (payments d)" "y = f q"
      using f(3) by auto
    then show "p_id x = p_id y" using old e assms(2) unfolding ext_unique_def by metis
  qed
qed

section \<open>Every step\<close>

lemma pays_closed: "pays_grow d (d'\<lparr>payments := closed_pending d oid\<rparr>)"
  by (rule pays_map [where f = "\<lambda>p. if p_order_id p = oid \<and> p_status p = PaymentPending
        then p\<lparr>p_status := PaymentCancelled, p_updated_at := clock d\<rparr> else p"])
     (auto simp: closed_pending_def pay_core_def pay_next_def intro!: pay_later_one)

lemma pays_cancelled: "cancelled r h d d' \<Longrightarrow> pays_grow d d'"
proof -
  assume "cancelled r h d d'"
  then have "payments d' = payments d \<or> payments d' = closed_pending d (o_id r)"
    unfolding cancelled_def by (auto split: if_splits)
  then show ?thesis
  proof
    assume "payments d' = closed_pending d (o_id r)"
    then have "d' = d'\<lparr>payments := closed_pending d (o_id r)\<rparr>" by (metis db.surjective db.update_convs(11))
    then show ?thesis using pays_closed by metis
  qed (rule pays_same)
qed

lemma pays_cancel_unpaid:
  assumes "yields (CancelUnpaidOrderTx env oid nt) d b d'" "distinct (map o_id (orders d))"
  shows "pays_grow d d'"
  using assms by (cases rule: CancelUnpaid_effect) (auto intro: pays_cancelled pays_same)

lemma pays_fail:
  assumes "update_payments (\<lambda>p. p_id p = pid \<and> p_status p = PaymentPending)
         (\<lambda>p. p\<lparr>p_status := PaymentFailed, p_updated_at := t\<rparr>) d = Inr (n, d')"
  shows "pays_grow d d'"
  by (rule pays_map [where f = "\<lambda>p. if p_id p = pid \<and> p_status p = PaymentPending
        then p\<lparr>p_status := PaymentFailed, p_updated_at := t\<rparr> else p"])
     (use assms in \<open>auto simp: update_payments_def pay_core_def pay_next_def intro!: pay_later_one\<close>)

lemma payments_update: "update_orders P f d = Inr (n, d') \<Longrightarrow> payments d' = payments d"
  by (auto simp: update_orders_def split: if_splits)

lemma pays_fail_attempt:
  assumes "yields (fail_attempt_tx pid oid) d u d'" shows "pays_grow d d'"
  using assms unfolding fail_attempt_tx_def
proof (elim yields_bind yields_stmt)
  fix x d1 n d2
  assume l: "yields (LockOrderTx oid) d x d1"
    and p: "update_payments (\<lambda>p. p_id p = pid \<and> p_status p = PaymentPending)
         (\<lambda>p. p\<lparr>p_status := PaymentFailed, p_updated_at := clock d1\<rparr>) d1 = Inr (n, d2)"
    and rest: "yields (if n = 0 then returnG ()
         else bindG (stmt (\<lambda>d. update_orders (\<lambda>r. o_id r = oid \<and> o_status r = StatusPlaced)
              (\<lambda>r. r\<lparr>o_payment_status := Some PaymentFailed, o_updated_at := clock d\<rparr>) d)) (\<lambda>_. returnG ())) d2 u d'"
  have "pays_grow d d2" using pays_fail [OF p] lock_same [OF l] by simp
  also have "payments d' = payments d2"
    using rest by (auto elim!: yields_bind yields_return yields_stmt dest: payments_update split: if_splits)
  then have "pays_grow d2 d'" by (rule pays_same)
  finally show ?thesis .
qed

lemma pays_abort:
  assumes "yields (abort_tx env pid oid) d u d'" and dist: "distinct (map o_id (orders d))"
  shows "pays_grow d d'"
  using assms(1) unfolding abort_tx_def
proof (elim yields_bind yields_stmt)
  fix x d1 n d2
  assume l: "yields (LockOrderTx oid) d x d1"
    and p: "update_payments (\<lambda>p. p_id p = pid \<and> p_status p = PaymentPending)
         (\<lambda>p. p\<lparr>p_status := PaymentFailed, p_updated_at := clock d1\<rparr>) d1 = Inr (n, d2)"
    and rest: "yields (if n = 0 then returnG ()
         else bindG (stmt (\<lambda>d. update_orders (\<lambda>r. o_id r = oid)
                (\<lambda>r. r\<lparr>o_payment_status := Some PaymentFailed, o_idempotency_key := None,
                        o_updated_at := clock d\<rparr>) d)) (\<lambda>_.
              bindG (CancelUnpaidOrderTx env oid NotePaymentOpenFailed) (\<lambda>_. returnG ()))) d2 u d'"
  have d2: "pays_grow d d2" "orders d2 = orders d"
    using pays_fail [OF p] lock_same [OF l] p by (auto simp: update_payments_def)
  have "pays_grow d2 d'"
  proof (cases "n = 0")
    case True
    then show ?thesis using rest by (auto elim!: yields_return intro: pays_same)
  next
    case False
    then obtain m d3 b d4 where u: "update_orders (\<lambda>r. o_id r = oid)
          (\<lambda>r. r\<lparr>o_payment_status := Some PaymentFailed, o_idempotency_key := None, o_updated_at := clock d2\<rparr>) d2 = Inr (m, d3)"
        and c: "yields (CancelUnpaidOrderTx env oid NotePaymentOpenFailed) d3 b d4" "d' = d4"
      using rest by (auto elim!: yields_bind yields_stmt yields_return)
    have "map o_id (orders d3) = map o_id (orders d2)" by (rule ids_update [OF u]) simp
    then have "pays_grow d3 d'" using pays_cancel_unpaid [OF c(1)] dist d2 c(2) by simp
    then show ?thesis using pays_trans [OF pays_same [OF payments_update [OF u]]] by blast
  qed
  with d2(1) show ?thesis by (rule pays_trans)
qed

lemma verdict_next:
  "verdict cur to ord = (True, False) \<Longrightarrow> pay_next cur to"
  by (auto simp: verdict_apply pay_next_def isUnpaidFinal_def)

lemma pays_event:
  assumes "pay_change r (event_row ev t r) (event_pays ev raw (p_id p0) oid d) d d'"
    and p0: "p0 \<in> set (payments d)" "distinct (map p_id (payments d))" and v: "pay_next (p_status p0) (ev_Status ev)"
  shows "pays_grow d d'"
proof (rule pays_map)
  let ?e = "\<lambda>p. if p_id p = p_id p0 then event_pay ev raw (clock d) p else p"
  let ?f = "\<lambda>p. if ev_Status ev = PaymentPaid \<and> p_order_id (?e p) = oid then close (clock d) (?e p) else ?e p"
  have "payments d' = event_pays ev raw (p_id p0) oid d" using assms(1) unfolding pay_change_def by auto
  also have "\<dots> = map ?f (payments d)" by (auto simp: event_pays_def set_pay_def Let_def)
  finally show "payments d' = map ?f (payments d)" .
  fix p assume p: "p \<in> set (payments d)"
  have a: "pay_later p (?e p)"
    using v distinct_map_eqD [OF p0(2) p p0(1)]
    by (auto simp: pay_core_def event_pay_def intro!: pay_later_one)
  have b: "pay_later q (close (clock d) q)" for q
    by (auto simp: close_def pay_core_def pay_next_def intro!: pay_later_one)
  have "pay_later p (if c then close (clock d) (?e p) else ?e p)" for c
    using a pay_later_trans [OF a b] by (cases c) (simp_all only: if_True if_False)
  then have "pay_later p (?f p)" .
  moreover have "p_provider_tx_id (?f p) = p_provider_tx_id p" by (simp add: close_def event_pay_def)
  ultimately show "pay_later p (?f p) \<and> p_provider_tx_id (?f p) = p_provider_tx_id p" ..
qed

lemma pays_callback:
  assumes y: "yields (callback_tx env prov ev raw) d res d'" and i: "consistent d"
  shows "pays_grow d d'"
  using assms
proof (cases rule: callback_effect)
  case (refund p0 r)
  show ?thesis
    by (rule pays_map [where f = "\<lambda>p. if p_id p = p_id p0
          then p\<lparr>p_raw_webhook := Some raw, p_updated_at := clock d\<rparr> else p"])
       (use refund(6) in \<open>auto simp: pay_change_def set_pay_def pay_core_def intro!: pay_later_one\<close>)
next
  case (applied p0 r d3 b)
  have p0: "p0 \<in> set (payments d)" using applied(1) by (simp add: matches_event_def)
  have g: "pays_grow d d3" by (rule pays_event [OF applied(4) p0 inv_keys(2) [OF i] verdict_next [OF applied(2)]])
  have "orders d3 = set_row r (event_row ev (clock d) r) d" using applied(4) unfolding pay_change_def by auto
  then have dist: "distinct (map o_id (orders d3))"
    using distinct_set_row [of "event_row ev (clock d) r" r d] inv_keys(1) [OF i] by simp
  have "pays_grow d3 d'"
  proof (cases "ev_Status ev = PaymentPaid \<and> o_status r = StatusCancelled")
    case True
    then have "yields (MarkRefundRequiredTx (o_id r)) d3 () d'" using applied(7) by simp
    from MarkRefund_effect [OF this] show ?thesis by (intro pays_same) simp
  next
    case False
    show ?thesis
    proof (cases "ev_Status ev = PaymentCancelled")
      case True
      then have "yields (CancelUnpaidOrderTx env (o_id r) NotePaymentCancelled) d3 b d'" using applied(7) by simp
      then show ?thesis using dist by (rule pays_cancel_unpaid)
    qed (use applied(7) False in \<open>auto intro: pays_same\<close>)
  qed
  with g show ?thesis by (rule pays_trans)
qed (simp add: pays_same)

lemma pays_place:
  assumes y: "yields (place_tx env inp method after a p qty vids c k) d out d'" and dv: "distinct vids"
    and after: "\<And>ord d1 pid d2. yields (after ord) d1 pid d2 \<Longrightarrow> pays_grow d1 d2"
  shows "pays_grow d d'"
  using y dv
proof (cases rule: place_tx_effect)
  case (placed d0 r q rows h d1 ord pid)
  have "payments d1 = payments d" using placed(1,3) by (auto simp: placed_rows_def release_key_def)
  then have "pays_grow d d1" by (rule pays_same)
  also have "pays_grow d1 d'" using after placed(4) by blast
  finally show ?thesis .
qed (simp add: pays_same)

lemma store_pays:
  assumes y: "yields (store_session pid tx f) d u d'"
    and f: "\<And>p. pay_core (f p) = pay_core p" "\<And>p. p_status (f p) = p_status p"
  shows "pays_persist d d'" and "distinct (map p_id (payments d)) \<Longrightarrow> ext_unique d \<Longrightarrow> ext_unique d'"
proof -
  let ?g = "\<lambda>p. if p_id p = pid then (f p)\<lparr>p_provider_tx_id := Some tx, p_updated_at := clock d\<rparr> else p"
  have set: "set_provider_tx pid tx f d = Inr (length (filter (\<lambda>r. p_id r = pid) (payments d)), d')"
    using y unfolding store_session_def
    by (elim yields_bind yields_stmt yields_return) (auto simp: set_provider_tx_def update_payments_def split: if_splits)
  have d': "payments d' = map ?g (payments d)"
    and free: "\<And>r x. r \<in> set (payments d) \<Longrightarrow> p_id r = pid \<Longrightarrow> x \<in> set (payments d) \<Longrightarrow> p_id x \<noteq> pid \<Longrightarrow>
        p_provider x = p_provider r \<Longrightarrow> p_provider_tx_id x \<noteq> Some tx"
    using set by (auto simp: set_provider_tx_def update_payments_def split: if_splits)
  have g: "pay_later p (?g p)" for p using f [of p] by (auto simp: pay_core_def intro!: pay_later_one)
  show "pays_persist d d'" unfolding pays_persist_def d' using g by fastforce
  have id: "p_id (f p) = p_id p" "p_provider (f p) = p_provider p" for p using f(1) [of p] by (simp_all add: pay_core_def)
  show "ext_unique d'" if dist: "distinct (map p_id (payments d))" and e: "ext_unique d"
    unfolding ext_unique_def d'
  proof (intro ballI impI)
    fix x y assume xy: "x \<in> set (map ?g (payments d))" "y \<in> set (map ?g (payments d))"
      and eq: "p_provider x = p_provider y \<and> p_provider_tx_id x = p_provider_tx_id y \<and> p_provider_tx_id x \<noteq> None"
    obtain p where p: "x = ?g p" "p \<in> set (payments d)" using xy(1) unfolding set_map by (rule imageE)
    obtain q where q: "y = ?g q" "q \<in> set (payments d)" using xy(2) unfolding set_map by (rule imageE)
    note pq = p q
    have gf: "p_id (?g p) = p_id p" "p_provider (?g p) = p_provider p"
        "p_provider_tx_id (?g p) = (if p_id p = pid then Some tx else p_provider_tx_id p)" for p
      by (simp_all add: id)
    have e': "p_provider p = p_provider q" "(if p_id p = pid then Some tx else p_provider_tx_id p) =
        (if p_id q = pid then Some tx else p_provider_tx_id q)"
        "(if p_id p = pid then Some tx else p_provider_tx_id p) \<noteq> None"
      using eq unfolding p(1) q(1) gf by blast+
    have "p_id p = p_id q"
    proof (cases "p_id p = pid \<longleftrightarrow> p_id q = pid")
      case True
      show ?thesis
      proof (cases "p_id p = pid")
        case False
        then have "p_provider_tx_id p = p_provider_tx_id q \<and> p_provider_tx_id p \<noteq> None" using True e'(2,3) by simp
        then show ?thesis using e [unfolded ext_unique_def, rule_format, OF p(2) q(2)] e'(1) by blast
      qed (use True in simp)
    next
      case False
      show ?thesis
      proof (cases "p_id p = pid")
        case True
        then have "p_id q \<noteq> pid" "p_provider_tx_id q = Some tx" using \<open>\<not> (p_id p = pid \<longleftrightarrow> p_id q = pid)\<close> e'(2) by simp_all
        then show ?thesis using free [OF p(2) True q(2)] e'(1) by simp
      next
        case no: False
        then have "p_id q = pid" "p_provider_tx_id p = Some tx" using False e'(2) by simp_all
        then show ?thesis using free [OF q(2) _ p(2) no] e'(1) by simp
      qed
    qed
    then show "p_id x = p_id y" unfolding p(1) q(1) gf .
  qed
qed

lemma step_pays:
  assumes "step env d d'" and i: "consistent d"
  shows "pays_persist d d' \<and> (ext_unique d \<longrightarrow> ext_unique d')"
proof -
  note k = inv_keys [OF i]
  have "pays_grow d d' \<or> (\<exists>pid tx f u. yields (store_session pid tx f) d u d' \<and>
      (\<forall>p. pay_core (f p) = pay_core p \<and> p_status (f p) = p_status p))"
    using assms(1)
  proof (cases rule: step.cases)
    case (place_cash inp qty vids a p c k out)
    have "pays_grow d d'"
      by (rule pays_place [OF place_cash(2) mergeItemQuantities_Inr(2) [OF place_cash(1)]])
         (auto elim!: yields_return intro: pays_same)
    then show ?thesis ..
  next
    case (place_online inp qty vids prov a p c k out)
    have "pays_grow d1 d2" if "yields (online_after env prov ord) d1 pid d2" for ord d1 pid d2
    proof -
      have "insert_payment env (ID ord) prov (numeric_of_float (TotalAmount ord)) d1 = Inr (pid, d2)"
        using that unfolding online_after_def by (rule yields_stmt) 
      from insert_payment_Inr(1) [OF this] show ?thesis
        by (intro pays_growI [where f = id and qs = "[\<lparr>p_id = pid, p_order_id = ID ord, p_provider = prov,
               p_provider_tx_id = None, p_status = PaymentPending, p_amount = numeric_of_float (TotalAmount ord),
               p_currency = ''KGS'', p_redirect_url = None, p_raw_webhook = None,
               p_created_at = clock d1, p_updated_at = clock d1\<rparr>]"]) simp_all
    qed
    then have "pays_grow d d'"
      by (rule pays_place [OF place_online(2) mergeItemQuantities_Inr(2) [OF place_online(1)]])
    then show ?thesis ..
  next
    case (admin_update actor key to x)
    have "pays_grow d d'" using admin_update k(1)
      by (cases rule: admin_update_effect) (auto intro: pays_cancelled pays_same)
    then show ?thesis ..
  next
    case (customer_cancel cu key ord)
    have "pays_grow d d'" using customer_cancel k(1)
      by (cases rule: customer_cancel_effect) (auto intro: pays_cancelled)
    then show ?thesis ..
  next
    case (retry cu key prov z)
    have "pays_grow d d'" using retry k(1)
    proof (cases rule: retry_effect)
      case (1 r p)
      have "payments d' = closed_pending d (o_id r) @ [p]" using 1(6) by (auto simp: pay_change_def)
      then show ?thesis
        by (intro pays_growI [where f = "\<lambda>p. if p_order_id p = o_id r \<and> p_status p = PaymentPending
              then p\<lparr>p_status := PaymentCancelled, p_updated_at := clock d\<rparr> else p" and qs = "[p]"])
           (use 1 in \<open>auto simp: closed_pending_def pay_core_def pay_next_def intro!: pay_later_one\<close>)
    qed
    then show ?thesis ..
  next
    case (store_url pid tx url u)
    then show ?thesis by (intro disjI2 exI conjI) (auto simp: pay_core_def)
  next
    case (store_qr pid tx u)
    then show ?thesis by (intro disjI2 exI conjI) auto
  next
    case (fail_attempt pid oid u)
    then show ?thesis using pays_fail_attempt by blast
  next
    case (abort pid oid u)
    then show ?thesis using pays_abort k(1) by blast
  next
    case (callback prov ev raw res)
    then show ?thesis using pays_callback i by blast
  next
    case (expire oid ttl b)
    have "pays_grow d d'" using expire_effect [OF expire] pays_cancel_unpaid k(1) by (auto intro: pays_same)
    then show ?thesis ..
  qed
  then show ?thesis
    using pays_grow_persist pays_grow_ext store_pays k(2) by blast
qed

lemma pays_persist_trans: "pays_persist a b \<Longrightarrow> pays_persist b c \<Longrightarrow> pays_persist a c"
  unfolding pays_persist_def by (meson pay_later_trans)

lemma steps_pays:
  "steps env d d' \<Longrightarrow> consistent d \<Longrightarrow> pays_persist d d' \<and> (ext_unique d \<longrightarrow> ext_unique d')"
  unfolding steps_def
proof (induction rule: rtranclp_induct)
  case base
  then show ?case by (auto simp: pays_persist_def intro: pay_later_refl)
next
  case (step y z)
  have "consistent y" using steps_keep [of env d y] step by (simp add: steps_def)
  then show ?case using step step_pays pays_persist_trans by blast
qed

lemma reachable_ext: "reachable env d \<Longrightarrow> ext_unique d"
proof (induction rule: reachable.induct)
  case (start d)
  then show ?case by (simp add: empty_shop_def ext_unique_def)
next
  case (by_step d d')
  then show ?case using step_pays reachable_consistent_aux by blast
next
  case (by_outside d d')
  then show ?case by (simp add: outside_def ext_unique_def)
qed

text \<open>Received money stays received.\<close>

lemma paid_stays: "pay_next\<^sup>*\<^sup>* a b \<Longrightarrow> settled a \<Longrightarrow> settled b"
  by (induction rule: rtranclp_induct) (auto simp: pay_next_def settled_def)

end
