(* ===== verification/Json.thy ===== *)
theory Json
  imports CozyPrelude GoFloat AppErr
begin

text \<open>
  What the server uses of \<^verbatim>\<open>encoding/json\<close>. Reading the text of a document is a parameter of the
  definitions that do it; a document is a value of \<open>json\<close>, and decoding it into a Go struct is modelled:
  a key selects the field whose name it equals up to case folding, a later key overrides an earlier one,
  \<^verbatim>\<open>null\<close> and an absent key leave the zero value, any other type than the field's is an error. A number
  carries its value as an integer, when its literal is one an \<^verbatim>\<open>int64\<close> holds, and as a float64, when it is in range.
\<close>

datatype json =
    JNull | JBool bool | JNum "int option" "float64 option" | JStr string
  | JArr "json list" | JObj "(string \<times> json) list"

section \<open>Letter case\<close>

definition lower_byte :: "char \<Rightarrow> char" where
  "lower_byte c = (if 65 \<le> byte c \<and> byte c \<le> 90 then char_of (byte c + 32) else c)"

definition upper_byte :: "char \<Rightarrow> char" where
  "upper_byte c = (if 97 \<le> byte c \<and> byte c \<le> 122 then char_of (byte c - 32) else c)"

text \<open>
  \<^verbatim>\<open>strings.ToLower\<close>, as far as a comparison of the result with an ASCII text can tell: the letters
  outside ASCII with an ASCII lower case are U+0130 and U+212A; any other is copied.
\<close>

fun ToLower :: "string \<Rightarrow> string" where
  "ToLower [] = []"
| "ToLower (c # s) =
     (if prefix [CHR 0xC4, CHR 0xB0] (c # s) then CHR ''i'' # ToLower (drop 1 s)
      else if prefix [CHR 0xE2, CHR 0x84, CHR 0xAA] (c # s) then CHR ''k'' # ToLower (drop 2 s)
      else lower_byte c # ToLower s)"

text \<open>The folding of a field name: U+212A is a \<^verbatim>\<open>K\<close>, U+017F an \<^verbatim>\<open>S\<close>.\<close>

fun foldName :: "string \<Rightarrow> string" where
  "foldName [] = []"
| "foldName (c # s) =
     (if prefix [CHR 0xC5, CHR 0xBF] (c # s) then CHR ''S'' # foldName (drop 1 s)
      else if prefix [CHR 0xE2, CHR 0x84, CHR 0xAA] (c # s) then CHR ''K'' # foldName (drop 2 s)
      else upper_byte c # foldName s)"

section \<open>Struct fields\<close>

fun field :: "(json \<Rightarrow> 'a option) \<Rightarrow> string \<Rightarrow> 'a \<Rightarrow> (string \<times> json) list \<Rightarrow> 'a option" where
  "field dec name x [] = Some x"
| "field dec name x ((k, v) # kvs) =
     (if foldName k \<noteq> foldName name \<or> v = JNull then field dec name x kvs
      else case dec v of None \<Rightarrow> None | Some y \<Rightarrow> field dec name y kvs)"

fun dec_string :: "json \<Rightarrow> string option" where
  "dec_string (JStr s) = Some s"
| "dec_string _ = None"

fun dec_float :: "json \<Rightarrow> float64 option" where
  "dec_float (JNum i f) = f"
| "dec_float _ = None"

fun dec_int :: "json \<Rightarrow> int option" where
  "dec_int (JNum i f) = i"
| "dec_int _ = None"

text \<open>The fields of the document a body holds, \<open>None\<close> for what \<^verbatim>\<open>json.Unmarshal\<close> refuses for any struct.\<close>

definition struct_fields :: "(string \<Rightarrow> json option) \<Rightarrow> string \<Rightarrow> (string \<times> json) list option" where
  "struct_fields parse body =
     (case parse body of Some (JObj kvs) \<Rightarrow> Some kvs | Some JNull \<Rightarrow> Some [] | _ \<Rightarrow> None)"

lemma field_other:
  "\<forall>(k, v) \<in> set kvs. foldName k \<noteq> foldName name \<Longrightarrow> field dec name x kvs = Some x"
  by (induction kvs) auto

lemma field_append:
  "field dec name x (kvs @ kws) = (case field dec name x kvs of None \<Rightarrow> None | Some y \<Rightarrow> field dec name y kws)"
  by (induction dec name x kvs rule: field.induct) (auto split: option.split)

end
