(* ===== verification/Providers.thy ===== *)
theory Providers
  imports Payments Json
begin

text \<open>
  The two payment gateways: \<^verbatim>\<open>internal/payments/mock.go\<close> and \<^verbatim>\<open>bakai.go\<close>, and the choice between them
  (\<^verbatim>\<open>provider.go\<close>). The bank's HTTP endpoint and the random identifiers of the mock are parameters, as is the
  text of JSON documents; an HTTP request carries its body as the document. The contract of a callback
  (\<open>callback_auth\<close>) is a locale, interpreted for both.
\<close>

section \<open>Tokens\<close>

definition tokenEqual :: "string \<Rightarrow> string \<Rightarrow> bool" where
  "tokenEqual got want = (if got = [] \<or> want = [] then False else got = want)"

definition invalid_webhook_token :: go_error where
  "invalid_webhook_token = AppError (Unauthorized ''invalid_webhook_token'')"
definition invalid_callback :: go_error where
  "invalid_callback = AppError (BadRequest ''invalid_callback'')"

section \<open>The mock\<close>

definition MockProviderName :: string where "MockProviderName = ''mock''"
definition MockCheckoutPath :: string where "MockCheckoutPath = ''/api/v1/payments/mock/checkout/''"

record MockProvider =
  mk_baseURL :: string
  mk_token :: string
  mk_statuses :: "string \<Rightarrow> PaymentStatus option"

definition NewMockProvider :: "string \<Rightarrow> string \<Rightarrow> string \<Rightarrow> MockProvider" where
  "NewMockProvider random baseURL token =
     \<lparr>mk_baseURL = baseURL, mk_token = (if token = [] then random else token), mk_statuses = (\<lambda>_. None)\<rparr>"

definition mock_CreatePayment :: "MockProvider \<Rightarrow> string \<Rightarrow> Session \<times> MockProvider" where
  "mock_CreatePayment m random =
     (let xid = ''mock_'' @ random in
      (\<lparr>se_ExternalID = xid, se_RedirectURL = mk_baseURL m @ MockCheckoutPath @ xid\<rparr>,
       m\<lparr>mk_statuses := (mk_statuses m)(xid \<mapsto> PaymentPending)\<rparr>))"

record mockCallback =
  mc_ExternalID :: string
  mc_Status :: string
  mc_Amount :: float64

definition decode_mockCallback :: "(string \<times> json) list \<Rightarrow> mockCallback option" where
  "decode_mockCallback kvs =
     (case (field dec_string ''external_id'' [] kvs, field dec_string ''status'' [] kvs,
            field dec_float ''amount'' 0 kvs) of
        (Some x, Some s, Some a) \<Rightarrow> Some \<lparr>mc_ExternalID = x, mc_Status = s, mc_Amount = a\<rparr>
      | _ \<Rightarrow> None)"

definition mock_ParseCallback ::
  "(string \<Rightarrow> json option) \<Rightarrow> MockProvider \<Rightarrow> header \<Rightarrow> string \<Rightarrow> (go_error + CallbackEvent) \<times> MockProvider" where
  "mock_ParseCallback parse m hdr body =
     (if \<not> tokenEqual (hdr WebhookTokenHeader) (mk_token m) then (Inl invalid_webhook_token, m)
      else case Option.bind (struct_fields parse body) decode_mockCallback of
        None \<Rightarrow> (Inl invalid_callback, m)
      | Some cb \<Rightarrow>
          if mc_ExternalID cb = [] then (Inl invalid_callback, m)
          else case parse_payment_status (mc_Status cb) of
            None \<Rightarrow> (Inl invalid_callback, m)
          | Some st \<Rightarrow>
              (Inr \<lparr>ev_ExternalID = mc_ExternalID cb, ev_Status = st, ev_Amount = mc_Amount cb, ev_Raw = body\<rparr>,
               m\<lparr>mk_statuses := (mk_statuses m)(mc_ExternalID cb \<mapsto> st)\<rparr>))"

definition mock_QueryStatus :: "MockProvider \<Rightarrow> string \<Rightarrow> go_error + PaymentStatus" where
  "mock_QueryStatus m xid =
     (case mk_statuses m xid of None \<Rightarrow> Inl (AppError (NotFound ''payment_not_found'')) | Some st \<Rightarrow> Inr st)"

text \<open>\<^verbatim>\<open>http.Header.Set\<close>, on canonical names.\<close>

definition SignedCallback ::
  "(json \<Rightarrow> string) \<Rightarrow> MockProvider \<Rightarrow> string \<Rightarrow> PaymentStatus \<Rightarrow> float64 \<Rightarrow> header \<times> string" where
  "SignedCallback text m xid st amount =
     ((\<lambda>_. [])(WebhookTokenHeader := mk_token m, ''Content-Type'' := ''application/json''),
      text (JObj [(''external_id'', JStr xid), (''status'', JStr (payment_status_text st)),
                  (''amount'', JNum None (Some amount))]))"

definition mock_provider :: "(string \<Rightarrow> json option) \<Rightarrow> (string \<Rightarrow> string) \<Rightarrow> MockProvider \<Rightarrow> provider" where
  "mock_provider parse random m =
     \<lparr>prov_Name = MockProviderName, prov_Ready = Inr (),
      prov_CreatePayment = (\<lambda>req. Inr (fst (mock_CreatePayment m (random (cr_PaymentID req))))),
      prov_ParseCallback = (\<lambda>hdr body. fst (mock_ParseCallback parse m hdr body)),
      prov_QREnabled = None,
      prov_GenerateQR = (\<lambda>_ _. Inl ErrQRNotConfigured)\<rparr>"

section \<open>Bakai\<close>

definition BakaiProviderName :: string where "BakaiProviderName = ''bakai''"

record BakaiProvider =
  bk_baseURL :: string
  bk_token :: string
  bk_qrToken :: string
  bk_accountNo :: string
  bk_currencyID :: int
  bk_webhookToken :: string

fun trim_left_byte :: "char \<Rightarrow> string \<Rightarrow> string" where
  "trim_left_byte c [] = []"
| "trim_left_byte c (x # s) = (if x = c then trim_left_byte c s else x # s)"

definition trim_right_byte :: "char \<Rightarrow> string \<Rightarrow> string" where
  "trim_right_byte c s = rev (trim_left_byte c (rev s))"

definition NewBakaiProvider ::
  "string \<Rightarrow> string \<Rightarrow> string \<Rightarrow> string \<Rightarrow> int \<Rightarrow> string \<Rightarrow> BakaiProvider" where
  "NewBakaiProvider baseURL token qrToken accountNo currencyID webhookToken =
     \<lparr>bk_baseURL = trim_right_byte (CHR ''/'')
        (if baseURL = [] then ''https://openbanking-api.bakai.kg'' else baseURL),
      bk_token = token, bk_qrToken = qrToken, bk_accountNo = accountNo, bk_currencyID = currencyID,
      bk_webhookToken = webhookToken\<rparr>"

definition bakai_Ready :: "BakaiProvider \<Rightarrow> go_error + unit" where
  "bakai_Ready b = (if bk_token b = [] then Inl ErrNotConfigured else Inr ())"

definition bakai_QREnabled :: "BakaiProvider \<Rightarrow> bool" where
  "bakai_QREnabled b = (bk_qrToken b \<noteq> [])"

text \<open>A POST with a bearer token and a JSON body; its answer is a transport error or a status code with the body.\<close>

record http_request =
  rq_URL :: string
  rq_Authorization :: string
  rq_Body :: json

type_synonym http_client = "http_request \<Rightarrow> go_error + (int \<times> string)"

definition number :: "float64 \<Rightarrow> json" where "number x = JNum None (Some x)"
definition whole :: "int \<Rightarrow> json" where "whole n = JNum (Some n) (Some (rnd64 (of_int n)))"

text \<open>The messages of \<^verbatim>\<open>fmt.Errorf\<close> name what failed; the details they quote are left out.\<close>

definition bakai_CreatePayment :: "http_client \<Rightarrow> BakaiProvider \<Rightarrow> CreateRequest \<Rightarrow> go_error + Session" where
  "bakai_CreatePayment http b req =
     (case bakai_Ready b of
        Inl e \<Rightarrow> Inl e
      | Inr _ \<Rightarrow>
          if cr_ReturnURL req = [] then Inl (PlainError ''bakai: ReturnURL is required'')
          else case http \<lparr>rq_URL = bk_baseURL b @ ''/api/PayLink/CreatePayLink'',
                          rq_Authorization = ''Bearer '' @ bk_token b,
                          rq_Body = JObj [(''amount'', number (cr_Amount req)),
                                          (''transactionID'', JStr (cr_PaymentID req)),
                                          (''comment'', JStr (cr_OrderNumber req)),
                                          (''redirectURL'', JStr (cr_ReturnURL req))]\<rparr> of
            Inl e \<Rightarrow> Inl (PlainError ''bakai CreatePayLink'')
          | Inr (code, raw) \<Rightarrow>
              let out = trim_space (take (2 ^ 16) raw) in
              if code < 200 \<or> 300 \<le> code then Inl (PlainError ''bakai CreatePayLink: HTTP'')
              else
                let url = trim_right_byte (CHR 0x22) (trim_left_byte (CHR 0x22) out) in
                if \<not> prefix ''http'' url then Inl (PlainError ''bakai CreatePayLink: unexpected response'')
                else Inr \<lparr>se_ExternalID = cr_PaymentID req, se_RedirectURL = url\<rparr>)"

definition decode_generateQRResponse :: "(string \<times> json) list \<Rightarrow> (string \<times> string) option" where
  "decode_generateQRResponse kvs =
     (case (field dec_string ''qrImage'' [] kvs, field dec_string ''qrLink'' [] kvs,
            field dec_string ''qrImageWithFrame'' [] kvs) of
        (Some img, Some link, Some _) \<Rightarrow> Some (link, img)
      | _ \<Rightarrow> None)"

definition bakai_GenerateQR ::
  "http_client \<Rightarrow> (string \<Rightarrow> json option) \<Rightarrow> BakaiProvider \<Rightarrow> float64 \<Rightarrow> string \<Rightarrow> go_error + string \<times> string" where
  "bakai_GenerateQR http parse b amount operationID =
     (if \<not> bakai_QREnabled b then Inl ErrNotConfigured
      else case http \<lparr>rq_URL = bk_baseURL b @ ''/api/Qr/GenerateQR'',
                      rq_Authorization = ''Bearer '' @ bk_qrToken b,
                      rq_Body = JObj [(''accountNo'', JStr (bk_accountNo b)), (''currencyId'', whole (bk_currencyID b)),
                                      (''amount'', number amount), (''operationID'', JStr operationID),
                                      (''qrTtlUnits'', whole 5), (''qrTtl'', whole 5)]\<rparr> of
        Inl e \<Rightarrow> Inl (PlainError ''bakai GenerateQR'')
      | Inr (code, raw) \<Rightarrow>
          if code < 200 \<or> 300 \<le> code then Inl (PlainError ''bakai GenerateQR: HTTP'')
          else case Option.bind (struct_fields parse (take (2 ^ 20) raw)) decode_generateQRResponse of
            None \<Rightarrow> Inl (PlainError ''bakai GenerateQR decode'')
          | Some (link, picture) \<Rightarrow>
              if link = [] then Inl (PlainError ''bakai GenerateQR: empty qrLink'')
              else let img = trim_space picture in
                   Inr (link, if img \<noteq> [] \<and> \<not> prefix ''data:'' img then ''data:image/png;base64,'' @ img else img))"

record bakaiWebhook =
  bw_Amount :: float64
  bw_OperationID :: string
  bw_OperationState :: string

text \<open>The other five fields are read for their type only.\<close>

definition decode_bakaiWebhook :: "(string \<times> json) list \<Rightarrow> bakaiWebhook option" where
  "decode_bakaiWebhook kvs =
     (case (field dec_float ''amount'' 0 kvs, field dec_string ''operationID'' [] kvs,
            field dec_string ''operationState'' [] kvs) of
        (Some a, Some oid, Some st) \<Rightarrow>
          if field dec_string ''accountNo'' [] kvs = None \<or> field dec_int ''currencyID'' 0 kvs = None \<or>
             field dec_string ''comment'' [] kvs = None \<or> field dec_string ''qrTransactionID'' [] kvs = None \<or>
             field dec_string ''elqrID'' [] kvs = None
          then None else Some \<lparr>bw_Amount = a, bw_OperationID = oid, bw_OperationState = st\<rparr>
      | _ \<Rightarrow> None)"

definition bakai_status :: "string \<Rightarrow> PaymentStatus" where
  "bakai_status operationState =
     (let state = ToLower (trim_space operationState) in
      if state = ''success'' \<or> state = ''processed'' \<or> state = ''paid'' \<or> state = ''ok'' then PaymentPaid
      else if state = ''cancelled'' \<or> state = ''canceled'' \<or> state = ''cancel'' then PaymentCancelled
      else PaymentFailed)"

definition bakai_ParseCallback ::
  "(string \<Rightarrow> json option) \<Rightarrow> BakaiProvider \<Rightarrow> header \<Rightarrow> string \<Rightarrow> go_error + CallbackEvent" where
  "bakai_ParseCallback parse b hdr body =
     (if \<not> tokenEqual (hdr WebhookTokenHeader) (bk_webhookToken b) then Inl invalid_webhook_token
      else case Option.bind (struct_fields parse body) decode_bakaiWebhook of
        None \<Rightarrow> Inl invalid_callback
      | Some hook \<Rightarrow>
          if bw_OperationID hook = [] then Inl invalid_callback
          else Inr \<lparr>ev_ExternalID = trim_space (bw_OperationID hook), ev_Status = bakai_status (bw_OperationState hook),
                    ev_Amount = bw_Amount hook, ev_Raw = body\<rparr>)"

definition bakai_QueryStatus :: "string \<Rightarrow> go_error + PaymentStatus" where
  "bakai_QueryStatus xid = Inl ErrNotConfigured"

definition bakai_provider :: "http_client \<Rightarrow> (string \<Rightarrow> json option) \<Rightarrow> BakaiProvider \<Rightarrow> provider" where
  "bakai_provider http parse b =
     \<lparr>prov_Name = BakaiProviderName, prov_Ready = bakai_Ready b,
      prov_CreatePayment = bakai_CreatePayment http b,
      prov_ParseCallback = bakai_ParseCallback parse b,
      prov_QREnabled = Some (bakai_QREnabled b),
      prov_GenerateQR = bakai_GenerateQR http parse b\<rparr>"

text \<open>The choice by configuration, over the two providers as configured.\<close>

definition NewProvider :: "string \<Rightarrow> provider \<Rightarrow> provider \<Rightarrow> go_error + provider" where
  "NewProvider selected mock bakai =
     (if selected = ''mock'' then Inr mock else if selected = ''bakai'' then Inr bakai
      else Inl (PlainError ''payments: unknown provider''))"

section \<open>The contract of a callback\<close>

locale callback_auth =
  fixes parse_callback :: "header \<Rightarrow> string \<Rightarrow> go_error + CallbackEvent" and token :: string
  assumes signed: "parse_callback hdr body = Inr ev \<Longrightarrow> token \<noteq> [] \<and> hdr WebhookTokenHeader = token"
    and raw: "parse_callback hdr body = Inr ev \<Longrightarrow> ev_Raw ev = body"
    and refused: "parse_callback hdr body = Inl e \<Longrightarrow> \<exists>a. e = AppError a"
begin

lemma forged: "token = [] \<or> hdr WebhookTokenHeader \<noteq> token \<Longrightarrow> \<exists>a. parse_callback hdr body = Inl (AppError a)"
  using signed [of hdr body] refused [of hdr body] by (cases "parse_callback hdr body") auto

lemma forged_callback:
  assumes "token = [] \<or> hdr WebhookTokenHeader \<noteq> token"
    and "prov_ParseCallback (s_provider s) = parse_callback"
  shows "\<exists>a. HandleCallback env s name hdr body w = (Inl (AppError a), w)"
  using forged [of hdr body] assms
  by (auto simp: HandleCallback_def bindG_def liftG_def failG_def)

end

lemma tokenEqual_iff: "tokenEqual got want \<longleftrightarrow> want \<noteq> [] \<and> got = want"
  by (auto simp: tokenEqual_def)

interpretation mock: callback_auth "\<lambda>hdr body. fst (mock_ParseCallback parse m hdr body)" "mk_token m" for parse m
proof
  fix hdr body ev e
  let ?p = "\<lambda>b. fst (mock_ParseCallback parse m hdr b)"
  show "mk_token m \<noteq> [] \<and> hdr WebhookTokenHeader = mk_token m" if "?p body = Inr ev"
    using that by (simp add: mock_ParseCallback_def tokenEqual_iff split: if_splits)
  show "ev_Raw ev = body" if "?p body = Inr ev"
    using that by (auto simp: mock_ParseCallback_def split: if_splits option.splits)
  show "\<exists>a. e = AppError a" if "?p body = Inl e"
    using that by (auto simp: mock_ParseCallback_def invalid_webhook_token_def invalid_callback_def
        split: if_splits option.splits)
qed

interpretation bakai: callback_auth "bakai_ParseCallback parse b" "bk_webhookToken b" for parse b
proof
  fix hdr body ev e
  let ?p = "bakai_ParseCallback parse b hdr"
  show "bk_webhookToken b \<noteq> [] \<and> hdr WebhookTokenHeader = bk_webhookToken b" if "?p body = Inr ev"
    using that by (simp add: bakai_ParseCallback_def tokenEqual_iff split: if_splits)
  show "ev_Raw ev = body" if "?p body = Inr ev"
    using that by (auto simp: bakai_ParseCallback_def split: if_splits option.splits)
  show "\<exists>a. e = AppError a" if "?p body = Inl e"
    using that by (auto simp: bakai_ParseCallback_def invalid_webhook_token_def invalid_callback_def
        split: if_splits option.splits)
qed

end
