(* ===== verification/PaymentProperties.thy ===== *)
theory PaymentProperties
  imports PaymentLog Providers Demo
begin

text \<open>
  What the payment service promises: callbacks are authenticated, applied once, and never lose money.
\<close>

section \<open>A bank to talk to\<close>

definition demo_json :: "string \<Rightarrow> json option" where
  "demo_json body =
     (let event = (\<lambda>st a. Some (JObj [(''external_id'', JStr ''mock_1''), (''status'', JStr st),
                                      (''amount'', JNum None (Some a))])) in
      if body = ''paid'' then event ''paid'' 1000 else if body = ''short'' then event ''paid'' 999
      else if body = ''cancelled'' then event ''cancelled'' 1000 else None)"

definition demo_mock :: MockProvider where
  "demo_mock = NewMockProvider ''r'' ''http://shop'' ''secret''"

definition demo_service :: service where
  "demo_service = \<lparr>s_provider = mock_provider demo_json (\<lambda>x. x) demo_mock, s_publicBaseURL = ''http://shop'',
     s_json_valid = (\<lambda>_. True), s_json_string = (\<lambda>s. s)\<rparr>"

definition demo_header :: header where
  "demo_header = (\<lambda>_. [])(WebhookTokenHeader := ''secret'')"

definition demo_event :: "PaymentStatus \<Rightarrow> float64 \<Rightarrow> string \<Rightarrow> CallbackEvent" where
  "demo_event st a body = \<lparr>ev_ExternalID = ''mock_1'', ev_Status = st, ev_Amount = a, ev_Raw = body\<rparr>"

lemma demo_parse:
  "prov_ParseCallback (s_provider demo_service) demo_header ''paid'' = Inr (demo_event PaymentPaid 1000 ''paid'')"
  "prov_ParseCallback (s_provider demo_service) demo_header ''short'' = Inr (demo_event PaymentPaid 999 ''short'')"
  "prov_ParseCallback (s_provider demo_service) demo_header ''cancelled'' = Inr (demo_event PaymentCancelled 1000 ''cancelled'')"
  by (simp_all add: demo_service_def mock_provider_def mock_ParseCallback_def tokenEqual_def demo_header_def demo_mock_def
      NewMockProvider_def struct_fields_def demo_json_def decode_mockCallback_def parse_payment_status_def demo_event_def
      lower_byte_def upper_byte_def)

lemma demo_name: "prov_Name (s_provider demo_service) = ''mock''"
  by (simp add: demo_service_def mock_provider_def MockProviderName_def)

lemma demo_raw: "s_json_valid demo_service x"
  by (simp add: demo_service_def)

lemma demo_amounts: "toTyiyn 1000 = 100000" "toTyiyn 999 = 99900"
  by (simp_all add: float_eval)

lemma demo_paid:
  "\<exists>res w'. HandleCallback demo_env demo_service ''mock'' demo_header ''paid'' (calm open_db) = (Inr res, w') \<and>
     cb_Applied res"
  by (simp add: HandleCallback_def demo_name demo_parse demo_event_def demo_raw go_eval callback_tx_def LockOrderTx_def lockOrderTx_def
      select_order_def verdict_def transition_def isUnpaidFinal_def Let_def cong: run_congs)
     (simp add: apply_event_def demo_amounts demo_money set_payment_def update_payments_def close_pending_def go_eval
      set_payment_status_returning_def update_orders_def order_check_def NotifyOrderPaid_def getOrderAnyCustomer_def select_order_def
      orderKeyPredicate_def demo_uuid_def with_items_def attachItems_def Let_def cong: run_congs)

section \<open>Runs of a callback\<close>

lemma HandleCallback_cases:
  assumes "HandleCallback env s prov hdr body w = (res, w')"
  obtains (failed) e where "res = Inl e" "tables w' = tables w"
  | (done_) x ev raw where "res = Inr x" "prov_ParseCallback (s_provider s) hdr body = Inr ev"
      "yields (callback_tx env prov ev raw) (tables w) x (tables w')"
proof -
  show ?thesis
  proof (cases "prov = prov_Name (s_provider s)")
    case False
    then show ?thesis using assms failed by (auto simp: HandleCallback_def failG_def)
  next
    case True
    show ?thesis
    proof (cases "prov_ParseCallback (s_provider s) hdr body")
      case (Inl e)
      then show ?thesis using assms True failed by (auto simp: HandleCallback_def bindG_def liftG_def)
    next
      case (Inr ev)
      let ?raw = "if s_json_valid s (ev_Raw ev) then ev_Raw ev else s_json_string s (ev_Raw ev)"
      let ?tell = "\<lambda>r. if cb_Applied r \<and> cb_Status r = PaymentPaid \<and> \<not> cb_RefundRequired r
         then bindG (attempt (NotifyOrderPaid env (cb_OrderID r))) (\<lambda>_. returnG ()) else returnG ()"
      obtain t w1 where t: "withTx (callback_tx env prov ev ?raw) w = (t, w1)" by fastforce
      have run: "bindG (withTx (callback_tx env prov ev ?raw)) (\<lambda>r. bindG (?tell r) (\<lambda>_. returnG r)) w = (res, w')"
        using assms True Inr by (simp add: HandleCallback_def bindG_def liftG_def Let_def)
      show ?thesis
      proof (cases t)
        case (Inl e)
        then show ?thesis using run t failed withTx_error [of _ w e w1] by (auto simp: bindG_def)
      next
        case (Inr x)
        have y: "yields (callback_tx env prov ev ?raw) (tables w) x (tables w1)"
          by (rule withTx_Inr_yields [OF t [unfolded Inr]])
        have "reads_only (?tell x)" by (auto intro!: run_intro)
        moreover have "\<exists>u. ?tell x w1 = (Inr u, w')" "res = Inr x"
          using run t Inr by (auto simp: bindG_def attempt_def returnG_def split: prod.splits sum.splits if_splits)
        ultimately have "tables w' = tables w1" using reads_only_snd by blast
        then show ?thesis using done_ \<open>res = Inr x\<close> \<open>prov_ParseCallback (s_provider s) hdr body = Inr ev\<close> y by simp
      qed
    qed
  qed
qed

lemma tx_fields:
  assumes "pay_later p p'" shows "p_id p' = p_id p" "p_order_id p' = p_order_id p" "p_provider p' = p_provider p"
  using assms by (simp_all add: pay_later_def pay_core_def)

lemma in_set_row: "r \<in> set (orders d) \<Longrightarrow> r' \<in> set (set_row r r' d)"
  unfolding set_row_def by force

lemma settled_row_kept:
  assumes "yields (CancelUnpaidOrderTx env oid nt) d b d'" "distinct (map o_id (orders d))"
    and "p \<in> set (payments d)" "p_status p \<noteq> PaymentPending"
  shows "p \<in> set (payments d')"
  using assms(1,2)
proof (cases rule: CancelUnpaid_effect)
  case (undone r h)
  then have "payments d' = payments d \<or> payments d' = closed_pending d (o_id r)"
    unfolding cancelled_def by (auto split: if_splits)
  then show ?thesis using assms(3,4) by (force simp: closed_pending_def)
qed (use assms in simp)

lemma applied_row:
  assumes y: "yields (callback_tx env prov ev raw) d res d'" and i: "consistent d" and a: "cb_Applied res"
  shows "\<exists>p \<in> set (payments d'). p_provider p = prov \<and> p_provider_tx_id p = Some (ev_ExternalID ev) \<and>
    p_status p = ev_Status ev \<and> p_id p = cb_PaymentID res"
  using y i
proof (cases rule: callback_effect)
  case (applied p0 r d3 b)
  let ?p = "event_pay ev raw (clock d) p0"
  have p0: "p0 \<in> set (payments d)" using applied(1) by (simp add: matches_event_def)
  have np: "ev_Status ev \<noteq> PaymentPending" using applied(2) by (auto simp: verdict_apply)
  have "payments d3 = event_pays ev raw (p_id p0) (o_id r) d" using applied(4) by (auto simp: pay_change_def)
  then have "?p \<in> set (payments d3)"
    using p0 np by (force simp: event_pays_def set_pay_def close_def Let_def)
  moreover have dist: "distinct (map o_id (orders d3))"
  proof -
    have "orders d3 = set_row r (event_row ev (clock d) r) d" using applied(4) by (auto simp: pay_change_def)
    then show ?thesis using distinct_set_row [of "event_row ev (clock d) r" r d] inv_keys(1) [OF i] by simp
  qed
  ultimately have "?p \<in> set (payments d')"
    using applied(7) np settled_row_kept [OF _ dist, of env _ _ _ d' ?p] by (auto dest: MarkRefund_effect split: if_splits)
  then show ?thesis
    using applied by (intro bexI [of _ ?p]) (simp_all add: matches_event_def event_pay_def blank_result_def)
qed (use a in \<open>simp_all add: blank_result_def\<close>)

section \<open>Money\<close>

text \<open>
  C5. Whenever the bank's message that a payment went through is accepted, the money is accounted for: the
  payment is on record as received and its order as paid (or as refunded since), or the order is flagged
  for a refund. There is no accepted \<^verbatim>\<open>paid\<close> event that leaves neither trace.
\<close>

theorem paid_event_accounted:
  assumes "HandleCallback env s prov hdr body w = (Inr res, w')" and "consistent (tables w)"
    and "prov_ParseCallback (s_provider s) hdr body = Inr ev" "ev_Status ev = PaymentPaid"
  shows "\<exists>p r. p \<in> set (payments (tables w')) \<and> p_provider p = prov \<and> p_provider_tx_id p = Some (ev_ExternalID ev) \<and>
    r \<in> set (orders (tables w')) \<and> o_id r = p_order_id p \<and>
    (settled (p_status p) \<and> o_payment_status r = Some (p_status p) \<or> o_refund_required r)"
  using assms(1)
proof (cases rule: HandleCallback_cases)
  case (done_ x ev' raw)
  have ev: "ev' = ev" using done_(2) assms(3) by simp
  note y = done_(3) [unfolded ev]
  note k = inv_keys [OF assms(2)]
  have c': "consistent (tables w')" using callback_keeps [OF y assms(2)] by blast
  have paid: "\<exists>p r. p \<in> set (payments (tables w')) \<and> p_provider p = prov \<and> p_provider_tx_id p = Some (ev_ExternalID ev) \<and>
      r \<in> set (orders (tables w')) \<and> o_id r = p_order_id p \<and>
      (settled (p_status p) \<and> o_payment_status r = Some (p_status p) \<or> o_refund_required r)"
    if p: "p \<in> set (payments (tables w'))" "p_provider p = prov" "p_provider_tx_id p = Some (ev_ExternalID ev)"
      "settled (p_status p)" for p
    using payment_order [OF c' p(1)] p unfolding settled_def by metis
  show ?thesis using y assms(2)
  proof (cases rule: callback_effect)
    case (ignored p0 r)
    have "p_status p0 \<noteq> PaymentPending" "\<not> isUnpaidFinal (p_status p0)"
      using ignored(4,5) assms(4) verdict_apply [of "p_status p0" PaymentPaid "scanOrderRow (tables w) r"]
        verdict_cases [of "p_status p0" PaymentPaid "scanOrderRow (tables w) r"]
        verdict_conflict [of "p_status p0" PaymentPaid "scanOrderRow (tables w) r"]
      by (auto simp: verdict_def transition_def lateSuccess_def isUnpaidFinal_def split: if_splits)
    then have "settled (p_status p0)" by (cases "p_status p0") (simp_all add: settled_def isUnpaidFinal_def)
    then show ?thesis using paid [of p0] ignored(1,2) by (simp add: matches_event_def)
  next
    case (refund p0 r)
    let ?p = "p0\<lparr>p_raw_webhook := Some raw, p_updated_at := clock (tables w)\<rparr>"
    have "?p \<in> set (payments (tables w'))" "r\<lparr>o_refund_required := True, o_updated_at := clock (tables w)\<rparr> \<in> set (orders (tables w'))"
      using refund(1,6) in_set_row by (auto simp: pay_change_def set_pay_def matches_event_def image_iff)
    then show ?thesis using refund(1) by (intro exI [of _ ?p] exI) (auto simp: matches_event_def)
  next
    case (applied p0 r d3 b)
    have p0: "p0 \<in> set (payments (tables w))" using applied(1) by (simp add: matches_event_def)
    let ?p = "event_pay ev raw (clock (tables w)) p0"
    have "payments d3 = event_pays ev raw (p_id p0) (o_id r) (tables w)" using applied(4) by (auto simp: pay_change_def)
    then have "?p \<in> set (payments d3)"
      using p0 assms(4) by (force simp: event_pays_def set_pay_def close_def)
    moreover have "payments (tables w') = payments d3"
      using applied(7) assms(4) by (auto dest: MarkRefund_effect split: if_splits)
    ultimately show ?thesis
      using paid [of ?p] applied(1) assms(4) by (simp add: settled_def matches_event_def event_pay_def)
  qed
qed simp

theorem paid_event_accounted_witness:
  "\<exists>res w' p r. HandleCallback demo_env demo_service ''mock'' demo_header ''paid'' (calm open_db) = (Inr res, w') \<and>
     p \<in> set (payments (tables w')) \<and> p_provider_tx_id p = Some ''mock_1'' \<and> r \<in> set (orders (tables w')) \<and>
     o_id r = p_order_id p \<and> (settled (p_status p) \<and> o_payment_status r = Some (p_status p) \<or> o_refund_required r)"
proof -
  obtain res w' where run: "HandleCallback demo_env demo_service ''mock'' demo_header ''paid'' (calm open_db) = (Inr res, w')"
    using demo_paid by blast
  from paid_event_accounted [OF run _ demo_parse(1)] run show ?thesis
    by (fastforce simp: open_consistent demo_event_def)
qed

text \<open>
  C6. A callback that has been applied is not applied again: delivered a second time, however often the bank repeats
  it, it changes no table and reports that nothing was done.
\<close>

theorem callback_applied_once:
  assumes "HandleCallback env s prov hdr body w = (Inr res, w')" and "cb_Applied res"
    and "consistent (tables w)" "ext_unique (tables w)"
    and "HandleCallback env s prov hdr body w2 = (r2, w3)" and "tables w2 = tables w'"
  shows "tables w3 = tables w2 \<and>
    (\<forall>res2. r2 = Inr res2 \<longrightarrow> \<not> cb_Applied res2 \<and> cb_PaymentID res2 = cb_PaymentID res)"
  using assms(5)
proof (cases rule: HandleCallback_cases)
  case (done_ res2 ev2 raw2)
  obtain ev raw where ev: "prov_ParseCallback (s_provider s) hdr body = Inr ev"
    and y: "yields (callback_tx env prov ev raw) (tables w) res (tables w')"
    using assms(1) by (cases rule: HandleCallback_cases) auto
  have y2: "yields (callback_tx env prov ev raw2) (tables w') res2 (tables w3)"
    using done_ ev by (simp add: assms(6))
  have c': "consistent (tables w')" using callback_keeps [OF y assms(3)] by blast
  have u': "ext_unique (tables w')" using pays_grow_ext [OF pays_callback [OF y assms(3)] assms(4)] .
  obtain p where p: "p \<in> set (payments (tables w'))" "p_provider p = prov" "p_provider_tx_id p = Some (ev_ExternalID ev)"
      "p_status p = ev_Status ev" "p_id p = cb_PaymentID res"
    using applied_row [OF y assms(3,2)] by blast
  have same: "p0 = p" if "matches_event prov ev (tables w') p0 r" for p0 r
  proof -
    have m: "p0 \<in> set (payments (tables w'))" "p_provider p0 = prov" "p_provider_tx_id p0 = Some (ev_ExternalID ev)"
      using that by (simp_all add: matches_event_def)
    have "p_id p0 = p_id p"
      using u' [unfolded ext_unique_def, rule_format, OF m(1) p(1)] m(2,3) p(2,3) by simp
    then show ?thesis using distinct_map_eqD [OF inv_keys(2) [OF c'] m(1) p(1)] by simp
  qed
  have no: "verdict (ev_Status ev) (ev_Status ev) ord = (False, False)" for ord
    by (simp add: verdict_def transition_def)
  have "tables w3 = tables w' \<and> \<not> cb_Applied res2 \<and> cb_PaymentID res2 = cb_PaymentID res"
    using y2 c'
  proof (cases rule: callback_effect)
    case (ignored p0 r)
    then show ?thesis using same p(5) by (auto simp: blank_result_def)
  next
    case (refund p0 r)
    then show ?thesis using same [OF refund(1)] no p(4) by simp
  next
    case (applied p0 r d3 b)
    then show ?thesis using same [OF applied(1)] no p(4) by simp
  qed
  then show ?thesis using done_(1) by (simp add: assms(6))
qed simp

theorem callback_applied_once_witness:
  "\<exists>res w' r2 w3. HandleCallback demo_env demo_service ''mock'' demo_header ''paid'' (calm open_db) = (Inr res, w') \<and>
     cb_Applied res \<and> HandleCallback demo_env demo_service ''mock'' demo_header ''paid'' w' = (r2, w3) \<and> tables w3 = tables w'"
proof -
  obtain res w' where run: "HandleCallback demo_env demo_service ''mock'' demo_header ''paid'' (calm open_db) = (Inr res, w')"
      "cb_Applied res" using demo_paid by blast
  obtain r2 w3 where again: "HandleCallback demo_env demo_service ''mock'' demo_header ''paid'' w' = (r2, w3)"
    by fastforce
  have "ext_unique (tables (calm open_db))" by (simp add: ext_unique_def)
  from callback_applied_once [OF run _ this again refl] run again show ?thesis
    by (auto simp: open_consistent)
qed

text \<open>
  C16. A \<^verbatim>\<open>paid\<close> event for a payment that waits for its money is refused when the amount differs from the payment's
  by as little as a tyiyn; nothing is written.
\<close>

theorem wrong_amount_refused:
  assumes "HandleCallback env s prov hdr body w = (res, w')" and "consistent (tables w)" "ext_unique (tables w)"
    and "prov_ParseCallback (s_provider s) hdr body = Inr ev" "ev_Status ev = PaymentPaid"
    and "p \<in> set (payments (tables w))" "p_provider p = prov" "p_provider_tx_id p = Some (ev_ExternalID ev)"
    and "p_status p = PaymentPending" "toTyiyn (ev_Amount ev) \<noteq> toTyiyn (float_of_numeric (p_amount p))"
  shows "(\<exists>e. res = Inl e) \<and> tables w' = tables w"
  using assms(1)
proof (cases rule: HandleCallback_cases)
  case (done_ x ev' raw)
  have y: "yields (callback_tx env prov ev raw) (tables w) x (tables w')" using done_ assms(4) by simp
  have same: "p0 = p" if "matches_event prov ev (tables w) p0 r" for p0 r
  proof -
    have m: "p0 \<in> set (payments (tables w))" "p_provider p0 = prov" "p_provider_tx_id p0 = Some (ev_ExternalID ev)"
      using that by (simp_all add: matches_event_def)
    have "p_id p0 = p_id p"
      using assms(3) [unfolded ext_unique_def, rule_format, OF m(1) assms(6)] m(2,3) assms(7,8) by simp
    then show ?thesis using distinct_map_eqD [OF inv_keys(2) [OF assms(2)] m(1) assms(6)] by simp
  qed
  have ok: "verdict PaymentPending PaymentPaid ord = (True, False)" for ord
    by (simp add: verdict_def transition_def isUnpaidFinal_def)
  show ?thesis using y assms(2)
  proof (cases rule: callback_effect)
    case (ignored p0 r)
    then show ?thesis using same [OF ignored(1)] ok assms(5,9) by simp
  next
    case (refund p0 r)
    then show ?thesis using same [OF refund(1)] ok assms(5,9) by simp
  next
    case (applied p0 r d3 b)
    then show ?thesis using same [OF applied(1)] assms(5,10) by simp
  qed
qed simp

theorem wrong_amount_refused_witness:
  "\<exists>e w'. HandleCallback demo_env demo_service ''mock'' demo_header ''short'' (calm open_db) = (Inl e, w') \<and>
     tables w' = open_db"
proof -
  obtain res w' where run: "HandleCallback demo_env demo_service ''mock'' demo_header ''short'' (calm open_db) = (res, w')"
    by fastforce
  have "ext_unique (tables (calm open_db))" by (simp add: ext_unique_def)
  from wrong_amount_refused [OF run _ this demo_parse(2), of card_payment] run show ?thesis
    by (auto simp: open_consistent demo_event_def demo_amounts demo_money)
qed

section \<open>Who may call\<close>

text \<open>
  C17. A callback without the configured token, or for a provider without one, is refused by either gateway before
  anything is read: the world does not change, and the answer is a client error.
\<close>

theorem forged_callback_refused:
  assumes "tok = [] \<or> hdr WebhookTokenHeader \<noteq> tok"
    and "s_provider s = mock_provider parse random m \<and> tok = mk_token m \<or>
         s_provider s = bakai_provider http parse b \<and> tok = bk_webhookToken b"
  shows "\<exists>a. HandleCallback env s name hdr body w = (Inl (AppError a), w)"
  using assms(2)
proof (elim disjE conjE)
  assume "s_provider s = mock_provider parse random m" "tok = mk_token m"
  then show ?thesis using mock.forged_callback [of m hdr s parse] assms(1) by (simp add: mock_provider_def)
next
  assume "s_provider s = bakai_provider http parse b" "tok = bk_webhookToken b"
  then show ?thesis using bakai.forged_callback [of b hdr s parse] assms(1) by (simp add: bakai_provider_def)
qed

theorem forged_callback_refused_witness:
  "\<exists>a. HandleCallback demo_env demo_service ''mock'' (\<lambda>_. ''guess'') ''paid'' (calm open_db) = (Inl (AppError a), calm open_db)"
  by (rule forged_callback_refused [where tok = "''secret''" and parse = demo_json and random = "\<lambda>x. x" and m = demo_mock])
     (simp_all add: demo_service_def demo_mock_def NewMockProvider_def)



end
