(* ===== verification/ExpiryProperties.thy ===== *)
theory ExpiryProperties
  imports PaymentLog Demo
begin

text \<open>
  A new attempt on an order, and the expiry job: what they do when they succeed, how much a pass of the job
  does, and that an abandoned order really goes when the database answers.
\<close>

section \<open>A new attempt\<close>

text \<open>
  C12. \<^verbatim>\<open>PrepareRetryPayment\<close> either changes nothing, or it is for an order of this customer that waits for money and
  has attempts left; afterwards the new attempt is the only pending one, over the full total of the order,
  and the attempts still do not exceed the limit.
\<close>

theorem retry_opens_one_attempt:
  assumes "PrepareRetryPayment env cu k prov w = (res, w')" and "consistent (tables w)"
  shows "(\<exists>e. res = Inl e) \<and> tables w' = tables w \<or>
    (\<exists>r ord pid p. res = Inr (ord, pid) \<and> r \<in> set (orders (tables w)) \<and> o_customer_id r = cu \<and>
       orderKeyPredicate env k r \<and> retryable r \<and> ID ord = o_id r \<and>
       filter (\<lambda>q. p_status q = PaymentPending) (payments_of (tables w') (o_id r)) = [p] \<and>
       p_id p = pid \<and> p_provider p = prov \<and> p_amount p = o_total_amount r \<and>
       length (payments_of (tables w') (o_id r)) = Suc (length (payments_of (tables w) (o_id r))) \<and>
       length (payments_of (tables w') (o_id r)) \<le> MaxPaymentAttempts)"
proof (cases res)
  case (Inl e)
  then show ?thesis using assms(1) withTx_error by (auto simp: PrepareRetryPayment_def)
next
  case (Inr x)
  have y: "yields (retry_tx env cu k prov) (tables w) x (tables w')"
    using assms(1) Inr withTx_Inr_yields by (simp add: PrepareRetryPayment_def)
  show ?thesis
    using y inv_keys(1) [OF assms(2)]
  proof (cases rule: retry_effect)
    case (1 r p)
    have pays: "payments (tables w') = closed_pending (tables w) (o_id r) @ [p]" using 1(6) by (auto simp: pay_change_def)
    have old: "filter (\<lambda>q. p_order_id q = o_id r) (closed_pending (tables w) (o_id r)) =
        map (close (clock (tables w))) (payments_of (tables w) (o_id r))"
      unfolding closed_pending_map payments_of_def by (subst payments_of_map) (auto intro: map_cong)
    have new: "payments_of (tables w') (o_id r) = map (close (clock (tables w))) (payments_of (tables w) (o_id r)) @ [p]"
      unfolding payments_of_def [of "tables w'"] pays using old 1(9) by simp
    have "filter (\<lambda>q. p_status q = PaymentPending) (payments_of (tables w') (o_id r)) = [p]"
      unfolding new using 1(10) by (auto simp: filter_empty_conv)
    moreover have "p_amount p = o_total_amount r"
      using 1(11) numeric_roundtrip inv_keys(3) [OF assms(2) 1(1)] by (simp add: order_ok_def row_ok_def numeric_10_2_bound_def)
    moreover have "length (payments_of (tables w) (o_id r)) < MaxPaymentAttempts"
      using 1(5) by (simp add: attempts_of_def payments_of_def)
    ultimately show ?thesis
      using 1 Inr by (intro disjI2 exI [of _ r] exI [of _ "fst x"] exI [of _ "snd x"] exI [of _ p]) (simp add: new)
  qed
qed

lemma demo_retries: "\<exists>x w'. PrepareRetryPayment demo_env ''#c'' ''#o2'' ''mock'' (calm open_db) = (Inr x, w')"
  by (simp add: PrepareRetryPayment_def retry_tx_def lockOrderTx_def select_order_def go_eval orderKeyPredicate_def demo_uuid_def
      PaymentRetryable_def attempts_of_def MaxPaymentAttempts_def close_pending_def update_payments_def insert_payment_def
      numeric_10_2_bound_def demo_money Let_def decimal_code update_order_returning_def update_orders_def order_check_def
      cong: run_congs)

theorem retry_opens_one_attempt_witness:
  "\<exists>x w' p. PrepareRetryPayment demo_env ''#c'' ''#o2'' ''mock'' (calm open_db) = (Inr x, w') \<and>
     filter (\<lambda>q. p_status q = PaymentPending) (payments_of (tables w') ''#o2'') = [p] \<and> p_amount p = 100000 \<and>
     length (payments_of (tables w') ''#o2'') = 2"
proof -
  obtain x w' where run: "PrepareRetryPayment demo_env ''#c'' ''#o2'' ''mock'' (calm open_db) = (Inr x, w')"
    using demo_retries by blast
  from retry_opens_one_attempt [OF run, unfolded calm_fields, OF open_consistent] obtain r p where
      r: "r \<in> set (orders open_db)" "orderKeyPredicate demo_env ''#o2'' r"
      "filter (\<lambda>q. p_status q = PaymentPending) (payments_of (tables w') (o_id r)) = [p]" "p_amount p = o_total_amount r"
      "length (payments_of (tables w') (o_id r)) = Suc (length (payments_of open_db (o_id r)))"
    by auto
  have "r = card_row" using r(1,2) by (auto simp: orderKeyPredicate_def demo_uuid_def)
  then show ?thesis using run r(3-5) by (auto simp: payments_of_def)
qed

section \<open>Expiry\<close>

text \<open>
  C13. \<^verbatim>\<open>expireOne\<close> cancels an order only when it is an online order still waiting for its money and its latest attempt
  was abandoned for longer than the time to live; the reserved units are back at its point, the
  cancellation is on record as the system's, no attempt stays open. Otherwise, and on an error, nothing changed.
\<close>

theorem expiry_only_abandoned:
  assumes "expireOne env oid ttl w = (res, w')" and "consistent (tables w)"
  shows "res \<noteq> Inr True \<and> tables w' = tables w \<or>
    (\<exists>r h. res = Inr True \<and> r \<in> set (orders (tables w)) \<and> o_id r = oid \<and> unpaidExpired ttl (tables w) r \<and>
       cancelled r h (tables w) (tables w') \<and> h_actor_type h = ActorSystem \<and>
       (\<forall>v q. stock_qty (tables w') v q =
          stock_qty (tables w) v q + (if o_point_id r = Some q then units (tables w) oid v else 0)))"
proof (cases res)
  case (Inl e)
  then show ?thesis using assms(1) withTx_error by (auto simp: expireOne_def)
next
  case (Inr b)
  have "yields (expire_tx env oid ttl) (tables w) b (tables w')"
    using assms(1) Inr withTx_Inr_yields by (simp add: expireOne_def)
  from expire_effect [OF this] show ?thesis
  proof (elim disjE conjE bexE)
    fix r assume y: "yields (CancelUnpaidOrderTx env oid NotePaymentExpired) (tables w) b (tables w')"
      and r: "r \<in> set (orders (tables w))" "unpaidExpired ttl (tables w) r" "o_id r = oid"
    show ?thesis using y inv_keys(1) [OF assms(2)]
    proof (cases rule: CancelUnpaid_effect)
      case (undone r' h)
      have "r' = r" using distinct_map_eqD [OF inv_keys(1) [OF assms(2)] undone(2) r(1)] undone(3) r(3) by simp
      then show ?thesis using undone r Inr returned_stock [OF undone(5)]
        by (intro disjI2 exI [of _ r] exI [of _ h]) auto
    qed (use Inr in simp)
  qed (use Inr in simp)
qed

text \<open>
  C14. When the database answers, an abandoned order does go: its stock fits the column, so \<^verbatim>\<open>expireOne\<close> reports
  success and the order is cancelled.
\<close>

lemma bindG_Inr: "m w = (Inr x, w') \<Longrightarrow> bindG m f w = f x w'"
  by (simp add: bindG_def)

lemma bindG_return: "bindG (returnG x) f = f x"
  by (rule ext) (simp add: bindG_def returnG_def)

lemma bindG_assoc: "bindG (bindG m f) g = bindG m (\<lambda>x. bindG (f x) g)"
  by (rule ext) (simp add: bindG_def split: prod.split sum.split)

lemma put_back_all:
  assumes "faults w = []" "distinct vs"
    and "\<And>v. v \<in> set vs \<Longrightarrow> 0 \<le> stock_qty (tables w) v p + f v \<and> stock_qty (tables w) v p + f v \<le> max_int4"
  shows "\<exists>s. forG (\<lambda>v. stmt (put_back_stock v p (f v))) vs w = (Inr (), w\<lparr>tables := (tables w)\<lparr>stock := s\<rparr>\<rparr>)"
  using assms
proof (induction vs arbitrary: w)
  case Nil
  show ?case by (intro exI [of _ "stock (tables w)"]) (simp add: returnG_def)
next
  case (Cons v vs)
  let ?s = "(stock (tables w))((v, p) \<mapsto> stock_qty (tables w) v p + f v)"
  let ?w = "w\<lparr>tables := (tables w)\<lparr>stock := ?s\<rparr>\<rparr>"
  have one: "stmt (put_back_stock v p (f v)) w = (Inr (), ?w)"
    using Cons.prems(1) Cons.prems(3) [of v] by (simp add: stmt_calm run_stmt_def put_back_stock_def Let_def)
  have "stock_qty (tables ?w) x p = stock_qty (tables w) x p" if "x \<in> set vs" for x
    using that Cons.prems(2) by (auto simp: stock_qty_def)
  then obtain s where "forG (\<lambda>v. stmt (put_back_stock v p (f v))) vs ?w = (Inr (), ?w\<lparr>tables := (tables ?w)\<lparr>stock := s\<rparr>\<rparr>)"
    using Cons.IH [of ?w] Cons.prems by fastforce
  then show ?case using one by (auto simp: bindG_def)
qed

lemma restock_runs:
  assumes "faults w = []"
    and "\<And>v. 0 \<le> stock_qty (tables w) v p + units (tables w) oid v \<and> stock_qty (tables w) v p + units (tables w) oid v \<le> max_int4"
  shows "\<exists>s. restockOrderTx oid p w = (Inr (), w\<lparr>tables := (tables w)\<lparr>stock := s\<rparr>\<rparr>)"
proof -
  let ?rows = "map (\<lambda>i. (i_variant_id i, i_quantity i)) (filter (\<lambda>i. i_order_id i = oid) (order_items (tables w)))"
  obtain m ks where a: "add_quantities ?rows (\<lambda>_. 0) [] = (m, ks)" by fastforce
  note r = add_quantities_result [OF a]
  have "m v = units (tables w) oid v" for v
    using r unfolding units_def units_filter [symmetric] by simp
  then have "m = units (tables w) oid" by blast
  moreover have "distinct (sort ks)" using r by simp
  ultimately show ?thesis
    using put_back_all [OF assms(1), of "sort ks" p m] assms a
    by (simp add: restockOrderTx_def bindG_def query_def stmt_calm run_stmt_def)
qed

lemma cancel_unpaid_runs:
  assumes f: "faults w = []" and i: "consistent (tables w)" and r: "r \<in> set (orders (tables w))" "o_id r = oid"
    and st: "o_status r = StatusPlaced" "o_payment_method r = PaymentOnlineCard"
    and ps: "o_payment_status r = Some PaymentPending \<or> o_payment_status r = Some PaymentFailed"
    and p: "o_point_id r = Some p" "p \<noteq> []"
    and fit: "\<And>v. 0 \<le> stock_qty (tables w) v p + units (tables w) oid v \<and> stock_qty (tables w) v p + units (tables w) oid v \<le> max_int4"
    and fresh: "gen_uuid env (id_count (tables w)) \<notin> h_id ` set (order_status_history (tables w))"
  shows "\<exists>w'. CancelUnpaidOrderTx env oid nt w = (Inr True, w') \<and> faults w' = []"
proof -
  note k = inv_keys [OF i]
  have find: "find (\<lambda>r. o_id r = oid) (orders (tables w)) = Some r"
    using find_distinct [OF k(1) r(1)] r(2) by simp
  have chk: "order_check r" using k(3) [OF r(1)] by (simp add: order_ok_def row_ok_def)
  have one: "x = r" if "x \<in> set (orders (tables w))" "o_id x = oid" for x
    using distinct_map_eqD [OF k(1) that(1) r(1)] that(2) r(2) by simp
  have some: "filter (\<lambda>r. o_id r = oid) (orders (tables w)) \<noteq> []" using r by (auto simp: filter_empty_conv)
  obtain s where s: "restockOrderTx oid p w = (Inr (), w\<lparr>tables := (tables w)\<lparr>stock := s\<rparr>\<rparr>)"
    using restock_runs [OF f fit] by blast
  have upd: "\<exists>w'. bindG (update_order_returning oid (\<lambda>r. r\<lparr>o_status := StatusCancelled, o_payment_status := Some q, o_refund_required := b\<rparr>))
      (\<lambda>t. bindG (recordStatusTx env oid (Some StatusPlaced) StatusCancelled a sid nt)
        (\<lambda>_. returnG (g t))) w1 = (Inr (g (clock (tables w1))), w') \<and> faults w' = []"
    if w1: "faults w1 = []" "orders (tables w1) = orders (tables w)" "order_status_history (tables w1) = order_status_history (tables w)"
      "id_count (tables w1) = id_count (tables w)"
    for q b a sid w1 and g :: "int \<Rightarrow> Order"
  proof -
    have "order_check (r\<lparr>o_status := StatusCancelled, o_payment_status := Some q, o_refund_required := b, o_updated_at := t\<rparr>)" for t
      using chk st(2) by (simp add: order_check_def)
    then have ok: "\<not> (\<exists>x \<in> set (orders (tables w1)). o_id x = oid \<and>
        \<not> order_check (x\<lparr>o_status := StatusCancelled, o_payment_status := Some q, o_refund_required := b, o_updated_at := t\<rparr>))" for t
      using one w1(2) by auto
    show ?thesis
      using w1 ok some fresh
      by (simp add: update_order_returning_def update_orders_def bindG_def returnG_def stmt_calm run_stmt_def recordStatusTx_def
          insert_history_def Let_def)
  qed
  let ?o = "scanOrderRow (tables w) r" and ?w = "w\<lparr>tables := (tables w)\<lparr>stock := s\<rparr>\<rparr>"
  have lock: "lockOrderTx (\<lambda>r. o_id r = oid) w = (Inr ?o, w)"
    using find f by (simp add: lockOrderTx_def select_order_def go_eval)
  have canc: "\<exists>ord w'. cancelLockedTx env ?o SystemActor nt w = (Inr ord, w') \<and> faults w' = []"
    using ps
  proof
    assume pend: "o_payment_status r = Some PaymentPending"
    obtain w1 n where w1: "stmt (close_pending (\<lambda>x. p_order_id x = oid)) ?w = (Inr n, w1)" "faults w1 = []"
        "orders (tables w1) = orders (tables w)" "order_status_history (tables w1) = order_status_history (tables w)"
        "id_count (tables w1) = id_count (tables w)"
      using f by (simp add: stmt_calm run_stmt_def close_pending_def update_payments_def)
    show ?thesis
      using p pend st
      by (simp add: cancelLockedTx_def r(2) bindG_Inr [of "restockOrderTx oid p" w, OF s] bindG_assoc bindG_Inr [of "stmt (close_pending (\<lambda>x. p_order_id x = oid))" ?w, OF w1(1)] bindG_return) (rule exI, rule upd [OF w1(2-5)])
  next
    assume "o_payment_status r = Some PaymentFailed"
    then show ?thesis
      using p st
      by (simp add: cancelLockedTx_def r(2) bindG_Inr [of "restockOrderTx oid p" w, OF s] bindG_return) (rule exI, rule upd, simp_all add: f)
  qed
  then show ?thesis
    using st by (auto simp: CancelUnpaidOrderTx_def bindG_Inr [of "lockOrderTx (\<lambda>r. o_id r = oid)" w, OF lock] bindG_def [of "cancelLockedTx _ _ _ _"] returnG_def)
qed

theorem abandoned_order_expires:
  assumes "faults w = []" and "consistent (tables w)" and "r \<in> set (orders (tables w))" "unpaidExpired ttl (tables w) r"
    and "o_point_id r = Some p" "p \<noteq> []"
    and "\<And>v. 0 \<le> stock_qty (tables w) v p + units (tables w) (o_id r) v \<and>
              stock_qty (tables w) v p + units (tables w) (o_id r) v \<le> max_int4"
    and "gen_uuid env (id_count (tables w)) \<notin> h_id ` set (order_status_history (tables w))"
  shows "\<exists>w' r'. expireOne env (o_id r) ttl w = (Inr True, w') \<and> r' \<in> set (orders (tables w')) \<and>
    o_id r' = o_id r \<and> o_status r' = StatusCancelled"
proof -
  have u: "o_status r = StatusPlaced" "o_payment_method r = PaymentOnlineCard"
      "o_payment_status r = Some PaymentPending \<or> o_payment_status r = Some PaymentFailed"
    using assms(4) by (simp_all add: unpaidExpired_def)
  obtain w' where c: "CancelUnpaidOrderTx env (o_id r) NotePaymentExpired w = (Inr True, w')" "faults w' = []"
    using cancel_unpaid_runs [OF assms(1-3) refl u assms(5-8)] by blast
  have find: "find (\<lambda>x. o_id x = o_id r) (orders (tables w)) = Some r"
    using find_distinct [OF inv_keys(1) [OF assms(2)] assms(3)] .
  have still: "\<exists>x \<in> set (orders (tables w)). unpaidExpired ttl (tables w) x \<and> o_id x = o_id r" using assms(3,4) by blast
  have "expire_tx env (o_id r) ttl w = (Inr True, w')"
    using find still c assms(1)
    by (simp add: expire_tx_def LockOrderTx_def lockOrderTx_def select_order_def attempt_def bindG_def query_def
        stmt_calm run_stmt_def returnG_def)
  then have run: "expireOne env (o_id r) ttl w = (Inr True, w')"
    using assms(1) c(2) by (simp add: expireOne_def withTx_def begin_tx_def commit_tx_def query_def stmt_calm run_stmt_def)
  obtain h where "cancelled r h (tables w) (tables w')"
    using yieldsI [of "CancelUnpaidOrderTx env (o_id r) NotePaymentExpired" w True w', OF c(1)] inv_keys(1) [OF assms(2)]
  proof (cases rule: CancelUnpaid_effect)
    case (undone x h)
    then show ?thesis using that distinct_map_eqD [OF inv_keys(1) [OF assms(2)] undone(2) assms(3)] by auto
  qed simp
  then have "moved r (cancelled_row r (clock (tables w))) h (tables w) (tables w')" unfolding cancelled_def by blast
  from moved_in [OF this] run show ?thesis
    by (intro exI [of _ w'] exI [of _ "cancelled_row r (clock (tables w))"]) (simp add: cancelled_row_def)
qed

text \<open>The online order of \<open>open_db\<close>, an hour later.\<close>

definition late_db :: db where "late_db = open_db\<lparr>clock := 20710 * usec_per_day + 3600 * usec_per_sec\<rparr>"

lemma late_consistent: "consistent late_db"
proof -
  have "order_ok late_db r = order_ok open_db r" for r
    by (simp add: order_ok_def payments_of_def history_of_def late_db_def)
  then show ?thesis
    using open_consistent by (simp add: consistent_def keys_ok_def links_ok_def stock_ok_def) (simp add: late_db_def)
qed

lemma late_expired: "unpaidExpired (30 * 60 * usec_per_sec) late_db card_row"
  by (simp add: unpaidExpired_def latest_payment_def late_db_def usec_per_sec_def usec_per_day_def)

theorem abandoned_order_expires_witness:
  "\<exists>w' r'. expireOne demo_env ''#o2'' (30 * 60 * usec_per_sec) (calm late_db) = (Inr True, w') \<and>
     r' \<in> set (orders (tables w')) \<and> o_id r' = ''#o2'' \<and> o_status r' = StatusCancelled"
proof -
  have "0 \<le> stock_qty late_db v ''#p2'' + units late_db ''#o2'' v \<and> stock_qty late_db v ''#p2'' + units late_db ''#o2'' v \<le> max_int4" for v
    by (simp add: late_db_def stock_qty_def units_def demo_stock_def max_int4_def)
  then show ?thesis
    using abandoned_order_expires [of "calm late_db" card_row "30 * 60 * usec_per_sec" "''#p2''" demo_env]
      late_consistent late_expired
    by (simp add: late_db_def decimal_code digit_char_def)
qed

theorem expiry_only_abandoned_witness:
  "\<exists>res w'. expireOne demo_env ''#o1'' 0 (calm late_db) = (res, w') \<and> tables w' = late_db"
proof -
  obtain res w' where run: "expireOne demo_env ''#o1'' 0 (calm late_db) = (res, w')" by fastforce
  have no: "\<not> (\<exists>r. r \<in> set (orders late_db) \<and> o_id r = ''#o1'' \<and> unpaidExpired 0 late_db r)"
    by (auto simp: late_db_def unpaidExpired_def)
  show ?thesis using expiry_only_abandoned [OF run, unfolded calm_fields, OF late_consistent] no run by blast
qed

end
