(* ===== verification/Limiters.thy ===== *)
theory Limiters
  imports GoFloat AppErr "HOL-Library.AList" "HOL-Library.Signed_Division"
begin

text \<open>
  The in-memory limits of the process: the fixed windows of \<^verbatim>\<open>internal/auth/limiter.go\<close> and
  \<^verbatim>\<open>internal/staff/ratelimit.go\<close>, and the lockout of \<^verbatim>\<open>internal/auth/review_guard.go\<close>.

  A Go \<^verbatim>\<open>map\<close> is an association list (its order is never observed); a method is a function of the
  receiver that returns the new receiver, since each holds the mutex for its whole body. Instants
  and durations are whole nanoseconds.

  The locale \<open>fixed_window\<close> is what a fixed-window limiter promises; inside it, the number of events
  admitted in any stretch no longer than the window is bounded by twice the limit, and by the limit
  when the stretch starts with a fresh window. Both limiters are interpretations of it.
\<close>

section \<open>Fixed windows\<close>

record limiterWindow =
  lw_count :: int
  lw_resetAt :: int

text \<open>\<open>admitted f es s\<close> are the answers to the events \<open>es\<close>, pairs of an instant and a key, in order.\<close>

fun admitted :: "(int \<Rightarrow> string \<Rightarrow> 's \<Rightarrow> bool \<times> 's) \<Rightarrow> (int \<times> string) list \<Rightarrow> 's \<Rightarrow> bool list" where
  "admitted f [] s = []"
| "admitted f ((t, k) # es) s = (case f t k s of (ok, s') \<Rightarrow> ok # admitted f es s')"

fun state_after :: "(int \<Rightarrow> string \<Rightarrow> 's \<Rightarrow> bool \<times> 's) \<Rightarrow> (int \<times> string) list \<Rightarrow> 's \<Rightarrow> 's" where
  "state_after f [] s = s"
| "state_after f ((t, k) # es) s = state_after f es (snd (f t k s))"

fun count_for :: "string \<Rightarrow> (int \<times> string) list \<Rightarrow> bool list \<Rightarrow> int" where
  "count_for k ((t, k') # es) (ok # oks) = (if k' = k \<and> ok then 1 else 0) + count_for k es oks"
| "count_for k _ _ = 0"

locale fixed_window =
  fixes allow :: "int \<Rightarrow> string \<Rightarrow> 's \<Rightarrow> bool \<times> 's"
    and window_of :: "'s \<Rightarrow> string \<Rightarrow> (int \<times> int) option"
    and limit :: "'s \<Rightarrow> int" and span :: "'s \<Rightarrow> int"
    and over :: "int \<Rightarrow> int \<Rightarrow> bool" and counted :: "string \<Rightarrow> bool"
    and ok :: "'s \<Rightarrow> bool"
  assumes over_late: "over t r \<Longrightarrow> r \<le> t"
    and limit_pos: "ok s \<Longrightarrow> 0 < limit s"
    and allow_ok: "ok s \<Longrightarrow> ok (snd (allow t k s))"
    and allow_limit: "limit (snd (allow t k s)) = limit s"
    and allow_span: "span (snd (allow t k s)) = span s"
    and open_window: "ok s \<Longrightarrow> counted k \<Longrightarrow> window_of s k = Some (c, r) \<Longrightarrow> \<not> over t r \<Longrightarrow>
       fst (allow t k s) = (c < limit s) \<and>
       window_of (snd (allow t k s)) k = Some (if c < limit s then c + 1 else c, r)"
    and new_window: "ok s \<Longrightarrow> counted k \<Longrightarrow>
       window_of s k = None \<or> (\<exists>c r. window_of s k = Some (c, r) \<and> over t r) \<Longrightarrow>
       fst (allow t k s) \<and> window_of (snd (allow t k s)) k = Some (1, t + span s)"
    and other_window: "ok s \<Longrightarrow> k' \<noteq> k \<Longrightarrow>
       window_of (snd (allow t k' s)) k = window_of s k \<or>
       (\<exists>c r. window_of s k = Some (c, r) \<and> over t r \<and> window_of (snd (allow t k' s)) k = None)"
begin

text \<open>How many more events \<open>k\<close> can get before the instant \<open>b\<close>, if \<open>b\<close> is at most a window away.\<close>

definition room :: "int \<Rightarrow> string \<Rightarrow> 's \<Rightarrow> int" where
  "room b k s = (case window_of s k of None \<Rightarrow> limit s
     | Some (c, r) \<Rightarrow> max 0 (limit s - c) + (if b \<le> r then 0 else limit s))"

lemma room_nonneg: "ok s \<Longrightarrow> 0 \<le> room b k s"
  using limit_pos [of s] by (auto simp: room_def split: option.splits prod.splits)

lemma room_step:
  assumes s: "ok s" and k: "counted k" and t: "b - span s \<le> t" "t < b"
  shows "room b k (snd (allow t k' s)) + (if k' = k \<and> fst (allow t k' s) then 1 else 0) \<le> room b k s"
proof (cases "k' = k")
  case True
  have lim: "0 < limit s" by (rule limit_pos [OF s])
  show ?thesis
  proof (cases "\<exists>c r. window_of s k = Some (c, r) \<and> \<not> over t r")
    case True
    then obtain c r where w: "window_of s k = Some (c, r)" "\<not> over t r" by blast
    with \<open>k' = k\<close> open_window [OF s k w] lim show ?thesis by (auto simp: room_def allow_limit)
  next
    case False
    then have "window_of s k = None \<or> (\<exists>c r. window_of s k = Some (c, r) \<and> over t r)"
      by (cases "window_of s k") auto
    with new_window [OF s k this] \<open>k' = k\<close> t lim show ?thesis
      by (auto simp: room_def allow_limit dest!: over_late)
  qed
next
  case False
  have lim: "0 < limit s" by (rule limit_pos [OF s])
  from other_window [OF s False, of t] show ?thesis
    using False lim t(2) by (auto simp: room_def allow_limit split: option.splits dest!: over_late)
qed

lemma admitted_room:
  "ok s \<Longrightarrow> counted k \<Longrightarrow> \<forall>(t, k') \<in> set es. b - span s \<le> t \<and> t < b \<Longrightarrow>
   count_for k es (admitted allow es s) \<le> room b k s"
proof (induction es arbitrary: s)
  case Nil
  then show ?case by (simp add: room_nonneg)
next
  case (Cons e es)
  obtain t k' where e: "e = (t, k')" by (cases e)
  let ?s = "snd (allow t k' s)"
  have "count_for k es (admitted allow es ?s) \<le> room b k ?s"
    using Cons.prems by (intro Cons.IH) (auto simp: e allow_ok allow_span)
  moreover have "room b k ?s + (if k' = k \<and> fst (allow t k' s) then 1 else 0) \<le> room b k s"
    using Cons.prems by (intro room_step) (auto simp: e)
  ultimately show ?case by (simp add: e split_beta)
qed

lemma ok_after: "ok s \<Longrightarrow> ok (state_after allow es s)"
  by (induction es arbitrary: s) (auto simp: allow_ok)

lemma limit_after: "limit (state_after allow es s) = limit s"
  by (induction es arbitrary: s) (auto simp: allow_limit)

lemma span_after: "span (state_after allow es s) = span s"
  by (induction es arbitrary: s) (auto simp: allow_span)

lemma at_most_twice:
  assumes "ok s" "counted k" "\<forall>(t, k') \<in> set es. a \<le> t \<and> t < a + span s"
    and "\<forall>c r. window_of (state_after allow pre s) k = Some (c, r) \<longrightarrow> 0 \<le> c"
  shows "count_for k es (admitted allow es (state_after allow pre s)) \<le> 2 * limit s"
proof -
  let ?s = "state_after allow pre s"
  have "count_for k es (admitted allow es ?s) \<le> room (a + span s) k ?s"
    using assms by (intro admitted_room) (auto simp: ok_after span_after)
  also have "\<dots> \<le> 2 * limit s"
    using assms(4) limit_pos [OF assms(1)] by (auto simp: room_def limit_after split: option.splits)
  finally show ?thesis .
qed

lemma fresh_at_most_limit:
  assumes "ok s" "counted k" "\<forall>(t, k') \<in> set es. a \<le> t \<and> t < a + span s" "window_of s k = None"
  shows "count_for k es (admitted allow es s) \<le> limit s"
proof -
  have "count_for k es (admitted allow es s) \<le> room (a + span s) k s"
    using assms by (intro admitted_room) auto
  then show ?thesis using assms(4) by (simp add: room_def)
qed

end

section \<open>Customer authentication: windowLimiter\<close>

record windowLimiter =
  wl_limit :: int
  wl_window :: int
  wl_windows :: "(string \<times> limiterWindow) list"

definition limiterSweepThreshold :: nat where "limiterSweepThreshold = 10000"

definition newWindowLimiter :: "int \<Rightarrow> int \<Rightarrow> windowLimiter" where
  "newWindowLimiter limit window = \<lparr>wl_limit = limit, wl_window = window, wl_windows = []\<rparr>"

text \<open>
  \<^verbatim>\<open>current\<close> returns the window of the key, made new when there is none or it has rolled over; the
  caller changes the window through the pointer, which \<open>put_window\<close> writes back.
\<close>

definition put_window :: "string \<Rightarrow> limiterWindow \<Rightarrow> windowLimiter \<Rightarrow> windowLimiter" where
  "put_window key w l = l\<lparr>wl_windows := AList.update key w (wl_windows l)\<rparr>"

definition current :: "int \<Rightarrow> string \<Rightarrow> windowLimiter \<Rightarrow> limiterWindow \<times> windowLimiter" where
  "current now key l =
     (let ws = wl_windows l;
          ws1 = (if limiterSweepThreshold \<le> length ws
                 then filter (\<lambda>(k, old). now < lw_resetAt old) ws else ws);
          w = \<lparr>lw_count = 0, lw_resetAt = now + wl_window l\<rparr>;
          fresh = (w, put_window key w (l\<lparr>wl_windows := ws1\<rparr>))
      in case map_of ws key of
           None \<Rightarrow> fresh
         | Some w \<Rightarrow> if now < lw_resetAt w then (w, l) else fresh)"

definition allow :: "int \<Rightarrow> string \<Rightarrow> windowLimiter \<Rightarrow> bool \<times> windowLimiter" where
  "allow now key l =
     (if wl_limit l \<le> 0 \<or> key = [] then (True, l)
      else case current now key l of (w, l1) \<Rightarrow>
        if wl_limit l1 \<le> lw_count w then (False, l1)
        else (True, put_window key (w\<lparr>lw_count := lw_count w + 1\<rparr>) l1))"

definition blocked :: "int \<Rightarrow> string \<Rightarrow> windowLimiter \<Rightarrow> bool \<times> windowLimiter" where
  "blocked now key l =
     (if wl_limit l \<le> 0 \<or> key = [] then (False, l)
      else case current now key l of (w, l1) \<Rightarrow> (wl_limit l1 \<le> lw_count w, l1))"

definition hit :: "int \<Rightarrow> string \<Rightarrow> windowLimiter \<Rightarrow> windowLimiter" where
  "hit now key l =
     (if wl_limit l \<le> 0 \<or> key = [] then l
      else case current now key l of (w, l1) \<Rightarrow> put_window key (w\<lparr>lw_count := lw_count w + 1\<rparr>) l1)"

definition wl_ok :: "windowLimiter \<Rightarrow> bool" where
  "wl_ok l \<longleftrightarrow> 0 < wl_limit l \<and> distinct (map fst (wl_windows l)) \<and> (\<forall>(k, w) \<in> set (wl_windows l). 0 \<le> lw_count w)"

definition wl_lookup :: "windowLimiter \<Rightarrow> string \<Rightarrow> (int \<times> int) option" where
  "wl_lookup l k = map_option (\<lambda>w. (lw_count w, lw_resetAt w)) (map_of (wl_windows l) k)"

lemma map_of_filter_live:
  "distinct (map fst ws) \<Longrightarrow>
   map_of (filter (\<lambda>(k, w). P w) ws) k = (case map_of ws k of Some w \<Rightarrow> if P w then Some w else None | None \<Rightarrow> None)"
  by (induction ws) (auto simp: map_of_eq_None_iff split: option.splits)

lemma distinct_filter_keys: "distinct (map fst ws) \<Longrightarrow> distinct (map fst (filter P ws))"
  by (induction ws) auto

lemma set_update_subset: "set (AList.update k v ws) \<subseteq> insert (k, v) (set ws)"
  by (induction ws) auto

lemma put_window_simps [simp]:
  "wl_limit (put_window k w l) = wl_limit l" "wl_window (put_window k w l) = wl_window l"
  "wl_windows (put_window k w l) = AList.update k w (wl_windows l)"
  by (simp_all add: put_window_def)

lemma put_window_ok: "wl_ok l \<Longrightarrow> 0 \<le> lw_count w \<Longrightarrow> wl_ok (put_window k w l)"
  using set_update_subset [of k w "wl_windows l"]
  by (auto simp: wl_ok_def distinct_update)

lemma lookup_put:
  "wl_lookup (put_window k w l) k' = (if k' = k then Some (lw_count w, lw_resetAt w) else wl_lookup l k')"
  by (simp add: wl_lookup_def update_conv')

text \<open>What \<open>current\<close> gives: the open window itself, or a new one, and no other open window is lost.\<close>

lemma current_open:
  "wl_lookup l k = Some (c, r) \<Longrightarrow> now < r \<Longrightarrow> current now k l = (\<lparr>lw_count = c, lw_resetAt = r\<rparr>, l)"
  by (auto simp: current_def wl_lookup_def Let_def)

lemma current_new:
  assumes "wl_ok l" "wl_lookup l k = None \<or> (\<exists>c r. wl_lookup l k = Some (c, r) \<and> \<not> now < r)"
  shows "\<exists>l1. current now k l = (\<lparr>lw_count = 0, lw_resetAt = now + wl_window l\<rparr>, l1) \<and> wl_ok l1 \<and>
    wl_limit l1 = wl_limit l \<and> wl_window l1 = wl_window l \<and>
    wl_lookup l1 k = Some (0, now + wl_window l) \<and>
    (\<forall>k'. k' \<noteq> k \<longrightarrow> wl_lookup l1 k' = wl_lookup l k' \<or>
       (\<exists>c r. wl_lookup l k' = Some (c, r) \<and> \<not> now < r \<and> wl_lookup l1 k' = None))"
proof -
  let ?ws = "wl_windows l"
  let ?ws1 = "if limiterSweepThreshold \<le> length ?ws then filter (\<lambda>(k, old). now < lw_resetAt old) ?ws else ?ws"
  let ?w = "\<lparr>lw_count = 0, lw_resetAt = now + wl_window l\<rparr>"
  let ?l1 = "put_window k ?w (l\<lparr>wl_windows := ?ws1\<rparr>)"
  have c: "current now k l = (?w, ?l1)"
    using assms(2) by (auto simp: current_def wl_lookup_def Let_def split: option.splits)
  have d: "distinct (map fst ?ws)" "distinct (map fst ?ws1)"
    using assms(1) by (auto simp: wl_ok_def distinct_filter_keys)
  have "wl_ok (l\<lparr>wl_windows := ?ws1\<rparr>)" using assms(1) d(2) by (auto simp: wl_ok_def)
  then have ok: "wl_ok ?l1" by (rule put_window_ok) simp
  have m: "map_of ?ws1 k' = map_of ?ws k' \<or>
      (\<exists>w. map_of ?ws k' = Some w \<and> \<not> now < lw_resetAt w \<and> map_of ?ws1 k' = None)" for k'
    using map_of_filter_live [OF d(1), of "\<lambda>w. now < lw_resetAt w" k'] by (auto split: option.splits)
  have "wl_lookup ?l1 k' = wl_lookup l k' \<or>
       (\<exists>c r. wl_lookup l k' = Some (c, r) \<and> \<not> now < r \<and> wl_lookup ?l1 k' = None)" if "k' \<noteq> k" for k'
    using m [of k'] that unfolding lookup_put by (fastforce simp: wl_lookup_def)
  with c ok show ?thesis by (simp add: lookup_put)
qed

lemma current_cases:
  assumes "wl_ok l"
  obtains (open_one) c r where "wl_lookup l k = Some (c, r)" "now < r"
      "current now k l = (\<lparr>lw_count = c, lw_resetAt = r\<rparr>, l)"
  | (new_one) l1 where "wl_lookup l k = None \<or> (\<exists>c r. wl_lookup l k = Some (c, r) \<and> \<not> now < r)"
      "current now k l = (\<lparr>lw_count = 0, lw_resetAt = now + wl_window l\<rparr>, l1)" "wl_ok l1"
      "wl_limit l1 = wl_limit l" "wl_window l1 = wl_window l" "wl_lookup l1 k = Some (0, now + wl_window l)"
      "\<And>k'. k' \<noteq> k \<Longrightarrow> wl_lookup l1 k' = wl_lookup l k' \<or>
         (\<exists>c r. wl_lookup l k' = Some (c, r) \<and> \<not> now < r \<and> wl_lookup l1 k' = None)"
proof (cases "\<exists>c r. wl_lookup l k = Some (c, r) \<and> now < r")
  case True
  then show ?thesis using open_one current_open by blast
next
  case False
  then have n: "wl_lookup l k = None \<or> (\<exists>c r. wl_lookup l k = Some (c, r) \<and> \<not> now < r)"
    by (cases "wl_lookup l k") auto
  from current_new [OF assms n] show ?thesis using new_one [OF n] by blast
qed

lemma wl_ok_lookup: "wl_ok l \<Longrightarrow> wl_lookup l k = Some (c, r) \<Longrightarrow> 0 \<le> c"
  by (auto simp: wl_ok_def wl_lookup_def dest!: map_of_SomeD)

lemma allow_keeps:
  assumes "wl_ok l"
  shows "wl_ok (snd (allow t k l)) \<and> wl_limit (snd (allow t k l)) = wl_limit l \<and>
    wl_window (snd (allow t k l)) = wl_window l"
proof (cases rule: current_cases [OF assms, of k t])
  case (1 c r)
  note open_one = 1
  then have "0 \<le> c" using assms wl_ok_lookup by blast
  with open_one assms show ?thesis by (auto simp: allow_def intro!: put_window_ok)
next
  case (2 l1)
  note new_one = 2
  then show ?thesis using assms by (auto simp: allow_def intro!: put_window_ok)
qed

lemma allow_config: "wl_limit (snd (allow t k l)) = wl_limit l" "wl_window (snd (allow t k l)) = wl_window l"
  by (auto simp: allow_def current_def Let_def split: option.splits)

interpretation auth_window: fixed_window allow wl_lookup wl_limit wl_window
  "\<lambda>t r. \<not> t < r" "\<lambda>k. k \<noteq> []" wl_ok
proof
  fix s :: windowLimiter and k t c r
  assume s: "wl_ok s" "k \<noteq> []" "wl_lookup s k = Some (c, r)" "\<not> \<not> t < r"
  then have "current t k s = (\<lparr>lw_count = c, lw_resetAt = r\<rparr>, s)" by (auto intro: current_open)
  with s show "fst (allow t k s) = (c < wl_limit s) \<and>
      wl_lookup (snd (allow t k s)) k = Some (if c < wl_limit s then c + 1 else c, r)"
    by (auto simp: allow_def lookup_put wl_ok_def)
next
  fix s :: windowLimiter and k t
  assume s: "wl_ok s" "k \<noteq> []" "wl_lookup s k = None \<or> (\<exists>c r. wl_lookup s k = Some (c, r) \<and> \<not> t < r)"
  from current_new [OF s(1,3)] s(1,2)
  show "fst (allow t k s) \<and> wl_lookup (snd (allow t k s)) k = Some (1, t + wl_window s)"
    by (auto simp: allow_def lookup_put wl_ok_def)
next
  fix s :: windowLimiter and k k' :: string and t
  assume s: "wl_ok s" "k' \<noteq> k"
  show "wl_lookup (snd (allow t k' s)) k = wl_lookup s k \<or>
       (\<exists>c r. wl_lookup s k = Some (c, r) \<and> \<not> t < r \<and> wl_lookup (snd (allow t k' s)) k = None)"
  proof (cases rule: current_cases [OF s(1), of k' t])
    case (1 c r)
    note open_one = 1
    with s show ?thesis by (auto simp: allow_def lookup_put)
  next
    case (2 l1)
    note new_one = 2
    with s show ?thesis by (auto simp: allow_def lookup_put)
  qed
qed (use allow_keeps allow_config in \<open>auto simp: wl_ok_def\<close>)

section \<open>Staff login: loginRateLimiter\<close>

definition loginAttemptLimit :: int where "loginAttemptLimit = 5"
definition loginAttemptWindow :: int where "loginAttemptWindow = 15 * 60 * 10 ^ 9"
definition loginAttemptSweepThreshold :: nat where "loginAttemptSweepThreshold = 1000"

record loginWindow =
  gw_count :: int
  gw_resetAt :: int

text \<open>The zero value has no map yet, which reads as an empty one.\<close>

record loginRateLimiter =
  lr_limit :: int
  lr_attempts :: "(string \<times> loginWindow) list"

definition max_attempts :: "loginRateLimiter \<Rightarrow> int" where
  "max_attempts l = (if 0 < lr_limit l then lr_limit l else loginAttemptLimit)"

definition sweepLocked :: "int \<Rightarrow> loginRateLimiter \<Rightarrow> loginRateLimiter" where
  "sweepLocked now l = l\<lparr>lr_attempts := filter (\<lambda>(k, w). \<not> gw_resetAt w < now) (lr_attempts l)\<rparr>"

definition login_allow :: "int \<Rightarrow> string \<Rightarrow> loginRateLimiter \<Rightarrow> bool \<times> loginRateLimiter" where
  "login_allow now key l =
     (let fresh = (let l1 = (if loginAttemptSweepThreshold \<le> length (lr_attempts l) then sweepLocked now l else l);
                       w = \<lparr>gw_count = 0, gw_resetAt = now + loginAttemptWindow\<rparr>
                   in (w, l1\<lparr>lr_attempts := AList.update key w (lr_attempts l1)\<rparr>));
          (w, l2) = (case map_of (lr_attempts l) key of
             None \<Rightarrow> fresh | Some w \<Rightarrow> if gw_resetAt w < now then fresh else (w, l))
      in if max_attempts l2 \<le> gw_count w then (False, l2)
         else (True, l2\<lparr>lr_attempts := AList.update key (w\<lparr>gw_count := gw_count w + 1\<rparr>) (lr_attempts l2)\<rparr>))"

definition login_reset :: "string \<Rightarrow> loginRateLimiter \<Rightarrow> loginRateLimiter" where
  "login_reset key l = l\<lparr>lr_attempts := AList.delete key (lr_attempts l)\<rparr>"

definition lr_ok :: "loginRateLimiter \<Rightarrow> bool" where
  "lr_ok l \<longleftrightarrow> distinct (map fst (lr_attempts l)) \<and> (\<forall>(k, w) \<in> set (lr_attempts l). 0 \<le> gw_count w)"

definition lr_lookup :: "loginRateLimiter \<Rightarrow> string \<Rightarrow> (int \<times> int) option" where
  "lr_lookup l k = map_option (\<lambda>w. (gw_count w, gw_resetAt w)) (map_of (lr_attempts l) k)"

lemma lr_lookup_update:
  "lr_lookup (l\<lparr>lr_attempts := AList.update k w ws\<rparr>) k' =
     (if k' = k then Some (gw_count w, gw_resetAt w) else lr_lookup (l\<lparr>lr_attempts := ws\<rparr>) k')"
  by (simp add: lr_lookup_def update_conv')

lemma lr_ok_update:
  "lr_ok (l\<lparr>lr_attempts := ws\<rparr>) \<Longrightarrow> 0 \<le> gw_count w \<Longrightarrow> lr_ok (l\<lparr>lr_attempts := AList.update k w ws\<rparr>)"
  using set_update_subset [of k w ws] by (auto simp: lr_ok_def distinct_update)

lemma max_attempts_pos: "0 < max_attempts l"
  by (simp add: max_attempts_def loginAttemptLimit_def)

lemma max_attempts_update [simp]: "max_attempts (l\<lparr>lr_attempts := ws\<rparr>) = max_attempts l"
  by (simp add: max_attempts_def)

lemma gw_put: "z\<lparr>gw_count := a\<rparr> = \<lparr>gw_count = a, gw_resetAt = gw_resetAt z\<rparr>"
  by (cases z) simp

lemma login_open:
  assumes "lr_lookup l k = Some (c, r)" "\<not> r < t"
  shows "fst (login_allow t k l) = (c < max_attempts l)"
    and "snd (login_allow t k l) = (if c < max_attempts l
           then l\<lparr>lr_attempts := AList.update k \<lparr>gw_count = c + 1, gw_resetAt = r\<rparr> (lr_attempts l)\<rparr> else l)"
  using assms by (auto simp: login_allow_def lr_lookup_def Let_def gw_put split: if_splits)

lemma login_new:
  assumes "lr_lookup l k = None \<or> (\<exists>c r. lr_lookup l k = Some (c, r) \<and> r < t)" "lr_ok l"
  shows "\<exists>ws. login_allow t k l =
    (True, l\<lparr>lr_attempts := AList.update k \<lparr>gw_count = 1, gw_resetAt = t + loginAttemptWindow\<rparr> ws\<rparr>) \<and>
    lr_ok (l\<lparr>lr_attempts := ws\<rparr>) \<and>
    (\<forall>k'. k' \<noteq> k \<longrightarrow> lr_lookup (l\<lparr>lr_attempts := ws\<rparr>) k' = lr_lookup l k' \<or>
       (\<exists>c r. lr_lookup l k' = Some (c, r) \<and> r < t \<and> lr_lookup (l\<lparr>lr_attempts := ws\<rparr>) k' = None))"
proof -
  let ?ws = "lr_attempts l"
  let ?ws1 = "if loginAttemptSweepThreshold \<le> length ?ws
    then filter (\<lambda>(k, w). \<not> gw_resetAt w < t) ?ws else ?ws"
  let ?w = "\<lparr>gw_count = 0, gw_resetAt = t + loginAttemptWindow\<rparr>"
  let ?ws2 = "AList.update k ?w ?ws1"
  have d: "distinct (map fst ?ws)" "distinct (map fst ?ws1)"
    using assms(2) by (auto simp: lr_ok_def distinct_filter_keys)
  have "login_allow t k l =
      (True, l\<lparr>lr_attempts := AList.update k (?w\<lparr>gw_count := 1\<rparr>) ?ws2\<rparr>)"
    using assms(1) max_attempts_pos [of l]
    by (auto simp: login_allow_def lr_lookup_def Let_def sweepLocked_def split: option.splits)
  moreover have ok: "lr_ok (l\<lparr>lr_attempts := ?ws1\<rparr>)"
    using assms(2) d(2) by (auto simp: lr_ok_def)
  moreover have m: "map_of ?ws1 k' = map_of ?ws k' \<or>
      (\<exists>w. map_of ?ws k' = Some w \<and> gw_resetAt w < t \<and> map_of ?ws1 k' = None)" for k'
    using map_of_filter_live [OF d(1), of "\<lambda>w. \<not> gw_resetAt w < t" k'] by (auto split: option.splits)
  have "lr_lookup (l\<lparr>lr_attempts := ?ws1\<rparr>) k' = lr_lookup l k' \<or>
       (\<exists>c r. lr_lookup l k' = Some (c, r) \<and> r < t \<and> lr_lookup (l\<lparr>lr_attempts := ?ws1\<rparr>) k' = None)"
    for k' using m [of k'] by (fastforce simp: lr_lookup_def)
  ultimately show ?thesis by (intro exI [of _ ?ws1]) simp
qed

lemma login_cases:
  assumes "lr_ok l"
  shows "(\<exists>c r. lr_lookup l k = Some (c, r) \<and> \<not> r < t) \<or>
    (lr_lookup l k = None \<or> (\<exists>c r. lr_lookup l k = Some (c, r) \<and> r < t))"
  by (cases "lr_lookup l k") auto

lemma lr_ok_lookup: "lr_ok l \<Longrightarrow> lr_lookup l k = Some (c, r) \<Longrightarrow> 0 \<le> c"
  by (auto simp: lr_ok_def lr_lookup_def dest!: map_of_SomeD)

lemma login_keeps: "lr_ok l \<Longrightarrow> lr_ok (snd (login_allow t k l))"
proof -
  assume ok: "lr_ok l"
  from login_cases [OF ok, of k t] show ?thesis
  proof
    assume "\<exists>c r. lr_lookup l k = Some (c, r) \<and> \<not> r < t"
    then obtain c r where w: "lr_lookup l k = Some (c, r)" "\<not> r < t" by blast
    have "lr_ok (l\<lparr>lr_attempts := AList.update k \<lparr>gw_count = c + 1, gw_resetAt = r\<rparr> (lr_attempts l)\<rparr>)"
      using lr_ok_lookup [OF ok w(1)] ok by (intro lr_ok_update) simp_all
    with ok show ?thesis by (simp add: login_open [OF w])
  next
    assume "lr_lookup l k = None \<or> (\<exists>c r. lr_lookup l k = Some (c, r) \<and> r < t)"
    from login_new [OF this ok] show ?thesis by (elim exE conjE) (simp add: lr_ok_update)
  qed
qed

lemma login_config: "lr_limit (snd (login_allow t k l)) = lr_limit l"
  by (auto simp: login_allow_def Let_def sweepLocked_def split: option.splits)

interpretation staff_window: fixed_window login_allow lr_lookup max_attempts "\<lambda>_. loginAttemptWindow"
  "\<lambda>t r. r < t" "\<lambda>_. True" lr_ok
proof
  fix s :: loginRateLimiter and k t c r
  assume s: "lr_ok s" "lr_lookup s k = Some (c, r)" "\<not> r < t"
  then show "fst (login_allow t k s) = (c < max_attempts s) \<and>
      lr_lookup (snd (login_allow t k s)) k = Some (if c < max_attempts s then c + 1 else c, r)"
    by (simp add: login_open lr_lookup_update)
next
  fix s :: loginRateLimiter and k t
  assume s: "lr_ok s" "lr_lookup s k = None \<or> (\<exists>c r. lr_lookup s k = Some (c, r) \<and> r < t)"
  from login_new [OF s(2,1)]
  show "fst (login_allow t k s) \<and> lr_lookup (snd (login_allow t k s)) k = Some (1, t + loginAttemptWindow)"
    by (auto simp: lr_lookup_update)
next
  fix s :: loginRateLimiter and k k' :: string and t
  assume s: "lr_ok s" "k' \<noteq> k"
  show "lr_lookup (snd (login_allow t k' s)) k = lr_lookup s k \<or>
       (\<exists>c r. lr_lookup s k = Some (c, r) \<and> r < t \<and> lr_lookup (snd (login_allow t k' s)) k = None)"
    using login_cases [OF s(1), of k' t]
  proof
    assume "\<exists>c r. lr_lookup s k' = Some (c, r) \<and> \<not> r < t"
    with s(2) show ?thesis by (auto simp: login_open lr_lookup_update)
  next
    assume "lr_lookup s k' = None \<or> (\<exists>c r. lr_lookup s k' = Some (c, r) \<and> r < t)"
    from login_new [OF this s(1)] s(2) show ?thesis by (auto simp: lr_lookup_update)
  qed
qed (auto simp: max_attempts_pos login_keeps max_attempts_def login_config loginAttemptLimit_def)

section \<open>The lockout of the store-review code\<close>

definition reviewMaxFailures :: int where "reviewMaxFailures = 10"

record reviewGuard =
  rg_failures :: int
  rg_tripped :: bool

definition disabled :: "reviewGuard \<Rightarrow> bool" where
  "disabled g = rg_tripped g"

text \<open>\<^verbatim>\<open>check\<close> answers (ok, disabled, justTripped).\<close>

definition check :: "string \<Rightarrow> string \<Rightarrow> reviewGuard \<Rightarrow> (bool \<times> bool \<times> bool) \<times> reviewGuard" where
  "check code want g =
     (if rg_tripped g then ((False, True, False), g)
      else if code = want then ((True, False, False), g)
      else let g1 = g\<lparr>rg_failures := rg_failures g + 1\<rparr>
           in if reviewMaxFailures \<le> rg_failures g1
              then ((False, True, True), g1\<lparr>rg_tripped := True\<rparr>)
              else ((False, False, False), g1))"

fun guesses :: "string \<Rightarrow> string list \<Rightarrow> reviewGuard \<Rightarrow> (bool \<times> bool \<times> bool) list" where
  "guesses want [] g = []"
| "guesses want (c # cs) g = (case check c want g of (r, g') \<Rightarrow> r # guesses want cs g')"

text \<open>
  From a guard with \<open>n\<close> failures, a right code is accepted only before the tenth wrong one, counted
  over all guesses, and exactly one guess reports the lockout if it happens.
\<close>

lemma guesses_accepted:
  "0 \<le> rg_failures g \<Longrightarrow> rg_tripped g = (reviewMaxFailures \<le> rg_failures g) \<Longrightarrow> i < length cs \<Longrightarrow>
   fst (guesses want cs g ! i) \<longleftrightarrow>
     cs ! i = want \<and> rg_failures g + int (length (filter (\<lambda>c. c \<noteq> want) (take i cs))) < reviewMaxFailures"
proof (induction cs arbitrary: g i)
  case (Cons c cs)
  obtain r g' where c: "check c want g = (r, g')" by fastforce
  show ?case
  proof (cases i)
    case 0
    with Cons.prems show ?thesis by (auto simp: check_def Let_def)
  next
    case (Suc j)
    have g': "0 \<le> rg_failures g'" "rg_tripped g' = (reviewMaxFailures \<le> rg_failures g')"
      "rg_tripped g \<Longrightarrow> g' = g" "\<not> rg_tripped g \<Longrightarrow> rg_failures g' = rg_failures g + (if c = want then 0 else 1)"
      using Cons.prems(1,2) c by (auto simp: check_def Let_def split: if_splits)
    have "fst (guesses want cs g' ! j) \<longleftrightarrow> cs ! j = want \<and>
        rg_failures g' + int (length (filter (\<lambda>c. c \<noteq> want) (take j cs))) < reviewMaxFailures"
      using Cons.IH [OF g'(1,2)] Cons.prems(3) Suc by simp
    then show ?thesis using Suc c g'(3,4) Cons.prems(2) by (cases "rg_tripped g") auto
  qed
qed simp

end
