(* ===== verification/TokenBucket.thy ===== *)
theory TokenBucket
  imports Limiters "HOL-Library.Signed_Division"
begin

text \<open>
  The token buckets of \<^verbatim>\<open>internal/httpmw/ratelimit.go\<close> (type \<^verbatim>\<open>limiter\<close>) and their wrapper
  \<^verbatim>\<open>internal/httpmw/keyed_limiter.go\<close>. Instants and durations are whole nanoseconds; the balance of
  a bucket is a \<^verbatim>\<open>float64\<close>, computed with the rounded operations of \<open>GoFloat\<close>. \<open>time_Sub\<close> saturates as
  \<^verbatim>\<open>Time.Sub\<close> does, which is what the zero \<^verbatim>\<open>lastSweep\<close> of a new limiter meets. The conversion of a
  \<^verbatim>\<open>float64\<close> to a duration truncates; the values it is applied to are taken to fit in 64 bits.
\<close>

section \<open>Exact values\<close>

text \<open>A number with a 53-bit significand is its own rounding.\<close>

definition representable :: "rat \<Rightarrow> bool" where
  "representable x \<longleftrightarrow> (\<exists>m e. x = of_int m * 2 powi e \<and> \<bar>m\<bar> \<le> 2 ^ 53)"

lemma rnd_even_int [simp]: "rnd_even (of_int k) = k"
  by (simp add: rnd_even_def Let_def)

lemma rnd64_grid:
  assumes "x \<noteq> 0" "x / 2 powi (flog2 \<bar>x\<bar> - 52) = of_int k"
  shows "rnd64 x = x"
  using assms by (simp add: rnd64_def Let_def) (metis nonzero_eq_divide_eq power_int_eq_0_iff zero_neq_numeral)

lemma rnd64_representable: "representable x \<Longrightarrow> rnd64 x = x"
proof (cases "x = 0")
  case False
  assume "representable x"
  then obtain m e where x: "x = of_int m * 2 powi e" "\<bar>m\<bar> \<le> 2 ^ 53" by (auto simp: representable_def)
  let ?f = "flog2 \<bar>x\<bar>"
  have p: "0 < \<bar>x\<bar>" using False by simp
  have b: "2 powi ?f \<le> \<bar>x\<bar>" "\<bar>x\<bar> < 2 powi (?f + 1)" using flog2_bounds [OF p] by auto
  have div: "x / 2 powi (?f - 52) = of_int m * 2 powi (e - ?f + 52)"
    by (simp add: x(1) power_int_diff power_int_add)
  show ?thesis
  proof (cases "?f - 52 \<le> e")
    case True
    then have "(2::rat) powi (e - ?f + 52) = of_int (2 ^ nat (e - ?f + 52))" by (simp add: power_int_def)
    with div have "x / 2 powi (?f - 52) = of_int (m * 2 ^ nat (e - ?f + 52))" by simp
    then show ?thesis by (rule rnd64_grid [OF False])
  next
    case g: False
    have "\<bar>x\<bar> = of_int \<bar>m\<bar> * 2 powi e" by (simp add: x(1) abs_mult)
    also have "\<dots> \<le> of_int (2 ^ 53) * 2 powi e"
      using x(2) by (intro mult_right_mono) (simp_all only: of_int_le_iff, simp)
    also have "\<dots> = 2 powi (e + 53)" by (simp add: power_int_add)
    finally have u: "\<bar>x\<bar> \<le> 2 powi (e + 53)" .
    have "?f \<le> e + 53"
    proof (rule ccontr)
      assume "\<not> ?f \<le> e + 53"
      then have "(2::rat) powi (e + 53) < 2 powi ?f" by (intro power_int_strict_increasing) auto
      with u b(1) show False by linarith
    qed
    then have f: "?f = e + 53" using g by simp
    have "\<bar>x\<bar> = 2 powi ?f" using u b(1) unfolding f by linarith
    with False have "\<bar>x\<bar> / 2 powi (?f - 52) = of_int (2 ^ 52)" by (simp add: power_int_diff)
    moreover have "x = \<bar>x\<bar> \<or> x = - \<bar>x\<bar>" by linarith
    ultimately have "x / 2 powi (?f - 52) = of_int (2 ^ 52) \<or> x / 2 powi (?f - 52) = of_int (- (2 ^ 52))"
      by (metis minus_divide_left of_int_minus)
    then show ?thesis using rnd64_grid [OF False] by blast
  qed
qed (simp add: rnd64_def)

lemma representable_int: "\<bar>k\<bar> \<le> 2 ^ 53 \<Longrightarrow> representable (of_int k)"
  unfolding representable_def by (intro exI [of _ k] exI [of _ "0::int"]) simp

lemma rnd64_0 [simp]: "rnd64 0 = 0"
  by (simp add: rnd64_def)

lemma rnd64_upper: "0 \<le> x \<Longrightarrow> rnd64 x \<le> x + x / 2 ^ 53"
  using rnd64_err [of x] by (simp add: abs_if split: if_splits)

section \<open>Time\<close>

definition second :: int where "second = 10 ^ 9"
definition maxDuration :: int where "maxDuration = 2 ^ 63 - 1"
definition minDuration :: int where "minDuration = - (2 ^ 63)"

text \<open>The zero \<^verbatim>\<open>time.Time\<close>: the first of January of the year 1, before the Unix epoch.\<close>

definition zeroTime :: int where "zeroTime = - 62135596800 * second"

definition time_Sub :: "int \<Rightarrow> int \<Rightarrow> int" where
  "time_Sub t u = max minDuration (min maxDuration (t - u))"

text \<open>\<^verbatim>\<open>Duration.Seconds\<close>, and the conversion \<^verbatim>\<open>time.Duration(f)\<close>.\<close>

definition seconds_of :: "int \<Rightarrow> float64" where
  "seconds_of d = fadd (rnd64 (of_int (d sdiv second))) (fdiv (rnd64 (of_int (d smod second))) (of_int second))"

definition duration_of_float :: "float64 \<Rightarrow> int" where
  "duration_of_float x = (if x < 0 then \<lceil>x\<rceil> else \<lfloor>x\<rfloor>)"

section \<open>Buckets\<close>

definition DefaultRateLimitMaxClients :: int where "DefaultRateLimitMaxClients = 100000"
definition rateLimitSweepInterval :: int where "rateLimitSweepInterval = 60 * second"
definition rateLimitMinSweepGap :: int where "rateLimitMinSweepGap = second"

record RateLimitConfig =
  RPS :: float64
  Burst :: int
  MaxClients :: int

record bucket =
  bk_tokens :: float64
  bk_last :: int

record limiter =
  rps :: float64
  burst :: float64
  maxClients :: int
  fullAfter :: int
  buckets :: "(string \<times> bucket) list"
  lastSweep :: int

definition newLimiter :: "RateLimitConfig \<Rightarrow> limiter" where
  "newLimiter cfg =
     (let mc = (if MaxClients cfg \<le> 0 then DefaultRateLimitMaxClients else MaxClients cfg);
          b = rnd64 (of_int (max (Burst cfg) 1))
      in \<lparr>rps = RPS cfg, burst = b, maxClients = mc,
          fullAfter = duration_of_float (fmul (fdiv b (RPS cfg)) (of_int second)),
          buckets = [], lastSweep = zeroTime\<rparr>)"

definition sweep :: "int \<Rightarrow> limiter \<Rightarrow> limiter" where
  "sweep now l = l\<lparr>buckets := filter (\<lambda>(k, b). \<not> fullAfter l \<le> time_Sub now (bk_last b)) (buckets l),
                    lastSweep := now\<rparr>"

text \<open>
  The end of \<^verbatim>\<open>allow\<close>, once the bucket is found or made: refill it for the time since it was last
  touched, and spend a token if there is a whole one. The answer is the pair Go returns.
\<close>

definition spend :: "int \<Rightarrow> string \<Rightarrow> bucket \<Rightarrow> limiter \<Rightarrow> (bool \<times> int) \<times> limiter" where
  "spend now key b l =
     (let tokens = min (burst l) (fadd (bk_tokens b) (fmul (seconds_of (time_Sub now (bk_last b))) (rps l)))
      in if 1 \<le> tokens
         then ((True, 0), l\<lparr>buckets := AList.update key \<lparr>bk_tokens = fadd tokens (- 1), bk_last = now\<rparr> (buckets l)\<rparr>)
         else ((False, duration_of_float (fmul (fdiv (fadd 1 (- tokens)) (rps l)) (of_int second))),
               l\<lparr>buckets := AList.update key \<lparr>bk_tokens = tokens, bk_last = now\<rparr> (buckets l)\<rparr>))"

definition bucket_allow :: "int \<Rightarrow> string \<Rightarrow> limiter \<Rightarrow> (bool \<times> int) \<times> limiter" where
  "bucket_allow now key l =
     (let l1 = (if rateLimitSweepInterval \<le> time_Sub now (lastSweep l) then sweep now l else l)
      in case map_of (buckets l1) key of
           Some b \<Rightarrow> spend now key b l1
         | None \<Rightarrow>
             (let l2 = (if maxClients l1 \<le> int (length (buckets l1)) \<and>
                           rateLimitMinSweepGap \<le> time_Sub now (lastSweep l1) then sweep now l1 else l1)
              in if maxClients l2 \<le> int (length (buckets l2)) then ((True, 0), l2)
                 else spend now key \<lparr>bk_tokens = burst l2, bk_last = now\<rparr> l2))"

definition size_of :: "limiter \<Rightarrow> int" where
  "size_of l = int (length (buckets l))"

text \<open>\<^verbatim>\<open>KeyedLimiter\<close>: without a limiter everything is allowed, with one an empty key is refused.\<close>

type_synonym KeyedLimiter = "limiter option"

definition NewKeyedLimiter :: "RateLimitConfig \<Rightarrow> KeyedLimiter" where
  "NewKeyedLimiter cfg = (if RPS cfg \<le> 0 then None else Some (newLimiter cfg))"

definition keyed_Allow :: "int \<Rightarrow> string \<Rightarrow> KeyedLimiter \<Rightarrow> (bool \<times> int) \<times> KeyedLimiter" where
  "keyed_Allow now key k =
     (case k of
        None \<Rightarrow> ((True, 0), k)
      | Some l \<Rightarrow> if key = [] then ((False, 0), k)
                  else case bucket_allow now key l of (r, l') \<Rightarrow> (r, Some l'))"

section \<open>The invariant of a limiter\<close>

definition bucket_ok :: "float64 \<Rightarrow> int \<Rightarrow> bucket \<Rightarrow> bool" where
  "bucket_ok cap t b \<longleftrightarrow> 0 \<le> bk_tokens b \<and> bk_tokens b \<le> cap \<and> representable (bk_tokens b) \<and> bk_last b \<le> t"

definition limiter_ok :: "int \<Rightarrow> limiter \<Rightarrow> bool" where
  "limiter_ok t l \<longleftrightarrow> 0 < rps l \<and> 1 \<le> burst l \<and> burst l \<le> 2 ^ 53 \<and> representable (burst l) \<and>
     distinct (map fst (buckets l)) \<and> size_of l \<le> maxClients l \<and> 0 < maxClients l \<and>
     (\<forall>(k, b) \<in> set (buckets l). bucket_ok (burst l) t b)"

lemma representable_rnd64: "representable (rnd64 x)"
proof (cases "x = 0")
  case True
  then show ?thesis using representable_int [of 0] by simp
next
  case False
  let ?u = "2 powi (flog2 \<bar>x\<bar> - 52) :: rat"
  let ?k = "rnd_even (x / ?u)"
  have u: "0 < ?u" by simp
  have "\<bar>x\<bar> < 2 powi (flog2 \<bar>x\<bar> + 1)" using flog2_bounds [of "\<bar>x\<bar>"] False by simp
  also have "\<dots> = of_int (2 ^ 53) * ?u" by (simp add: power_int_diff power_int_add)
  finally have "\<bar>x / ?u\<bar> < of_int (2 ^ 53)" using u by (simp add: field_simps abs_mult)
  then have "\<bar>of_int ?k\<bar> < (of_int (2 ^ 53) :: rat) + 1"
    using rnd_even_err [of "x / ?u"] by linarith
  then have "\<bar>?k\<bar> < 2 ^ 53 + 1"
    by (metis of_int_1 of_int_abs of_int_add of_int_less_iff)
  then show ?thesis unfolding representable_def
    using False by (intro exI [of _ ?k] exI [of _ "flog2 \<bar>x\<bar> - 52"]) (simp add: rnd64_def Let_def)
qed

lemma representable_min: "representable x \<Longrightarrow> representable y \<Longrightarrow> representable (min x y)"
  by (simp add: min_def)

text \<open>Taking a whole token from a balance that has one is exact.\<close>

lemma spend_exact:
  assumes "representable x" "1 \<le> x" "x \<le> 2 ^ 53"
  shows "fadd x (- 1) = x - 1"
proof -
  obtain m e where x: "x = of_int m * 2 powi e" "\<bar>m\<bar> \<le> 2 ^ 53" using assms(1) by (auto simp: representable_def)
  have "representable (x - 1)"
  proof (cases "0 \<le> e")
    case True
    then have "x - 1 = of_int (m * 2 ^ nat e - 1)" by (simp add: x(1) power_int_def)
    moreover have "\<bar>m * 2 ^ nat e - 1\<bar> \<le> 2 ^ 53"
    proof -
      have "of_int (m * 2 ^ nat e) = x" using True by (simp add: x(1) power_int_def)
      then have "of_int 1 \<le> (of_int (m * 2 ^ nat e) :: rat)" "of_int (m * 2 ^ nat e) \<le> (of_int (2 ^ 53) :: rat)"
        using assms(2,3) by simp_all
      then have "1 \<le> m * 2 ^ nat e" "m * 2 ^ nat e \<le> 2 ^ 53" by (simp_all only: of_int_le_iff)
      then show ?thesis by linarith
    qed
    ultimately show ?thesis by (metis representable_int)
  next
    case False
    let ?p = "2 ^ nat (- e) :: int"
    have one: "of_int ?p * 2 powi e = (1::rat)"
      using False by (simp add: power_int_def field_simps)
    then have eq: "x - 1 = of_int (m - ?p) * 2 powi e" by (simp add: x(1) algebra_simps)
    have "0 \<le> of_int (m - ?p) * (2::rat) powi e" using eq assms(2) by simp
    moreover have "(0::rat) < 2 powi e" by simp
    ultimately have "0 \<le> m - ?p" by (auto simp: zero_le_mult_iff)
    moreover have "0 < ?p" by simp
    ultimately have "\<bar>m - ?p\<bar> \<le> 2 ^ 53" using x(2) by linarith
    with eq show ?thesis unfolding representable_def by blast
  qed
  then show ?thesis by (simp add: fadd_def rnd64_representable)
qed

lemma seconds_of_nonneg: "0 \<le> d \<Longrightarrow> 0 \<le> seconds_of d"
proof -
  assume d: "0 \<le> d"
  have "d sdiv second = d div second" "d smod second = d mod second"
    using d by (cases "d = 0"; simp add: signed_divide_int_def signed_modulo_int_def second_def)+
  moreover have "0 \<le> d div second" "0 \<le> d mod second" using d by (simp_all add: second_def pos_imp_zdiv_nonneg_iff)
  ultimately show ?thesis unfolding seconds_of_def fadd_def fdiv_def
    by (intro rnd64_nonneg add_nonneg_nonneg divide_nonneg_nonneg) (simp_all add: second_def)
qed

lemma seconds_of_0 [simp]: "seconds_of 0 = 0"
  by (simp add: seconds_of_def fadd_def fdiv_def second_def)

lemma length_update:
  "length (AList.update k v xs) = (if map_of xs k = None then Suc (length xs) else length xs)"
  by (induction xs) auto

definition refill :: "int \<Rightarrow> bucket \<Rightarrow> limiter \<Rightarrow> float64" where
  "refill now b l = min (burst l) (fadd (bk_tokens b) (fmul (seconds_of (time_Sub now (bk_last b))) (rps l)))"

lemma refill_ok:
  assumes "limiter_ok now l" "bucket_ok (burst l) now b"
  shows "0 \<le> refill now b l" "refill now b l \<le> burst l" "representable (refill now b l)"
proof -
  have "0 \<le> seconds_of (time_Sub now (bk_last b))"
    using assms(2) by (intro seconds_of_nonneg) (simp add: bucket_ok_def time_Sub_def maxDuration_def le_max_iff_disj)
  then have "0 \<le> fmul (seconds_of (time_Sub now (bk_last b))) (rps l)"
    using assms(1) unfolding fmul_def by (intro rnd64_nonneg) (simp add: limiter_ok_def)
  then have "0 \<le> fadd (bk_tokens b) (fmul (seconds_of (time_Sub now (bk_last b))) (rps l))"
    using assms(2) unfolding fadd_def by (intro rnd64_nonneg) (simp add: bucket_ok_def)
  then show "0 \<le> refill now b l" using assms(1) by (simp add: refill_def limiter_ok_def)
  show "refill now b l \<le> burst l" by (simp add: refill_def)
  show "representable (refill now b l)"
    using assms(1) unfolding refill_def fadd_def
    by (intro representable_min representable_rnd64) (simp add: limiter_ok_def)
qed

text \<open>What is left of a balance once \<open>spend\<close> has answered.\<close>

lemma spend_result:
  assumes "limiter_ok now l" "bucket_ok (burst l) now b"
  shows "spend now key b l =
    (if 1 \<le> refill now b l
     then ((True, 0), l\<lparr>buckets := AList.update key \<lparr>bk_tokens = refill now b l - 1, bk_last = now\<rparr> (buckets l)\<rparr>)
     else ((False, duration_of_float (fmul (fdiv (fadd 1 (- refill now b l)) (rps l)) (of_int second))),
           l\<lparr>buckets := AList.update key \<lparr>bk_tokens = refill now b l, bk_last = now\<rparr> (buckets l)\<rparr>))"
proof (cases "1 \<le> refill now b l")
  case True
  have "refill now b l \<le> 2 ^ 53"
    using refill_ok(2) [OF assms] assms(1) unfolding limiter_ok_def by linarith
  then have "fadd (refill now b l) (- 1) = refill now b l - 1"
    by (rule spend_exact [OF refill_ok(3) [OF assms] True])
  with True show ?thesis by (simp add: spend_def refill_def [symmetric])
qed (simp add: spend_def refill_def [symmetric] Let_def)

lemma limiter_ok_put:
  assumes "limiter_ok t l" "bucket_ok (burst l) t b" "map_of (buckets l) k \<noteq> None \<or> size_of l < maxClients l"
  shows "limiter_ok t (l\<lparr>buckets := AList.update k b (buckets l)\<rparr>)"
  using assms set_update_subset [of k b "buckets l"]
  by (auto simp: limiter_ok_def distinct_update size_of_def length_update)

lemma spend_keeps:
  assumes "limiter_ok now l" "bucket_ok (burst l) now b"
    and "map_of (buckets l) key \<noteq> None \<or> size_of l < maxClients l"
  shows "limiter_ok now (snd (spend now key b l)) \<and> 0 \<le> snd (fst (spend now key b l))"
proof (cases "1 \<le> refill now b l")
  case True
  have "representable (refill now b l - 1)"
    using spend_exact [OF refill_ok(3) [OF assms(1,2)] True] representable_rnd64
      refill_ok(2) [OF assms(1,2)] assms(1)
    by (metis (no_types, lifting) fadd_def limiter_ok_def order_trans uminus_add_conv_diff add.commute)
  then have "bucket_ok (burst l) now \<lparr>bk_tokens = refill now b l - 1, bk_last = now\<rparr>"
    using True refill_ok(2) [OF assms(1,2)] by (simp add: bucket_ok_def)
  then show ?thesis using True limiter_ok_put [OF assms(1) _ assms(3)]
    by (simp add: spend_result [OF assms(1,2)])
next
  case False
  have "0 \<le> fmul (fdiv (fadd 1 (- refill now b l)) (rps l)) (of_int second)"
    using False assms(1) unfolding fmul_def fdiv_def fadd_def
    by (intro rnd64_nonneg mult_nonneg_nonneg divide_nonneg_nonneg) (simp_all add: limiter_ok_def second_def)
  then have "0 \<le> duration_of_float (fmul (fdiv (fadd 1 (- refill now b l)) (rps l)) (of_int second))"
    by (simp add: duration_of_float_def)
  moreover have "bucket_ok (burst l) now \<lparr>bk_tokens = refill now b l, bk_last = now\<rparr>"
    using refill_ok [OF assms(1,2)] by (simp add: bucket_ok_def)
  ultimately show ?thesis using False limiter_ok_put [OF assms(1) _ assms(3)]
    by (simp add: spend_result [OF assms(1,2)])
qed

lemma limiter_ok_later: "limiter_ok t l \<Longrightarrow> t \<le> now \<Longrightarrow> limiter_ok now l"
  by (fastforce simp: limiter_ok_def bucket_ok_def)

lemma sweep_keeps: "limiter_ok t l \<Longrightarrow> limiter_ok t (sweep now l)"
proof -
  assume l: "limiter_ok t l"
  let ?bs = "filter (\<lambda>(k, b). \<not> fullAfter l \<le> time_Sub now (bk_last b)) (buckets l)"
  have "int (length ?bs) \<le> int (length (buckets l))" by simp
  also have "\<dots> \<le> maxClients l" using l by (simp add: limiter_ok_def size_of_def)
  finally show ?thesis using l by (auto simp: limiter_ok_def sweep_def size_of_def distinct_filter_keys)
qed

lemma sweep_config [simp]:
  "burst (sweep now l) = burst l" "maxClients (sweep now l) = maxClients l" "rps (sweep now l) = rps l"
  "lastSweep (sweep now l) = now" "fullAfter (sweep now l) = fullAfter l"
  by (simp_all add: sweep_def)

lemma bucket_ok_of: "limiter_ok t l \<Longrightarrow> map_of (buckets l) k = Some b \<Longrightarrow> bucket_ok (burst l) t b"
  by (auto simp: limiter_ok_def dest!: map_of_SomeD)

lemma bucket_ok_full: "limiter_ok t l \<Longrightarrow> bucket_ok (burst l) t \<lparr>bk_tokens = burst l, bk_last = t\<rparr>"
  by (simp add: limiter_ok_def bucket_ok_def)

lemma allow_invariant:
  assumes "limiter_ok t l" "t \<le> now"
  shows "limiter_ok now (snd (bucket_allow now key l)) \<and> 0 \<le> snd (fst (bucket_allow now key l))"
proof -
  let ?l1 = "if rateLimitSweepInterval \<le> time_Sub now (lastSweep l) then sweep now l else l"
  let ?l2 = "if maxClients ?l1 \<le> int (length (buckets ?l1)) \<and>
    rateLimitMinSweepGap \<le> time_Sub now (lastSweep ?l1) then sweep now ?l1 else ?l1"
  have l1: "limiter_ok now ?l1" using limiter_ok_later [OF assms] by (simp add: sweep_keeps)
  then have l2: "limiter_ok now ?l2" by (simp add: sweep_keeps)
  show ?thesis
  proof (cases "map_of (buckets ?l1) key")
    case (Some b)
    then show ?thesis using spend_keeps [OF l1 bucket_ok_of [OF l1 Some]]
      by (simp add: bucket_allow_def Let_def)
  next
    case None
    show ?thesis
    proof (cases "maxClients ?l2 \<le> int (length (buckets ?l2))")
      case True
      with None l2 show ?thesis unfolding bucket_allow_def Let_def by simp
    next
      case False
      then have "size_of ?l2 < maxClients ?l2" by (simp add: size_of_def)
      from spend_keeps [OF l2 bucket_ok_full [OF l2] disjI2 [OF this]] None False
      show ?thesis unfolding bucket_allow_def Let_def by simp
    qed
  qed
qed

lemma empty_limiter_ok:
  "0 < r \<Longrightarrow> 1 \<le> c \<Longrightarrow> c \<le> 2 ^ 53 \<Longrightarrow> representable c \<Longrightarrow> 0 < m \<Longrightarrow>
   limiter_ok t \<lparr>rps = r, burst = c, maxClients = m, fullAfter = f, buckets = [], lastSweep = z\<rparr>"
  by (simp add: limiter_ok_def size_of_def)

lemma new_limiter_ok:
  assumes "0 < RPS cfg" "Burst cfg \<le> 2 ^ 53"
  shows "limiter_ok t (newLimiter cfg)"
proof -
  define k where "k = max (Burst cfg) 1"
  have k: "1 \<le> k" "k \<le> 2 ^ 53" using assms(2) by (auto simp: k_def)
  have "rnd64 (of_int k) = of_int k" using k by (intro rnd64_representable representable_int) simp
  moreover have "of_int 1 \<le> (of_int k :: rat)" "of_int k \<le> (of_int (2 ^ 53) :: rat)"
    using k by (simp_all only: of_int_le_iff)
  ultimately have c: "1 \<le> rnd64 (of_int k)" "rnd64 (of_int k) \<le> 2 ^ 53" by simp_all
  show ?thesis unfolding newLimiter_def Let_def k_def [symmetric]
    by (rule empty_limiter_ok [OF assms(1) c representable_rnd64]) (simp add: DefaultRateLimitMaxClients_def)
qed

section \<open>A burst is all a client gets at once\<close>

definition bucket_verdict :: "int \<Rightarrow> string \<Rightarrow> limiter \<Rightarrow> bool \<times> limiter" where
  "bucket_verdict now key l = (case bucket_allow now key l of (r, l') \<Rightarrow> (fst r, l'))"

definition available :: "int \<Rightarrow> string \<Rightarrow> limiter \<Rightarrow> float64" where
  "available t k l = (case map_of (buckets l) k of
     None \<Rightarrow> burst l | Some b \<Rightarrow> if bk_last b = t then bk_tokens b else burst l)"

definition quiet_at :: "int \<Rightarrow> limiter \<Rightarrow> bool" where
  "quiet_at t l \<longleftrightarrow> limiter_ok t l \<and> time_Sub t (lastSweep l) < rateLimitSweepInterval"

lemma refill_now: "limiter_ok t l \<Longrightarrow> bucket_ok (burst l) t b \<Longrightarrow> bk_last b = t \<Longrightarrow> refill t b l = bk_tokens b"
  by (simp add: refill_def bucket_ok_def time_Sub_def maxDuration_def minDuration_def fmul_def fadd_def
      rnd64_representable)

lemma available_put:
  "available t k (l\<lparr>buckets := AList.update k' b (buckets l)\<rparr>) =
     (if k' = k then (if bk_last b = t then bk_tokens b else burst l) else available t k l)"
  by (auto simp: available_def update_conv' split: option.splits)

lemma spend_available:
  assumes l: "limiter_ok t l" and b: "bucket_ok (burst l) t b"
    and u: "k' = k \<Longrightarrow> refill t b l \<le> available t k l"
  shows "available t k (snd (spend t k' b l)) + (if k' = k \<and> fst (fst (spend t k' b l)) then 1 else 0)
    \<le> available t k l"
  using u by (auto simp: spend_result [OF l b] available_put)

lemma quiet_step:
  assumes q: "quiet_at t l" and room: "size_of l < maxClients l"
  shows "\<exists>b. bucket_allow t k' l = spend t k' b l \<and> bucket_ok (burst l) t b \<and>
    refill t b l \<le> available t k' l"
proof -
  have l: "limiter_ok t l" using q by (simp add: quiet_at_def)
  show ?thesis
  proof (cases "map_of (buckets l) k'")
    case None
    let ?b = "\<lparr>bk_tokens = burst l, bk_last = t\<rparr>"
    have "bucket_allow t k' l = spend t k' ?b l"
      using None q room by (simp add: bucket_allow_def quiet_at_def size_of_def Let_def)
    moreover have "refill t ?b l \<le> available t k' l"
      using None refill_ok(2) [OF l bucket_ok_full [OF l]] by (simp add: available_def)
    ultimately show ?thesis using bucket_ok_full [OF l] by blast
  next
    case (Some b)
    have b: "bucket_ok (burst l) t b" by (rule bucket_ok_of [OF l Some])
    have "bucket_allow t k' l = spend t k' b l"
      using Some q by (simp add: bucket_allow_def quiet_at_def Let_def)
    moreover have "refill t b l \<le> available t k' l"
      using Some refill_ok(2) [OF l b] refill_now [OF l b] by (simp add: available_def)
    ultimately show ?thesis using b by blast
  qed
qed

lemma spend_frame:
  "limiter_ok t l \<Longrightarrow> bucket_ok (burst l) t b \<Longrightarrow>
   lastSweep (snd (spend t k b l)) = lastSweep l \<and> maxClients (snd (spend t k b l)) = maxClients l \<and>
   burst (snd (spend t k b l)) = burst l \<and> size_of (snd (spend t k b l)) \<le> size_of l + 1"
  by (auto simp: spend_result size_of_def length_update)

lemma quiet_calls:
  "quiet_at t l \<Longrightarrow> \<forall>e \<in> set es. fst e = t \<Longrightarrow> size_of l + int (length es) \<le> maxClients l \<Longrightarrow>
   of_int (count_for k es (admitted bucket_verdict es l)) \<le> available t k l"
proof (induction es arbitrary: l)
  case Nil
  then have "limiter_ok t l" by (simp add: quiet_at_def)
  then show ?case using bucket_ok_of [of t l k]
    by (auto simp: available_def limiter_ok_def bucket_ok_def split: option.splits)
next
  case (Cons e es)
  obtain k' where e: "e = (t, k')" using Cons.prems(2) by (cases e) auto
  have l: "limiter_ok t l" using Cons.prems(1) by (simp add: quiet_at_def)
  have room: "size_of l < maxClients l" using Cons.prems(3) by simp
  obtain b where b: "bucket_allow t k' l = spend t k' b l" "bucket_ok (burst l) t b"
      "refill t b l \<le> available t k' l"
    using quiet_step [OF Cons.prems(1) room] by blast
  let ?l = "snd (spend t k' b l)"
  have f: "lastSweep ?l = lastSweep l" "maxClients ?l = maxClients l" "size_of ?l \<le> size_of l + 1"
    using spend_frame [OF l b(2)] by auto
  have "limiter_ok t ?l" using allow_invariant [OF l order_refl, of k'] b(1) by simp
  then have "of_int (count_for k es (admitted bucket_verdict es ?l)) \<le> available t k ?l"
    using Cons.prems f by (intro Cons.IH) (auto simp: quiet_at_def)
  moreover have "available t k ?l + (if k' = k \<and> fst (fst (spend t k' b l)) then 1 else 0) \<le> available t k l"
    using b(3) by (intro spend_available [OF l b(2)]) simp
  moreover have "bucket_verdict t k' l = (fst (fst (spend t k' b l)), ?l)"
    by (simp add: bucket_verdict_def b(1) split_beta)
  ultimately show ?case by (cases "k' = k") (auto simp: e split: if_splits)
qed

end
