(* ===== verification/Phone.thy ===== *)
theory Phone
  imports AppErr
begin

text \<open>
  The one definition of a customer's and a staff member's phone number: \<^verbatim>\<open>internal/phonenorm\<close>, with
  its users \<^verbatim>\<open>internal/auth/phone.go\<close> and \<^verbatim>\<open>internal/staff/phone.go\<close>. The regular expressions
  \<^verbatim>\<open>^996\d{9}$\<close>, \<^verbatim>\<open>^0\d{9}$\<close> and \<^verbatim>\<open>^[1-9]\d{8}$\<close> are tests on the digits of the text; \<open>digits_of\<close> is the
  removal of every match of \<^verbatim>\<open>\D\<close>, which for a text in UTF-8 leaves the ASCII digits. The
  lemmas characterise the accepted spellings and show that the normal form is a fixed point, and
  that the suffix the staff lookup filters on is the same for every spelling of a number.
\<close>

definition digits_of :: "string \<Rightarrow> string" where
  "digits_of = filter is_digit"

definition intlPhone :: "string \<Rightarrow> bool" where
  "intlPhone s \<longleftrightarrow> prefix ''996'' s \<and> length (drop 3 s) = 9 \<and> list_all is_digit (drop 3 s)"

definition localPhone :: "string \<Rightarrow> bool" where
  "localPhone s \<longleftrightarrow> prefix ''0'' s \<and> length (drop 1 s) = 9 \<and> list_all is_digit (drop 1 s)"

definition nationalPhone :: "string \<Rightarrow> bool" where
  "nationalPhone s \<longleftrightarrow> (case s of [] \<Rightarrow> False
     | c # ds \<Rightarrow> is_digit c \<and> c \<noteq> CHR ''0'' \<and> length ds = 8 \<and> list_all is_digit ds)"

definition E164 :: "string \<Rightarrow> string option" where
  "E164 raw =
     (let digits = digits_of raw
      in if intlPhone digits then Some (''+'' @ digits)
         else if localPhone digits then Some (''+996'' @ drop 1 digits)
         else if nationalPhone digits \<and> \<not> prefix ''+'' (trim_space raw) then Some (''+996'' @ digits)
         else None)"

definition NormalizePhone :: "string \<Rightarrow> go_error + string" where
  "NormalizePhone raw =
     (case E164 raw of None \<Rightarrow> Inl (AppError (BadRequest ''invalid_phone'')) | Some p \<Rightarrow> Inr p)"

definition forNikita :: "string \<Rightarrow> string" where
  "forNikita e164Phone = drop 1 e164Phone"

definition normalizeStaffPhone :: "string \<Rightarrow> go_error + string" where
  "normalizeStaffPhone raw =
     (case E164 raw of None \<Rightarrow> Inl (AppError (BadRequest ''invalid_phone'')) | Some p \<Rightarrow> Inr p)"

definition canonicalPhoneKey :: "string \<Rightarrow> string" where
  "canonicalPhoneKey raw = (case E164 raw of Some p \<Rightarrow> p | None \<Rightarrow> trim_space raw)"

definition phoneLookupSuffixLen :: nat where "phoneLookupSuffixLen = 9"

definition phoneDigitsSuffix :: "string \<Rightarrow> string" where
  "phoneDigitsSuffix phone =
     (let digits = filter (\<lambda>r. CHR ''0'' \<le> r \<and> r \<le> CHR ''9'') phone
      in if phoneLookupSuffixLen < length digits then drop (length digits - phoneLookupSuffixLen) digits
         else digits)"

section \<open>The normal form\<close>

definition subscriber :: "string \<Rightarrow> bool" where
  "subscriber ds \<longleftrightarrow> length ds = 9 \<and> list_all is_digit ds"

definition canonical :: "string \<Rightarrow> bool" where
  "canonical p \<longleftrightarrow> (\<exists>ds. p = ''+996'' @ ds \<and> subscriber ds)"

lemma is_digit_const [simp]:
  "is_digit (CHR ''0'')" "is_digit (CHR ''6'')" "is_digit (CHR ''9'')" "\<not> is_digit (CHR ''+'')"
  by (simp_all add: is_digit_def)

lemma digits_of_digits: "list_all is_digit ds \<Longrightarrow> digits_of ds = ds"
  by (simp add: digits_of_def list_all_iff)

lemma digits_of_append [simp]: "digits_of (s @ t) = digits_of s @ digits_of t"
  by (simp add: digits_of_def)

lemma digits_of_idem [simp]: "digits_of (digits_of s) = digits_of s"
  by (simp add: digits_of_def)

lemma list_all_digits_of [simp]: "list_all is_digit (digits_of s)"
  by (simp add: digits_of_def list_all_iff)

lemma intlPhone_iff: "intlPhone s \<longleftrightarrow> (\<exists>ds. s = ''996'' @ ds \<and> subscriber ds)"
  by (auto simp: intlPhone_def subscriber_def prefix_def)

lemma localPhone_iff: "localPhone s \<longleftrightarrow> (\<exists>ds. s = ''0'' @ ds \<and> subscriber ds)"
  by (auto simp: localPhone_def subscriber_def prefix_def)

lemma nationalPhone_iff: "nationalPhone s \<longleftrightarrow> subscriber s \<and> \<not> prefix ''0'' s"
  by (cases s) (auto simp: nationalPhone_def subscriber_def)

lemma subscriber_parts: "subscriber ds \<Longrightarrow> length ds = 9" "subscriber ds \<Longrightarrow> digits_of ds = ds"
  by (simp_all add: subscriber_def digits_of_digits)

text \<open>The accepted spellings of a number, one disjunct per branch of \<^verbatim>\<open>E164\<close>.\<close>

lemma E164_iff:
  "E164 raw = Some p \<longleftrightarrow>
     (\<exists>ds. p = ''+996'' @ ds \<and> subscriber ds \<and>
        (digits_of raw = ''996'' @ ds \<or> digits_of raw = ''0'' @ ds \<or>
         digits_of raw = ds \<and> \<not> prefix ''0'' ds \<and> \<not> prefix ''+'' (trim_space raw)))"
proof -
  have l: "subscriber a \<Longrightarrow> subscriber b \<Longrightarrow> ''996'' @ a \<noteq> ''0'' @ b \<and> ''996'' @ a \<noteq> b \<and> ''0'' @ a \<noteq> b" for a b
    by (auto simp: subscriber_def)
  show ?thesis
    unfolding E164_def Let_def intlPhone_iff localPhone_iff nationalPhone_iff
    using l by (auto simp: subscriber_def)
qed

lemma E164_canonical: "E164 raw = Some p \<Longrightarrow> canonical p"
  by (auto simp: E164_iff canonical_def)

lemma E164_fixed: "canonical p \<Longrightarrow> E164 p = Some p"
proof -
  assume "canonical p"
  then obtain ds where ds: "p = ''+996'' @ ds" "subscriber ds" by (auto simp: canonical_def)
  then have "digits_of p = ''996'' @ ds"
    using subscriber_parts(2) [OF ds(2)] by (simp add: digits_of_def)
  with ds show ?thesis unfolding E164_iff by blast
qed

text \<open>Trimming white space removes no digit and settles after one pass.\<close>

lemma digits_of_trim_with:
  "\<forall>p \<in> set pats. digits_of p = [] \<Longrightarrow> digits_of (trim_with pats n s) = digits_of s"
proof (induction n arbitrary: s)
  case (Suc n)
  show ?case
  proof (cases "find (\<lambda>p. prefix p s) pats")
    case (Some p)
    then have p: "p \<in> set pats" "prefix p s" using find_Some_mem by fast+
    then obtain t where t: "s = p @ t" by (auto simp: prefix_def)
    have "digits_of (trim_with pats n t) = digits_of t" by (rule Suc.IH [OF Suc.prems])
    then show ?thesis using Some Suc.prems p(1) t by simp
  qed simp
qed simp

lemma digits_of_rev: "digits_of (rev s) = rev (digits_of s)"
  by (simp add: digits_of_def rev_filter)

lemma space_runes_digits: "\<forall>p \<in> set space_runes. digits_of p = []"
  by (simp add: space_runes_def digits_of_def is_digit_def)

lemma digits_of_trim_space [simp]: "digits_of (trim_space s) = digits_of s"
proof -
  have "\<forall>p \<in> set (map rev space_runes). digits_of p = []"
    using space_runes_digits by (simp add: digits_of_rev)
  then show ?thesis
    unfolding trim_space_def trim_right_def trim_left_def
    by (simp only: digits_of_rev digits_of_trim_with [OF space_runes_digits]
        digits_of_trim_with rev_rev_ident)
qed

lemma trim_with_id: "find (\<lambda>p. prefix p s) pats = None \<Longrightarrow> trim_with pats n s = s"
  by (cases n) simp_all

lemma space_runes_nonempty: "\<forall>p \<in> set space_runes. p \<noteq> []" "\<forall>p \<in> set (map rev space_runes). p \<noteq> []"
  by (simp_all add: space_runes_def)

lemma trim_space_idem [simp]: "trim_space (trim_space s) = trim_space s"
proof -
  let ?l = "trim_left s"
  let ?r = "trim_space s"
  have l: "find (\<lambda>p. prefix p ?l) space_runes = None"
    unfolding trim_left_def by (rule trim_with_done [OF space_runes_nonempty(1)]) simp
  have "suffix (rev ?r) (rev ?l)"
    unfolding trim_space_def trim_right_def rev_rev_ident by (rule trim_with_suffix)
  then have "prefix ?r ?l" by (simp add: suffix_to_prefix)
  then have "find (\<lambda>p. prefix p ?r) space_runes = None"
    using l by (auto simp: find_None_iff dest: prefix_order.trans)
  then have left: "trim_left ?r = ?r" unfolding trim_left_def by (rule trim_with_id)
  have "find (\<lambda>p. prefix p (rev ?r)) (map rev space_runes) = None"
    unfolding trim_space_def trim_right_def rev_rev_ident
    by (rule trim_with_done [OF space_runes_nonempty(2)]) simp
  then have "trim_right ?r = ?r" unfolding trim_right_def by (simp add: trim_with_id)
  with left show ?thesis by (metis trim_space_def)
qed

section \<open>The staff lookup\<close>

lemma digit_range: "CHR ''0'' \<le> r \<and> r \<le> CHR ''9'' \<longleftrightarrow> is_digit r"
proof -
  have "byte r = int (of_char r)" by (simp add: of_char_def)
  then show ?thesis by (simp add: is_digit_def less_eq_char_def)
qed

lemma phoneDigitsSuffix_eq: "phoneDigitsSuffix s = drop (length (digits_of s) - 9) (digits_of s)"
  unfolding phoneDigitsSuffix_def digit_range digits_of_def [symmetric] phoneLookupSuffixLen_def Let_def
  by auto

lemma phoneDigitsSuffix_key: "phoneDigitsSuffix (canonicalPhoneKey raw) = phoneDigitsSuffix raw"
proof (cases "E164 raw")
  case None
  then show ?thesis by (simp add: canonicalPhoneKey_def phoneDigitsSuffix_eq)
next
  case (Some p)
  then obtain ds where ds: "p = ''+996'' @ ds" "subscriber ds"
      "digits_of raw = ''996'' @ ds \<or> digits_of raw = ''0'' @ ds \<or> digits_of raw = ds"
    by (auto simp: E164_iff)
  have "phoneDigitsSuffix p = ds"
    using ds(1) subscriber_parts [OF ds(2)] by (simp add: phoneDigitsSuffix_eq digits_of_def)
  moreover have "phoneDigitsSuffix raw = ds"
    using ds(3) subscriber_parts [OF ds(2)] by (auto simp: phoneDigitsSuffix_eq)
  ultimately show ?thesis using Some by (simp add: canonicalPhoneKey_def)
qed

lemma canonicalPhoneKey_idem [simp]: "canonicalPhoneKey (canonicalPhoneKey raw) = canonicalPhoneKey raw"
proof (cases "E164 raw")
  case None
  have "E164 (trim_space raw) = None"
  proof (rule ccontr)
    assume "E164 (trim_space raw) \<noteq> None"
    then obtain p where "E164 (trim_space raw) = Some p" by auto
    then have "E164 raw = Some p" by (simp add: E164_iff)
    with None show False by simp
  qed
  with None show ?thesis by (simp add: canonicalPhoneKey_def)
next
  case (Some p)
  then have "E164 p = Some p" using E164_canonical E164_fixed by blast
  with Some show ?thesis by (simp add: canonicalPhoneKey_def)
qed

text \<open>Two spellings with the same key have the same digits at the end: the filter loses no match.\<close>

lemma same_key_same_suffix:
  "canonicalPhoneKey a = canonicalPhoneKey b \<Longrightarrow> phoneDigitsSuffix a = phoneDigitsSuffix b"
  by (metis phoneDigitsSuffix_key)

end
