(* ===== verification/LimiterProperties.thy ===== *)
theory LimiterProperties
  imports TokenBucket Phone
begin

text \<open>
  What the limits of the process guarantee over whole runs, and the normal form of phone numbers.
\<close>

section \<open>Fixed windows\<close>

lemma fresh_login_ok: "lr_ok \<lparr>lr_limit = n, lr_attempts = []\<rparr>"
  by (simp add: lr_ok_def)

lemma fresh_login_max: "max_attempts \<lparr>lr_limit = n, lr_attempts = []\<rparr> = (if 0 < n then n else 5)"
  by (simp add: max_attempts_def loginAttemptLimit_def)

text \<open>
  Staff login attempts are throttled per key: whatever was tried before, at most twice the limit
  (and at most the limit from a clean start) get through within any 15 minutes.
\<close>

theorem login_attempts_bounded:
  assumes "\<forall>(t, k') \<in> set es. a \<le> t \<and> t < a + loginAttemptWindow"
  shows "count_for k es (admitted login_allow es (state_after login_allow pre \<lparr>lr_limit = n, lr_attempts = []\<rparr>))
           \<le> 2 * (if 0 < n then n else 5) \<and>
         count_for k es (admitted login_allow es \<lparr>lr_limit = n, lr_attempts = []\<rparr>) \<le> (if 0 < n then n else 5)"
proof -
  let ?s = "\<lparr>lr_limit = n, lr_attempts = []\<rparr>"
  have "\<forall>c r. lr_lookup (state_after login_allow pre ?s) k = Some (c, r) \<longrightarrow> 0 \<le> c"
    using lr_ok_lookup [OF staff_window.ok_after [OF fresh_login_ok]] by blast
  from staff_window.at_most_twice [OF fresh_login_ok TrueI assms this]
    staff_window.fresh_at_most_limit [OF fresh_login_ok TrueI assms]
  show ?thesis by (simp add: fresh_login_max lr_lookup_def)
qed

theorem login_attempts_bounded_witness:
  "count_for ''k'' [(0, ''k''), (1, ''k''), (2, ''k'')]
     (admitted login_allow [(0, ''k''), (1, ''k''), (2, ''k'')]
        (state_after login_allow [] \<lparr>lr_limit = 1, lr_attempts = []\<rparr>)) \<le> 2"
  using login_attempts_bounded [of "[(0, ''k''), (1, ''k''), (2, ''k'')]" 0 "''k''" "[]" 1]
  by (simp add: loginAttemptWindow_def)

lemma fresh_window_ok: "0 < n \<Longrightarrow> wl_ok (newWindowLimiter n w)"
  by (simp add: wl_ok_def newWindowLimiter_def)

text \<open>
  The per-IP limits of customer authentication: a limiter of \<open>n\<close> events per window admits for one
  client at most twice \<open>n\<close> in any stretch of one window, and at most \<open>n\<close> from the start.
\<close>

theorem window_limit_bounded:
  assumes "0 < n" "k \<noteq> []" "\<forall>(t, k') \<in> set es. a \<le> t \<and> t < a + w"
  shows "count_for k es (admitted allow es (state_after allow pre (newWindowLimiter n w))) \<le> 2 * n \<and>
         count_for k es (admitted allow es (newWindowLimiter n w)) \<le> n"
proof -
  let ?s = "newWindowLimiter n w"
  have s: "wl_ok ?s" by (rule fresh_window_ok [OF assms(1)])
  have "\<forall>c r. wl_lookup (state_after allow pre ?s) k = Some (c, r) \<longrightarrow> 0 \<le> c"
    using wl_ok_lookup [OF auth_window.ok_after [OF s]] by blast
  from auth_window.at_most_twice [OF s assms(2) _ this] auth_window.fresh_at_most_limit [OF s assms(2)] assms(3)
  show ?thesis by (simp add: newWindowLimiter_def wl_lookup_def)
qed

theorem window_limit_bounded_witness:
  "count_for ''k'' [(5, ''k''), (6, ''k'')]
     (admitted allow [(5, ''k''), (6, ''k'')] (state_after allow [(0, ''k'')] (newWindowLimiter 1 60))) \<le> 2"
  using window_limit_bounded [of 1 "''k''" "[(5, ''k''), (6, ''k'')]" 0 60 "[(0, ''k'')]"] by simp

text \<open>
  The fixed code of the store-review account can be guessed at most ten times: of any sequence
  of guesses since the start of the process, a right one is accepted exactly when fewer than
  \<^verbatim>\<open>reviewMaxFailures\<close> wrong ones came before it.
\<close>

theorem review_code_lockout:
  assumes "i < length cs"
  shows "fst (guesses want cs \<lparr>rg_failures = 0, rg_tripped = False\<rparr> ! i) \<longleftrightarrow>
           cs ! i = want \<and> int (length (filter (\<lambda>c. c \<noteq> want) (take i cs))) < 10"
  using guesses_accepted [of "\<lparr>rg_failures = 0, rg_tripped = False\<rparr>" i cs want] assms
  by (simp add: reviewMaxFailures_def)

theorem review_code_lockout_witness:
  "\<not> fst (guesses ''1'' (replicate 10 ''2'' @ [''1'']) \<lparr>rg_failures = 0, rg_tripped = False\<rparr> ! 10)"
  using review_code_lockout [of 10 "replicate 10 ''2'' @ [''1'']" "''1''"] by simp

section \<open>Token buckets\<close>

lemma bucket_step_ok:
  "limiter_ok t l \<Longrightarrow> t \<le> now \<Longrightarrow> limiter_ok now (snd (bucket_verdict now k l))"
  using allow_invariant [of t l now k] by (simp add: bucket_verdict_def split_beta)

lemma bucket_run_ok:
  "limiter_ok t l \<Longrightarrow> sorted (map fst pre) \<Longrightarrow> \<forall>e \<in> set pre. t \<le> fst e \<and> fst e \<le> t' \<Longrightarrow> t \<le> t' \<Longrightarrow>
   limiter_ok t' (state_after bucket_verdict pre l)"
proof (induction pre arbitrary: t l)
  case Nil
  then show ?case using limiter_ok_later by simp
next
  case (Cons e pre)
  obtain u k where e: "e = (u, k)" by (cases e)
  have "limiter_ok u (snd (bucket_verdict u k l))" using Cons.prems by (intro bucket_step_ok) (auto simp: e)
  from Cons.IH [OF this] Cons.prems show ?case by (auto simp: e)
qed

lemma spend_size: "size_of (snd (spend t k b l)) \<le> size_of l + 1 \<and> burst (snd (spend t k b l)) = burst l \<and>
    maxClients (snd (spend t k b l)) = maxClients l"
  by (simp add: spend_def Let_def size_of_def length_update)

lemma sweep_size: "size_of (sweep t l) \<le> size_of l"
  by (simp add: size_of_def sweep_def)

lemma bucket_step_size:
  "size_of (snd (bucket_verdict t k l)) \<le> size_of l + 1 \<and> burst (snd (bucket_verdict t k l)) = burst l \<and>
   maxClients (snd (bucket_verdict t k l)) = maxClients l"
proof -
  let ?l1 = "if rateLimitSweepInterval \<le> time_Sub t (lastSweep l) then sweep t l else l"
  let ?l2 = "if maxClients ?l1 \<le> int (length (buckets ?l1)) \<and>
    rateLimitMinSweepGap \<le> time_Sub t (lastSweep ?l1) then sweep t ?l1 else ?l1"
  let ?b = "\<lparr>bk_tokens = burst ?l2, bk_last = t\<rparr>"
  have s1: "size_of ?l1 \<le> size_of l" "burst ?l1 = burst l" "maxClients ?l1 = maxClients l"
    using sweep_size by auto
  then have s2: "size_of ?l2 \<le> size_of l" "burst ?l2 = burst l" "maxClients ?l2 = maxClients l"
    using sweep_size [of t ?l1] by auto
  have r: "bucket_allow t k l = (case map_of (buckets ?l1) k of Some b \<Rightarrow> spend t k b ?l1
      | None \<Rightarrow> if maxClients ?l2 \<le> int (length (buckets ?l2)) then ((True, 0), ?l2) else spend t k ?b ?l2)"
    unfolding bucket_allow_def Let_def by (rule refl)
  show ?thesis
  proof (cases "map_of (buckets ?l1) k")
    case (Some b)
    then have "bucket_allow t k l = spend t k b ?l1" using r by simp
    then show ?thesis using s1 spend_size [of t k b ?l1]
      by (simp only: bucket_verdict_def split_beta snd_conv) linarith
  next
    case None
    then have "bucket_allow t k l = ((True, 0), ?l2) \<or> bucket_allow t k l = spend t k ?b ?l2"
      using r by simp
    then show ?thesis using s2 spend_size [of t k ?b ?l2]
      by (elim disjE) (simp_all only: bucket_verdict_def split_beta snd_conv, linarith+)
  qed
qed

lemma bucket_run_size:
  "size_of (state_after bucket_verdict pre l) \<le> size_of l + int (length pre) \<and>
   burst (state_after bucket_verdict pre l) = burst l \<and>
   maxClients (state_after bucket_verdict pre l) = maxClients l"
proof (induction pre arbitrary: l)
  case (Cons e pre)
  obtain t k where e: "e = (t, k)" by (cases e)
  have "size_of (snd (bucket_verdict t k l)) \<le> size_of l + 1 \<and>
      burst (snd (bucket_verdict t k l)) = burst l \<and> maxClients (snd (bucket_verdict t k l)) = maxClients l"
    by (rule bucket_step_size)
  with Cons.IH [of "snd (bucket_verdict t k l)"] show ?case by (simp add: e)
qed simp




lemma history_ok:
  assumes "0 < RPS cfg" "Burst cfg \<le> 2 ^ 53" "sorted (map fst pre)" "\<forall>e \<in> set pre. fst e \<le> t"
  shows "limiter_ok t (state_after bucket_verdict pre (newLimiter cfg))"
proof (cases pre)
  case Nil
  then show ?thesis using new_limiter_ok [OF assms(1,2)] by simp
next
  case (Cons e es)
  with assms(3,4) show ?thesis
    by (intro bucket_run_ok [OF new_limiter_ok [OF assms(1,2), of "fst e"]]) (auto simp: Cons)
qed

definition cfg_clients :: "RateLimitConfig \<Rightarrow> int" where
  "cfg_clients cfg = (if MaxClients cfg \<le> 0 then DefaultRateLimitMaxClients else MaxClients cfg)"

lemma new_limiter_fields:
  "burst (newLimiter cfg) = rnd64 (of_int (max (Burst cfg) 1))" "maxClients (newLimiter cfg) = cfg_clients cfg"
  "size_of (newLimiter cfg) = 0"
  by (simp_all add: newLimiter_def cfg_clients_def Let_def size_of_def)



text \<open>
  The state of the limiter stays bounded and sane over any run of calls with a clock that does
  not go back: the map holds at most \<^verbatim>\<open>maxClients\<close> buckets, every balance is between zero and the
  burst, and the time to wait a refusal reports is never negative.
\<close>

theorem buckets_stay_bounded:
  assumes "0 < RPS cfg" "Burst cfg \<le> 2 ^ 53" "sorted (map fst pre)" "\<forall>e \<in> set pre. fst e \<le> t"
  shows "(let l = state_after bucket_verdict pre (newLimiter cfg)
          in size_of l \<le> cfg_clients cfg \<and>
             (\<forall>(key, b) \<in> set (buckets l). 0 \<le> bk_tokens b \<and> bk_tokens b \<le> burst l) \<and>
             0 \<le> snd (fst (bucket_allow t k l)))"
proof -
  let ?l = "state_after bucket_verdict pre (newLimiter cfg)"
  have l: "limiter_ok t ?l" by (rule history_ok [OF assms(1-4)])
  have "maxClients ?l = cfg_clients cfg"
    using bucket_run_size [of pre "newLimiter cfg"] by (simp add: new_limiter_fields)
  with l allow_invariant [OF l order_refl, of k] show ?thesis
    by (auto simp: Let_def limiter_ok_def bucket_ok_def)
qed

theorem buckets_stay_bounded_witness:
  "size_of (state_after bucket_verdict [(0, ''a''), (1, ''b'')] (newLimiter \<lparr>RPS = 1, Burst = 2, MaxClients = 1\<rparr>)) \<le> 1"
  using buckets_stay_bounded [of "\<lparr>RPS = 1, Burst = 2, MaxClients = 1\<rparr>" "[(0, ''a''), (1, ''b'')]" 1 "''a''"]
  by (simp add: cfg_clients_def Let_def)

section \<open>Phone numbers\<close>

text \<open>
  C40. \<^verbatim>\<open>E164\<close> accepts exactly the documented spellings of a Kyrgyz number, whatever separators are
  mixed in, gives each the form +996 and nine digits, and leaves that form unchanged.
\<close>

theorem phone_normal_form:
  "(E164 raw = Some p \<longleftrightarrow>
     (\<exists>ds. p = ''+996'' @ ds \<and> subscriber ds \<and>
        (digits_of raw = ''996'' @ ds \<or> digits_of raw = ''0'' @ ds \<or>
         digits_of raw = ds \<and> \<not> prefix ''0'' ds \<and> \<not> prefix ''+'' (trim_space raw)))) \<and>
   Option.bind (E164 raw) E164 = E164 raw"
proof
  show "Option.bind (E164 raw) E164 = E164 raw"
    using E164_fixed [OF E164_canonical, of raw] by (cases "E164 raw") auto
qed (rule E164_iff)

end
