(* ===== verification/AuthStore.thy ===== *)
theory AuthStore
  imports Tables Phone
begin

text \<open>
  The tables of customer authentication: \<^verbatim>\<open>internal/auth/otp_repo.go\<close>, \<^verbatim>\<open>refresh_repo.go\<close>,
  \<^verbatim>\<open>account_repo.go\<close> and \<^verbatim>\<open>otp_cleanup.go\<close>, one operation each, with the unique indexes of
  migrations 000015 and 000016. An interval of SQL (\<^verbatim>\<open>now() - interval '1 hour'\<close>) is a number of
  microseconds; the advisory lock of \<^verbatim>\<open>reserve\<close> is the atomicity of the transaction. The lemmas say
  what each operation does to its table.
\<close>

section \<open>otp_codes\<close>

record otpCode =
  oc_ID :: string
  oc_Phone :: string
  oc_Token :: string

record otpSendLimits =
  Cooldown :: int
  PerPhone :: int
  PerIP :: int
  GlobalDay :: int

definition hour :: int where "hour = 3600 * usec_per_sec"
definition day :: int where "day = 24 * hour"

definition codes_for :: "db \<Rightarrow> string \<Rightarrow> otp_row list" where
  "codes_for d phone = filter (\<lambda>r. otp_phone r = phone) (otp_codes d)"

definition last_at :: "otp_row list \<Rightarrow> int option" where
  "last_at rs = (case map otp_created_at rs of [] \<Rightarrow> None | t # ts \<Rightarrow> Some (fold max ts t))"

definition count_since :: "int \<Rightarrow> otp_row list \<Rightarrow> int" where
  "count_since t rs = int (length (filter (\<lambda>r. t \<le> otp_created_at r) rs))"

definition insert_otp :: "env \<Rightarrow> string \<Rightarrow> string \<Rightarrow> int \<Rightarrow> string option \<Rightarrow> db \<Rightarrow> go_error + (string \<times> db)" where
  "insert_otp env phone txid expiresAt ip d =
     (let r = \<lparr>otp_id = gen_uuid env (id_count d), otp_phone = phone, otp_transaction_id = txid,
               otp_token = [], otp_expires_at = expiresAt, otp_consumed_at = None,
               otp_created_at = clock d, otp_request_ip = ip, otp_verify_attempts = 0\<rparr>
      in if (\<exists>x \<in> set (otp_codes d). otp_id x = otp_id r \<or> otp_transaction_id x = txid)
         then Inl (PgError ''23505'')
         else Inr (otp_id r, d\<lparr>otp_codes := otp_codes d @ [r], id_count := Suc (id_count d)\<rparr>))"

definition reserve :: "env \<Rightarrow> string \<Rightarrow> string \<Rightarrow> string \<Rightarrow> int \<Rightarrow> otpSendLimits \<Rightarrow> string go" where
  "reserve env phone ip txid expiresAt lims =
     withTx (
       bindG (query (\<lambda>_. ())) (\<lambda>_.
       bindG (query (\<lambda>d. (last_at (codes_for d phone), count_since (clock d - hour) (codes_for d phone), clock d)))
         (\<lambda>(lastAt, phoneHour, now).
       if (case lastAt of None \<Rightarrow> False | Some t \<Rightarrow> now - t < Cooldown lims)
       then failG (AppError (New 429 ''otp_cooldown''))
       else if PerPhone lims \<le> phoneHour
       then failG (AppError (New 429 ''otp_rate_limited''))
       else bindG (if 0 < PerIP lims \<and> ip \<noteq> []
                   then bindG (query (\<lambda>d. count_since (clock d - hour)
                                (filter (\<lambda>r. otp_request_ip r = Some ip) (otp_codes d)))) (\<lambda>n.
                        if PerIP lims \<le> n then failG (AppError (New 429 ''otp_rate_limited'')) else returnG ())
                   else returnG ()) (\<lambda>_.
            bindG (if 0 < GlobalDay lims
                   then bindG (query (\<lambda>d. count_since (clock d - day) (otp_codes d))) (\<lambda>n.
                        if GlobalDay lims \<le> n then failG (AppError (New 429 ''otp_daily_limit'')) else returnG ())
                   else returnG ()) (\<lambda>_.
            stmt (insert_otp env phone txid expiresAt (if ip \<noteq> [] then Some ip else None)))))))"

definition update_otp :: "(otp_row \<Rightarrow> bool) \<Rightarrow> (otp_row \<Rightarrow> otp_row) \<Rightarrow> db \<Rightarrow> db" where
  "update_otp P f d = d\<lparr>otp_codes := map (\<lambda>r. if P r then f r else r) (otp_codes d)\<rparr>"

definition setToken :: "string \<Rightarrow> string \<Rightarrow> unit go" where
  "setToken code_id token = exec (update_otp (\<lambda>r. otp_id r = code_id) (\<lambda>r. r\<lparr>otp_token := token\<rparr>))"

definition burn :: "string \<Rightarrow> unit go" where
  "burn code_id = exec (\<lambda>d. update_otp (\<lambda>r. otp_id r = code_id \<and> otp_consumed_at r = None)
                         (\<lambda>r. r\<lparr>otp_consumed_at := Some (clock d)\<rparr>) d)"

definition active_code :: "db \<Rightarrow> string \<Rightarrow> otp_row \<Rightarrow> bool" where
  "active_code d phone r \<longleftrightarrow> otp_phone r = phone \<and> otp_consumed_at r = None \<and> clock d < otp_expires_at r \<and>
     otp_token r \<noteq> []"

text \<open>\<^verbatim>\<open>ORDER BY created_at DESC LIMIT 1\<close>: of rows with the same instant the first one is taken.\<close>

definition newest :: "otp_row list \<Rightarrow> otp_row option" where
  "newest rs = (case rs of [] \<Rightarrow> None
     | r # rs \<Rightarrow> Some (fold (\<lambda>x best. if otp_created_at best < otp_created_at x then x else best) rs r))"

definition latestActive :: "string \<Rightarrow> otpCode option go" where
  "latestActive phone =
     query (\<lambda>d. map_option (\<lambda>r. \<lparr>oc_ID = otp_id r, oc_Phone = otp_phone r, oc_Token = otp_token r\<rparr>)
                  (newest (filter (active_code d phone) (otp_codes d))))"

definition takeAttempt :: "string \<Rightarrow> int \<Rightarrow> int option go" where
  "takeAttempt code_id maxAttempts =
     stmt (\<lambda>d. let P = (\<lambda>r. otp_id r = code_id \<and> otp_consumed_at r = None \<and> otp_verify_attempts r < maxAttempts)
               in Inr (map_option (\<lambda>r. otp_verify_attempts r + 1) (find P (otp_codes d)),
                       update_otp P (\<lambda>r. r\<lparr>otp_verify_attempts := otp_verify_attempts r + 1\<rparr>) d))"

definition consume :: "string \<Rightarrow> bool go" where
  "consume code_id =
     stmt (\<lambda>d. let P = (\<lambda>r. otp_id r = code_id \<and> otp_consumed_at r = None)
               in Inr (length (filter P (otp_codes d)) = 1,
                       update_otp P (\<lambda>r. r\<lparr>otp_consumed_at := Some (clock d)\<rparr>) d))"

definition deleteOTPCodesBefore :: "int \<Rightarrow> int go" where
  "deleteOTPCodesBefore cutoff =
     stmt (\<lambda>d. Inr (int (length (filter (\<lambda>r. otp_created_at r < cutoff) (otp_codes d))),
                    d\<lparr>otp_codes := filter (\<lambda>r. \<not> otp_created_at r < cutoff) (otp_codes d)\<rparr>))"

section \<open>refresh_tokens\<close>

record refreshToken =
  rt_ID :: string
  rt_CustomerID :: string
  rt_FamilyID :: string
  rt_RotatedAt :: "int option"

definition insert_refresh :: "string \<Rightarrow> string \<Rightarrow> string \<Rightarrow> int \<Rightarrow> string \<Rightarrow> db \<Rightarrow> go_error + db" where
  "insert_refresh tok_id customerID tokenHash expiresAt family d =
     (if (\<exists>x \<in> set (refresh_tokens d). rt_id x = tok_id \<or> rt_token_hash x = tokenHash)
      then Inl (PgError ''23505'')
      else Inr (d\<lparr>refresh_tokens := refresh_tokens d @
             [\<lparr>rt_id = tok_id, rt_customer_id = customerID, rt_token_hash = tokenHash, rt_expires_at = expiresAt,
               rt_revoked_at = None, rt_family_id = family, rt_rotated_at = None\<rparr>]\<rparr>))"

text \<open>A new row draws its id, and \<^verbatim>\<open>create\<close> its family too, from \<^verbatim>\<open>gen_random_uuid()\<close>.\<close>

definition create_refresh :: "env \<Rightarrow> string \<Rightarrow> string \<Rightarrow> int \<Rightarrow> unit go" where
  "create_refresh env customerID tokenHash expiresAt =
     stmt (\<lambda>d. map_sum id (\<lambda>d'. ((), d'\<lparr>id_count := id_count d + 2\<rparr>))
       (insert_refresh (gen_uuid env (id_count d)) customerID tokenHash expiresAt
          (gen_uuid env (Suc (id_count d))) d))"

definition token_active :: "db \<Rightarrow> refresh_row \<Rightarrow> bool" where
  "token_active d r \<longleftrightarrow> rt_revoked_at r = None \<and> clock d < rt_expires_at r"

definition update_refresh :: "(refresh_row \<Rightarrow> bool) \<Rightarrow> (refresh_row \<Rightarrow> refresh_row) \<Rightarrow> db \<Rightarrow> db" where
  "update_refresh P f d = d\<lparr>refresh_tokens := map (\<lambda>r. if P r then f r else r) (refresh_tokens d)\<rparr>"

definition token_of :: "refresh_row \<Rightarrow> refreshToken" where
  "token_of r = \<lparr>rt_ID = rt_id r, rt_CustomerID = rt_customer_id r, rt_FamilyID = rt_family_id r,
                 rt_RotatedAt = rt_rotated_at r\<rparr>"

text \<open>
  The \<^verbatim>\<open>UPDATE ... RETURNING\<close> of \<^verbatim>\<open>rotate\<close>: it does not return \<^verbatim>\<open>rotated_at\<close>, which stays nil in
  the value handed back.
\<close>

definition retire :: "string \<Rightarrow> db \<Rightarrow> go_error + (refreshToken option \<times> db)" where
  "retire oldHash d =
     (let P = (\<lambda>r. rt_token_hash r = oldHash \<and> token_active d r)
      in Inr (map_option (\<lambda>r. token_of r\<lparr>rt_RotatedAt := None\<rparr>) (find P (refresh_tokens d)),
              update_refresh P (\<lambda>r. r\<lparr>rt_revoked_at := Some (clock d), rt_rotated_at := Some (clock d)\<rparr>) d))"

definition rotate :: "env \<Rightarrow> string \<Rightarrow> string \<Rightarrow> int \<Rightarrow> refreshToken option go" where
  "rotate env oldHash newHash expiresAt =
     withTx (
       bindG (stmt (retire oldHash)) (\<lambda>got.
       case got of
         None \<Rightarrow> returnG None
       | Some t \<Rightarrow>
           bindG (stmt (\<lambda>d. map_sum id (\<lambda>d'. ((), d'\<lparr>id_count := Suc (id_count d)\<rparr>))
             (insert_refresh (gen_uuid env (id_count d)) (rt_CustomerID t) newHash expiresAt (rt_FamilyID t) d)))
           (\<lambda>_. returnG (Some t))))"

definition lookup_refresh :: "string \<Rightarrow> refreshToken option go" where
  "lookup_refresh tokenHash =
     query (\<lambda>d. map_option token_of (find (\<lambda>r. rt_token_hash r = tokenHash) (refresh_tokens d)))"

definition revokeFamily :: "string \<Rightarrow> unit go" where
  "revokeFamily familyID =
     exec (\<lambda>d. update_refresh (\<lambda>r. rt_family_id r = familyID \<and> rt_revoked_at r = None)
                 (\<lambda>r. r\<lparr>rt_revoked_at := Some (clock d)\<rparr>) d)"

definition issueInFamily :: "env \<Rightarrow> string \<Rightarrow> string \<Rightarrow> string \<Rightarrow> int \<Rightarrow> bool go" where
  "issueInFamily env customerID familyID tokenHash expiresAt =
     stmt (\<lambda>d. if (\<exists>r \<in> set (refresh_tokens d). rt_family_id r = familyID \<and> token_active d r)
               then map_sum id (\<lambda>d'. (True, d'\<lparr>id_count := Suc (id_count d)\<rparr>))
                      (insert_refresh (gen_uuid env (id_count d)) customerID tokenHash expiresAt familyID d)
               else Inr (False, d))"

section \<open>Account deletion\<close>

definition terminal_status :: "OrderStatus \<Rightarrow> bool" where
  "terminal_status s \<longleftrightarrow> s = StatusDelivered \<or> s = StatusCancelled"

text \<open>The statements \<^verbatim>\<open>deleteCustomer\<close> runs in order once it has decided to delete.\<close>

definition phone_of :: "db \<Rightarrow> string \<Rightarrow> string option" where
  "phone_of d cid = map_option cu_phone (find (\<lambda>c. cu_id c = cid) (customers d))"

definition erase_customer :: "string \<Rightarrow> (db \<Rightarrow> db) list" where
  "erase_customer cid =
    [\<lambda>d. d\<lparr>cart_items := filter (\<lambda>c. c_customer_id c \<noteq> cid) (cart_items d)\<rparr>,
     \<lambda>d. d\<lparr>favorites := filter (\<lambda>f. fv_customer_id f \<noteq> cid) (favorites d)\<rparr>,
     \<lambda>d. d\<lparr>device_tokens := filter (\<lambda>t. dt_customer_id t \<noteq> cid) (device_tokens d)\<rparr>,
     \<lambda>d. d\<lparr>addresses := filter (\<lambda>a. \<not> (a_customer_id a = cid \<and>
             \<not> (\<exists>o' \<in> set (orders d). o_address_id o' = Some (a_id a)))) (addresses d)\<rparr>,
     \<lambda>d. d\<lparr>addresses := map (\<lambda>a. if a_customer_id a = cid then a\<lparr>a_label := None, a_is_default := False\<rparr> else a)
             (addresses d)\<rparr>,
     \<lambda>d. update_refresh (\<lambda>r. rt_customer_id r = cid \<and> rt_revoked_at r = None)
             (\<lambda>r. r\<lparr>rt_revoked_at := Some (clock d)\<rparr>) d,
     \<lambda>d. d\<lparr>otp_codes := filter (\<lambda>r. Some (otp_phone r) \<noteq> phone_of d cid) (otp_codes d)\<rparr>,
     \<lambda>d. d\<lparr>customers := map (\<lambda>c. if cu_id c = cid then c\<lparr>cu_phone := ''deleted:'' @ cid, cu_name := None,
             cu_deleted_at := Some (clock d), cu_updated_at := clock d\<rparr> else c) (customers d)\<rparr>]"

definition deleteCustomer :: "string \<Rightarrow> unit go" where
  "deleteCustomer cid =
     withTx (
       bindG (query (\<lambda>d. find (\<lambda>c. cu_id c = cid) (customers d))) (\<lambda>row.
       case row of
         None \<Rightarrow> failG (AppError (NotFound ''customer_not_found''))
       | Some c \<Rightarrow>
           if cu_deleted_at c \<noteq> None then returnG ()
           else bindG (query (\<lambda>d. \<exists>r \<in> set (orders d). o_customer_id r = cid \<and> \<not> terminal_status (o_status r)))
             (\<lambda>active. if active then failG (AppError (Conflict ''has_active_orders''))
                else forG exec (erase_customer cid))))"

end
