(* ===== verification/Customers.thy ===== *)
theory Customers
  imports Tables
begin

text \<open>
  The customer's own data, \<^verbatim>\<open>internal/storefront\<close>: profiles (\<^verbatim>\<open>customer.go\<close>), saved addresses
  (\<^verbatim>\<open>addresses.go\<close>), favourites (\<^verbatim>\<open>favorites.go\<close>) and push tokens (\<^verbatim>\<open>devices.go\<close>). The foreign keys
  the code relies on are conditions of the operations: an address an order points to is not deleted,
  and a favourite, an address or a token needs its customer (a favourite also its product).
  The lemmas show that a customer keeps at most one default address and that every operation on
  addresses touches those of its own customer only.
\<close>

section \<open>Profiles\<close>

record Customer =
  Cu_ID :: string
  Phone :: string
  Name :: "string option"
  Lang :: string
  PromoPush :: bool
  PromoPushAsked :: bool

definition scanCustomer :: "customer_row \<Rightarrow> Customer" where
  "scanCustomer r = \<lparr>Cu_ID = cu_id r, Phone = cu_phone r, Name = cu_name r, Lang = cu_lang r,
     PromoPush = cu_promo_push r, PromoPushAsked = (cu_promo_push_asked_at r \<noteq> None)\<rparr>"

definition new_customer :: "env \<Rightarrow> string \<Rightarrow> db \<Rightarrow> customer_row" where
  "new_customer env phone d = \<lparr>cu_id = gen_uuid env (id_count d), cu_phone = phone, cu_name = None,
     cu_lang = ''ru'', cu_promo_push = False, cu_promo_push_asked_at = None,
     cu_created_at = clock d, cu_updated_at = clock d, cu_deleted_at = None\<rparr>"

text \<open>On a conflict the row is written back with the phone it has and returned.\<close>

definition GetOrCreateByPhone :: "env \<Rightarrow> string \<Rightarrow> Customer go" where
  "GetOrCreateByPhone env phone =
     stmt (\<lambda>d. case find (\<lambda>c. cu_phone c = phone) (customers d) of
        Some c \<Rightarrow> Inr (scanCustomer c, d)
      | None \<Rightarrow>
          (let c = new_customer env phone d
           in if cu_id c \<in> cu_id ` set (customers d) then Inl (PgError ''23505'')
              else Inr (scanCustomer c, d\<lparr>customers := customers d @ [c], id_count := Suc (id_count d)\<rparr>)))"

definition update_customers ::
  "(customer_row \<Rightarrow> bool) \<Rightarrow> (customer_row \<Rightarrow> customer_row) \<Rightarrow> db \<Rightarrow> db" where
  "update_customers P f d = d\<lparr>customers := map (\<lambda>c. if P c then f c else c) (customers d)\<rparr>"

definition SetName :: "string \<Rightarrow> string \<Rightarrow> unit go" where
  "SetName cid rawName =
     (let name = trim_space rawName
      in if name = [] then failG (AppError (BadRequest ''invalid_name''))
         else bindG (stmt (\<lambda>d. Inr (length (filter (\<lambda>c. cu_id c = cid) (customers d)),
                update_customers (\<lambda>c. cu_id c = cid) (\<lambda>c. c\<lparr>cu_name := Some name, cu_updated_at := clock d\<rparr>) d)))
              (\<lambda>n. if n = 0 then failG (AppError (NotFound ''customer_not_found'')) else returnG ()))"

definition GetByID :: "string \<Rightarrow> Customer option go" where
  "GetByID cid = query (\<lambda>d. map_option scanCustomer (find (\<lambda>c. cu_id c = cid) (customers d)))"

record ProfileUpdate =
  up_Name :: "string option"
  up_Lang :: "string option"
  up_PromoPush :: "bool option"

definition IsEmpty :: "ProfileUpdate \<Rightarrow> bool" where
  "IsEmpty u \<longleftrightarrow> up_Name u = None \<and> up_Lang u = None \<and> up_PromoPush u = None"

definition ValidLang :: "string \<Rightarrow> bool" where
  "ValidLang lang \<longleftrightarrow> lang = ''ru'' \<or> lang = ''ky''"

definition maxNameLen :: nat where "maxNameLen = 100"

definition validate_profile :: "ProfileUpdate \<Rightarrow> go_error + ProfileUpdate" where
  "validate_profile u =
     (let checked = (case up_Name u of
            None \<Rightarrow> Inr u
          | Some raw \<Rightarrow>
              (let name = trim_space raw
               in if name = [] then Inl (AppError (BadRequest ''invalid_name''))
                  else if maxNameLen < rune_count name
                  then Inl (AppError (WithVariant (BadRequest ''invalid_name'') ''too_long''))
                  else Inr (u\<lparr>up_Name := Some name\<rparr>)))
      in case checked of
           Inl e \<Rightarrow> Inl e
         | Inr u1 \<Rightarrow> (case up_Lang u1 of
              Some lang \<Rightarrow> if ValidLang lang then Inr u1 else Inl (AppError (BadRequest ''invalid_lang''))
            | None \<Rightarrow> Inr u1))"

definition apply_profile :: "ProfileUpdate \<Rightarrow> int \<Rightarrow> customer_row \<Rightarrow> customer_row" where
  "apply_profile u now c = c\<lparr>
     cu_name := (case up_Name u of None \<Rightarrow> cu_name c | n \<Rightarrow> n),
     cu_lang := (case up_Lang u of None \<Rightarrow> cu_lang c | Some l \<Rightarrow> l),
     cu_promo_push := (case up_PromoPush u of None \<Rightarrow> cu_promo_push c | Some b \<Rightarrow> b),
     cu_promo_push_asked_at := (if up_PromoPush u = None then cu_promo_push_asked_at c else Some now),
     cu_updated_at := now\<rparr>"

definition UpdateProfile :: "string \<Rightarrow> ProfileUpdate \<Rightarrow> Customer go" where
  "UpdateProfile cid u0 =
     bindG (liftG (validate_profile u0)) (\<lambda>u.
     bindG (if IsEmpty u then GetByID cid
            else stmt (\<lambda>d. Inr (map_option (\<lambda>c. scanCustomer (apply_profile u (clock d) c))
                                   (find (\<lambda>c. cu_id c = cid) (customers d)),
                   update_customers (\<lambda>c. cu_id c = cid) (apply_profile u (clock d)) d))) (\<lambda>c.
     case c of None \<Rightarrow> failG (AppError (NotFound ''customer_not_found'')) | Some c \<Rightarrow> returnG c))"

definition SetLang :: "string \<Rightarrow> string \<Rightarrow> unit go" where
  "SetLang cid lang =
     (if \<not> ValidLang lang then failG (AppError (BadRequest ''invalid_lang''))
      else exec (\<lambda>d. update_customers (\<lambda>c. cu_id c = cid \<and> cu_lang c \<noteq> lang)
                       (\<lambda>c. c\<lparr>cu_lang := lang, cu_updated_at := clock d\<rparr>) d))"

section \<open>Addresses\<close>

record Address =
  Ad_ID :: string
  Ad_CustomerID :: string
  Label :: "string option"
  AddressText :: string
  Lat :: "float64 option"
  Lng :: "float64 option"
  IsDefault :: bool

record AddressInput =
  inp_Label :: "string option"
  inp_AddressText :: string
  inp_Lat :: "float64 option"
  inp_Lng :: "float64 option"
  inp_IsDefault :: bool

definition Validate :: "AddressInput \<Rightarrow> go_error + AddressInput" where
  "Validate inp =
     (let inp1 = inp\<lparr>inp_AddressText := trim_space (inp_AddressText inp)\<rparr>
      in if inp_AddressText inp1 = [] then Inl (AppError (BadRequest ''invalid_address''))
         else case inp_Label inp1 of
                None \<Rightarrow> Inr inp1
              | Some l \<Rightarrow> (let trimmed = trim_space l
                          in Inr (inp1\<lparr>inp_Label := if trimmed = [] then None else Some trimmed\<rparr>)))"

definition scanAddress :: "address_row \<Rightarrow> Address" where
  "scanAddress a = \<lparr>Ad_ID = a_id a, Ad_CustomerID = a_customer_id a, Label = a_label a, AddressText = a_text a,
     Lat = a_lat a, Lng = a_lng a, IsDefault = a_is_default a\<rparr>"

text \<open>\<^verbatim>\<open>ORDER BY is_default DESC, created_at DESC\<close>, stable on ties.\<close>

definition List_addresses :: "string \<Rightarrow> Address list go" where
  "List_addresses cid =
     query (\<lambda>d. let own = filter (\<lambda>a. a_customer_id a = cid) (addresses d);
                    by_time = sort_key (\<lambda>a. - a_created_at a) own
                in map scanAddress (filter a_is_default by_time @ filter (\<lambda>a. \<not> a_is_default a) by_time))"

definition GetAddress :: "string \<Rightarrow> string \<Rightarrow> Address go" where
  "GetAddress cid aid =
     bindG (query (\<lambda>d. find (\<lambda>a. a_id a = aid \<and> a_customer_id a = cid) (addresses d))) (\<lambda>a.
     case a of None \<Rightarrow> failG (AppError (NotFound ''address_not_found'')) | Some a \<Rightarrow> returnG (scanAddress a))"

definition update_addresses :: "(address_row \<Rightarrow> bool) \<Rightarrow> (address_row \<Rightarrow> address_row) \<Rightarrow> db \<Rightarrow> db" where
  "update_addresses P f d = d\<lparr>addresses := map (\<lambda>a. if P a then f a else a) (addresses d)\<rparr>"

definition insert_address :: "env \<Rightarrow> string \<Rightarrow> AddressInput \<Rightarrow> db \<Rightarrow> go_error + (Address \<times> db)" where
  "insert_address env cid inp d =
     (let a = \<lparr>a_id = gen_uuid env (id_count d), a_customer_id = cid, a_label = inp_Label inp,
               a_text = inp_AddressText inp, a_lat = inp_Lat inp, a_lng = inp_Lng inp,
               a_is_default = inp_IsDefault inp, a_created_at = clock d\<rparr>
      in if a_id a \<in> a_id ` set (addresses d) then Inl (PgError ''23505'')
         else if cid \<notin> cu_id ` set (customers d) then Inl (PgError ''23503'')
         else Inr (scanAddress a, d\<lparr>addresses := addresses d @ [a], id_count := Suc (id_count d)\<rparr>))"

definition CreateAddress :: "env \<Rightarrow> string \<Rightarrow> AddressInput \<Rightarrow> Address go" where
  "CreateAddress env cid inp0 =
     bindG (liftG (Validate inp0)) (\<lambda>inp.
     withTx (
       bindG (if inp_IsDefault inp
              then exec (update_addresses (\<lambda>a. a_customer_id a = cid) (\<lambda>a. a\<lparr>a_is_default := False\<rparr>))
              else returnG ()) (\<lambda>_.
       stmt (insert_address env cid inp))))"

definition overwrite :: "AddressInput \<Rightarrow> address_row \<Rightarrow> address_row" where
  "overwrite inp a = a\<lparr>a_label := inp_Label inp, a_text := inp_AddressText inp, a_lat := inp_Lat inp,
     a_lng := inp_Lng inp, a_is_default := inp_IsDefault inp\<rparr>"

definition UpdateAddress :: "string \<Rightarrow> string \<Rightarrow> AddressInput \<Rightarrow> Address go" where
  "UpdateAddress cid aid inp0 =
     bindG (liftG (Validate inp0)) (\<lambda>inp.
     withTx (
       bindG (if inp_IsDefault inp
              then exec (update_addresses (\<lambda>a. a_customer_id a = cid \<and> a_id a \<noteq> aid) (\<lambda>a. a\<lparr>a_is_default := False\<rparr>))
              else returnG ()) (\<lambda>_.
       bindG (stmt (\<lambda>d. let P = (\<lambda>a. a_id a = aid \<and> a_customer_id a = cid)
                         in Inr (map_option (overwrite inp) (find P (addresses d)),
                                 update_addresses P (overwrite inp) d))) (\<lambda>a.
       case a of
         None \<Rightarrow> failG (AppError (NotFound ''address_not_found''))
       | Some a \<Rightarrow> returnG (scanAddress a)))))"

definition isForeignKeyViolation :: "go_error \<Rightarrow> bool" where
  "isForeignKeyViolation err = (err = PgError ''23503'')"

definition delete_address :: "string \<Rightarrow> string \<Rightarrow> db \<Rightarrow> go_error + (nat \<times> db)" where
  "delete_address cid aid d =
     (let P = (\<lambda>a. a_id a = aid \<and> a_customer_id a = cid)
      in if (\<exists>a \<in> set (addresses d). P a \<and> (\<exists>r \<in> set (orders d). o_address_id r = Some (a_id a)))
         then Inl (PgError ''23503'')
         else Inr (length (filter P (addresses d)), d\<lparr>addresses := filter (\<lambda>a. \<not> P a) (addresses d)\<rparr>))"

definition DeleteAddress :: "string \<Rightarrow> string \<Rightarrow> unit go" where
  "DeleteAddress cid aid =
     bindG (attempt (stmt (delete_address cid aid))) (\<lambda>res.
     case res of
       Inl err \<Rightarrow> if isForeignKeyViolation err then failG (AppError (Conflict ''address_in_use'')) else failG err
     | Inr n \<Rightarrow> if n = 0 then failG (AppError (NotFound ''address_not_found'')) else returnG ())"

section \<open>Favourites and push tokens\<close>

definition ListProductIDs :: "string \<Rightarrow> string list go" where
  "ListProductIDs cid =
     query (\<lambda>d. map fv_product_id (sort_key (\<lambda>f. - fv_created_at f)
                  (filter (\<lambda>f. fv_customer_id f = cid) (favorites d))))"

definition CountFavorites :: "string \<Rightarrow> int go" where
  "CountFavorites cid = query (\<lambda>d. int (length (filter (\<lambda>f. fv_customer_id f = cid) (favorites d))))"

definition favorite_key :: "string \<Rightarrow> string \<Rightarrow> favorite_row \<Rightarrow> bool" where
  "favorite_key cid pid f \<longleftrightarrow> fv_customer_id f = cid \<and> fv_product_id f = pid"

definition IsFavorite :: "string \<Rightarrow> string \<Rightarrow> bool go" where
  "IsFavorite cid pid = query (\<lambda>d. \<exists>f \<in> set (favorites d). favorite_key cid pid f)"

text \<open>\<^verbatim>\<open>ON CONFLICT DO NOTHING\<close>: a favourite already there needs no check of its foreign keys.\<close>

definition AddFavorite :: "string \<Rightarrow> string \<Rightarrow> unit go" where
  "AddFavorite cid pid =
     stmt (\<lambda>d. if (\<exists>f \<in> set (favorites d). favorite_key cid pid f) then Inr ((), d)
               else if cid \<notin> cu_id ` set (customers d) \<or> pid \<notin> pr_id ` set (products d)
               then Inl (PgError ''23503'')
               else Inr ((), d\<lparr>favorites := favorites d @
                      [\<lparr>fv_customer_id = cid, fv_product_id = pid, fv_created_at = clock d\<rparr>]\<rparr>))"

definition RemoveFavorite :: "string \<Rightarrow> string \<Rightarrow> unit go" where
  "RemoveFavorite cid pid =
     exec (\<lambda>d. d\<lparr>favorites := filter (\<lambda>f. \<not> favorite_key cid pid f) (favorites d)\<rparr>)"

definition validPlatform :: "string \<Rightarrow> bool" where
  "validPlatform platform \<longleftrightarrow> platform = ''ios'' \<or> platform = ''android''"

definition Register :: "env \<Rightarrow> string \<Rightarrow> string \<Rightarrow> string \<Rightarrow> unit go" where
  "Register env cid fcmToken platform =
     (if \<not> validPlatform platform then failG (AppError (BadRequest ''invalid_platform''))
      else stmt (\<lambda>d. if cid \<notin> cu_id ` set (customers d) then Inl (PgError ''23503'')
             else if (\<exists>t \<in> set (device_tokens d). dt_fcm_token t = fcmToken)
             then Inr ((), d\<lparr>device_tokens := map (\<lambda>t. if dt_fcm_token t = fcmToken
                    then t\<lparr>dt_customer_id := cid, dt_platform := platform\<rparr> else t) (device_tokens d)\<rparr>)
             else if gen_uuid env (id_count d) \<in> dt_id ` set (device_tokens d) then Inl (PgError ''23505'')
             else Inr ((), d\<lparr>device_tokens := device_tokens d @
                    [\<lparr>dt_id = gen_uuid env (id_count d), dt_customer_id = cid, dt_fcm_token = fcmToken,
                      dt_platform = platform, dt_created_at = clock d\<rparr>], id_count := Suc (id_count d)\<rparr>)))"

definition TokensForCustomer :: "string \<Rightarrow> string list go" where
  "TokensForCustomer cid =
     query (\<lambda>d. map dt_fcm_token (sort_key dt_created_at (filter (\<lambda>t. dt_customer_id t = cid) (device_tokens d))))"

definition DeleteToken :: "string \<Rightarrow> unit go" where
  "DeleteToken fcmToken =
     exec (\<lambda>d. d\<lparr>device_tokens := filter (\<lambda>t. dt_fcm_token t \<noteq> fcmToken) (device_tokens d)\<rparr>)"

section \<open>At most one default address\<close>

definition defaults_of :: "string \<Rightarrow> db \<Rightarrow> address_row list" where
  "defaults_of cid d = filter (\<lambda>a. a_customer_id a = cid \<and> a_is_default a) (addresses d)"

definition addresses_ok :: "db \<Rightarrow> bool" where
  "addresses_ok d \<longleftrightarrow> distinct (map a_id (addresses d)) \<and> (\<forall>cid. length (defaults_of cid d) \<le> 1)"

definition others :: "string \<Rightarrow> db \<Rightarrow> address_row list" where
  "others cid d = filter (\<lambda>a. a_customer_id a \<noteq> cid) (addresses d)"

lemma update_addresses_fields [simp]:
  "addresses (update_addresses P f d) = map (\<lambda>a. if P a then f a else a) (addresses d)"
  by (simp add: update_addresses_def)

lemma defaults_update:
  "(\<And>a. a_customer_id (f a) = a_customer_id a) \<Longrightarrow> (\<And>a. P a \<Longrightarrow> a_customer_id a = cid) \<Longrightarrow> cu \<noteq> cid \<Longrightarrow>
   defaults_of cu (update_addresses P f d) = defaults_of cu d"
  unfolding defaults_of_def update_addresses_fields by (rule map_if_filter_other) auto

lemma others_update:
  "(\<And>a. a_customer_id (f a) = a_customer_id a) \<Longrightarrow> (\<And>a. P a \<Longrightarrow> a_customer_id a = cid) \<Longrightarrow>
   others cid (update_addresses P f d) = others cid d"
  unfolding others_def update_addresses_fields by (rule map_if_filter_other) auto

lemma cleared_defaults:
  "defaults_of cid (update_addresses (\<lambda>a. a_customer_id a = cid) (\<lambda>a. a\<lparr>a_is_default := False\<rparr>) d) = []"
proof -
  have "filter (\<lambda>a. a_customer_id a = cid \<and> a_is_default a)
      (map (\<lambda>a. if a_customer_id a = cid then a\<lparr>a_is_default := False\<rparr> else a) xs) = []" for xs
    by (induction xs) auto
  then show ?thesis by (simp only: defaults_of_def update_addresses_fields)
qed

lemma cleared_other_defaults:
  "defaults_of cid (update_addresses (\<lambda>a. a_customer_id a = cid \<and> a_id a \<noteq> aid) (\<lambda>a. a\<lparr>a_is_default := False\<rparr>) d)
     = filter (\<lambda>a. a_id a = aid) (defaults_of cid d)"
proof -
  have "filter (\<lambda>a. a_customer_id a = cid \<and> a_is_default a)
      (map (\<lambda>a. if a_customer_id a = cid \<and> a_id a \<noteq> aid then a\<lparr>a_is_default := False\<rparr> else a) xs) =
    filter (\<lambda>a. a_id a = aid) (filter (\<lambda>a. a_customer_id a = cid \<and> a_is_default a) xs)" for xs
    by (induction xs) auto
  then show ?thesis by (simp only: defaults_of_def update_addresses_fields)
qed

lemma defaults_of_snoc:
  "defaults_of cid (d\<lparr>addresses := addresses d @ [a], id_count := n\<rparr>) =
     defaults_of cid d @ (if a_customer_id a = cid \<and> a_is_default a then [a] else [])"
  by (simp add: defaults_of_def)

text \<open>The writes of the three operations, once a run has committed.\<close>

lemma Validate_default: "Validate inp0 = Inr inp \<Longrightarrow> inp_IsDefault inp = inp_IsDefault inp0"
  by (auto simp: Validate_def Let_def split: if_splits option.splits)

lemma insert_address_effect:
  "insert_address env cid inp d = Inr (x, d') \<Longrightarrow>
   \<exists>a. d' = d\<lparr>addresses := addresses d @ [a], id_count := Suc (id_count d)\<rparr> \<and> a_customer_id a = cid \<and>
     a_id a \<notin> a_id ` set (addresses d) \<and> a_is_default a = inp_IsDefault inp"
  by (auto simp: insert_address_def Let_def split: if_splits)

lemma CreateAddress_effect:
  assumes "yields (CreateAddress env cid inp0) d x d'"
  shows "\<exists>a d1. d' = d1\<lparr>addresses := addresses d1 @ [a], id_count := Suc (id_count d1)\<rparr> \<and>
    a_customer_id a = cid \<and> a_id a \<notin> a_id ` set (addresses d1) \<and>
    (d1 = d \<and> \<not> a_is_default a \<or>
     d1 = update_addresses (\<lambda>a. a_customer_id a = cid) (\<lambda>a. a\<lparr>a_is_default := False\<rparr>) d)"
proof -
  from assms obtain inp d1 u where
      c: "yields (if inp_IsDefault inp
              then exec (update_addresses (\<lambda>a. a_customer_id a = cid) (\<lambda>a. a\<lparr>a_is_default := False\<rparr>))
              else returnG ()) d u d1"
    and i: "insert_address env cid inp d1 = Inr (x, d')"
    unfolding CreateAddress_def by (auto elim!: yields_bind yields_lift yields_withTx yields_stmt)
  have "d1 = d \<and> \<not> inp_IsDefault inp \<or>
     d1 = update_addresses (\<lambda>a. a_customer_id a = cid) (\<lambda>a. a\<lparr>a_is_default := False\<rparr>) d"
    using c by (auto elim!: go_elim split: if_splits)
  with insert_address_effect [OF i] show ?thesis by blast
qed

lemma others_snoc:
  "others cid (d\<lparr>addresses := addresses d @ [a], id_count := n\<rparr>) =
     others cid d @ (if a_customer_id a \<noteq> cid then [a] else [])"
  by (simp add: others_def)

lemma CreateAddress_keeps:
  assumes "yields (CreateAddress env cid inp0) d x d'" "addresses_ok d"
  shows "addresses_ok d' \<and> others cid d' = others cid d"
proof -
  from CreateAddress_effect [OF assms(1)] obtain a d1
    where d': "d' = d1\<lparr>addresses := addresses d1 @ [a], id_count := Suc (id_count d1)\<rparr>"
    and a: "a_customer_id a = cid" "a_id a \<notin> a_id ` set (addresses d1)"
    and d1: "d1 = d \<and> \<not> a_is_default a \<or>
     d1 = update_addresses (\<lambda>a. a_customer_id a = cid) (\<lambda>a. a\<lparr>a_is_default := False\<rparr>) d"
    by blast
  have ids: "distinct (map a_id (addresses d1))" using d1 assms(2) by (auto simp: addresses_ok_def)
  have room: "length (defaults_of cu d1) + (if a_customer_id a = cu \<and> a_is_default a then 1 else 0) \<le> 1" for cu
  proof (cases "cu = cid")
    case True
    with d1 a(1) assms(2) show ?thesis by (auto simp: cleared_defaults addresses_ok_def)
  next
    case False
    have "defaults_of cu d1 = defaults_of cu d" using d1 defaults_update [OF _ _ False] by auto
    with False a(1) assms(2) show ?thesis by (auto simp: addresses_ok_def)
  qed
  have "length (defaults_of cu d') \<le> 1" for cu
    unfolding d' defaults_of_snoc length_append using room [of cu] by (auto split: if_splits)
  moreover have "others cid d' = others cid d"
    unfolding d' others_snoc using a(1) d1 others_update by auto
  ultimately show ?thesis using ids a(2) by (simp add: addresses_ok_def d' image_iff)
qed

lemma overwrite_fields [simp]:
  "a_id (overwrite inp a) = a_id a" "a_customer_id (overwrite inp a) = a_customer_id a"
  "a_is_default (overwrite inp a) = inp_IsDefault inp"
  by (simp_all add: overwrite_def)

lemma overwritten_defaults:
  "length (filter (\<lambda>a. a_customer_id a = cid \<and> a_is_default a)
      (map (\<lambda>a. if a_id a = aid \<and> a_customer_id a = cid then overwrite inp a else a) xs)) =
   length (filter (\<lambda>a. a_customer_id a = cid \<and> a_is_default a \<and> a_id a \<noteq> aid) xs) +
   (if inp_IsDefault inp then length (filter (\<lambda>a. a_id a = aid \<and> a_customer_id a = cid) xs) else 0)"
  by (induction xs) auto

lemma length_filter_key: "distinct (map k xs) \<Longrightarrow> (\<And>x. P x \<Longrightarrow> k x = i) \<Longrightarrow> length (filter P xs) \<le> 1"
proof (induction xs)
  case (Cons x xs)
  then have "P x \<Longrightarrow> filter P xs = []" by (auto simp: filter_empty_conv image_iff)
  with Cons show ?case by auto
qed simp

lemma UpdateAddress_effect:
  assumes "yields (UpdateAddress cid aid inp0) d x d'"
  shows "\<exists>inp d1. d' = update_addresses (\<lambda>a. a_id a = aid \<and> a_customer_id a = cid) (overwrite inp) d1 \<and>
    (d1 = d \<and> \<not> inp_IsDefault inp \<or>
     d1 = update_addresses (\<lambda>a. a_customer_id a = cid \<and> a_id a \<noteq> aid) (\<lambda>a. a\<lparr>a_is_default := False\<rparr>) d)"
proof -
  from assms obtain inp d1 u where
      c: "yields (if inp_IsDefault inp
              then exec (update_addresses (\<lambda>a. a_customer_id a = cid \<and> a_id a \<noteq> aid) (\<lambda>a. a\<lparr>a_is_default := False\<rparr>))
              else returnG ()) d u d1"
    and i: "d' = update_addresses (\<lambda>a. a_id a = aid \<and> a_customer_id a = cid) (overwrite inp) d1"
    unfolding UpdateAddress_def
    by (auto simp: Let_def elim!: yields_bind yields_lift yields_withTx yields_stmt yields_fail yields_return
        split: option.splits)
  have "d1 = d \<and> \<not> inp_IsDefault inp \<or>
     d1 = update_addresses (\<lambda>a. a_customer_id a = cid \<and> a_id a \<noteq> aid) (\<lambda>a. a\<lparr>a_is_default := False\<rparr>) d"
    using c by (auto elim!: go_elim split: if_splits)
  with i show ?thesis by blast
qed

lemma UpdateAddress_keeps:
  assumes "yields (UpdateAddress cid aid inp0) d x d'" "addresses_ok d"
  shows "addresses_ok d' \<and> others cid d' = others cid d"
proof -
  from UpdateAddress_effect [OF assms(1)] obtain inp d1
    where d': "d' = update_addresses (\<lambda>a. a_id a = aid \<and> a_customer_id a = cid) (overwrite inp) d1"
    and d1: "d1 = d \<and> \<not> inp_IsDefault inp \<or>
     d1 = update_addresses (\<lambda>a. a_customer_id a = cid \<and> a_id a \<noteq> aid) (\<lambda>a. a\<lparr>a_is_default := False\<rparr>) d"
    by blast
  have ids: "distinct (map a_id (addresses d1))" using d1 assms(2) by (auto simp: addresses_ok_def)
  have one: "length (filter (\<lambda>a. a_id a = aid \<and> a_customer_id a = cid) (addresses d1)) \<le> 1"
    by (rule length_filter_key [OF ids]) simp
  have "length (defaults_of cu d') \<le> 1" for cu
  proof (cases "cu = cid")
    case True
    have "length (filter (\<lambda>a. a_customer_id a = cid \<and> a_is_default a \<and> a_id a \<noteq> aid) (addresses d1)) \<le> 1"
      if "\<not> inp_IsDefault inp"
    proof -
      have "length (defaults_of cid d1) \<le> 1"
      proof -
        have le: "length (defaults_of cid d) \<le> 1" using assms(2) by (simp add: addresses_ok_def)
        have "length (filter (\<lambda>a. a_id a = aid) (defaults_of cid d)) \<le> 1" by (rule le_trans [OF length_filter_le le])
        with le show ?thesis using d1 by (auto simp: cleared_other_defaults)
      qed
      then have "length (filter (\<lambda>a. a_id a \<noteq> aid) (defaults_of cid d1)) \<le> 1" by (rule le_trans [OF length_filter_le])
      then show ?thesis by (simp add: defaults_of_def conj_ac)
    qed
    moreover have "filter (\<lambda>a. a_customer_id a = cid \<and> a_is_default a \<and> a_id a \<noteq> aid) (addresses d1) = []"
      if "inp_IsDefault inp"
    proof -
      have "filter (\<lambda>a. a_id a \<noteq> aid) (defaults_of cid d1) = []"
        using d1 that by (auto simp: cleared_other_defaults filter_empty_conv)
      then show ?thesis by (simp add: defaults_of_def conj_ac)
    qed
    ultimately show ?thesis using one True
      by (cases "inp_IsDefault inp")
        (simp_all only: d' defaults_of_def update_addresses_fields overwritten_defaults, simp_all)
  next
    case False
    have "defaults_of cu d' = defaults_of cu d1" unfolding d' by (rule defaults_update [OF _ _ False]) auto
    also have "\<dots> = defaults_of cu d" using d1
    proof
      assume "d1 = update_addresses (\<lambda>a. a_customer_id a = cid \<and> a_id a \<noteq> aid) (\<lambda>a. a\<lparr>a_is_default := False\<rparr>) d"
      then show ?thesis by (simp only:) (rule defaults_update [OF _ _ False], auto)
    qed simp
    finally show ?thesis using assms(2) by (simp add: addresses_ok_def)
  qed
  moreover have "others cid d' = others cid d"
    using d1
  proof
    assume "d1 = update_addresses (\<lambda>a. a_customer_id a = cid \<and> a_id a \<noteq> aid) (\<lambda>a. a\<lparr>a_is_default := False\<rparr>) d"
    then show ?thesis unfolding d' by (simp only:) (subst others_update, auto)+
  next
    assume "d1 = d \<and> \<not> inp_IsDefault inp"
    then show ?thesis unfolding d' by (simp only:) (subst others_update, auto)
  qed
  ultimately show ?thesis using ids by (simp add: addresses_ok_def d')
qed

lemma DeleteAddress_keeps:
  assumes "yields (DeleteAddress cid aid) d x d'" "addresses_ok d"
  shows "addresses_ok d' \<and> others cid d' = others cid d"
proof -
  let ?P = "\<lambda>a. a_id a = aid \<and> a_customer_id a = cid"
  have "d' = d \<or> d' = d\<lparr>addresses := filter (\<lambda>a. \<not> ?P a) (addresses d)\<rparr>"
    using assms(1) unfolding DeleteAddress_def
    by (auto simp: yields_def bindG_def attempt_def delete_address_def Let_def failG_def returnG_def
        dest!: stmt_Inr split: prod.splits sum.splits if_splits)
  moreover have "length (defaults_of cu (d\<lparr>addresses := filter (\<lambda>a. \<not> ?P a) (addresses d)\<rparr>)) \<le> 1" for cu
  proof -
    have "defaults_of cu (d\<lparr>addresses := filter (\<lambda>a. \<not> ?P a) (addresses d)\<rparr>) = filter (\<lambda>a. \<not> ?P a) (defaults_of cu d)"
      by (simp add: defaults_of_def conj_ac)
    then have "length (defaults_of cu (d\<lparr>addresses := filter (\<lambda>a. \<not> ?P a) (addresses d)\<rparr>)) \<le> length (defaults_of cu d)"
      by simp
    also have "\<dots> \<le> 1" using assms(2) by (simp add: addresses_ok_def)
    finally show ?thesis .
  qed
  moreover have "others cid (d\<lparr>addresses := filter (\<lambda>a. \<not> ?P a) (addresses d)\<rparr>) = others cid d"
    unfolding others_def by (simp, rule filter_cong) auto
  moreover have "distinct (map a_id (filter (\<lambda>a. \<not> ?P a) (addresses d)))"
    using assms(2) by (simp add: addresses_ok_def distinct_map_filter)
  ultimately show ?thesis using assms(2) by (auto simp: addresses_ok_def)
qed

end
