(* ===== verification/AuthService.thy ===== *)
theory AuthService
  imports AuthStore Customers Limiters
begin

text \<open>
  The customer login of \<^verbatim>\<open>internal/auth/service.go\<close>: codes by SMS, refresh-token sessions, logout
  and account deletion.

  The state of the process is the world of the database together with the limiters and the
  store-review guard the service holds. What is not under \<^verbatim>\<open>src/\<close> or is random is a parameter of
  the model, a field of \<open>auth_env\<close>: the SMS provider (\<open>send_code\<close>, \<open>check_code\<close>), the JWT library
  (\<open>sign_access\<close>), \<^verbatim>\<open>crypto/rand\<close> and \<^verbatim>\<open>crypto/sha256\<close>. The provider and the random
  source take the number of their calls so far, so that any sequence of answers is possible.
  \<open>sms_log\<close> records the requests to send a code, in order. The limiters count nanoseconds, the
  database microseconds. The one-off alert of a lockout and the logging are left out.
\<close>

record AuthLimits =
  OTPPerIPPerHour :: int
  OTPPerDay :: int
  OTPVerifyMaxAttempts :: int
  OTPVerifyFailsPerIPPerHour :: int
  RefreshPerIPPerMinute :: int

record ReviewLogin =
  rv_Phone :: string
  rv_Code :: string

definition Enabled :: "ReviewLogin \<Rightarrow> bool" where
  "Enabled r \<longleftrightarrow> rv_Phone r \<noteq> []"

record auth_env =
  shop_env :: env
  hashToken :: "string \<Rightarrow> string"
  random_hex :: "nat \<Rightarrow> go_error + string"
  random_token :: "nat \<Rightarrow> go_error + string"
  send_code :: "nat \<Rightarrow> string \<Rightarrow> string \<Rightarrow> go_error + string"
  check_code :: "nat \<Rightarrow> string \<Rightarrow> string \<Rightarrow> go_error + unit"
  sign_access :: "string \<Rightarrow> int \<Rightarrow> int \<Rightarrow> go_error + string"
  limits :: AuthLimits
  review :: ReviewLogin
  reuseGrace :: int

record auth_state =
  au_world :: world
  verifyFails :: windowLimiter
  refreshIP :: windowLimiter
  reviewLock :: reviewGuard
  draws :: nat
  provider_calls :: nat
  sms_log :: "(string \<times> int) list"

type_synonym 'a auth = "(auth_state, 'a) prog"

definition otpTTL :: int where "otpTTL = 5 * 60 * usec_per_sec"
definition otpResendCooldown :: int where "otpResendCooldown = 60 * usec_per_sec"
definition otpMaxPerHour :: int where "otpMaxPerHour = 5"
definition accessTokenTTL :: int where "accessTokenTTL = 15 * 60 * usec_per_sec"
definition refreshTokenTTL :: int where "refreshTokenTTL = 30 * 24 * 3600 * usec_per_sec"
definition refreshReuseGrace :: int where "refreshReuseGrace = 30 * usec_per_sec"
definition reviewTokenPrefix :: string where "reviewTokenPrefix = ''review:''"

definition NewService :: "AuthLimits \<Rightarrow> world \<Rightarrow> auth_state" where
  "NewService lims w = \<lparr>au_world = w,
     verifyFails = newWindowLimiter (OTPVerifyFailsPerIPPerHour lims) (3600 * 10 ^ 9),
     refreshIP = newWindowLimiter (RefreshPerIPPerMinute lims) (60 * 10 ^ 9),
     reviewLock = \<lparr>rg_failures = 0, rg_tripped = False\<rparr>, draws = 0, provider_calls = 0, sms_log = []\<rparr>"

section \<open>Access to the state\<close>

text \<open>\<open>on_db\<close> runs a program of the database; \<open>time_now\<close> is \<^verbatim>\<open>time.Now()\<close>.\<close>

definition on_db :: "'a go \<Rightarrow> 'a auth" where
  "on_db m s = (case m (au_world s) of (r, w) \<Rightarrow> (r, s\<lparr>au_world := w\<rparr>))"

definition time_now :: "int auth" where
  "time_now s = (Inr (clock (tables (au_world s))), s)"

definition now_nanos :: "auth_state \<Rightarrow> int" where
  "now_nanos s = clock (tables (au_world s)) * 1000"

definition newTransactionID :: "auth_env \<Rightarrow> string auth" where
  "newTransactionID A s = (random_hex A (draws s), s\<lparr>draws := Suc (draws s)\<rparr>)"

definition newOpaqueToken :: "auth_env \<Rightarrow> (string \<times> string) auth" where
  "newOpaqueToken A s =
     (map_sum id (\<lambda>raw. (raw, hashToken A raw)) (random_token A (draws s)), s\<lparr>draws := Suc (draws s)\<rparr>)"

definition SendCode :: "auth_env \<Rightarrow> string \<Rightarrow> string \<Rightarrow> string auth" where
  "SendCode A phone txid s =
     (send_code A (provider_calls s) phone txid,
      s\<lparr>provider_calls := Suc (provider_calls s),
        sms_log := sms_log s @ [(phone, clock (tables (au_world s)))]\<rparr>)"

definition VerifyCode :: "auth_env \<Rightarrow> string \<Rightarrow> string \<Rightarrow> unit auth" where
  "VerifyCode A token code s =
     (check_code A (provider_calls s) token code, s\<lparr>provider_calls := Suc (provider_calls s)\<rparr>)"

definition fails_blocked :: "string \<Rightarrow> bool auth" where
  "fails_blocked ip s = (case blocked (now_nanos s) ip (verifyFails s) of (b, l) \<Rightarrow> (Inr b, s\<lparr>verifyFails := l\<rparr>))"

definition fails_hit :: "string \<Rightarrow> unit auth" where
  "fails_hit ip s = (Inr (), s\<lparr>verifyFails := hit (now_nanos s) ip (verifyFails s)\<rparr>)"

definition refresh_allow :: "string \<Rightarrow> bool auth" where
  "refresh_allow ip s = (case allow (now_nanos s) ip (refreshIP s) of (b, l) \<Rightarrow> (Inr b, s\<lparr>refreshIP := l\<rparr>))"

definition review_disabled :: "bool auth" where
  "review_disabled s = (Inr (disabled (reviewLock s)), s)"

definition review_check :: "string \<Rightarrow> string \<Rightarrow> bool auth" where
  "review_check code want s =
     (case check code want (reviewLock s) of ((ok, _, _), g) \<Rightarrow> (Inr ok, s\<lparr>reviewLock := g\<rparr>))"

section \<open>Codes\<close>

definition isReviewPhone :: "auth_env \<Rightarrow> string \<Rightarrow> bool" where
  "isReviewPhone A phone \<longleftrightarrow> Enabled (review A) \<and> phone = rv_Phone (review A)"

definition send_limits :: "auth_env \<Rightarrow> otpSendLimits" where
  "send_limits A = \<lparr>Cooldown = otpResendCooldown, PerPhone = otpMaxPerHour,
     PerIP = OTPPerIPPerHour (limits A), GlobalDay = OTPPerDay (limits A)\<rparr>"

definition RequestOTP :: "auth_env \<Rightarrow> string \<Rightarrow> string \<Rightarrow> unit auth" where
  "RequestOTP A ip rawPhone =
     bindG (liftG (NormalizePhone rawPhone)) (\<lambda>phone.
     bindG (newTransactionID A) (\<lambda>transactionID.
     bindG time_now (\<lambda>now.
     bindG (on_db (reserve (shop_env A) phone ip transactionID (now + otpTTL) (send_limits A))) (\<lambda>code_id.
     bindG review_disabled (\<lambda>off.
     if isReviewPhone A phone \<and> \<not> off
     then on_db (setToken code_id (reviewTokenPrefix @ transactionID))
     else bindG (attempt (SendCode A (forNikita phone) transactionID)) (\<lambda>res.
          case res of
            Inl err \<Rightarrow> bindG (attempt (on_db (burn code_id))) (\<lambda>_. failG err)
          | Inr token \<Rightarrow> on_db (setToken code_id token)))))))"

definition errOTPAttemptsExceeded :: go_error where
  "errOTPAttemptsExceeded = AppError (TooManyRequests ''otp_attempts_exceeded'')"

definition verifyCode :: "auth_env \<Rightarrow> string \<Rightarrow> string \<Rightarrow> string \<Rightarrow> unit auth" where
  "verifyCode A phone token code =
     (if isReviewPhone A phone \<and> prefix reviewTokenPrefix token
      then bindG (review_check code (rv_Code (review A))) (\<lambda>ok.
           if ok then returnG () else failG (AppError (BadRequest ''otp_invalid'')))
      else VerifyCode A token code)"

definition issueAccessToken :: "auth_env \<Rightarrow> string \<Rightarrow> string auth" where
  "issueAccessToken A customerID =
     bindG time_now (\<lambda>now. liftG (sign_access A customerID now (now + accessTokenTTL)))"

definition issueTokenPair :: "auth_env \<Rightarrow> string \<Rightarrow> (string \<times> string) auth" where
  "issueTokenPair A customerID =
     bindG (issueAccessToken A customerID) (\<lambda>accessToken.
     bindG (newOpaqueToken A) (\<lambda>(raw, hash).
     bindG time_now (\<lambda>now.
     bindG (on_db (create_refresh (shop_env A) customerID hash (now + refreshTokenTTL))) (\<lambda>_.
     returnG (accessToken, raw)))))"

text \<open>The budget of a code: a limit that is not positive means five.\<close>

definition max_attempts_of :: "auth_env \<Rightarrow> int" where
  "max_attempts_of A = (if OTPVerifyMaxAttempts (limits A) \<le> 0 then 5 else OTPVerifyMaxAttempts (limits A))"

text \<open>What follows a code the check refused: the part of \<^verbatim>\<open>VerifyOTP\<close> that counts the failure.\<close>

definition refused_code :: "auth_env \<Rightarrow> string \<Rightarrow> string \<Rightarrow> int \<Rightarrow> go_error \<Rightarrow> 'a auth" where
  "refused_code A ip code_id tries err =
     (if (case err of AppError ae \<Rightarrow> ae_status ae < 500 | _ \<Rightarrow> False)
      then bindG (fails_hit ip) (\<lambda>_.
           if max_attempts_of A \<le> tries
           then bindG (attempt (on_db (burn code_id))) (\<lambda>berr.
                case berr of Inl e \<Rightarrow> failG e | Inr _ \<Rightarrow> failG errOTPAttemptsExceeded)
           else failG err)
      else failG err)"

definition VerifyOTP :: "auth_env \<Rightarrow> string \<Rightarrow> string \<Rightarrow> string \<Rightarrow> (string \<times> string \<times> Customer) auth" where
  "VerifyOTP A ip rawPhone code =
     bindG (liftG (NormalizePhone rawPhone)) (\<lambda>phone.
     bindG (fails_blocked ip) (\<lambda>out.
     if out then failG errOTPAttemptsExceeded
     else bindG (on_db (latestActive phone)) (\<lambda>active.
     case active of
       None \<Rightarrow> failG (AppError (BadRequest ''otp_expired''))
     | Some a \<Rightarrow>
         bindG (on_db (takeAttempt (oc_ID a) (max_attempts_of A))) (\<lambda>took.
         case took of
           None \<Rightarrow> failG errOTPAttemptsExceeded
         | Some tries \<Rightarrow>
             bindG (attempt (verifyCode A phone (oc_Token a) code)) (\<lambda>res.
             case res of
               Inl err \<Rightarrow> refused_code A ip (oc_ID a) tries err
             | Inr _ \<Rightarrow>
                 bindG (on_db (consume (oc_ID a))) (\<lambda>consumed.
                 if \<not> consumed then failG (AppError (BadRequest ''otp_expired''))
                 else bindG (on_db (GetOrCreateByPhone (shop_env A) phone)) (\<lambda>customer.
                      bindG (issueTokenPair A (Cu_ID customer)) (\<lambda>(access, raw).
                      returnG (access, raw, customer)))))))))"

section \<open>Sessions\<close>

definition errRefreshInvalid :: go_error where
  "errRefreshInvalid = AppError (Unauthorized ''refresh_invalid'')"

definition handleInactiveRefresh :: "auth_env \<Rightarrow> string \<Rightarrow> string \<Rightarrow> refreshToken option auth" where
  "handleInactiveRefresh A tokenHash newHash =
     bindG (on_db (lookup_refresh tokenHash)) (\<lambda>old.
     case old of
       None \<Rightarrow> returnG None
     | Some t \<Rightarrow> (case rt_RotatedAt t of
         None \<Rightarrow> returnG None
       | Some rotatedAt \<Rightarrow>
           bindG time_now (\<lambda>now.
           if 0 < reuseGrace A \<and> now - rotatedAt < reuseGrace A
           then bindG (on_db (issueInFamily (shop_env A) (rt_CustomerID t) (rt_FamilyID t) newHash
                         (now + refreshTokenTTL))) (\<lambda>ok.
                if ok then returnG (Some t) else returnG None)
           else bindG (on_db (revokeFamily (rt_FamilyID t))) (\<lambda>_. returnG None))))"

definition Refresh :: "auth_env \<Rightarrow> string \<Rightarrow> string \<Rightarrow> (string \<times> string) auth" where
  "Refresh A ip token =
     bindG (refresh_allow ip) (\<lambda>ok.
     if \<not> ok then failG (AppError (TooManyRequests ''refresh_rate_limited''))
     else if token = [] then failG errRefreshInvalid
     else bindG (newOpaqueToken A) (\<lambda>(raw, newHash).
     bindG time_now (\<lambda>now.
     bindG (on_db (rotate (shop_env A) (hashToken A token) newHash (now + refreshTokenTTL))) (\<lambda>rotated.
     bindG (case rotated of Some t \<Rightarrow> returnG (Some t)
            | None \<Rightarrow> handleInactiveRefresh A (hashToken A token) newHash) (\<lambda>rotated.
     case rotated of
       None \<Rightarrow> failG errRefreshInvalid
     | Some t \<Rightarrow> bindG (issueAccessToken A (rt_CustomerID t)) (\<lambda>access. returnG (access, raw)))))))"

definition Logout :: "auth_env \<Rightarrow> string \<Rightarrow> unit auth" where
  "Logout A token =
     (if token = [] then returnG ()
      else bindG (on_db (lookup_refresh (hashToken A token))) (\<lambda>t.
           case t of None \<Rightarrow> returnG () | Some t \<Rightarrow> on_db (revokeFamily (rt_FamilyID t))))"

definition DeleteCustomer :: "string \<Rightarrow> unit auth" where
  "DeleteCustomer customerID = on_db (deleteCustomer customerID)"

end
