(* ===== verification/Runs.thy ===== *)
theory Runs
  imports Database
begin

text \<open>
  Reasoning about every run of a program, whatever it returns: a program \<open>stays\<close> in a reflexive and
  transitive relation on its state when every run, failing ones included, moves the state inside the
  relation. The locale \<open>run_relation\<close> proves the rules for the ways programs are composed once, for
  any state and relation; \<open>db_relation\<close> adds those for SQL statements and transactions, where the
  relation looks at the tables of a \<open>world\<close> only.
\<close>

section \<open>Runs that returned a value\<close>

named_theorems run_elim \<open>decomposition of a run that returned a value\<close>

lemma bindG_InrE [run_elim]:
  assumes "bindG m f s = (Inr y, s'')"
  obtains x s' where "m s = (Inr x, s')" "f x s' = (Inr y, s'')"
  using assms by (auto simp: bindG_def split: prod.splits sum.splits)

lemma basic_InrE [run_elim]:
  "failG e s = (Inr x, s') \<Longrightarrow> P"
  "returnG y s = (Inr x, s') \<Longrightarrow> (x = y \<Longrightarrow> s' = s \<Longrightarrow> P) \<Longrightarrow> P"
  by (auto simp: failG_def returnG_def)

lemma check_InrE [run_elim]:
  "liftG r s = (Inr x, s') \<Longrightarrow> (r = Inr x \<Longrightarrow> s' = s \<Longrightarrow> P) \<Longrightarrow> P"
  "attempt m s = (Inr z, s') \<Longrightarrow> (m s = (z, s') \<Longrightarrow> P) \<Longrightarrow> P"
  by (auto simp: liftG_def attempt_def split: prod.splits)

lemma stmt_Inl: "stmt g w = (Inl e, w') \<Longrightarrow> tables w' = tables w"
  by (auto simp: stmt_def run_stmt_def split: list.splits if_splits sum.splits)

lemma yields_attempt:
  assumes "yields (attempt (stmt g)) d z d'"
    and "\<And>x. z = Inr x \<Longrightarrow> g d = Inr (x, d') \<Longrightarrow> P" "\<And>e. z = Inl e \<Longrightarrow> d' = d \<Longrightarrow> P"
  shows P
proof -
  obtain w w' where r: "attempt (stmt g) w = (Inr z, w')" and t: "tables w = d" "tables w' = d'"
    using assms(1) unfolding yields_def by blast
  from r have "stmt g w = (z, w')" by (cases "stmt g w") (simp add: attempt_def)
  note w = this t
  show P
  proof (cases z)
    case (Inl e)
    then show P using stmt_Inl [of g w e w'] w assms(3) by simp
  next
    case (Inr x)
    then show P using stmt_Inr [of g w x w'] w assms(2) by simp
  qed
qed

section \<open>Relations every run keeps\<close>

locale run_relation =
  fixes R :: "'w \<Rightarrow> 'w \<Rightarrow> bool"
  assumes R_refl: "R s s"
    and R_trans: "R s t \<Longrightarrow> R t u \<Longrightarrow> R s u"
begin

definition stays :: "('w, 'a) prog \<Rightarrow> bool" where
  "stays m \<longleftrightarrow> (\<forall>s. R s (snd (m s)))"

lemma staysI: "(\<And>s r s'. m s = (r, s') \<Longrightarrow> R s s') \<Longrightarrow> stays m"
  unfolding stays_def by (metis prod.collapse)

lemma staysD: "stays m \<Longrightarrow> m s = (r, s') \<Longrightarrow> R s s'"
  unfolding stays_def by (metis snd_conv)

lemma stays_basic: "stays (returnG x)" "stays (failG e)" "stays (liftG r)"
  by (simp_all add: stays_def returnG_def failG_def liftG_def R_refl)

lemma stays_bind: "stays m \<Longrightarrow> (\<And>x. stays (f x)) \<Longrightarrow> stays (bindG m f)"
proof (rule staysI)
  fix s r s'
  assume m: "stays m" and f: "\<And>x. stays (f x)" and run: "bindG m f s = (r, s')"
  obtain q t where q: "m s = (q, t)" by fastforce
  show "R s s'"
  proof (cases q)
    case (Inl e)
    with run q have "s' = t" by (simp add: bindG_def)
    with staysD [OF m q] show ?thesis by simp
  next
    case (Inr x)
    with run q have "f x t = (r, s')" by (simp add: bindG_def)
    with staysD [OF f] have "R t s'" by blast
    with staysD [OF m q] show ?thesis by (rule R_trans)
  qed
qed

lemma stays_attempt: "stays m \<Longrightarrow> stays (attempt m)"
  by (simp add: stays_def attempt_def split_beta)

lemma stays_if: "stays m \<Longrightarrow> stays n \<Longrightarrow> stays (if c then m else n)"
  by simp

lemma stays_option: "stays m \<Longrightarrow> (\<And>x. stays (f x)) \<Longrightarrow> stays (case z of None \<Rightarrow> m | Some x \<Rightarrow> f x)"
  by (cases z) auto

lemma stays_sum: "(\<And>x. stays (f x)) \<Longrightarrow> (\<And>y. stays (g y)) \<Longrightarrow> stays (case z of Inl x \<Rightarrow> f x | Inr y \<Rightarrow> g y)"
  by (cases z) auto

lemma stays_prod: "(\<And>x y. stays (f x y)) \<Longrightarrow> stays (case z of (x, y) \<Rightarrow> f x y)"
  by (cases z) auto

lemmas stays_intros = stays_basic stays_bind stays_attempt stays_if stays_option stays_sum stays_prod

end

locale db_relation =
  fixes D :: "db \<Rightarrow> db \<Rightarrow> bool"
  assumes D_refl: "D d d"
    and D_trans: "D d e \<Longrightarrow> D e f \<Longrightarrow> D d f"

sublocale db_relation \<subseteq> run_relation "\<lambda>w w'. D (tables w) (tables w')"
  by unfold_locales (auto intro: D_refl D_trans)

context db_relation
begin

lemma stays_query: "stays (query f)"
  by (simp add: stays_def tables_query D_refl)

lemma stays_stmt: "(\<And>d x d'. g d = Inr (x, d') \<Longrightarrow> D d d') \<Longrightarrow> stays (stmt g)"
proof (rule staysI)
  fix w r w'
  assume g: "\<And>d x d'. g d = Inr (x, d') \<Longrightarrow> D d d'" and run: "stmt g w = (r, w')"
  show "D (tables w) (tables w')"
  proof (cases r)
    case (Inl e)
    then have "tables w' = tables w"
      using run by (auto simp: stmt_def run_stmt_def split: list.splits if_splits sum.splits)
    then show ?thesis by (simp add: D_refl)
  next
    case (Inr x)
    with run have "g (tables w) = Inr (x, tables w')" by (intro stmt_Inr) simp
    then show ?thesis by (rule g)
  qed
qed

lemma stays_exec: "(\<And>d. D d (f d)) \<Longrightarrow> stays (exec f)"
  unfolding exec_def by (rule stays_stmt) auto

lemma stays_withTx: "(\<And>d x d'. yields fn d x d' \<Longrightarrow> D d d') \<Longrightarrow> stays (withTx fn)"
proof (rule staysI)
  fix w r w'
  assume fn: "\<And>d x d'. yields fn d x d' \<Longrightarrow> D d d'" and run: "withTx fn w = (r, w')"
  show "D (tables w) (tables w')"
  proof (cases r)
    case (Inl e)
    with run have "withTx fn w = (Inl e, w')" by simp
    then have "tables w' = tables w" by (rule withTx_error)
    then show ?thesis by (simp add: D_refl)
  next
    case (Inr x)
    with run have "withTx fn w = (Inr x, w')" by simp
    then have "yields (withTx fn) (tables w) x (tables w')" by (rule yieldsI)
    then have "yields fn (tables w) x (tables w')" by (rule yields_withTx)
    then show ?thesis by (rule fn)
  qed
qed

lemma stays_committed:
  "(\<And>w e w'. m w = (Inl e, w') \<Longrightarrow> tables w' = tables w) \<Longrightarrow> (\<And>d x d'. yields m d x d' \<Longrightarrow> D d d') \<Longrightarrow> stays m"
proof (rule staysI)
  fix w r w'
  assume e: "\<And>w e w'. m w = (Inl e, w') \<Longrightarrow> tables w' = tables w"
    and y: "\<And>d x d'. yields m d x d' \<Longrightarrow> D d d'" and run: "m w = (r, w')"
  show "D (tables w) (tables w')"
  proof (cases r)
    case (Inl err)
    then show ?thesis using e [of w err w'] run by (simp add: D_refl)
  next
    case (Inr x)
    then show ?thesis using y [OF yieldsI [of m w x w']] run by simp
  qed
qed

lemma stays_yields: "stays m \<Longrightarrow> yields m d x d' \<Longrightarrow> D d d'"
  by (auto simp: yields_def dest: staysD)

lemma stays_tx: "stays fn \<Longrightarrow> stays (withTx fn)"
  by (intro stays_withTx) (rule stays_yields)

lemma stays_for: "(\<And>x. x \<in> set xs \<Longrightarrow> stays (f x)) \<Longrightarrow> stays (forG f xs)"
  by (induction xs) (auto intro!: stays_basic stays_bind)

end

end
