(* ===== verification/AuthFacts.thy ===== *)
theory AuthFacts
  imports AuthService Runs
begin

text \<open>
  What the operations of the login do to the codes, whatever they return: a row of \<^verbatim>\<open>otp_codes\<close> keeps
  its phone, its instant and its transaction, is consumed at most once, and its attempts grow up to
  the budget (\<open>code_le\<close>); only \<^verbatim>\<open>RequestOTP\<close> adds a row, and only then may an SMS go out.
\<close>

section \<open>Programs of the service\<close>

text \<open>A relation on tables is one on the state of the service.\<close>

locale auth_relation = db_relation D for D :: "db \<Rightarrow> db \<Rightarrow> bool"

sublocale auth_relation \<subseteq> service: run_relation "\<lambda>s s'. D (tables (au_world s)) (tables (au_world s'))"
  by unfold_locales (auto intro: D_refl D_trans)

context auth_relation
begin

lemma on_db_stays: "stays m \<Longrightarrow> service.stays (on_db m)"
proof (rule service.staysI)
  fix s r s'
  assume m: "stays m" and run: "on_db m s = (r, s')"
  obtain q w where q: "m (au_world s) = (q, w)" by fastforce
  from staysD [OF m q] run q show "D (tables (au_world s)) (tables (au_world s'))"
    by (auto simp: on_db_def)
qed

lemma memory_stays:
  "service.stays time_now" "service.stays (newTransactionID A)" "service.stays (newOpaqueToken A)"
  "service.stays (SendCode A p x)" "service.stays (VerifyCode A t c)" "service.stays (fails_blocked ip)"
  "service.stays (fails_hit ip)" "service.stays (refresh_allow ip)" "service.stays review_disabled"
  "service.stays (review_check c v)"
  by (auto simp: service.stays_def time_now_def newTransactionID_def newOpaqueToken_def SendCode_def VerifyCode_def
      fails_blocked_def fails_hit_def refresh_allow_def review_disabled_def review_check_def D_refl
      split: prod.split)

lemma issueAccessToken_stays: "service.stays (issueAccessToken A c)"
  unfolding issueAccessToken_def by (intro service.stays_bind service.stays_basic memory_stays)

lemma verifyCode_stays: "service.stays (verifyCode A p t c)"
  unfolding verifyCode_def by (intro service.stays_intros memory_stays)

end

section \<open>The rows of otp_codes\<close>

definition code_le :: "int \<Rightarrow> otp_row \<Rightarrow> otp_row \<Rightarrow> bool" where
  "code_le most r r' \<longleftrightarrow>
     otp_id r' = otp_id r \<and> otp_phone r' = otp_phone r \<and> otp_transaction_id r' = otp_transaction_id r \<and>
     otp_expires_at r' = otp_expires_at r \<and> otp_created_at r' = otp_created_at r \<and>
     otp_request_ip r' = otp_request_ip r \<and>
     (otp_consumed_at r \<noteq> None \<longrightarrow> otp_consumed_at r' = otp_consumed_at r) \<and>
     otp_verify_attempts r \<le> otp_verify_attempts r' \<and>
     otp_verify_attempts r' \<le> max (otp_verify_attempts r) most"

definition codes_le :: "int \<Rightarrow> db \<Rightarrow> db \<Rightarrow> bool" where
  "codes_le most d d' \<longleftrightarrow> list_all2 (code_le most) (otp_codes d) (otp_codes d') \<and> clock d' = clock d"

lemma code_le_refl [simp]: "code_le n r r"
  by (simp add: code_le_def)

lemma code_le_trans: "code_le n a b \<Longrightarrow> code_le n b c \<Longrightarrow> code_le n a c"
  unfolding code_le_def by (elim conjE, intro conjI) auto

lemma code_le_fields:
  "code_le n r r' \<Longrightarrow> otp_phone r' = otp_phone r \<and> otp_created_at r' = otp_created_at r \<and> otp_id r' = otp_id r \<and>
     otp_expires_at r' = otp_expires_at r"
  by (simp add: code_le_def)

interpretation codes: auth_relation "codes_le most" for most
proof
  show "codes_le most d d" for d by (simp add: codes_le_def list_all2_refl)
  fix d e f
  assume de: "codes_le most d e" and ef: "codes_le most e f"
  have "list_all2 (code_le most) (otp_codes d) (otp_codes f)"
    by (rule list_all2_trans [OF code_le_trans]) (use de ef in \<open>auto simp: codes_le_def\<close>)
  with de ef show "codes_le most d f" by (simp add: codes_le_def)
qed

lemma codes_le_update:
  "(\<And>r. r \<in> set (otp_codes d) \<Longrightarrow> P r \<Longrightarrow> code_le n r (f r)) \<Longrightarrow> codes_le n d (update_otp P f d)"
  by (auto simp: codes_le_def update_otp_def list_all2_conv_all_nth)

lemma codes_le_other: "otp_codes d' = otp_codes d \<Longrightarrow> clock d' = clock d \<Longrightarrow> codes_le n d d'"
  by (simp add: codes_le_def list_all2_refl)

lemma setToken_stays: "codes.stays n (setToken i t)"
  unfolding setToken_def by (intro codes.stays_exec codes_le_update) (simp add: code_le_def)

lemma burn_stays: "codes.stays n (burn i)"
  unfolding burn_def by (intro codes.stays_exec codes_le_update) (simp add: code_le_def)

lemma takeAttempt_stays: "codes.stays n (takeAttempt i n)"
  unfolding takeAttempt_def Let_def
  by (rule codes.stays_stmt) (auto intro!: codes_le_update simp: code_le_def)

lemma consume_stays: "codes.stays n (consume i)"
  unfolding consume_def Let_def
  by (rule codes.stays_stmt) (auto intro!: codes_le_update simp: code_le_def)

lemma latestActive_stays: "codes.stays n (latestActive p)"
  unfolding latestActive_def by (rule codes.stays_query)

lemma GetOrCreate_stays: "codes.stays n (GetOrCreateByPhone env p)"
  unfolding GetOrCreateByPhone_def
  by (rule codes.stays_stmt) (auto intro!: codes_le_other simp: Let_def split: option.splits if_splits)

lemma create_refresh_stays: "codes.stays n (create_refresh env c h x)"
  unfolding create_refresh_def
  by (rule codes.stays_stmt) (auto intro!: codes_le_other simp: insert_refresh_def split: if_splits)

lemma VerifyOTP_stays: "codes.service.stays (max_attempts_of A) (VerifyOTP A ip raw code)"
  unfolding VerifyOTP_def refused_code_def issueTokenPair_def
  by (intro codes.service.stays_intros codes.memory_stays codes.verifyCode_stays codes.issueAccessToken_stays
      codes.on_db_stays latestActive_stays takeAttempt_stays burn_stays consume_stays GetOrCreate_stays
      create_refresh_stays)

lemma refresh_stays:
  "codes.stays n (rotate env o' h x)" "codes.stays n (lookup_refresh h)" "codes.stays n (revokeFamily f)"
  "codes.stays n (issueInFamily env c f h x)"
proof -
  show "codes.stays n (rotate env o' h x)"
    unfolding rotate_def
    by (rule codes.stays_withTx)
      (auto simp: retire_def insert_refresh_def update_refresh_def Let_def codes_le_def list_all2_refl
        elim!: go_elim split: option.splits if_splits)
  show "codes.stays n (lookup_refresh h)" unfolding lookup_refresh_def by (rule codes.stays_query)
  show "codes.stays n (revokeFamily f)"
    unfolding revokeFamily_def by (intro codes.stays_exec codes_le_other) (simp_all add: update_refresh_def)
  show "codes.stays n (issueInFamily env c f h x)"
    unfolding issueInFamily_def
    by (rule codes.stays_stmt) (auto intro!: codes_le_other simp: insert_refresh_def split: if_splits)
qed

lemma Refresh_codes: "codes.service.stays n (Refresh A ip tok)"
  unfolding Refresh_def handleInactiveRefresh_def
  by (intro codes.service.stays_intros codes.memory_stays codes.issueAccessToken_stays codes.on_db_stays refresh_stays)

lemma Logout_codes: "codes.service.stays n (Logout A tok)"
  unfolding Logout_def by (intro codes.service.stays_intros codes.on_db_stays refresh_stays)

section \<open>A new code\<close>

lemma fold_max_upper: "x = t \<or> x \<in> set ts \<Longrightarrow> (x::int) \<le> fold max ts t"
  using Max_ge [of "set (t # ts)" x] by (auto simp: Max.set_eq_fold [symmetric])

lemma last_at_upper: "r \<in> set rs \<Longrightarrow> \<exists>t. last_at rs = Some t \<and> otp_created_at r \<le> t"
  by (cases rs) (auto simp: last_at_def intro: fold_max_upper)

definition within_limits :: "otpSendLimits \<Rightarrow> string \<Rightarrow> string \<Rightarrow> db \<Rightarrow> bool" where
  "within_limits lims phone ip d \<longleftrightarrow>
     (\<forall>r \<in> set (codes_for d phone). Cooldown lims \<le> clock d - otp_created_at r) \<and>
     count_since (clock d - hour) (codes_for d phone) < PerPhone lims \<and>
     (0 < PerIP lims \<and> ip \<noteq> [] \<longrightarrow>
        count_since (clock d - hour) (filter (\<lambda>r. otp_request_ip r = Some ip) (otp_codes d)) < PerIP lims) \<and>
     (0 < GlobalDay lims \<longrightarrow> count_since (clock d - day) (otp_codes d) < GlobalDay lims)"

definition new_code :: "string \<Rightarrow> string \<Rightarrow> string \<Rightarrow> int \<Rightarrow> db \<Rightarrow> otp_row \<Rightarrow> bool" where
  "new_code code_id phone ip expiresAt d r \<longleftrightarrow>
     otp_id r = code_id \<and> otp_phone r = phone \<and> otp_created_at r = clock d \<and> otp_expires_at r = expiresAt \<and>
     otp_consumed_at r = None \<and> otp_verify_attempts r = 0 \<and> otp_token r = [] \<and>
     otp_request_ip r = (if ip \<noteq> [] then Some ip else None) \<and> code_id \<notin> otp_id ` set (otp_codes d)"

lemma insert_otp_effect:
  "insert_otp env phone tx ex (if ip \<noteq> [] then Some ip else None) d = Inr (i, d') \<Longrightarrow>
   \<exists>r. d' = d\<lparr>otp_codes := otp_codes d @ [r], id_count := Suc (id_count d)\<rparr> \<and> new_code i phone ip ex d r"
proof -
  assume i: "insert_otp env phone tx ex (if ip \<noteq> [] then Some ip else None) d = Inr (i, d')"
  let ?r = "\<lparr>otp_id = gen_uuid env (id_count d), otp_phone = phone, otp_transaction_id = tx,
    otp_token = [], otp_expires_at = ex, otp_consumed_at = None, otp_created_at = clock d,
    otp_request_ip = (if ip \<noteq> [] then Some ip else None), otp_verify_attempts = 0\<rparr>"
  have "i = otp_id ?r" "d' = d\<lparr>otp_codes := otp_codes d @ [?r], id_count := Suc (id_count d)\<rparr>"
    "otp_id ?r \<notin> otp_id ` set (otp_codes d)"
    using i unfolding insert_otp_def Let_def by (auto simp del: if_split split: if_split_asm)
  then show ?thesis by (intro exI [of _ ?r]) (simp add: new_code_def)
qed

lemma reserve_effect:
  assumes "yields (reserve env phone ip tx ex lims) d i d'"
  shows "\<exists>r. d' = d\<lparr>otp_codes := otp_codes d @ [r], id_count := Suc (id_count d)\<rparr> \<and>
    new_code i phone ip ex d r \<and> within_limits lims phone ip d"
proof -
  let ?lastAt = "last_at (codes_for d phone)"
  have f: "\<not> (case ?lastAt of None \<Rightarrow> False | Some t \<Rightarrow> clock d - t < Cooldown lims) \<and>
    \<not> PerPhone lims \<le> count_since (clock d - hour) (codes_for d phone) \<and>
    (0 < PerIP lims \<and> ip \<noteq> [] \<longrightarrow>
        count_since (clock d - hour) (filter (\<lambda>r. otp_request_ip r = Some ip) (otp_codes d)) < PerIP lims) \<and>
    (0 < GlobalDay lims \<longrightarrow> count_since (clock d - day) (otp_codes d) < GlobalDay lims) \<and>
    insert_otp env phone tx ex (if ip \<noteq> [] then Some ip else None) d = Inr (i, d')"
    using assms unfolding reserve_def by (auto elim!: go_elim split: if_splits)
  have c: "\<not> (case ?lastAt of None \<Rightarrow> False | Some t \<Rightarrow> clock d - t < Cooldown lims)" using f by blast
  have cool: "Cooldown lims \<le> clock d - otp_created_at r" if "r \<in> set (codes_for d phone)" for r
    using last_at_upper [OF that] c by auto
  have "within_limits lims phone ip d" using f cool by (simp add: within_limits_def)
  moreover have "insert_otp env phone tx ex (if ip \<noteq> [] then Some ip else None) d = Inr (i, d')" using f by blast
  ultimately show ?thesis using insert_otp_effect by blast
qed

text \<open>
  A request either leaves codes and SMS log alone, or adds one code of the normalized phone within
  the limits, and asks the provider for at most one SMS, to that phone.
\<close>

lemma RequestOTP_effect:
  assumes run: "RequestOTP A ip raw s = (res, s')"
  shows "(tables (au_world s') = tables (au_world s) \<and> sms_log s' = sms_log s) \<or>
    (\<exists>phone i ex r d1. NormalizePhone raw = Inr phone \<and> within_limits (send_limits A) phone ip (tables (au_world s)) \<and>
       new_code i phone ip ex (tables (au_world s)) r \<and>
       d1 = (tables (au_world s))\<lparr>otp_codes := otp_codes (tables (au_world s)) @ [r], id_count := Suc (id_count (tables (au_world s)))\<rparr> \<and>
       codes_le 0 d1 (tables (au_world s')) \<and>
       (sms_log s' = sms_log s \<or> sms_log s' = sms_log s @ [(forNikita phone, clock (tables (au_world s)))]))"
proof (cases "NormalizePhone raw")
  case (Inl e)
  with run show ?thesis by (auto simp: RequestOTP_def bindG_def liftG_def)
next
  case (Inr phone)
  let ?d = "tables (au_world s)"
  let ?s1 = "s\<lparr>draws := Suc (draws s)\<rparr>"
  show ?thesis
  proof (cases "random_hex A (draws s)")
    case (Inl e)
    with run Inr show ?thesis by (auto simp: RequestOTP_def bindG_def liftG_def newTransactionID_def)
  next
    case tx: (Inr tx)
    let ?res = "reserve (shop_env A) phone ip tx (clock ?d + otpTTL) (send_limits A)"
    obtain q w where q: "?res (au_world s) = (q, w)" by fastforce
    show ?thesis
    proof (cases q)
      case (Inl e)
      have "tables w = ?d" using q Inl unfolding reserve_def by (auto dest: withTx_error)
      with run Inr tx q Inl show ?thesis
        by (auto simp: RequestOTP_def bindG_def liftG_def newTransactionID_def time_now_def on_db_def)
    next
      case code: (Inr i)
      let ?s2 = "?s1\<lparr>au_world := w\<rparr>"
      let ?off = "disabled (reviewLock s)"
      let ?rest = "if isReviewPhone A phone \<and> \<not> ?off
        then on_db (setToken i (reviewTokenPrefix @ tx))
        else bindG (attempt (SendCode A (forNikita phone) tx)) (\<lambda>res.
          case res of
            Inl err \<Rightarrow> bindG (attempt (on_db (burn i))) (\<lambda>_. failG err)
          | Inr token \<Rightarrow> on_db (setToken i token))"
      have rest: "?rest ?s2 = (res, s')"
        using run Inr tx q code
        by (auto simp: RequestOTP_def bindG_def liftG_def newTransactionID_def time_now_def on_db_def review_disabled_def)
      have "yields ?res ?d i (tables w)" using q code yieldsI by fastforce
      from reserve_effect [OF this] obtain r where
        r: "tables w = ?d\<lparr>otp_codes := otp_codes ?d @ [r], id_count := Suc (id_count ?d)\<rparr>"
          "new_code i phone ip (clock ?d + otpTTL) ?d r" "within_limits (send_limits A) phone ip ?d"
        by blast
      have "codes.service.stays 0 ?rest"
        by (intro codes.service.stays_intros codes.memory_stays codes.on_db_stays setToken_stays burn_stays)
      from codes.service.staysD [OF this rest] have le: "codes_le 0 (tables w) (tables (au_world s'))" by simp
      have "clock (tables w) = clock ?d" using r(1) by simp
      moreover have "sms_log s' = sms_log s \<or> sms_log s' = sms_log s @ [(forNikita phone, clock (tables w))]"
        using rest
        by (auto simp: on_db_def bindG_def attempt_def SendCode_def failG_def split: if_splits prod.splits sum.splits)
      ultimately show ?thesis using Inr r le by metis
    qed
  qed
qed

lemma RequestOTP_cases:
  assumes "RequestOTP A ip raw s = (res, s')"
  obtains (idle) "tables (au_world s') = tables (au_world s)" "sms_log s' = sms_log s"
  | (added) phone i ex r d1 where "NormalizePhone raw = Inr phone"
      "within_limits (send_limits A) phone ip (tables (au_world s))" "new_code i phone ip ex (tables (au_world s)) r"
      "otp_codes d1 = otp_codes (tables (au_world s)) @ [r]" "codes_le 0 d1 (tables (au_world s'))"
      "sms_log s' = sms_log s \<or> sms_log s' = sms_log s @ [(forNikita phone, clock (tables (au_world s)))]"
proof -
  note cases = that
  from RequestOTP_effect [OF assms] show thesis
  proof (elim disjE exE conjE)
    fix phone i ex r d1
    assume "NormalizePhone raw = Inr phone" "within_limits (send_limits A) phone ip (tables (au_world s))"
      "new_code i phone ip ex (tables (au_world s)) r"
      "d1 = (tables (au_world s))\<lparr>otp_codes := otp_codes (tables (au_world s)) @ [r], id_count := Suc (id_count (tables (au_world s)))\<rparr>"
      "codes_le 0 d1 (tables (au_world s'))" "sms_log s' = sms_log s"
    then show thesis by (intro cases(2)) auto
  next
    fix phone i ex r d1
    assume "NormalizePhone raw = Inr phone" "within_limits (send_limits A) phone ip (tables (au_world s))"
      "new_code i phone ip ex (tables (au_world s)) r"
      "d1 = (tables (au_world s))\<lparr>otp_codes := otp_codes (tables (au_world s)) @ [r], id_count := Suc (id_count (tables (au_world s)))\<rparr>"
      "codes_le 0 d1 (tables (au_world s'))"
      "sms_log s' = sms_log s @ [(forNikita phone, clock (tables (au_world s)))]"
    then show thesis by (intro cases(2)) auto
  qed (rule cases(1))
qed

text \<open>No other call writes the SMS log.\<close>

interpretation log: run_relation "\<lambda>s s'. sms_log s' = sms_log s"
  by unfold_locales auto

lemma log_on_db: "log.stays (on_db m)"
  by (auto simp: log.stays_def on_db_def split: prod.splits)

lemma log_memory:
  "log.stays time_now" "log.stays (newTransactionID A)" "log.stays (newOpaqueToken A)"
  "log.stays (VerifyCode A t c)" "log.stays (fails_blocked ip)"
  "log.stays (fails_hit ip)" "log.stays (refresh_allow ip)" "log.stays (review_check c v)"
  by (auto simp: log.stays_def time_now_def newTransactionID_def newOpaqueToken_def VerifyCode_def
      fails_blocked_def fails_hit_def refresh_allow_def review_check_def split: prod.split)

lemma log_calls: "log.stays (VerifyOTP A ip raw code)" "log.stays (Refresh A ip tok)" "log.stays (Logout A tok)"
  unfolding VerifyOTP_def refused_code_def issueTokenPair_def issueAccessToken_def verifyCode_def Refresh_def
    handleInactiveRefresh_def Logout_def
  by (intro log.stays_intros log_memory log_on_db)+

end
