(* ===== verification/AuthRuns.thy ===== *)
theory AuthRuns
  imports AuthFacts
begin

text \<open>
  The login as a system: the states its calls reach, from a service started on empty tables, in any
  order and under any failures. Between calls the clock moves forward and the rest of the server
  changes other tables; a restart makes the limiters and the review guard new. \<open>auth_reach A Q\<close>
  admits the calls with \<open>Q\<close> only. The log of SMS requests belongs to the outside world and survives
  a restart, as do the counters that stand for the random source and the provider.
\<close>

section \<open>Reachable states\<close>

datatype auth_call =
    CallRequest string string | CallVerify string string string | CallRefresh string string
  | CallLogout string | CallDelete string | CallCleanup int

fun after :: "auth_env \<Rightarrow> auth_call \<Rightarrow> auth_state \<Rightarrow> auth_state" where
  "after A (CallRequest ip phone) s = snd (RequestOTP A ip phone s)"
| "after A (CallVerify ip phone code) s = snd (VerifyOTP A ip phone code s)"
| "after A (CallRefresh ip token) s = snd (Refresh A ip token s)"
| "after A (CallLogout token) s = snd (Logout A token s)"
| "after A (CallDelete cid) s = snd (DeleteCustomer cid s)"
| "after A (CallCleanup cutoff) s = snd (on_db (deleteOTPCodesBefore cutoff) s)"

abbreviation db_of :: "auth_state \<Rightarrow> db" where "db_of s \<equiv> tables (au_world s)"

definition restart :: "auth_env \<Rightarrow> auth_state \<Rightarrow> auth_state" where
  "restart A s = (NewService (limits A) (au_world s))\<lparr>draws := draws s, provider_calls := provider_calls s,
                   sms_log := sms_log s\<rparr>"

definition meanwhile :: "db \<Rightarrow> db \<Rightarrow> bool" where
  "meanwhile d d' \<longleftrightarrow> clock d \<le> clock d' \<and> id_count d \<le> id_count d' \<and> otp_codes d' = otp_codes d \<and>
     refresh_tokens d' = refresh_tokens d"

inductive auth_step :: "auth_env \<Rightarrow> (auth_call \<Rightarrow> bool) \<Rightarrow> auth_state \<Rightarrow> auth_state \<Rightarrow> bool" for A Q where
  call: "Q c \<Longrightarrow> auth_step A Q s (after A c s)"
| pass: "meanwhile (db_of s) (tables w') \<Longrightarrow> auth_step A Q s (s\<lparr>au_world := w'\<rparr>)"
| again: "auth_step A Q s (restart A s)"

inductive auth_reach :: "auth_env \<Rightarrow> (auth_call \<Rightarrow> bool) \<Rightarrow> auth_state \<Rightarrow> bool" for A Q where
  boot: "otp_codes (tables w) = [] \<Longrightarrow> refresh_tokens (tables w) = [] \<Longrightarrow> auth_reach A Q (NewService (limits A) w)"
| more: "auth_reach A Q s \<Longrightarrow> auth_step A Q s s' \<Longrightarrow> auth_reach A Q s'"

definition keeps_codes :: "auth_call \<Rightarrow> bool" where
  "keeps_codes c \<longleftrightarrow> (case c of CallDelete _ \<Rightarrow> False | CallCleanup _ \<Rightarrow> False | _ \<Rightarrow> True)"

section \<open>The SMS log\<close>

definition code_core :: "otp_row \<Rightarrow> string \<times> int" where
  "code_core r = (forNikita (otp_phone r), otp_created_at r)"

text \<open>Every SMS belongs to a code, and no code to two.\<close>

definition log_backed :: "auth_state \<Rightarrow> bool" where
  "log_backed s \<longleftrightarrow> (\<forall>P. length (filter P (sms_log s)) \<le> length (filter P (map code_core (otp_codes (db_of s)))))"

definition phones_ok :: "auth_state \<Rightarrow> bool" where
  "phones_ok s \<longleftrightarrow> (\<forall>r \<in> set (otp_codes (db_of s)). canonical (otp_phone r))"

definition log_limited :: "auth_env \<Rightarrow> (string \<times> int) list \<Rightarrow> bool" where
  "log_limited A es \<longleftrightarrow>
     (\<forall>q a. int (length (filter (\<lambda>(p, u). p = q \<and> a \<le> u \<and> u \<le> a + hour) es)) \<le> otpMaxPerHour) \<and>
     (0 < OTPPerDay (limits A) \<longrightarrow>
        (\<forall>a. int (length (filter (\<lambda>(p, u). a \<le> u \<and> u \<le> a + day) es)) \<le> OTPPerDay (limits A))) \<and>
     (\<forall>i j. i < j \<and> j < length es \<and> fst (es ! i) = fst (es ! j) \<longrightarrow>
        otpResendCooldown \<le> snd (es ! j) - snd (es ! i))"

lemma codes_le_core: "codes_le n d d' \<Longrightarrow> map code_core (otp_codes d') = map code_core (otp_codes d)"
proof -
  assume "codes_le n d d'"
  then have "list_all2 (code_le n) (otp_codes d) (otp_codes d')" by (simp add: codes_le_def)
  then show ?thesis by (induction rule: list_all2_induct) (simp_all add: code_core_def code_le_def)
qed

lemma codes_le_phones: "codes_le n d d' \<Longrightarrow> map otp_phone (otp_codes d') = map otp_phone (otp_codes d)"
proof -
  assume "codes_le n d d'"
  then have "list_all2 (code_le n) (otp_codes d) (otp_codes d')" by (simp add: codes_le_def)
  then show ?thesis by (induction rule: list_all2_induct) (simp_all add: code_le_def)
qed

lemma forNikita_inj: "canonical p \<Longrightarrow> canonical q \<Longrightarrow> forNikita p = forNikita q \<Longrightarrow> p = q"
  by (auto simp: canonical_def forNikita_def)

lemma NormalizePhone_canonical: "NormalizePhone raw = Inr p \<Longrightarrow> canonical p"
  by (auto simp: NormalizePhone_def split: option.splits intro: E164_canonical)

text \<open>What the limits on codes say of the log.\<close>

lemma backed_count:
  assumes "log_backed s"
  shows "length (filter (\<lambda>(p, u). P p u) (sms_log s)) \<le>
    length (filter (\<lambda>r. P (forNikita (otp_phone r)) (otp_created_at r)) (otp_codes (db_of s)))"
  using assms [unfolded log_backed_def, rule_format, of "\<lambda>(p, u). P p u"]
  by (simp add: filter_map o_def code_core_def)

lemma own_codes:
  assumes "phones_ok s" "canonical phone"
  shows "filter (\<lambda>r. forNikita (otp_phone r) = forNikita phone \<and> P r) (otp_codes (db_of s)) =
    filter P (codes_for (db_of s) phone)"
  using assms forNikita_inj unfolding codes_for_def filter_filter phones_ok_def by (intro filter_cong) auto

lemma log_bounds:
  assumes b: "log_backed s" and p: "phones_ok s" "canonical phone"
    and w: "within_limits (send_limits A) phone ip (db_of s)"
  defines "q \<equiv> forNikita phone" and "t \<equiv> clock (db_of s)"
  shows "int (length (filter (\<lambda>(p, u). p = q \<and> t - hour \<le> u) (sms_log s))) < otpMaxPerHour"
    and "0 < OTPPerDay (limits A) \<Longrightarrow>
      int (length (filter (\<lambda>(p, u). t - day \<le> u) (sms_log s))) < OTPPerDay (limits A)"
    and "(q, u) \<in> set (sms_log s) \<Longrightarrow> otpResendCooldown \<le> t - u"
proof -
  have "length (filter (\<lambda>(p, u). p = q \<and> t - hour \<le> u) (sms_log s)) \<le>
      length (filter (\<lambda>r. t - hour \<le> otp_created_at r) (codes_for (db_of s) phone))"
    using backed_count [OF b, of "\<lambda>p u. p = q \<and> t - hour \<le> u"] unfolding q_def by (simp only: own_codes [OF p])
  then show "int (length (filter (\<lambda>(p, u). p = q \<and> t - hour \<le> u) (sms_log s))) < otpMaxPerHour"
    using w by (simp add: within_limits_def count_since_def send_limits_def t_def)
  show "int (length (filter (\<lambda>(p, u). t - day \<le> u) (sms_log s))) < OTPPerDay (limits A)"
    if "0 < OTPPerDay (limits A)"
    using backed_count [OF b, of "\<lambda>p u. t - day \<le> u"] w that
    by (simp add: within_limits_def count_since_def send_limits_def t_def)
  assume m: "(q, u) \<in> set (sms_log s)"
  have "0 < length (filter (\<lambda>(p, v). p = q \<and> v = u) (sms_log s))" using m by (auto simp: filter_empty_conv)
  also have "\<dots> \<le> length (filter (\<lambda>r. otp_created_at r = u) (codes_for (db_of s) phone))"
    using backed_count [OF b, of "\<lambda>p v. p = q \<and> v = u"] unfolding q_def by (simp only: own_codes [OF p])
  finally obtain r where "r \<in> set (codes_for (db_of s) phone)" "otp_created_at r = u"
    by (auto simp: filter_empty_conv)
  with w show "otpResendCooldown \<le> t - u" by (auto simp: within_limits_def send_limits_def t_def)
qed

text \<open>A new entry within the limits of the codes is within the limits of the log.\<close>

lemma log_grows:
  assumes b: "log_backed s" and p: "phones_ok s" "canonical phone" and l: "log_limited A (sms_log s)"
    and w: "within_limits (send_limits A) phone ip (db_of s)"
  shows "log_limited A (sms_log s @ [(forNikita phone, clock (db_of s))])"
proof -
  let ?q = "forNikita phone" and ?t = "clock (db_of s)" and ?log = "sms_log s"
  note h = log_bounds(1) [OF b p w] and dd = log_bounds(2) [OF b p w] and cool = log_bounds(3) [OF b p w]
  have le: "length (filter P xs) \<le> length (filter Q xs)" if "\<And>x. P x \<Longrightarrow> Q x" for P Q and xs :: "(string \<times> int) list"
    using that by (induction xs) (auto intro: le_SucI)
  have hour_ok: "int (length (filter (\<lambda>(p, u). p = q \<and> a \<le> u \<and> u \<le> a + hour) (?log @ [(?q, ?t)]))) \<le> otpMaxPerHour"
    for q a
  proof (cases "?q = q \<and> a \<le> ?t \<and> ?t \<le> a + hour")
    case True
    then have "length (filter (\<lambda>(p, u). p = q \<and> a \<le> u \<and> u \<le> a + hour) ?log) \<le>
        length (filter (\<lambda>(p, u). p = ?q \<and> ?t - hour \<le> u) ?log)" by (intro le) auto
    with h True show ?thesis by simp
  next
    case False
    then show ?thesis using l by (auto simp: log_limited_def)
  qed
  have day_ok: "int (length (filter (\<lambda>(p, u). a \<le> u \<and> u \<le> a + day) (?log @ [(?q, ?t)]))) \<le> OTPPerDay (limits A)"
    if "0 < OTPPerDay (limits A)" for a
  proof (cases "a \<le> ?t \<and> ?t \<le> a + day")
    case True
    then have "length (filter (\<lambda>(p, u). a \<le> u \<and> u \<le> a + day) ?log) \<le> length (filter (\<lambda>(p, u). ?t - day \<le> u) ?log)"
      by (intro le) auto
    with dd that True show ?thesis by simp
  next
    case False
    then show ?thesis using l that by (auto simp: log_limited_def)
  qed
  have cool_ok: "otpResendCooldown \<le> snd ((?log @ [(?q, ?t)]) ! j) - snd ((?log @ [(?q, ?t)]) ! i)"
    if ij: "i < j" "j < length (?log @ [(?q, ?t)])" "fst ((?log @ [(?q, ?t)]) ! i) = fst ((?log @ [(?q, ?t)]) ! j)" for i j
  proof (cases "j < length ?log")
    case True
    then show ?thesis using l ij by (simp add: log_limited_def nth_append)
  next
    case False
    then have j: "j = length ?log" using ij(2) by simp
    then have "fst (?log ! i) = ?q" "i < length ?log" using ij by (simp_all add: nth_append)
    then have "(?q, snd (?log ! i)) \<in> set ?log" by (metis nth_mem prod.collapse)
    from cool [OF this] show ?thesis using j ij(1) by (simp add: nth_append)
  qed
  show ?thesis unfolding log_limited_def using hour_ok day_ok cool_ok by blast
qed

section \<open>The limits on SMS hold in every reachable state\<close>

definition sms_ok :: "auth_env \<Rightarrow> auth_state \<Rightarrow> bool" where
  "sms_ok A s \<longleftrightarrow> log_backed s \<and> phones_ok s \<and> log_limited A (sms_log s)"

lemma sms_ok_same:
  "sms_ok A s \<Longrightarrow> codes_le n (db_of s) (db_of s') \<Longrightarrow> sms_log s' = sms_log s \<Longrightarrow> sms_ok A s'"
  unfolding sms_ok_def log_backed_def phones_ok_def
  by (simp add: codes_le_core) (metis codes_le_phones set_map imageE imageI)

lemma sms_ok_request: "sms_ok A s \<Longrightarrow> sms_ok A (snd (RequestOTP A ip raw s))"
proof -
  assume ok: "sms_ok A s"
  obtain res s' where run: "RequestOTP A ip raw s = (res, s')" by fastforce
  from run show ?thesis
  proof (cases rule: RequestOTP_cases)
    case idle
    then show ?thesis using ok run by (simp add: sms_ok_def log_backed_def phones_ok_def)
  next
    case (added phone i ex r d1)
    note n = added(1,2,3,5) and d1 = added(4) and lg = added(6)
    have r: "otp_phone r = phone" "otp_created_at r = clock (db_of s)" using n(3) by (auto simp: new_code_def)
    have core: "map code_core (otp_codes (db_of s')) =
        map code_core (otp_codes (db_of s)) @ [(forNikita phone, clock (db_of s))]"
      using codes_le_core [OF n(4)] d1 r by (simp add: code_core_def)
    have "set (map otp_phone (otp_codes (db_of s'))) = insert phone (set (map otp_phone (otp_codes (db_of s))))"
      using codes_le_phones [OF n(4)] d1 r by simp
    then have "phones_ok s'" using ok NormalizePhone_canonical [OF n(1)]
      by (auto simp: sms_ok_def phones_ok_def image_iff set_eq_iff) metis
    moreover have "log_backed s'"
      using ok lg unfolding sms_ok_def log_backed_def core by (auto intro: le_SucI)
    moreover have "log_limited A (sms_log s')"
      using lg ok log_grows [OF _ _ NormalizePhone_canonical [OF n(1)] _ n(2)] by (auto simp: sms_ok_def)
    ultimately show ?thesis using run by (simp add: sms_ok_def)
  qed
qed

lemma sms_ok_call: "sms_ok A s \<Longrightarrow> keeps_codes c \<Longrightarrow> sms_ok A (after A c s)"
proof (cases c)
  case (CallVerify ip phone code)
  assume "sms_ok A s"
  then show ?thesis using CallVerify VerifyOTP_stays [of A ip phone code] log_calls(1) [of A ip phone code]
    by (auto simp: codes.service.stays_def log.stays_def intro: sms_ok_same)
next
  case (CallRefresh ip token)
  assume "sms_ok A s"
  then show ?thesis using CallRefresh Refresh_codes [of 0 A ip token] log_calls(2) [of A ip token]
    by (auto simp: codes.service.stays_def log.stays_def intro: sms_ok_same)
next
  case (CallLogout token)
  assume "sms_ok A s"
  then show ?thesis using CallLogout Logout_codes [of 0 A token] log_calls(3) [of A token]
    by (auto simp: codes.service.stays_def log.stays_def intro: sms_ok_same)
qed (auto simp: sms_ok_request keeps_codes_def)

lemma step_sms_ok: "auth_step A keeps_codes s s' \<Longrightarrow> sms_ok A s \<Longrightarrow> sms_ok A s'"
proof (induction rule: auth_step.induct)
  case (call c s)
  then show ?case by (intro sms_ok_call)
qed (simp_all add: sms_ok_def log_backed_def phones_ok_def meanwhile_def restart_def NewService_def)

lemma reach_sms_ok: "auth_reach A keeps_codes s \<Longrightarrow> sms_ok A s"
proof (induction rule: auth_reach.induct)
  case (boot w)
  then show ?case
    by (simp add: sms_ok_def log_backed_def phones_ok_def log_limited_def NewService_def otpMaxPerHour_def)
qed (rule step_sms_ok)

section \<open>Attempts\<close>

text \<open>A call leaves each code's attempts within the budget; deletion and cleanup drop whole rows.\<close>

definition attempts_ok :: "auth_env \<Rightarrow> db \<Rightarrow> bool" where
  "attempts_ok A d \<longleftrightarrow> (\<forall>r \<in> set (otp_codes d). 0 \<le> otp_verify_attempts r \<and> otp_verify_attempts r \<le> max_attempts_of A)"

definition budget_le :: "auth_env \<Rightarrow> db \<Rightarrow> db \<Rightarrow> bool" where
  "budget_le A d d' \<longleftrightarrow> (attempts_ok A d \<longrightarrow> attempts_ok A d')"

interpretation budget: auth_relation "budget_le A" for A
  by unfold_locales (auto simp: budget_le_def)

lemma codes_le_budget: "codes_le n d d' \<Longrightarrow> n \<le> max_attempts_of A \<Longrightarrow> budget_le A d d'"
proof -
  assume le: "codes_le n d d'" "n \<le> max_attempts_of A"
  then have l: "list_all2 (code_le n) (otp_codes d) (otp_codes d')" by (simp add: codes_le_def)
  show ?thesis unfolding budget_le_def attempts_ok_def
  proof (intro impI ballI)
    fix r' assume old: "\<forall>r \<in> set (otp_codes d). 0 \<le> otp_verify_attempts r \<and> otp_verify_attempts r \<le> max_attempts_of A"
      and "r' \<in> set (otp_codes d')"
    then obtain r where "r \<in> set (otp_codes d)" "code_le n r r'"
      using l by (metis in_set_conv_nth list_all2_conv_all_nth)
    with old le(2) show "0 \<le> otp_verify_attempts r' \<and> otp_verify_attempts r' \<le> max_attempts_of A"
      by (fastforce simp: code_le_def)
  qed
qed

lemma max_attempts_of_pos: "0 < max_attempts_of A"
  by (simp add: max_attempts_of_def)

lemma attempts_ok_subset: "attempts_ok A d \<Longrightarrow> set (otp_codes d') \<subseteq> set (otp_codes d) \<Longrightarrow> attempts_ok A d'"
  by (auto simp: attempts_ok_def)

lemma deleteCustomer_budget: "budget.stays A (deleteCustomer cid)"
proof -
  have "budget.stays A (forG exec (erase_customer cid))"
  proof (rule budget.stays_for)
    fix f assume "f \<in> set (erase_customer cid)"
    then have "budget_le A d (f d)" for d
      by (auto simp: erase_customer_def budget_le_def attempts_ok_def update_refresh_def)
    then show "budget.stays A (exec f)" by (rule budget.stays_exec)
  qed
  then have "budget_le A d d'" if "yields (forG exec (erase_customer cid)) d x d'" for d x d'
    by (rule budget.stays_yields [OF _ that])
  then show ?thesis unfolding deleteCustomer_def
    by (intro budget.stays_withTx) (auto simp: budget.D_refl elim!: go_elim split: option.splits if_splits)
qed

lemma cleanup_budget: "budget.stays A (deleteOTPCodesBefore t)"
  unfolding deleteOTPCodesBefore_def
  by (rule budget.stays_stmt) (auto simp: budget_le_def attempts_ok_def)

lemma RequestOTP_budget: "attempts_ok A (db_of s) \<Longrightarrow> attempts_ok A (db_of (snd (RequestOTP A ip raw s)))"
proof -
  assume ok: "attempts_ok A (db_of s)"
  obtain res s' where run: "RequestOTP A ip raw s = (res, s')" by fastforce
  from run show ?thesis
  proof (cases rule: RequestOTP_cases)
    case idle
    then show ?thesis using ok run by simp
  next
    case (added phone i ex r d1)
    then have "attempts_ok A d1" using ok max_attempts_of_pos [of A] by (auto simp: attempts_ok_def new_code_def)
    with codes_le_budget [OF added(5)] max_attempts_of_pos [of A] show ?thesis using run by (simp add: budget_le_def)
  qed
qed

lemma codes_call_budget:
  "codes.service.stays n m \<Longrightarrow> n \<le> max_attempts_of A \<Longrightarrow> attempts_ok A (db_of s) \<Longrightarrow>
   attempts_ok A (db_of (snd (m s)))"
  using codes_le_budget [of n "db_of s" "db_of (snd (m s))" A] by (simp add: codes.service.stays_def budget_le_def)

lemma db_call_budget: "budget.stays A m \<Longrightarrow> attempts_ok A (db_of s) \<Longrightarrow> attempts_ok A (db_of (snd (on_db m s)))"
proof -
  assume m: "budget.stays A m" and ok: "attempts_ok A (db_of s)"
  have "budget_le A (db_of s) (db_of (snd (on_db m s)))"
    by (rule budget.service.staysD [OF budget.on_db_stays [OF m], of s "fst (on_db m s)"]) simp
  with ok show ?thesis by (simp add: budget_le_def)
qed

lemma attempts_call: "attempts_ok A (db_of s) \<Longrightarrow> attempts_ok A (db_of (after A c s))"
  using max_attempts_of_pos [of A]
  by (cases c) (simp_all add: RequestOTP_budget codes_call_budget [OF VerifyOTP_stays] DeleteCustomer_def
      codes_call_budget [OF Refresh_codes [of 0]] codes_call_budget [OF Logout_codes [of 0]]
      db_call_budget [OF deleteCustomer_budget] db_call_budget [OF cleanup_budget])

lemma step_attempts: "auth_step A Q s s' \<Longrightarrow> attempts_ok A (db_of s) \<Longrightarrow> attempts_ok A (db_of s')"
proof (induction rule: auth_step.induct)
  case (call c s)
  then show ?case by (intro attempts_call)
qed (auto simp: attempts_ok_def meanwhile_def restart_def NewService_def)

lemma reach_attempts: "auth_reach A Q s \<Longrightarrow> attempts_ok A (db_of s)"
proof (induction rule: auth_reach.induct)
  case (boot w)
  then show ?case by (simp add: attempts_ok_def NewService_def)
qed (rule step_attempts)

end
