(* ===== verification/AuthSessions.thy ===== *)
theory AuthSessions
  imports AuthRuns
begin

text \<open>
  The refresh tokens over whole runs. A row of \<^verbatim>\<open>refresh_tokens\<close> is never deleted and keeps its hash,
  customer, family and expiry; once revoked it stays revoked. A family is ended when none of its
  tokens is active; an ended family stays ended whatever is called afterwards, because \<^verbatim>\<open>rotate\<close> and
  \<^verbatim>\<open>issueInFamily\<close> need an active token of it and a login draws a new family. The last point needs
  that \<^verbatim>\<open>gen_random_uuid()\<close> does not repeat itself, stated as the injectivity of \<open>gen_uuid\<close>.
\<close>

definition known_family :: "env \<Rightarrow> string \<Rightarrow> db \<Rightarrow> bool" where
  "known_family env fam d \<longleftrightarrow> (\<exists>n < id_count d. fam = gen_uuid env n)"

definition ended :: "string \<Rightarrow> db \<Rightarrow> bool" where
  "ended fam d \<longleftrightarrow> (\<forall>r \<in> set (refresh_tokens d). rt_family_id r = fam \<longrightarrow> \<not> token_active d r)"

definition hashes_unique :: "db \<Rightarrow> bool" where
  "hashes_unique d \<longleftrightarrow> distinct (map rt_token_hash (refresh_tokens d))"

text \<open>Hashes are unique and every family was drawn from \<^verbatim>\<open>gen_random_uuid()\<close> before.\<close>

definition tokens_ok :: "env \<Rightarrow> db \<Rightarrow> bool" where
  "tokens_ok env d \<longleftrightarrow> hashes_unique d \<and> (\<forall>r \<in> set (refresh_tokens d). known_family env (rt_family_id r) d)"

definition token_kept :: "refresh_row \<Rightarrow> refresh_row \<Rightarrow> bool" where
  "token_kept r r' \<longleftrightarrow> rt_token_hash r' = rt_token_hash r \<and> rt_customer_id r' = rt_customer_id r \<and>
     rt_family_id r' = rt_family_id r \<and> rt_expires_at r' = rt_expires_at r \<and>
     (rt_revoked_at r \<noteq> None \<longrightarrow> rt_revoked_at r' = rt_revoked_at r)"

text \<open>How one call may change the tokens.\<close>

definition tokens_le :: "env \<Rightarrow> string \<Rightarrow> db \<Rightarrow> db \<Rightarrow> bool" where
  "tokens_le env fam d d' \<longleftrightarrow>
     clock d \<le> clock d' \<and> id_count d \<le> id_count d' \<and>
     (tokens_ok env d \<longrightarrow> tokens_ok env d') \<and>
     (\<forall>r \<in> set (refresh_tokens d). \<exists>r' \<in> set (refresh_tokens d'). token_kept r r') \<and>
     (known_family env fam d \<and> ended fam d \<longrightarrow> known_family env fam d' \<and> ended fam d')"

lemma token_kept_refl [simp]: "token_kept r r"
  by (simp add: token_kept_def)

lemma token_kept_trans: "token_kept a b \<Longrightarrow> token_kept b c \<Longrightarrow> token_kept a c"
  by (auto simp: token_kept_def)

lemma known_later: "known_family env fam d \<Longrightarrow> id_count d \<le> id_count d' \<Longrightarrow> known_family env fam d'"
  unfolding known_family_def using less_le_trans by blast

lemma kept_self: "r \<in> set rs \<Longrightarrow> \<exists>r' \<in> set rs. token_kept r r'"
  using token_kept_refl by blast

lemma tokens_leI:
  assumes "clock d \<le> clock d'" "id_count d \<le> id_count d'" "tokens_ok env d \<Longrightarrow> tokens_ok env d'"
    and "\<And>r. r \<in> set (refresh_tokens d) \<Longrightarrow> \<exists>r' \<in> set (refresh_tokens d'). token_kept r r'"
    and "known_family env fam d \<Longrightarrow> ended fam d \<Longrightarrow> ended fam d'"
  shows "tokens_le env fam d d'"
  using assms known_later [of env fam d d'] by (simp add: tokens_le_def)

lemma tokens_le_refl: "tokens_le env fam d d"
  by (rule tokens_leI) (auto intro: kept_self)

lemma tokens_le_trans:
  assumes a: "tokens_le env fam d e" and b: "tokens_le env fam e f"
  shows "tokens_le env fam d f"
proof (rule tokens_leI)
  fix r assume "r \<in> set (refresh_tokens d)"
  then obtain r1 where r1: "r1 \<in> set (refresh_tokens e)" "token_kept r r1" using a by (auto simp: tokens_le_def)
  then obtain r2 where "r2 \<in> set (refresh_tokens f)" "token_kept r1 r2" using b by (auto simp: tokens_le_def)
  with token_kept_trans [OF r1(2)] show "\<exists>r' \<in> set (refresh_tokens f). token_kept r r'" by blast
qed (use a b in \<open>auto simp: tokens_le_def\<close>)

interpretation sessions: auth_relation "tokens_le env fam" for env fam
  by unfold_locales (rule tokens_le_refl, rule tokens_le_trans)

lemma tokens_le_same:
  assumes "refresh_tokens d' = refresh_tokens d" "clock d \<le> clock d'" "id_count d \<le> id_count d'"
  shows "tokens_le env fam d d'"
proof (rule tokens_leI)
  show "\<exists>r' \<in> set (refresh_tokens d'). token_kept r r'" if "r \<in> set (refresh_tokens d)" for r
    using that assms(1) by (auto intro: kept_self)
  show "tokens_ok env d'" if "tokens_ok env d"
    using that assms known_later [of env _ d d'] by (simp add: tokens_ok_def hashes_unique_def)
qed (use assms in \<open>auto simp: ended_def token_active_def\<close>)

text \<open>An update that revokes, or leaves the revocation alone.\<close>

lemma tokens_le_update:
  assumes keep: "\<And>r. token_kept r (f r)" and rev: "\<And>r. rt_revoked_at r = None \<or> rt_revoked_at (f r) = rt_revoked_at r"
  shows "tokens_le env fam d (update_refresh P f d)"
proof -
  let ?d = "update_refresh P f d"
  let ?g = "\<lambda>r. if P r then f r else r"
  have rows: "refresh_tokens ?d = map ?g (refresh_tokens d)" "clock ?d = clock d" "id_count ?d = id_count d"
    by (simp_all add: update_refresh_def)
  have k: "token_kept r (?g r)" for r using keep by simp
  have "rt_token_hash (?g r) = rt_token_hash r" for r using k [of r] by (simp add: token_kept_def)
  then have "map rt_token_hash (map ?g (refresh_tokens d)) = map rt_token_hash (refresh_tokens d)"
    unfolding map_map by (intro map_cong) (simp_all only: o_def)
  then have hu: "hashes_unique d \<Longrightarrow> hashes_unique ?d" by (simp only: hashes_unique_def rows)
  have fk: "rt_family_id (?g r) = rt_family_id r" for r using k [of r] by (simp only: token_kept_def)
  have h: "tokens_ok env ?d" if "tokens_ok env d"
    using that hu unfolding tokens_ok_def rows set_map known_family_def
    by (simp only: ball_simps fk) blast
  have e: "ended fam d \<Longrightarrow> ended fam ?d"
    unfolding ended_def rows token_active_def
  proof (intro ballI impI)
    fix r' assume old: "\<forall>r \<in> set (refresh_tokens d). rt_family_id r = fam \<longrightarrow> \<not> (rt_revoked_at r = None \<and> clock d < rt_expires_at r)"
      and "r' \<in> set (map ?g (refresh_tokens d))" "rt_family_id r' = fam"
    then obtain r where r: "r \<in> set (refresh_tokens d)" "r' = ?g r" by auto
    have kr: "token_kept r r'" using k r(2) by simp
    with old r(1) \<open>rt_family_id r' = fam\<close> show "\<not> (rt_revoked_at r' = None \<and> clock d < rt_expires_at r')"
      by (auto simp: token_kept_def)
  qed
  show ?thesis
  proof (rule tokens_leI)
    show "\<exists>r' \<in> set (refresh_tokens ?d). token_kept r r'" if "r \<in> set (refresh_tokens d)" for r
      unfolding rows set_map using that k [of r] by blast
  qed (use h e in \<open>simp_all add: rows(2,3)\<close>)
qed

lemma insert_refresh_effect:
  "insert_refresh i c h x fam' d = Inr d' \<Longrightarrow>
   \<exists>r. d' = d\<lparr>refresh_tokens := refresh_tokens d @ [r]\<rparr> \<and> rt_family_id r = fam' \<and> rt_token_hash r = h \<and>
     rt_customer_id r = c \<and> rt_expires_at r = x \<and> rt_revoked_at r = None \<and> rt_rotated_at r = None \<and>
     h \<notin> rt_token_hash ` set (refresh_tokens d)"
  by (auto simp: insert_refresh_def split: if_splits)

text \<open>A new token: its family is another one, or is not ended.\<close>

lemma tokens_le_insert:
  assumes le: "tokens_le env fam d0 d" and ins: "insert_refresh i c h x fam' d = Inr d1" and n: "id_count d \<le> n"
    and fam: "known_family env fam d0 \<Longrightarrow> ended fam d0 \<Longrightarrow> fam' \<noteq> fam"
    and drawn: "tokens_ok env d0 \<Longrightarrow> known_family env fam' (d1\<lparr>id_count := n\<rparr>)"
  shows "tokens_le env fam d0 (d1\<lparr>id_count := n\<rparr>)"
proof -
  let ?d = "d1\<lparr>id_count := n\<rparr>"
  obtain r where r: "d1 = d\<lparr>refresh_tokens := refresh_tokens d @ [r]\<rparr>" "rt_family_id r = fam'" "rt_token_hash r = h"
      "h \<notin> rt_token_hash ` set (refresh_tokens d)"
    using insert_refresh_effect [OF ins] by blast
  have rows: "refresh_tokens ?d = refresh_tokens d @ [r]" "clock ?d = clock d" "id_count ?d = n"
    by (simp_all add: r(1))
  have h: "tokens_ok env ?d" if "tokens_ok env d0"
  proof -
    have "tokens_ok env d" using le that by (simp add: tokens_le_def)
    then show ?thesis using r(2-4) n drawn [OF that] known_later [of env _ d ?d]
      by (auto simp: tokens_ok_def hashes_unique_def rows)
  qed
  have e: "known_family env fam d0 \<Longrightarrow> ended fam d0 \<Longrightarrow> ended fam ?d"
    using fam le r(2) by (auto simp: tokens_le_def ended_def rows token_active_def)
  show ?thesis
  proof (rule tokens_leI)
    show "clock d0 \<le> clock ?d" "id_count d0 \<le> id_count ?d" using le n rows by (auto simp: tokens_le_def)
    show "\<exists>r' \<in> set (refresh_tokens ?d). token_kept x r'" if "x \<in> set (refresh_tokens d0)" for x
      using that le by (auto simp: tokens_le_def rows)
  qed (use h e in auto)
qed

section \<open>Every call\<close>

lemma create_refresh_tokens: "inj (gen_uuid env) \<Longrightarrow> sessions.stays env fam (create_refresh env c h x)"
  unfolding create_refresh_def
proof (rule sessions.stays_stmt)
  fix d u d'
  assume inj: "inj (gen_uuid env)" and r: "map_sum id (\<lambda>d'. ((), d'\<lparr>id_count := id_count d + 2\<rparr>))
       (insert_refresh (gen_uuid env (id_count d)) c h x (gen_uuid env (Suc (id_count d))) d) = Inr (u, d')"
  then obtain d1 where d1: "insert_refresh (gen_uuid env (id_count d)) c h x (gen_uuid env (Suc (id_count d))) d = Inr d1"
      "d' = d1\<lparr>id_count := id_count d + 2\<rparr>" by (auto simp: map_sum_def split: sum.splits)
  have "gen_uuid env (Suc (id_count d)) \<noteq> fam" if k: "known_family env fam d"
  proof
    assume "gen_uuid env (Suc (id_count d)) = fam"
    then obtain n where "n < id_count d" "gen_uuid env (Suc (id_count d)) = gen_uuid env n"
      using k by (auto simp: known_family_def)
    with injD [OF inj] show False by fastforce
  qed
  then show "tokens_le env fam d d'" unfolding d1(2)
    by (intro tokens_le_insert [OF tokens_le_refl d1(1)]) (auto simp: known_family_def)
qed

lemma revoke_token_le:
  "tokens_le env fam d (update_refresh (\<lambda>r. Q r \<and> rt_revoked_at r = None) (\<lambda>r. r\<lparr>rt_revoked_at := Some t\<rparr>) d)"
proof -
  have eq: "update_refresh (\<lambda>r. Q r \<and> rt_revoked_at r = None) (\<lambda>r. r\<lparr>rt_revoked_at := Some t\<rparr>) d =
    update_refresh Q (\<lambda>r. if rt_revoked_at r = None then r\<lparr>rt_revoked_at := Some t\<rparr> else r) d"
    by (auto simp: update_refresh_def intro!: arg_cong [of _ _ "\<lambda>rs. d\<lparr>refresh_tokens := rs\<rparr>"])
  show ?thesis unfolding eq by (rule tokens_le_update) (auto simp: token_kept_def)
qed

lemma revokeFamily_tokens: "sessions.stays env fam (revokeFamily f)"
  unfolding revokeFamily_def by (intro sessions.stays_exec revoke_token_le)

lemma retire_tokens:
  assumes "retire h d = Inr (got, d')"
  shows "tokens_le env fam d d' \<and>
    (got \<noteq> None \<longrightarrow> (\<exists>r \<in> set (refresh_tokens d). rt_token_hash r = h \<and> token_active d r \<and>
       got = Some (token_of r\<lparr>rt_RotatedAt := None\<rparr>)))"
proof -
  let ?P = "\<lambda>r. rt_token_hash r = h \<and> token_active d r"
  let ?f = "\<lambda>r. r\<lparr>rt_revoked_at := Some (clock d), rt_rotated_at := Some (clock d)\<rparr>"
  have d': "d' = update_refresh ?P ?f d" "got = map_option (\<lambda>r. token_of r\<lparr>rt_RotatedAt := None\<rparr>) (find ?P (refresh_tokens d))"
    using assms by (auto simp: retire_def Let_def)
  have eq: "update_refresh ?P ?f d = update_refresh ?P (\<lambda>r. if rt_revoked_at r = None then ?f r else r) d"
    by (auto simp: update_refresh_def token_active_def intro!: arg_cong [of _ _ "\<lambda>rs. d\<lparr>refresh_tokens := rs\<rparr>"])
  have "tokens_le env fam d d'" unfolding d'(1) eq by (rule tokens_le_update) (auto simp: token_kept_def)
  moreover have "got \<noteq> None \<longrightarrow> (\<exists>r \<in> set (refresh_tokens d). ?P r \<and> got = Some (token_of r\<lparr>rt_RotatedAt := None\<rparr>))"
    unfolding d'(2) by (cases "find ?P (refresh_tokens d)") (auto dest: find_Some_mem)
  ultimately show ?thesis by auto
qed

lemma rotate_effect:
  assumes "yields (rotate env h h' x) d got d'"
  obtains (inactive) "got = None" "d' = update_refresh (\<lambda>r. rt_token_hash r = h \<and> token_active d r)
      (\<lambda>r. r\<lparr>rt_revoked_at := Some (clock d), rt_rotated_at := Some (clock d)\<rparr>) d"
  | (rotated) r d1 d2 where "r \<in> set (refresh_tokens d)" "rt_token_hash r = h" "token_active d r"
      "got = Some (token_of r\<lparr>rt_RotatedAt := None\<rparr>)" "retire h d = Inr (got, d1)"
      "insert_refresh (gen_uuid env (id_count d1)) (rt_customer_id r) h' x (rt_family_id r) d1 = Inr d2"
      "d' = d2\<lparr>id_count := Suc (id_count d1)\<rparr>"
proof -
  let ?rest = "\<lambda>got. case got of None \<Rightarrow> returnG None | Some t \<Rightarrow>
           bindG (stmt (\<lambda>d. map_sum id (\<lambda>d'. ((), d'\<lparr>id_count := Suc (id_count d)\<rparr>))
             (insert_refresh (gen_uuid env (id_count d)) (rt_CustomerID t) h' x (rt_FamilyID t) d)))
           (\<lambda>_. returnG (Some t))"
  have "yields (bindG (stmt (retire h)) ?rest) d got d'"
    by (rule yields_withTx [OF assms [unfolded rotate_def]])
  then obtain g0 d1 where "yields (stmt (retire h)) d g0 d1" and rest0: "yields (?rest g0) d1 got d'"
    by (rule yields_bind)
  then have r0: "retire h d = Inr (g0, d1)" by (auto elim: yields_stmt)
  have "g0 = got" using rest0 by (cases g0) (auto elim!: go_elim)
  then have d1: "retire h d = Inr (got, d1)" and rest: "yields (?rest got) d1 got d'" using r0 rest0 by auto
  show thesis
  proof (cases got)
    case None
    then have "d' = d1" using rest by (auto elim!: go_elim)
    with d1 None show thesis by (intro inactive) (auto simp: retire_def Let_def)
  next
    case (Some t)
    from retire_tokens [OF d1] Some obtain r where r: "r \<in> set (refresh_tokens d)" "rt_token_hash r = h"
        "token_active d r" "got = Some (token_of r\<lparr>rt_RotatedAt := None\<rparr>)" by auto
    from rest Some r(4) obtain d2 where
        "insert_refresh (gen_uuid env (id_count d1)) (rt_customer_id r) h' x (rt_family_id r) d1 = Inr d2"
        "d' = d2\<lparr>id_count := Suc (id_count d1)\<rparr>"
      by (auto simp: token_of_def map_sum_def elim!: go_elim split: sum.splits)
    with r d1 show thesis by (intro rotated)
  qed
qed

lemma active_not_ended: "r \<in> set (refresh_tokens d) \<Longrightarrow> token_active d r \<Longrightarrow> ended fam d \<Longrightarrow> rt_family_id r \<noteq> fam"
  by (auto simp: ended_def)

lemma rotate_tokens: "sessions.stays env fam (rotate env h h' x)"
proof -
  have "tokens_le env fam d d'" if y: "yields (rotate env h h' x) d got d'" for d got d'
  proof (cases rule: rotate_effect [OF y])
    case 1
    then have "retire h d = Inr (map_option (\<lambda>r. token_of r\<lparr>rt_RotatedAt := None\<rparr>)
        (find (\<lambda>r. rt_token_hash r = h \<and> token_active d r) (refresh_tokens d)), d')"
      by (simp add: retire_def Let_def)
    from retire_tokens [OF this] show ?thesis by blast
  next
    case (2 r d1 d2)
    have le: "tokens_le env fam d d1" using retire_tokens [OF 2(5)] by blast
    show ?thesis unfolding 2(7)
    proof (rule tokens_le_insert [OF le 2(6)])
      show "known_family env (rt_family_id r) (d2\<lparr>id_count := Suc (id_count d1)\<rparr>)" if "tokens_ok env d"
        using that 2(1) le known_later [of env "rt_family_id r" d]
        by (auto simp: tokens_ok_def tokens_le_def)
    qed (use active_not_ended [OF 2(1,3)] in auto)
  qed
  then show ?thesis by (intro sessions.stays_committed) (simp add: rotate_def withTx_error)
qed

lemma issueInFamily_tokens: "sessions.stays env fam (issueInFamily env c f h x)"
  unfolding issueInFamily_def
proof (rule sessions.stays_stmt)
  fix d ok d'
  assume r: "(if \<exists>r \<in> set (refresh_tokens d). rt_family_id r = f \<and> token_active d r
               then map_sum id (\<lambda>d'. (True, d'\<lparr>id_count := Suc (id_count d)\<rparr>))
                      (insert_refresh (gen_uuid env (id_count d)) c h x f d)
               else Inr (False, d)) = Inr (ok, d')"
  show "tokens_le env fam d d'"
  proof (cases "\<exists>r \<in> set (refresh_tokens d). rt_family_id r = f \<and> token_active d r")
    case True
    then obtain d1 where d1: "insert_refresh (gen_uuid env (id_count d)) c h x f d = Inr d1"
        "d' = d1\<lparr>id_count := Suc (id_count d)\<rparr>" using r by (auto simp: map_sum_def split: sum.splits)
    show ?thesis unfolding d1(2)
    proof (rule tokens_le_insert [OF tokens_le_refl d1(1)])
      show "known_family env f (d1\<lparr>id_count := Suc (id_count d)\<rparr>)" if "tokens_ok env d"
        using that True known_later [of env f d] by (auto simp: tokens_ok_def)
    qed (use True in \<open>auto simp: ended_def\<close>)
  next
    case False
    then have "d' = d" using r by (subst (asm) if_not_P) simp_all
    then show ?thesis by (simp add: tokens_le_refl)
  qed
qed

lemma code_tokens:
  "sessions.stays env fam (setToken i t)" "sessions.stays env fam (burn i)" "sessions.stays env fam (takeAttempt i n)"
  "sessions.stays env fam (consume i)" "sessions.stays env fam (latestActive p)"
  "sessions.stays env fam (GetOrCreateByPhone e p)" "sessions.stays env fam (deleteOTPCodesBefore c)"
  "sessions.stays env fam (lookup_refresh h)"
  unfolding setToken_def burn_def takeAttempt_def consume_def latestActive_def GetOrCreateByPhone_def
    deleteOTPCodesBefore_def lookup_refresh_def
  by (auto intro!: sessions.stays_exec sessions.stays_stmt sessions.stays_query tokens_le_same
      simp: update_otp_def Let_def split: option.splits if_splits)

lemma reserve_tokens: "sessions.stays env fam (reserve e p ip tx x lims)"
proof (rule sessions.stays_committed)
  show "tables w' = tables w" if "reserve e p ip tx x lims w = (Inl err, w')" for w err w'
    using that unfolding reserve_def by (rule withTx_error)
  show "tokens_le env fam d d'" if "yields (reserve e p ip tx x lims) d i d'" for d i d'
    using reserve_effect [OF that] by (auto intro: tokens_le_same)
qed

lemma deleteCustomer_tokens: "sessions.stays env fam (deleteCustomer cid)"
proof -
  have "sessions.stays env fam (forG exec (erase_customer cid))"
  proof (rule sessions.stays_for)
    fix f assume "f \<in> set (erase_customer cid)"
    then have "tokens_le env fam d (f d)" for d
      by (auto simp: erase_customer_def intro: tokens_le_same revoke_token_le)
    then show "sessions.stays env fam (exec f)" by (rule sessions.stays_exec)
  qed
  then have "tokens_le env fam d d'" if "yields (forG exec (erase_customer cid)) d x d'" for d x d'
    by (rule sessions.stays_yields [OF _ that])
  then show ?thesis unfolding deleteCustomer_def
    by (intro sessions.stays_withTx) (auto simp: tokens_le_refl elim!: go_elim split: option.splits if_splits)
qed

lemma call_tokens:
  assumes "inj (gen_uuid (shop_env A))"
  shows "tokens_le (shop_env A) fam (db_of s) (db_of (after A c s))"
proof -
  note rules = sessions.service.stays_intros sessions.memory_stays sessions.verifyCode_stays
    sessions.issueAccessToken_stays sessions.on_db_stays code_tokens reserve_tokens rotate_tokens
    issueInFamily_tokens revokeFamily_tokens create_refresh_tokens [OF assms] deleteCustomer_tokens
  have "sessions.service.stays (shop_env A) fam (RequestOTP A ip phone)" for ip phone
    unfolding RequestOTP_def by (intro rules)
  moreover have "sessions.service.stays (shop_env A) fam (VerifyOTP A ip phone code)" for ip phone code
    unfolding VerifyOTP_def refused_code_def issueTokenPair_def by (intro rules)
  moreover have "sessions.service.stays (shop_env A) fam (Refresh A ip token)" for ip token
    unfolding Refresh_def handleInactiveRefresh_def by (intro rules)
  moreover have "sessions.service.stays (shop_env A) fam (Logout A token)" for token
    unfolding Logout_def by (intro rules)
  moreover have "sessions.service.stays (shop_env A) fam (DeleteCustomer cid)" for cid
    unfolding DeleteCustomer_def by (intro rules)
  moreover have "sessions.service.stays (shop_env A) fam (on_db (deleteOTPCodesBefore t))" for t
    by (intro rules)
  ultimately show ?thesis
    unfolding sessions.service.stays_def by (cases c) simp_all
qed

lemma step_tokens:
  "auth_step A Q s s' \<Longrightarrow> inj (gen_uuid (shop_env A)) \<Longrightarrow> tokens_le (shop_env A) fam (db_of s) (db_of s')"
proof (induction rule: auth_step.induct)
  case (call c s)
  then show ?case by (intro call_tokens)
next
  case (pass s w')
  then show ?case by (intro tokens_le_same) (simp_all add: meanwhile_def)
next
  case (again s)
  then show ?case by (simp add: restart_def NewService_def tokens_le_refl)
qed

lemma steps_tokens:
  "(auth_step A Q)\<^sup>*\<^sup>* s s' \<Longrightarrow> inj (gen_uuid (shop_env A)) \<Longrightarrow> tokens_le (shop_env A) fam (db_of s) (db_of s')"
proof (induction rule: rtranclp_induct)
  case base
  then show ?case by (simp add: tokens_le_refl)
next
  case (step y z)
  then show ?case using tokens_le_trans step_tokens by blast
qed

lemma reach_tokens: "auth_reach A Q s \<Longrightarrow> inj (gen_uuid (shop_env A)) \<Longrightarrow> tokens_ok (shop_env A) (db_of s)"
proof (induction rule: auth_reach.induct)
  case (boot w)
  then show ?case by (simp add: tokens_ok_def hashes_unique_def NewService_def)
next
  case (more s s')
  then show ?case using step_tokens [of A Q s s'] by (simp add: tokens_le_def)
qed

section \<open>What a refresh, a logout and a reuse do\<close>

lemma unique_hash:
  "hashes_unique d \<Longrightarrow> r \<in> set (refresh_tokens d) \<Longrightarrow> r' \<in> set (refresh_tokens d) \<Longrightarrow>
   rt_token_hash r = rt_token_hash r' \<Longrightarrow> r = r'"
  unfolding hashes_unique_def by (rule distinct_map_eqD)

lemma find_hash:
  "hashes_unique d \<Longrightarrow> r \<in> set (refresh_tokens d) \<Longrightarrow>
   find (\<lambda>x. rt_token_hash x = rt_token_hash r) (refresh_tokens d) = Some r"
  unfolding hashes_unique_def by (rule find_distinct)

lemma update_refresh_rows: "refresh_tokens (update_refresh P f d) = map (\<lambda>r. if P r then f r else r) (refresh_tokens d)"
  by (simp add: update_refresh_def)

lemma revoked_family_ended:
  "ended fam (update_refresh (\<lambda>r. rt_family_id r = fam \<and> rt_revoked_at r = None)
     (\<lambda>r. r\<lparr>rt_revoked_at := Some t\<rparr>) d)"
  unfolding ended_def
proof (intro ballI impI)
  let ?P = "\<lambda>r. rt_family_id r = fam \<and> rt_revoked_at r = None"
  let ?d = "update_refresh ?P (\<lambda>r. r\<lparr>rt_revoked_at := Some t\<rparr>) d"
  fix r' assume r': "r' \<in> set (refresh_tokens ?d)" "rt_family_id r' = fam"
  then obtain r where "r' = (if ?P r then r\<lparr>rt_revoked_at := Some t\<rparr> else r)"
    unfolding update_refresh_rows set_map by (elim imageE) (rule that)
  with r'(2) show "\<not> token_active ?d r'" by (auto simp: token_active_def split: if_splits)
qed

lemma revoke_run: "revokeFamily fam w = (Inr u, w') \<Longrightarrow> ended fam (tables w')"
proof -
  assume "revokeFamily fam w = (Inr u, w')"
  then have "tables w' = update_refresh (\<lambda>r. rt_family_id r = fam \<and> rt_revoked_at r = None)
      (\<lambda>r. r\<lparr>rt_revoked_at := Some (clock (tables w))\<rparr>) (tables w)"
    unfolding revokeFamily_def exec_def by (auto dest!: stmt_Inr)
  then show ?thesis by (simp only: revoked_family_ended)
qed

lemma lookup_run: "lookup_refresh h w = (Inr t, w') \<Longrightarrow>
   tables w' = tables w \<and> t = map_option token_of (find (\<lambda>r. rt_token_hash r = h) (refresh_tokens (tables w)))"
  unfolding lookup_refresh_def query_def by (auto dest!: stmt_Inr)

lemma Logout_ends:
  assumes "Logout A token s = (Inr u, s')" "token \<noteq> []" "hashes_unique (db_of s)"
    and "r \<in> set (refresh_tokens (db_of s))" "rt_token_hash r = hashToken A token"
  shows "ended (rt_family_id r) (db_of s')"
proof -
  have "find (\<lambda>x. rt_token_hash x = hashToken A token) (refresh_tokens (db_of s)) = Some r"
    using find_hash [OF assms(3,4)] assms(5) by simp
  then have "\<exists>w w1. lookup_refresh (hashToken A token) (au_world s) = (Inr (Some (token_of r)), w) \<and>
      revokeFamily (rt_family_id r) w = (Inr u, w1) \<and> s' = s\<lparr>au_world := w1\<rparr>"
    using assms(1,2) lookup_run [of "hashToken A token" "au_world s"]
    by (auto simp: Logout_def bindG_def on_db_def token_of_def split: prod.splits sum.splits)
  then show ?thesis using revoke_run by fastforce
qed

lemma on_db_InrE:
  assumes "on_db m s = (Inr x, s')"
  obtains w where "m (au_world s) = (Inr x, w)" "s' = s\<lparr>au_world := w\<rparr>"
  using assms by (auto simp: on_db_def split: prod.splits)

lemma on_db_yields: "on_db m s = (Inr x, s') \<Longrightarrow> yields m (db_of s) x (db_of s')"
proof (erule on_db_InrE)
  fix w assume "m (au_world s) = (Inr x, w)" "s' = s\<lparr>au_world := w\<rparr>"
  then show "yields m (db_of s) x (db_of s')" using yieldsI [of m "au_world s" x w] by simp
qed

lemma memory_Inr:
  "newOpaqueToken A s = (Inr (raw, h), s') \<Longrightarrow> db_of s' = db_of s \<and> h = hashToken A raw"
  "time_now s = (Inr t, s') \<Longrightarrow> s' = s \<and> t = clock (db_of s)"
  "refresh_allow ip s = (Inr b, s') \<Longrightarrow> db_of s' = db_of s"
  "issueAccessToken A c s = (Inr a, s') \<Longrightarrow> db_of s' = db_of s"
  by (auto simp: newOpaqueToken_def time_now_def refresh_allow_def issueAccessToken_def bindG_def liftG_def map_sum_def
      split: sum.splits prod.splits)

lemma retire_none:
  "find (\<lambda>r. rt_token_hash r = h \<and> token_active d r) (refresh_tokens d) = None \<Longrightarrow>
   update_refresh (\<lambda>r. rt_token_hash r = h \<and> token_active d r) f d = d"
proof -
  assume "find (\<lambda>r. rt_token_hash r = h \<and> token_active d r) (refresh_tokens d) = None"
  then have "map (\<lambda>r. if rt_token_hash r = h \<and> token_active d r then f r else r) (refresh_tokens d) = refresh_tokens d"
    by (intro map_idI) (auto simp: find_None_iff)
  then show ?thesis by (simp add: update_refresh_def)
qed

lemma rotate_None:
  assumes "rotate env h h' x w = (Inr None, w')"
  shows "tables w' = tables w"
proof -
  have y: "yields (rotate env h h' x) (tables w) None (tables w')" using assms by (rule yieldsI)
  then have "yields (bindG (stmt (retire h)) (\<lambda>got. case got of None \<Rightarrow> returnG None | Some t \<Rightarrow>
           bindG (stmt (\<lambda>d. map_sum id (\<lambda>d'. ((), d'\<lparr>id_count := Suc (id_count d)\<rparr>))
             (insert_refresh (gen_uuid env (id_count d)) (rt_CustomerID t) h' x (rt_FamilyID t) d)))
           (\<lambda>_. returnG (Some t)))) (tables w) None (tables w')"
    unfolding rotate_def by (rule yields_withTx)
  then have "retire h (tables w) = Inr (None, tables w')"
    by (auto elim!: go_elim split: option.splits)
  then show ?thesis using retire_none [of h "tables w"] by (simp add: retire_def Let_def)
qed

definition in_grace :: "auth_env \<Rightarrow> db \<Rightarrow> refresh_row \<Rightarrow> bool" where
  "in_grace A d r \<longleftrightarrow> (\<exists>t. rt_rotated_at r = Some t \<and> 0 < reuseGrace A \<and> clock d - t < reuseGrace A)"

definition successor :: "auth_env \<Rightarrow> db \<Rightarrow> refresh_row \<Rightarrow> string \<Rightarrow> db \<Rightarrow> bool" where
  "successor A d r raw d' \<longleftrightarrow> (\<exists>n \<in> set (refresh_tokens d'). rt_token_hash n = hashToken A raw \<and>
     rt_family_id n = rt_family_id r \<and> rt_customer_id n = rt_customer_id r \<and> rt_revoked_at n = None \<and>
     rt_expires_at n = clock d + refreshTokenTTL)"

lemma inserted_successor:
  assumes "insert_refresh i (rt_customer_id r) (hashToken A raw) (clock d + refreshTokenTTL) (rt_family_id r) d1 = Inr d2"
  shows "successor A d r raw (d2\<lparr>id_count := n\<rparr>)"
  using insert_refresh_effect [OF assms] by (auto simp: successor_def)

lemma issueInFamily_continues:
  assumes y: "yields (issueInFamily env c f h x) d True d'"
  obtains act d1 where "act \<in> set (refresh_tokens d)" "rt_family_id act = f" "token_active d act"
    "insert_refresh (gen_uuid env (id_count d)) c h x f d = Inr d1" "d' = d1\<lparr>id_count := Suc (id_count d)\<rparr>"
proof -
  let ?act = "\<exists>act \<in> set (refresh_tokens d). rt_family_id act = f \<and> token_active d act"
  from y have run: "(if ?act then map_sum id (\<lambda>d'. (True, d'\<lparr>id_count := Suc (id_count d)\<rparr>))
      (insert_refresh (gen_uuid env (id_count d)) c h x f d) else Inr (False, d)) = Inr (True, d')"
    unfolding issueInFamily_def by (rule yields_stmt)
  have act: ?act
  proof (rule ccontr)
    assume "\<not> ?act"
    with run show False by (simp only: if_False) simp
  qed
  then have "\<exists>d1. insert_refresh (gen_uuid env (id_count d)) c h x f d = Inr d1 \<and> d' = d1\<lparr>id_count := Suc (id_count d)\<rparr>"
    using run by (simp only: if_True) (auto simp: map_sum_def split: sum.splits)
  with act that show thesis by blast
qed

lemma handleInactiveRefresh_continues:
  assumes "handleInactiveRefresh A h h' s = (Inr (Some t), s')"
  shows "\<exists>r. find (\<lambda>r. rt_token_hash r = h) (refresh_tokens (db_of s)) = Some r \<and> in_grace A (db_of s) r \<and>
    yields (issueInFamily (shop_env A) (rt_customer_id r) (rt_family_id r) h' (clock (db_of s) + refreshTokenTTL))
      (db_of s) True (db_of s')"
proof -
  obtain old s1 where old: "on_db (lookup_refresh h) s = (Inr old, s1)"
    and rest: "(case old of None \<Rightarrow> returnG None | Some t \<Rightarrow> (case rt_RotatedAt t of None \<Rightarrow> returnG None
       | Some rotatedAt \<Rightarrow> bindG time_now (\<lambda>now.
           if 0 < reuseGrace A \<and> now - rotatedAt < reuseGrace A
           then bindG (on_db (issueInFamily (shop_env A) (rt_CustomerID t) (rt_FamilyID t) h'
                         (now + refreshTokenTTL))) (\<lambda>ok. if ok then returnG (Some t) else returnG None)
           else bindG (on_db (revokeFamily (rt_FamilyID t))) (\<lambda>_. returnG None)))) s1 = (Inr (Some t), s')"
    using assms unfolding handleInactiveRefresh_def by (rule bindG_InrE)
  from old obtain w where "lookup_refresh h (au_world s) = (Inr old, w)" "s1 = s\<lparr>au_world := w\<rparr>" by (rule on_db_InrE)
  with lookup_run have s1: "db_of s1 = db_of s"
      "old = map_option token_of (find (\<lambda>r. rt_token_hash r = h) (refresh_tokens (db_of s)))" by fastforce+
  from rest s1(2) obtain r t0 where r: "find (\<lambda>r. rt_token_hash r = h) (refresh_tokens (db_of s)) = Some r"
      "rt_rotated_at r = Some t0" "old = Some (token_of r)"
    by (auto elim!: run_elim split: option.splits simp: token_of_def)
  have tr: "rt_RotatedAt (token_of r) = Some t0" "rt_CustomerID (token_of r) = rt_customer_id r"
      "rt_FamilyID (token_of r) = rt_family_id r" by (simp_all add: token_of_def r(2))
  from rest have "0 < reuseGrace A \<and> clock (db_of s) - t0 < reuseGrace A \<and>
      on_db (issueInFamily (shop_env A) (rt_customer_id r) (rt_family_id r) h' (clock (db_of s) + refreshTokenTTL)) s1
        = (Inr True, s')"
    unfolding r(3) option.case tr
    by (auto elim!: run_elim dest!: memory_Inr(2) split: if_splits simp: s1(1))
  then show ?thesis using r(1,2) on_db_yields s1(1) by (fastforce simp: in_grace_def)
qed

text \<open>A refresh that returns a pair continued a family that had an active token.\<close>

lemma Refresh_success:
  assumes run: "Refresh A ip token s = (Inr (acc, raw), s')"
  shows "\<exists>r \<in> set (refresh_tokens (db_of s)). rt_token_hash r = hashToken A token \<and>
    \<not> ended (rt_family_id r) (db_of s) \<and> (token_active (db_of s) r \<or> in_grace A (db_of s) r) \<and>
    successor A (db_of s) r raw (db_of s')"
proof -
  let ?d = "db_of s" and ?h = "hashToken A token"
  let ?x = "clock ?d + refreshTokenTTL" and ?h' = "hashToken A raw"
  from run consider
      (direct) s2 s3 u where "db_of s2 = ?d" "on_db (rotate (shop_env A) ?h ?h' ?x) s2 = (Inr (Some u), s3)" "db_of s' = db_of s3"
    | (retry) s2 s3 s4 t where "db_of s2 = ?d" "on_db (rotate (shop_env A) ?h ?h' ?x) s2 = (Inr None, s3)"
        "handleInactiveRefresh A ?h ?h' s3 = (Inr (Some t), s4)" "db_of s' = db_of s4"
    unfolding Refresh_def
    by (auto elim!: run_elim split: if_splits prod.splits option.splits dest!: memory_Inr)
  then show ?thesis
  proof cases
    case direct
    have y: "yields (rotate (shop_env A) ?h ?h' ?x) ?d (Some u) (db_of s')"
      using on_db_yields [OF direct(2)] direct(1,3) by simp
    show ?thesis
    proof (cases rule: rotate_effect [OF y])
      case 1
      then show ?thesis by simp
    next
      case (2 r d1 d2)
      have "successor A ?d r raw (db_of s')" unfolding 2(7) by (rule inserted_successor [OF 2(6)])
      then show ?thesis using 2(1-3) active_not_ended [OF 2(1,3)] by auto
    qed
  next
    case retry
    then obtain w where w: "rotate (shop_env A) ?h ?h' ?x (au_world s2) = (Inr None, w)" "s3 = s2\<lparr>au_world := w\<rparr>"
      by (auto elim!: on_db_InrE)
    have d3: "db_of s3 = ?d" using rotate_None [OF w(1)] w(2) retry(1) by simp
    from handleInactiveRefresh_continues [OF retry(3)] obtain r
      where r: "find (\<lambda>r. rt_token_hash r = ?h) (refresh_tokens ?d) = Some r" "in_grace A ?d r"
        and y: "yields (issueInFamily (shop_env A) (rt_customer_id r) (rt_family_id r) ?h' ?x) ?d True (db_of s')"
      unfolding d3 retry(4) by auto
    from y obtain act d1 where act: "act \<in> set (refresh_tokens ?d)" "rt_family_id act = rt_family_id r" "token_active ?d act"
      and ins: "insert_refresh (gen_uuid (shop_env A) (id_count ?d)) (rt_customer_id r) ?h' ?x (rt_family_id r) ?d = Inr d1"
        "db_of s' = d1\<lparr>id_count := Suc (id_count ?d)\<rparr>" by (rule issueInFamily_continues)
    have "successor A ?d r raw (db_of s')" unfolding ins(2) by (rule inserted_successor [OF ins(1)])
    then show ?thesis using find_Some_mem [OF r(1)] r(2) act by (auto simp: ended_def)
  qed
qed

end
