(* ===== verification/AuthDemo.thy ===== *)
theory AuthDemo
  imports AuthSessions Demo
begin

text \<open>
  A login on which the properties are applied: the customer of \<open>demo_db\<close> asks for a code, enters it,
  refreshes her session once and comes back a minute later. The provider accepts the code 1234, the
  random tokens are numbered, the hash of a text is the text after a dollar sign.
\<close>

definition demo_auth :: auth_env where
  "demo_auth = \<lparr>shop_env = demo_env\<lparr>gen_uuid := (\<lambda>n. CHR ''#'' # replicate n CHR ''u'')\<rparr>,
     hashToken = (\<lambda>t. CHR ''$'' # t), random_hex = (\<lambda>n. Inr (replicate n CHR ''x'')),
     random_token = (\<lambda>n. Inr (CHR ''t'' # replicate n CHR ''r'')), send_code = (\<lambda>_ _ _. Inr ''sent''),
     check_code = (\<lambda>_ _ c. if c = ''1234'' then Inr () else Inl (AppError (BadRequest ''otp_invalid''))),
     sign_access = (\<lambda>c _ _. Inr c),
     limits = \<lparr>OTPPerIPPerHour = 30, OTPPerDay = 1000, OTPVerifyMaxAttempts = 5,
               OTPVerifyFailsPerIPPerHour = 30, RefreshPerIPPerMinute = 120\<rparr>,
     review = \<lparr>rv_Phone = [], rv_Code = []\<rparr>, reuseGrace = refreshReuseGrace\<rparr>"

lemma demo_people [simp]:
  "customers demo_db = [\<lparr>cu_id = ''#c'', cu_phone = ''+996700123456'', cu_name = Some ''Aida'', cu_lang = ''ru'',
                   cu_promo_push = False, cu_promo_push_asked_at = None, cu_created_at = 0,
                   cu_updated_at = 0, cu_deleted_at = None\<rparr>]"
  "otp_codes demo_db = []" "refresh_tokens demo_db = []"
  by (simp_all add: demo_db_def)

abbreviation demo_now :: int where "demo_now \<equiv> 20710 * usec_per_day"

definition demo_code :: otp_row where
  "demo_code = \<lparr>otp_id = ''#u'', otp_phone = ''+996700123456'', otp_transaction_id = [], otp_token = ''sent'',
     otp_expires_at = demo_now + otpTTL, otp_consumed_at = None, otp_created_at = demo_now,
     otp_request_ip = Some ''10.0.0.1'', otp_verify_attempts = 0\<rparr>"

definition demo_boot :: auth_state where
  "demo_boot = NewService (limits demo_auth) (calm demo_db)"

definition demo_sent :: auth_state where
  "demo_sent = demo_boot\<lparr>au_world := calm (demo_db\<lparr>id_count := Suc (Suc 0), otp_codes := [demo_code]\<rparr>), draws := 1,
     provider_calls := 1, sms_log := [(''996700123456'', demo_now)]\<rparr>"

lemma demo_phone: "NormalizePhone ''0700 123 456'' = Inr ''+996700123456''"
  by code_simp

lemma demo_requests: "RequestOTP demo_auth ''10.0.0.1'' ''0700 123 456'' demo_boot = (Inr (), demo_sent)"
  unfolding RequestOTP_def
  by (simp add: demo_phone demo_auth_def demo_boot_def NewService_def demo_sent_def demo_code_def go_eval newTransactionID_def
      time_now_def on_db_def reserve_def send_limits_def codes_for_def last_at_def count_since_def otpMaxPerHour_def
      insert_otp_def Let_def review_disabled_def disabled_def isReviewPhone_def Enabled_def SendCode_def forNikita_def
      setToken_def update_otp_def cong: run_congs)

definition demo_token :: "string \<Rightarrow> refresh_row" where
  "demo_token h = \<lparr>rt_id = ''#uu'', rt_customer_id = ''#c'', rt_token_hash = h,
     rt_expires_at = demo_now + refreshTokenTTL, rt_revoked_at = None, rt_family_id = ''#uuu'', rt_rotated_at = None\<rparr>"

definition demo_in :: auth_state where
  "demo_in = demo_sent\<lparr>au_world := calm (demo_db\<lparr>
       otp_codes := [demo_code\<lparr>otp_consumed_at := Some demo_now, otp_verify_attempts := 1\<rparr>],
       refresh_tokens := [demo_token ''$tr''], id_count := Suc (Suc (Suc (Suc 0)))\<rparr>),
     verifyFails := \<lparr>wl_limit = 30, wl_window = 3600 * 10 ^ 9, wl_windows = [(''10.0.0.1'',
       \<lparr>lw_count = 0, lw_resetAt = demo_now * 1000 + 3600 * 10 ^ 9\<rparr>)]\<rparr>, draws := Suc (Suc 0), provider_calls := Suc (Suc 0)\<rparr>"

lemma demo_logs_in: "\<exists>cust. VerifyOTP demo_auth ''10.0.0.1'' ''0700 123 456'' ''1234'' demo_sent = (Inr (''#c'', ''tr'', cust), demo_in)"
  unfolding VerifyOTP_def
  by (simp add: demo_phone demo_auth_def demo_boot_def NewService_def demo_sent_def demo_in_def demo_code_def demo_token_def go_eval
      time_now_def on_db_def fails_blocked_def blocked_def current_def newWindowLimiter_def put_window_def
      latestActive_def active_code_def newest_def max_attempts_of_def takeAttempt_def Let_def update_otp_def
      verifyCode_def isReviewPhone_def Enabled_def VerifyCode_def consume_def GetOrCreateByPhone_def scanCustomer_def
      issueTokenPair_def issueAccessToken_def newOpaqueToken_def create_refresh_def insert_refresh_def
      otpTTL_def usec_per_sec_def now_nanos_def cong: run_congs)

text \<open>The session is refreshed; a minute passes.\<close>

definition demo_refreshed :: auth_state where
  "demo_refreshed = demo_in\<lparr>au_world := calm (demo_db\<lparr>
       otp_codes := [demo_code\<lparr>otp_consumed_at := Some demo_now, otp_verify_attempts := 1\<rparr>],
       refresh_tokens := [(demo_token ''$tr'')\<lparr>rt_revoked_at := Some demo_now, rt_rotated_at := Some demo_now\<rparr>,
         (demo_token ''$trr'')\<lparr>rt_id := ''#uuuu''\<rparr>], id_count := Suc (Suc (Suc (Suc (Suc 0))))\<rparr>),
     refreshIP := \<lparr>wl_limit = 120, wl_window = 60 * 10 ^ 9, wl_windows = [(''10.0.0.1'',
       \<lparr>lw_count = 1, lw_resetAt = demo_now * 1000 + 60 * 10 ^ 9\<rparr>)]\<rparr>, draws := Suc (Suc (Suc 0))\<rparr>"

definition demo_late :: auth_state where
  "demo_late = demo_refreshed\<lparr>au_world := (au_world demo_refreshed)
     \<lparr>tables := (db_of demo_refreshed)\<lparr>clock := demo_now + 60 * usec_per_sec\<rparr>\<rparr>\<rparr>"

lemma demo_refreshes: "Refresh demo_auth ''10.0.0.1'' ''tr'' demo_in = (Inr (''#c'', ''trr''), demo_refreshed)"
  unfolding Refresh_def
  by (simp add: demo_auth_def demo_boot_def NewService_def demo_sent_def demo_in_def demo_refreshed_def demo_code_def
      demo_token_def go_eval time_now_def on_db_def refresh_allow_def allow_def current_def newWindowLimiter_def put_window_def
      newOpaqueToken_def rotate_def retire_def token_of_def token_active_def update_refresh_def Let_def insert_refresh_def
      issueAccessToken_def now_nanos_def refreshTokenTTL_def usec_per_sec_def cong: run_congs)

lemma demo_uuids: "inj (gen_uuid (shop_env demo_auth))"
  by (auto simp: demo_auth_def inj_def dest: arg_cong [of _ _ length])

lemma reach_call: "auth_reach A Q s \<Longrightarrow> Q c \<Longrightarrow> after A c s = s' \<Longrightarrow> auth_reach A Q s'"
  using auth_step.call [of Q c A s] auth_reach.more [of A Q s "after A c s"] by simp

lemma demo_after:
  "after demo_auth (CallRequest ''10.0.0.1'' ''0700 123 456'') demo_boot = demo_sent"
  "after demo_auth (CallVerify ''10.0.0.1'' ''0700 123 456'' ''1234'') demo_sent = demo_in"
  "after demo_auth (CallRefresh ''10.0.0.1'' ''tr'') demo_in = demo_refreshed"
  using demo_logs_in by (auto simp: demo_requests demo_refreshes)

lemma demo_reach: "Q (CallRequest ''10.0.0.1'' ''0700 123 456'') \<Longrightarrow> auth_reach demo_auth Q demo_sent"
  by (rule reach_call [OF _ _ demo_after(1)]) (simp_all add: demo_boot_def auth_reach.boot)

lemma demo_reach_in: "auth_reach demo_auth (\<lambda>_. True) demo_in"
  by (rule reach_call [OF _ _ demo_after(2)], rule demo_reach) simp_all

lemma demo_reach_late: "auth_reach demo_auth (\<lambda>_. True) demo_late"
proof (rule auth_reach.more)
  show "auth_reach demo_auth (\<lambda>_. True) demo_refreshed"
    by (rule reach_call [OF demo_reach_in _ demo_after(3)]) simp
  show "auth_step demo_auth (\<lambda>_. True) demo_refreshed demo_late" unfolding demo_late_def
    by (rule auth_step.pass) (simp add: meanwhile_def demo_refreshed_def usec_per_sec_def)
qed

end
