(* ===== verification/AuthProperties.thy ===== *)
theory AuthProperties
  imports AuthDemo Shop
begin

text \<open>
  What the login guarantees its customers and the shop: over whole runs, that SMS spend is bounded,
  that a code can be guessed only so often and logs in once, and that an ended session stays ended;
  for single calls, what a login, a refresh, a reuse, an account deletion and a change of addresses do.
\<close>

section \<open>A login\<close>

lemma fold_newest_mem:
  "fold (\<lambda>x best. if otp_created_at best < otp_created_at x then x else best) rs r \<in> insert r (set rs)"
proof (induction rs arbitrary: r)
  case (Cons x rs)
  from Cons.IH [of "if otp_created_at r < otp_created_at x then x else r"] show ?case by (auto split: if_splits)
qed simp

lemma newest_mem: "newest rs = Some r \<Longrightarrow> r \<in> set rs"
  using fold_newest_mem by (cases rs) (auto simp: newest_def)

text \<open>What makes the check of a code succeed: the provider's answer, or the fixed review code.\<close>

definition accepted :: "auth_env \<Rightarrow> auth_state \<Rightarrow> string \<Rightarrow> string \<Rightarrow> string \<Rightarrow> bool" where
  "accepted A s phone token code \<longleftrightarrow>
     (if isReviewPhone A phone \<and> prefix reviewTokenPrefix token
      then \<not> disabled (reviewLock s) \<and> code = rv_Code (review A)
      else check_code A (provider_calls s) token code = Inr ())"

lemma fails_blocked_same:
  "fails_blocked ip s = (Inr b, s') \<Longrightarrow> db_of s' = db_of s \<and> provider_calls s' = provider_calls s \<and> reviewLock s' = reviewLock s"
  by (auto simp: fails_blocked_def split: prod.splits)

lemma on_db_same:
  "on_db m s = (Inr x, s') \<Longrightarrow> provider_calls s' = provider_calls s \<and> reviewLock s' = reviewLock s"
  by (auto simp: on_db_def split: prod.splits)

lemma verifyCode_accepts:
  "verifyCode A phone token code s = (Inr u, s') \<Longrightarrow> db_of s' = db_of s \<and> accepted A s phone token code"
  by (auto simp: verifyCode_def accepted_def VerifyCode_def review_check_def check_def disabled_def bindG_def Let_def
      returnG_def failG_def split: if_splits prod.splits)

lemma issueTokenPair_effect:
  assumes "issueTokenPair A cid s = (Inr (acc, raw), s')"
  shows "yields (create_refresh (shop_env A) cid (hashToken A raw) (clock (db_of s) + refreshTokenTTL)) (db_of s) () (db_of s')"
  using assms unfolding issueTokenPair_def
  by (auto elim!: run_elim dest!: memory_Inr on_db_yields split: prod.splits)

lemma refused_code_Inl [run_elim]: "refused_code A ip i n e s = (Inr x, s') \<Longrightarrow> P"
  by (auto simp: refused_code_def elim!: run_elim split: if_splits sum.splits)

lemma VerifyOTP_calls:
  assumes "VerifyOTP A ip raw code s = (Inr (acc, tok, cust), s')"
  obtains phone s1 a s2 tries s3 s4 s5 s6 where
    "NormalizePhone raw = Inr phone" "fails_blocked ip s = (Inr False, s1)"
    "on_db (latestActive phone) s1 = (Inr (Some a), s2)"
    "on_db (takeAttempt (oc_ID a) (max_attempts_of A)) s2 = (Inr (Some tries), s3)"
    "verifyCode A phone (oc_Token a) code s3 = (Inr (), s4)"
    "on_db (consume (oc_ID a)) s4 = (Inr True, s5)"
    "on_db (GetOrCreateByPhone (shop_env A) phone) s5 = (Inr cust, s6)"
    "issueTokenPair A (Cu_ID cust) s6 = (Inr (acc, tok), s')"
  using assms that unfolding VerifyOTP_def
  by (auto elim!: run_elim split: if_splits option.splits sum.splits prod.splits)

lemma update_otp_rows [simp]:
  "otp_codes (update_otp P f d) = map (\<lambda>r. if P r then f r else r) (otp_codes d)"
  "refresh_tokens (update_otp P f d) = refresh_tokens d" "clock (update_otp P f d) = clock d"
  by (simp_all add: update_otp_def)

text \<open>The code that was consumed is the one found active, with attempts left.\<close>

lemma attempt_and_consume:
  assumes r: "r \<in> set (otp_codes d)" "otp_id r = i" "otp_consumed_at r = None"
    and a: "yields (takeAttempt i n) d (Some tries) d1" and c: "yields (consume i) d1 True d2"
  shows "otp_verify_attempts r < n \<and> clock d2 = clock d \<and>
    (\<forall>r' \<in> set (otp_codes d2). otp_id r' = i \<longrightarrow> otp_consumed_at r' \<noteq> None)"
proof -
  let ?P = "\<lambda>r. otp_id r = i \<and> otp_consumed_at r = None \<and> otp_verify_attempts r < n"
  let ?Q = "\<lambda>r. otp_id r = i \<and> otp_consumed_at r = None"
  let ?inc = "\<lambda>r. if ?P r then r\<lparr>otp_verify_attempts := otp_verify_attempts r + 1\<rparr> else r"
  from a obtain x where x: "find ?P (otp_codes d) = Some x"
    and d1: "otp_codes d1 = map ?inc (otp_codes d)" "clock d1 = clock d"
    by (auto simp: takeAttempt_def Let_def elim!: yields_stmt)
  from c have one: "length (filter ?Q (otp_codes d1)) = 1"
    and d2: "otp_codes d2 = map (\<lambda>r. if ?Q r then r\<lparr>otp_consumed_at := Some (clock d1)\<rparr> else r) (otp_codes d1)"
      "clock d2 = clock d1"
    by (auto simp: consume_def Let_def elim!: yields_stmt)
  have "filter ?Q (otp_codes d1) = map ?inc (filter ?Q (otp_codes d))"
    unfolding d1(1) filter_map o_def by (intro arg_cong [of _ _ "map _"] filter_cong refl) (simp split: if_split)
  then have "length (filter ?Q (otp_codes d)) = 1" using one by simp
  then obtain y where y: "filter ?Q (otp_codes d) = [y]" by (auto simp: length_Suc_conv)
  have "x \<in> set (filter ?Q (otp_codes d))" "r \<in> set (filter ?Q (otp_codes d))"
    using find_Some_mem [OF x] r by auto
  then have "x = r" unfolding y by simp
  then have "otp_verify_attempts r < n" using find_Some_mem [OF x] by simp
  moreover have "\<forall>r' \<in> set (otp_codes d2). otp_id r' = i \<longrightarrow> otp_consumed_at r' \<noteq> None"
    unfolding d2(1) set_map ball_simps by simp
  ultimately show ?thesis unfolding d2(2) d1(2) by simp
qed

lemma GetOrCreate_effect:
  assumes "yields (GetOrCreateByPhone env phone) d cust d'"
  shows "Phone cust = phone \<and> otp_codes d' = otp_codes d \<and> refresh_tokens d' = refresh_tokens d \<and> clock d' = clock d"
  using assms unfolding GetOrCreateByPhone_def
  by (auto elim!: yields_stmt simp: scanCustomer_def new_customer_def Let_def
      split: option.splits if_splits dest!: find_Some_mem)

text \<open>
  C21. A login needs a live code: it succeeds only for a code of that phone that was sent, not used, not
  expired and had attempts left, and that the provider (or, for the review account, the configured
  code) accepted. Afterwards the code is used up, and the session is a new refresh token of the customer.
\<close>

theorem login_needs_live_code:
  assumes "VerifyOTP A ip raw code s = (Inr (acc, tok, cust), s')"
  shows "\<exists>r \<in> set (otp_codes (db_of s)). NormalizePhone raw = Inr (Phone cust) \<and>
    active_code (db_of s) (Phone cust) r \<and> otp_verify_attempts r < max_attempts_of A \<and>
    accepted A s (Phone cust) (otp_token r) code \<and>
    (\<forall>r' \<in> set (otp_codes (db_of s')). otp_id r' = otp_id r \<longrightarrow> otp_consumed_at r' \<noteq> None) \<and>
    (\<exists>n \<in> set (refresh_tokens (db_of s')). rt_token_hash n = hashToken A tok \<and>
       rt_customer_id n = Cu_ID cust \<and> token_active (db_of s') n)"
  using assms
proof (rule VerifyOTP_calls)
  fix phone s1 a s2 tries s3 s4 s5 s6
  assume c: "NormalizePhone raw = Inr phone" "fails_blocked ip s = (Inr False, s1)"
    "on_db (latestActive phone) s1 = (Inr (Some a), s2)"
    "on_db (takeAttempt (oc_ID a) (max_attempts_of A)) s2 = (Inr (Some tries), s3)"
    "verifyCode A phone (oc_Token a) code s3 = (Inr (), s4)"
    "on_db (consume (oc_ID a)) s4 = (Inr True, s5)"
    "on_db (GetOrCreateByPhone (shop_env A) phone) s5 = (Inr cust, s6)"
    "issueTokenPair A (Cu_ID cust) s6 = (Inr (acc, tok), s')"
  note y = c(3,4,6,7) [THEN on_db_yields] and same = c(3,4) [THEN on_db_same]
  have s1: "db_of s1 = db_of s" using fails_blocked_same [OF c(2)] by simp
  from y(1) obtain r where r: "newest (filter (active_code (db_of s) phone) (otp_codes (db_of s))) = Some r"
      "a = \<lparr>oc_ID = otp_id r, oc_Phone = otp_phone r, oc_Token = otp_token r\<rparr>" "db_of s2 = db_of s"
    by (auto simp: latestActive_def s1 eq_commute [of "Some a"] elim!: yields_query)
  have live: "r \<in> set (otp_codes (db_of s))" "active_code (db_of s) phone r" using newest_mem [OF r(1)] by auto
  have acc: "db_of s4 = db_of s3" "accepted A s phone (otp_token r) code"
    using verifyCode_accepts [OF c(5)] same fails_blocked_same [OF c(2)] by (auto simp: accepted_def r(2))
  have used: "otp_verify_attempts r < max_attempts_of A" "clock (db_of s5) = clock (db_of s)"
      "\<forall>r' \<in> set (otp_codes (db_of s5)). otp_id r' = otp_id r \<longrightarrow> otp_consumed_at r' \<noteq> None"
    using attempt_and_consume [OF live(1) refl _ y(2)[unfolded r(2,3) otpCode.select_convs]
        y(3)[unfolded r(2) otpCode.select_convs acc(1)]] live(2) by (auto simp: active_code_def)
  note g = GetOrCreate_effect [OF y(4)]
  from issueTokenPair_effect [OF c(8)] obtain i f d1 where
      ins: "insert_refresh i (Cu_ID cust) (hashToken A tok) (clock (db_of s6) + refreshTokenTTL) f (db_of s6) = Inr d1"
      "db_of s' = d1\<lparr>id_count := id_count (db_of s6) + 2\<rparr>"
    by (auto simp: create_refresh_def map_sum_def elim!: yields_stmt split: sum.splits)
  obtain n where n: "d1 = (db_of s6)\<lparr>refresh_tokens := refresh_tokens (db_of s6) @ [n]\<rparr>" "rt_token_hash n = hashToken A tok"
      "rt_customer_id n = Cu_ID cust" "rt_expires_at n = clock (db_of s6) + refreshTokenTTL" "rt_revoked_at n = None"
    using insert_refresh_effect [OF ins(1)] by blast
  have rows: "refresh_tokens (db_of s') = refresh_tokens (db_of s6) @ [n]" "otp_codes (db_of s') = otp_codes (db_of s6)"
      "clock (db_of s') = clock (db_of s6)" unfolding ins(2) n(1) by simp_all
  have "token_active (db_of s') n"
    unfolding token_active_def rows(3) n(4,5) by (simp add: refreshTokenTTL_def usec_per_sec_def)
  then have new: "\<exists>n \<in> set (refresh_tokens (db_of s')). rt_token_hash n = hashToken A tok \<and>
      rt_customer_id n = Cu_ID cust \<and> token_active (db_of s') n"
    unfolding rows(1) using n(2,3) by (intro bexI [of _ n]) simp_all
  have old: "\<forall>r' \<in> set (otp_codes (db_of s')). otp_id r' = otp_id r \<longrightarrow> otp_consumed_at r' \<noteq> None"
    unfolding rows(2) using used(3) g by simp
  have ph: "Phone cust = phone" using g by simp
  show ?thesis unfolding ph using live acc(2) used(1) c(1) new old by (intro bexI [of _ r]) simp_all
qed

theorem login_needs_live_code_witness:
  "\<exists>cust :: Customer. \<exists>r \<in> set (otp_codes (db_of demo_sent)). active_code (db_of demo_sent) (Phone cust) r \<and>
     accepted demo_auth demo_sent (Phone cust) (otp_token r) ''1234''"
proof -
  obtain cust where "VerifyOTP demo_auth ''10.0.0.1'' ''0700 123 456'' ''1234'' demo_sent = (Inr (''#c'', ''tr'', cust), demo_in)"
    using demo_logs_in by blast
  from login_needs_live_code [OF this] show ?thesis by (intro exI [of _ cust]) auto
qed

section \<open>Sessions\<close>

text \<open>
  C23. A refresh only continues a session that is alive: it succeeds only for a known token of a family
  that has an active token, which is this one or, within the grace period after its rotation, its
  successor; the new token belongs to the same family and customer.
\<close>

theorem refresh_continues_live_session:
  assumes "Refresh A ip token s = (Inr (acc, raw), s')"
  shows "\<exists>r \<in> set (refresh_tokens (db_of s)). rt_token_hash r = hashToken A token \<and>
    \<not> ended (rt_family_id r) (db_of s) \<and> (token_active (db_of s) r \<or> in_grace A (db_of s) r) \<and>
    successor A (db_of s) r raw (db_of s')"
  by (rule Refresh_success [OF assms])

theorem refresh_continues_live_session_witness:
  "\<exists>r \<in> set (refresh_tokens (db_of demo_in)). successor demo_auth (db_of demo_in) r ''trr'' (db_of demo_refreshed)"
  using refresh_continues_live_session [OF demo_refreshes] by blast

lemma family_known: "tokens_ok env d \<Longrightarrow> r \<in> set (refresh_tokens d) \<Longrightarrow> known_family env (rt_family_id r) d"
  by (simp add: tokens_ok_def)

lemma dead_family_refuses:
  assumes inj: "inj (gen_uuid (shop_env A))" and ok: "tokens_ok (shop_env A) (db_of s)"
    and r: "r \<in> set (refresh_tokens (db_of s))" "rt_token_hash r = hashToken A token"
    and dead: "ended (rt_family_id r) (db_of s)" and later: "(auth_step A Q)\<^sup>*\<^sup>* s s1"
  shows "\<exists>e. fst (Refresh A ip token s1) = Inl e"
proof (cases "Refresh A ip token s1")
  case (Pair res s2)
  show ?thesis
  proof (cases res)
    case (Inr p)
    obtain acc raw where p: "p = (acc, raw)" by (cases p)
    have le: "tokens_le (shop_env A) (rt_family_id r) (db_of s) (db_of s1)" by (rule steps_tokens [OF later inj])
    then obtain r1 where r1: "r1 \<in> set (refresh_tokens (db_of s1))" "token_kept r r1"
      using r(1) by (auto simp: tokens_le_def)
    have hu: "hashes_unique (db_of s1)" using le ok by (simp add: tokens_le_def tokens_ok_def)
    have e: "ended (rt_family_id r1) (db_of s1)"
      using le dead family_known [OF ok r(1)] r1(2) by (simp add: tokens_le_def token_kept_def)
    from Refresh_success [of A ip token s1 acc raw s2] Pair Inr p obtain x where
      x: "x \<in> set (refresh_tokens (db_of s1))" "rt_token_hash x = hashToken A token"
        "\<not> ended (rt_family_id x) (db_of s1)" by auto
    have "x = r1" using unique_hash [OF hu x(1) r1(1)] x(2) r1(2) r(2) by (simp add: token_kept_def)
    with x(3) e show ?thesis by simp
  qed (simp add: Pair)
qed

lemma calm_run:
  "faults w = [] \<Longrightarrow> query f w = (Inr (f (tables w)), w)"
  "faults w = [] \<Longrightarrow> exec k w = (Inr (), w\<lparr>tables := k (tables w)\<rparr>)"
  by (simp_all add: query_def exec_def stmt_def run_stmt_def)

text \<open>
  C19. Logging out is final: after a logout that succeeded, no refresh token of that session is ever
  accepted again, whichever token of it was presented and whatever is called, restarted or waited
  for in between.
\<close>

theorem logout_is_final:
  assumes "inj (gen_uuid (shop_env A))" "auth_reach A Q s"
    and "r \<in> set (refresh_tokens (db_of s))" "rt_token_hash r = hashToken A token" "token \<noteq> []"
    and "r2 \<in> set (refresh_tokens (db_of s))" "rt_token_hash r2 = hashToken A token2"
        "rt_family_id r2 = rt_family_id r"
    and out: "Logout A token s = (Inr (), s')" and "(auth_step A Q)\<^sup>*\<^sup>* s' s1"
  shows "\<exists>e. fst (Refresh A ip token2 s1) = Inl e"
proof -
  have ok: "tokens_ok (shop_env A) (db_of s)" by (rule reach_tokens [OF assms(2,1)])
  have e: "ended (rt_family_id r) (db_of s')"
    using Logout_ends [OF out assms(5) _ assms(3,4)] ok by (simp add: tokens_ok_def)
  have le: "tokens_le (shop_env A) fam (db_of s) (db_of s')" for fam
    using call_tokens [OF assms(1), of fam s "CallLogout token"] out by simp
  then obtain r' where r': "r' \<in> set (refresh_tokens (db_of s'))" "token_kept r2 r'"
    using assms(6) unfolding tokens_le_def by blast
  have ok': "tokens_ok (shop_env A) (db_of s')" using le [of "[]"] ok by (simp add: tokens_le_def)
  from r'(2) have r'2: "rt_token_hash r' = hashToken A token2" "rt_family_id r' = rt_family_id r"
    using assms(7,8) by (simp_all add: token_kept_def)
  show ?thesis by (rule dead_family_refuses [OF assms(1) ok' r'(1) r'2(1) e [folded r'2(2)] assms(10)])
qed

theorem logout_is_final_witness:
  "\<exists>s' e. Logout demo_auth ''tr'' demo_in = (Inr (), s') \<and> fst (Refresh demo_auth ''10.0.0.1'' ''tr'' s') = Inl e"
proof -
  have r: "demo_token ''$tr'' \<in> set (refresh_tokens (db_of demo_in))" by (simp add: demo_in_def)
  have h: "rt_token_hash (demo_token ''$tr'') = hashToken demo_auth ''tr''" by (simp add: demo_token_def demo_auth_def)
  obtain s' where out: "Logout demo_auth ''tr'' demo_in = (Inr (), s')"
    by (simp add: Logout_def bindG_def on_db_def lookup_refresh_def revokeFamily_def calm_run demo_in_def demo_token_def
        demo_auth_def)
  from logout_is_final [OF demo_uuids demo_reach_in r h _ r h refl out rtranclp.rtrancl_refl] out show ?thesis by blast
qed

lemma rotate_inactive:
  assumes "faults w = []" "\<forall>r \<in> set (refresh_tokens (tables w)). rt_token_hash r = h \<longrightarrow> \<not> token_active (tables w) r"
  shows "rotate env h h' x w = (Inr None, w)"
proof -
  have "find (\<lambda>r. rt_token_hash r = h \<and> token_active (tables w) r) (refresh_tokens (tables w)) = None"
    using assms(2) by (auto simp: find_None_iff)
  then have "retire h (tables w) = Inr (None, tables w)"
    using retire_none [of h "tables w"] by (simp add: retire_def Let_def)
  then show ?thesis using assms(1)
    by (simp add: rotate_def go_eval del: retire_none)
qed

text \<open>
  C22. Reuse of a rotated token ends the session: when the database answers, a token that was rotated
  longer ago than the grace period is refused and its whole family is revoked, so that neither of
  its holders can go on.
\<close>

theorem reuse_ends_session:
  assumes "inj (gen_uuid (shop_env A))" "auth_reach A Q s" "faults (au_world s) = []"
    and "r \<in> set (refresh_tokens (db_of s))" "rt_token_hash r = hashToken A token" "token \<noteq> []"
    and "rt_revoked_at r \<noteq> None" "rt_rotated_at r \<noteq> None" "\<not> in_grace A (db_of s) r"
    and "fst (allow (now_nanos s) ip (refreshIP s))" "random_token A (draws s) = Inr raw"
  shows "\<exists>s'. Refresh A ip token s = (Inl errRefreshInvalid, s') \<and> ended (rt_family_id r) (db_of s')"
proof -
  have hu: "hashes_unique (db_of s)" using reach_tokens [OF assms(2,1)] by (simp add: tokens_ok_def)
  obtain l where al: "allow (now_nanos s) ip (refreshIP s) = (True, l)" using assms(10) by (cases "allow (now_nanos s) ip (refreshIP s)") auto
  define s1 where "s1 = s\<lparr>refreshIP := l, draws := Suc (draws s)\<rparr>"
  have w: "au_world s1 = au_world s" by (simp add: s1_def)
  have "rt_token_hash x = hashToken A token \<longrightarrow> \<not> token_active (db_of s) x" if "x \<in> set (refresh_tokens (db_of s))" for x
    using unique_hash [OF hu that assms(4)] assms(5,7) by (auto simp: token_active_def)
  then have rot: "rotate (shop_env A) (hashToken A token) (hashToken A raw) (clock (db_of s) + refreshTokenTTL) (au_world s)
      = (Inr None, au_world s)" using assms(3) by (intro rotate_inactive) auto
  have look: "lookup_refresh (hashToken A token) (au_world s) = (Inr (Some (token_of r)), au_world s)"
    using find_hash [OF hu assms(4)] assms(3,5) by (simp add: lookup_refresh_def calm_run)
  obtain t where t: "rt_rotated_at r = Some t" using assms(8) by auto
  have stale: "\<not> (0 < reuseGrace A \<and> clock (db_of s) - t < reuseGrace A)" using assms(9) t by (simp add: in_grace_def)
  obtain w2 where rev: "revokeFamily (rt_family_id r) (au_world s) = (Inr (), w2)"
    using assms(3) by (simp add: revokeFamily_def calm_run)
  have tr: "rt_RotatedAt (token_of r) = Some t" "rt_FamilyID (token_of r) = rt_family_id r" by (simp_all add: token_of_def t)
  have inact: "handleInactiveRefresh A (hashToken A token) (hashToken A raw) s1 = (Inr None, s1\<lparr>au_world := w2\<rparr>)"
    unfolding handleInactiveRefresh_def
    using stale
    by (cases "0 < reuseGrace A") (simp_all add: bindG_def on_db_def w look tr time_now_def rev returnG_def s1_def)
  have "Refresh A ip token s = (Inl errRefreshInvalid, s1\<lparr>au_world := w2\<rparr>)"
    using assms(6,11) inact rot
    by (simp add: Refresh_def bindG_def refresh_allow_def al newOpaqueToken_def time_now_def on_db_def s1_def failG_def)
  then show ?thesis using revoke_run [OF rev] by simp
qed

theorem reuse_ends_session_witness:
  "\<exists>s'. Refresh demo_auth ''10.0.0.1'' ''tr'' demo_late = (Inl errRefreshInvalid, s') \<and> ended ''#uuu'' (db_of s')"
proof -
  let ?r = "(demo_token ''$tr'')\<lparr>rt_revoked_at := Some demo_now, rt_rotated_at := Some demo_now\<rparr>"
  have r: "?r \<in> set (refresh_tokens (db_of demo_late))" by (simp add: demo_late_def demo_refreshed_def)
  have h: "rt_token_hash ?r = hashToken demo_auth ''tr''" by (simp add: demo_token_def demo_auth_def)
  have f: "faults (au_world demo_late) = []" by (simp add: demo_late_def demo_refreshed_def)
  have late: "\<not> in_grace demo_auth (db_of demo_late) ?r"
    by (simp add: in_grace_def demo_late_def demo_refreshed_def demo_auth_def refreshReuseGrace_def usec_per_sec_def)
  have room: "fst (allow (now_nanos demo_late) ''10.0.0.1'' (refreshIP demo_late))"
    by (simp add: allow_def current_def put_window_def now_nanos_def demo_late_def demo_refreshed_def usec_per_sec_def Let_def)
  have rnd: "random_token demo_auth (draws demo_late) = Inr ''trrr''" by (simp add: demo_auth_def demo_late_def demo_refreshed_def)
  from reuse_ends_session [OF demo_uuids demo_reach_late f r h _ _ _ late room rnd] show ?thesis
    by (simp add: demo_token_def)
qed

section \<open>Codes and SMS\<close>



text \<open>
  A code can be tried only so often: in every reachable state, whatever is called, the attempts
  spent on each code are between zero and the budget (five, unless configured).
\<close>

theorem code_attempts_bounded:
  assumes "auth_reach A Q s"
  shows "\<forall>r \<in> set (otp_codes (db_of s)). 0 \<le> otp_verify_attempts r \<and>
    otp_verify_attempts r \<le> (if OTPVerifyMaxAttempts (limits A) \<le> 0 then 5 else OTPVerifyMaxAttempts (limits A))"
  using reach_attempts [OF assms] by (simp add: attempts_ok_def max_attempts_of_def)

section \<open>Account deletion\<close>


theorem code_attempts_bounded_witness:
  "\<exists>r \<in> set (otp_codes (db_of demo_in)). otp_verify_attempts r \<le> 5"
  using code_attempts_bounded [OF demo_reach_in] by (simp add: demo_in_def demo_auth_def)










text \<open>
  The deletion drops the rows the send limits count, so that with it in the run the limits of
  \<open>sms_spend_bounded\<close> do not hold: two codes for one phone at the same instant.
\<close>

lemma deletion_resets_send_limits:
  "\<exists>s. auth_reach demo_auth (\<lambda>_. True) s \<and> sms_log s = [(''996700123456'', demo_now), (''996700123456'', demo_now)]"
proof -
  obtain s1 where s1: "after demo_auth (CallDelete ''#c'') demo_in = s1" "otp_codes (db_of s1) = []"
      "faults (au_world s1) = []" "sms_log s1 = [(''996700123456'', demo_now)]" "clock (db_of s1) = demo_now"
      "reviewLock s1 = reviewLock demo_boot" "draws s1 = Suc (Suc 0)"
    by (simp add: DeleteCustomer_def on_db_def deleteCustomer_def demo_in_def demo_sent_def demo_boot_def NewService_def
        go_eval erase_customer_def update_refresh_def phone_of_def demo_code_def cong: run_congs)
  have r1: "auth_reach demo_auth (\<lambda>_. True) s1" by (rule reach_call [OF demo_reach_in _ s1(1)]) simp
  have "sms_log (after demo_auth (CallRequest [] ''0700 123 456'') s1) = [(''996700123456'', demo_now), (''996700123456'', demo_now)]"
    using s1(2-7) unfolding after.simps RequestOTP_def
    by (simp add: demo_phone demo_auth_def demo_boot_def NewService_def go_eval newTransactionID_def
      time_now_def on_db_def reserve_def send_limits_def codes_for_def last_at_def count_since_def otpMaxPerHour_def
      insert_otp_def Let_def review_disabled_def disabled_def isReviewPhone_def Enabled_def SendCode_def forNikita_def
      setToken_def cong: run_congs)
  then show ?thesis using reach_call [OF r1 _ refl] by blast
qed

section \<open>Addresses\<close>

definition address_le :: "string \<Rightarrow> db \<Rightarrow> db \<Rightarrow> bool" where
  "address_le cid d d' \<longleftrightarrow> (addresses_ok d \<longrightarrow> addresses_ok d' \<and> others cid d' = others cid d)"

interpretation owned: db_relation "address_le cid" for cid
  by unfold_locales (auto simp: address_le_def)

lemma address_error:
  "CreateAddress env cid inp w = (Inl e, w') \<Longrightarrow> tables w' = tables w"
  "UpdateAddress cid aid inp w = (Inl e, w') \<Longrightarrow> tables w' = tables w"
  unfolding CreateAddress_def UpdateAddress_def bindG_def [of "liftG r" for r] liftG_def
  by (auto dest: withTx_error split: sum.splits)

lemma address_calls:
  "owned.stays cid (CreateAddress env cid inp)" "owned.stays cid (UpdateAddress cid aid inp)"
  "owned.stays cid (DeleteAddress cid aid)"
proof -
  show "owned.stays cid (CreateAddress env cid inp)"
    using CreateAddress_keeps by (intro owned.stays_committed address_error) (auto simp: address_le_def)
  show "owned.stays cid (UpdateAddress cid aid inp)"
    using UpdateAddress_keeps by (intro owned.stays_committed address_error) (auto simp: address_le_def)
  have "address_le cid d d'" if "delete_address cid aid d = Inr (n, d')" for d n d'
  proof -
    show ?thesis
    proof (cases "n = 0")
      case True
      with that have "filter (\<lambda>a. \<not> (a_id a = aid \<and> a_customer_id a = cid)) (addresses d) = addresses d"
        by (intro filter_True) (auto simp: delete_address_def Let_def filter_empty_conv split: if_splits)
      then have "d' = d" using that by (simp add: delete_address_def Let_def split: if_splits)
      then show ?thesis by (simp add: address_le_def)
    next
      case False
      then have "DeleteAddress cid aid (calm d) = (Inr (), calm d')"
        using that by (simp add: DeleteAddress_def go_eval)
      then have "yields (DeleteAddress cid aid) d () d'" using yieldsI [of "DeleteAddress cid aid" "calm d"] by (simp add: calm_def)
      then show ?thesis using DeleteAddress_keeps by (auto simp: address_le_def)
    qed
  qed
  then show "owned.stays cid (DeleteAddress cid aid)"
    unfolding DeleteAddress_def
    by (intro owned.stays_bind owned.stays_attempt owned.stays_sum owned.stays_if owned.stays_basic owned.stays_stmt)
qed

text \<open>
  Saved addresses: whatever the call and however it ends, a customer who had at most one default
  address still has at most one, and the addresses of every other customer are exactly as they were.
\<close>

theorem one_default_address:
  assumes "addresses_ok (tables w)"
    and "w' \<in> {snd (CreateAddress env cid inp w), snd (UpdateAddress cid aid inp w), snd (DeleteAddress cid aid w)}"
  shows "addresses_ok (tables w') \<and> filter (\<lambda>a. a_customer_id a \<noteq> cid) (addresses (tables w')) =
    filter (\<lambda>a. a_customer_id a \<noteq> cid) (addresses (tables w))"
proof -
  have "address_le cid (tables w) (tables w')"
    using assms(2) address_calls [of cid] unfolding owned.stays_def by auto
  with assms(1) show ?thesis by (simp add: address_le_def others_def)
qed

theorem one_default_address_witness:
  "addresses_ok (tables (snd (CreateAddress demo_env ''#c''
     \<lparr>inp_Label = None, inp_AddressText = ''Manas 5'', inp_Lat = None, inp_Lng = None, inp_IsDefault = True\<rparr> (calm demo_db))))"
proof -
  have ok: "addresses_ok demo_db" by (simp add: addresses_ok_def defaults_of_def)
  show ?thesis by (rule one_default_address [THEN conjunct1]) (use ok in auto)
qed

end
