(* ===== verification/StaffStore.thy ===== *)
theory StaffStore
  imports Lifecycle Phone Runs
begin

text \<open>
  Staff accounts and their sessions: \<^verbatim>\<open>internal/staff/staff.go\<close>, \<^verbatim>\<open>admin.go\<close>, \<^verbatim>\<open>session_repo.go\<close> and
  \<^verbatim>\<open>bootstrap.go\<close>, one operation each on the tables \<^verbatim>\<open>staff\<close> and \<^verbatim>\<open>staff_sessions\<close> (migrations 000004
  and 000017). \<open>StaffMember\<close> is the Go struct \<^verbatim>\<open>Staff\<close>: it extends the part of it that the order
  handlers read (\<^verbatim>\<open>Lifecycle\<close>). A \<open>point_id\<close> must be a row of \<^verbatim>\<open>points_of_sale\<close>.
  An account id that PostgreSQL cannot read as a UUID is a statement that fails, that is, one of the \<open>faults\<close>.
\<close>

record StaffMember = Staff +
  st_Phone :: string
  st_PasswordHash :: string
  st_Name :: string
  st_IsActive :: bool
  st_CreatedAt :: int

definition scanStaff :: "staff_row \<Rightarrow> StaffMember" where
  "scanStaff r = \<lparr>st_ID = sf_id r, st_Role = sf_role r, st_PointID = sf_point_id r, st_Phone = sf_phone r,
     st_PasswordHash = sf_password_hash r, st_Name = sf_name r, st_IsActive = sf_is_active r,
     st_CreatedAt = sf_created_at r\<rparr>"

section \<open>Lookups\<close>

definition last_digits :: "nat \<Rightarrow> string \<Rightarrow> string" where
  "last_digits n s = drop (length s - n) s"

text \<open>
  The query of \<^verbatim>\<open>getByPhone\<close>: \<^verbatim>\<open>right(regexp_replace(phone, '\D', '', 'g'), 9)\<close> as a pre-filter, then
  \<^verbatim>\<open>ORDER BY (phone = $1) DESC, created_at, id\<close>.
\<close>

definition phone_candidates :: "string \<Rightarrow> string \<Rightarrow> staff_row list \<Rightarrow> staff_row list" where
  "phone_candidates key digits rows =
     (let found = filter (\<lambda>r. sf_phone r = key \<or> last_digits 9 (digits_of (sf_phone r)) = digits) rows;
          oldest = sort_key sf_created_at (sort_key sf_id found)
      in filter (\<lambda>r. sf_phone r = key) oldest @ filter (\<lambda>r. sf_phone r \<noteq> key) oldest)"

definition getByPhone :: "string \<Rightarrow> StaffMember option go" where
  "getByPhone phone =
     (let key = canonicalPhoneKey phone
      in bindG (query (\<lambda>d. phone_candidates key (phoneDigitsSuffix key) (staff_accounts d))) (\<lambda>rows.
         returnG (map_option scanStaff
           (find (\<lambda>r. sf_phone r = key \<or> canonicalPhoneKey (sf_phone r) = key) rows))))"

definition GetStaffByID :: "string \<Rightarrow> StaffMember option go" where
  "GetStaffByID sid = query (\<lambda>d. map_option scanStaff (find (\<lambda>r. sf_id r = sid) (staff_accounts d)))"

definition List_staff :: "StaffMember list go" where
  "List_staff = query (\<lambda>d. map scanStaff (sort_key (\<lambda>r. - sf_created_at r) (staff_accounts d)))"

section \<open>Accounts\<close>

record StaffCreateInput =
  sc_Phone :: string
  sc_PasswordHash :: string
  sc_Name :: string
  sc_Role :: Role
  sc_PointID :: "string option"

record StaffUpdateInput =
  su_Name :: string
  su_Role :: Role
  su_PointID :: "string option"
  su_IsActive :: bool
  su_PasswordHash :: "string option"

definition translateStaffWriteErr :: "go_error \<Rightarrow> go_error" where
  "translateStaffWriteErr err =
     (if err = PgError ''23505'' then AppError (Conflict ''phone_taken'')
      else if err = PgError ''23503'' then AppError (BadRequest ''invalid_point_id'')
      else err)"

text \<open>What PostgreSQL refuses of a row: a role or a UUID it cannot read, an unknown point.\<close>

definition staff_row_error :: "env \<Rightarrow> db \<Rightarrow> Role \<Rightarrow> string option \<Rightarrow> go_error option" where
  "staff_row_error env d role pointID =
     (if role \<notin> {RoleOwner, RoleManager, RolePointStaff} then Some (PgError ''22P02'')
      else case pointID of None \<Rightarrow> None
         | Some p \<Rightarrow> if \<not> uuid_validate env p then Some (PgError ''22P02'')
                     else if p \<notin> pt_id ` set (points d) then Some (PgError ''23503'') else None)"

definition insert_staff :: "env \<Rightarrow> StaffCreateInput \<Rightarrow> db \<Rightarrow> go_error + (StaffMember \<times> db)" where
  "insert_staff env inp d =
     (let r = \<lparr>sf_id = gen_uuid env (id_count d), sf_phone = sc_Phone inp, sf_password_hash = sc_PasswordHash inp,
               sf_name = sc_Name inp, sf_role = sc_Role inp, sf_point_id = sc_PointID inp, sf_is_active = True,
               sf_created_at = clock d\<rparr>
      in if staff_row_error env d (sc_Role inp) (sc_PointID inp) = Some (PgError ''22P02'') then Inl (PgError ''22P02'')
         else if (\<exists>x \<in> set (staff_accounts d). sf_id x = sf_id r \<or> sf_phone x = sf_phone r) then Inl (PgError ''23505'')
         else case staff_row_error env d (sc_Role inp) (sc_PointID inp) of
                Some e \<Rightarrow> Inl e
              | None \<Rightarrow> Inr (scanStaff r, d\<lparr>staff_accounts := staff_accounts d @ [r], id_count := Suc (id_count d)\<rparr>))"

definition Create_staff :: "env \<Rightarrow> StaffCreateInput \<Rightarrow> StaffMember go" where
  "Create_staff env inp =
     bindG (getByPhone (sc_Phone inp)) (\<lambda>existing.
     if existing \<noteq> None then failG (AppError (Conflict ''phone_taken''))
     else bindG (attempt (stmt (insert_staff env inp))) (\<lambda>res.
          case res of Inl err \<Rightarrow> failG (translateStaffWriteErr err) | Inr s \<Rightarrow> returnG s))"

definition update_staff :: "(staff_row \<Rightarrow> bool) \<Rightarrow> (staff_row \<Rightarrow> staff_row) \<Rightarrow> db \<Rightarrow> db" where
  "update_staff P f d = d\<lparr>staff_accounts := map (\<lambda>r. if P r then f r else r) (staff_accounts d)\<rparr>"

definition active_owner :: "staff_row \<Rightarrow> bool" where
  "active_owner r \<longleftrightarrow> sf_role r = RoleOwner \<and> sf_is_active r"

definition countOtherActiveOwners :: "string \<Rightarrow> int go" where
  "countOtherActiveOwners excludeID =
     query (\<lambda>d. int (length (filter (\<lambda>r. active_owner r \<and> sf_id r \<noteq> excludeID) (staff_accounts d))))"

definition write_staff :: "env \<Rightarrow> string \<Rightarrow> StaffUpdateInput \<Rightarrow> string \<Rightarrow> db \<Rightarrow> go_error + (StaffMember \<times> db)" where
  "write_staff env sid inp passwordHash d =
     (let f = (\<lambda>r. r\<lparr>sf_name := su_Name inp, sf_role := su_Role inp, sf_point_id := su_PointID inp,
                    sf_is_active := su_IsActive inp, sf_password_hash := passwordHash\<rparr>)
      in case staff_row_error env d (su_Role inp) (su_PointID inp) of
           Some e \<Rightarrow> Inl e
         | None \<Rightarrow> (case find (\<lambda>r. sf_id r = sid) (staff_accounts d) of
                      None \<Rightarrow> Inl no_rows
                    | Some r \<Rightarrow> Inr (scanStaff (f r), update_staff (\<lambda>r. sf_id r = sid) f d)))"

definition Update_staff :: "env \<Rightarrow> string \<Rightarrow> StaffUpdateInput \<Rightarrow> StaffMember go" where
  "Update_staff env sid inp =
     withTx (
       bindG (query (\<lambda>d. find (\<lambda>r. sf_id r = sid) (staff_accounts d))) (\<lambda>row.
       case row of
         None \<Rightarrow> failG (AppError (NotFound ''staff_not_found''))
       | Some current \<Rightarrow>
           bindG (if sf_role current = RoleOwner \<and> sf_is_active current \<and> (su_Role inp \<noteq> RoleOwner \<or> \<not> su_IsActive inp)
                  then bindG (countOtherActiveOwners sid) (\<lambda>others.
                       if others = 0 then failG (AppError (Conflict ''last_owner'')) else returnG ())
                  else returnG ()) (\<lambda>_.
           bindG (attempt (stmt (write_staff env sid inp
                    (case su_PasswordHash inp of Some h \<Rightarrow> h | None \<Rightarrow> sf_password_hash current)))) (\<lambda>res.
           case res of Inl err \<Rightarrow> failG (translateStaffWriteErr err) | Inr s \<Rightarrow> returnG s))))"

definition SetPassword :: "string \<Rightarrow> string \<Rightarrow> unit go" where
  "SetPassword sid passwordHash =
     bindG (stmt (\<lambda>d. Inr (length (filter (\<lambda>r. sf_id r = sid) (staff_accounts d)),
              update_staff (\<lambda>r. sf_id r = sid) (\<lambda>r. r\<lparr>sf_password_hash := passwordHash\<rparr>) d))) (\<lambda>n.
     if n = 0 then failG (AppError (NotFound ''staff_not_found'')) else returnG ())"

section \<open>Sessions\<close>

record StaffSession =
  se_ID :: string
  se_StaffID :: string
  se_ExpiresAt :: int
  se_RevokedAt :: "int option"

definition session_active :: "db \<Rightarrow> staff_session_row \<Rightarrow> bool" where
  "session_active d r \<longleftrightarrow> ss_revoked_at r = None \<and> clock d < ss_expires_at r"

definition create_session :: "env \<Rightarrow> string \<Rightarrow> string \<Rightarrow> int \<Rightarrow> unit go" where
  "create_session env staffID tokenHash expiresAt =
     stmt (\<lambda>d. if (\<exists>x \<in> set (staff_sessions d). ss_id x = gen_uuid env (id_count d) \<or> ss_token_hash x = tokenHash)
               then Inl (PgError ''23505'')
               else Inr ((), d\<lparr>staff_sessions := staff_sessions d @
                 [\<lparr>ss_id = gen_uuid env (id_count d), ss_staff_id = staffID, ss_token_hash = tokenHash,
                   ss_expires_at = expiresAt, ss_revoked_at = None\<rparr>], id_count := Suc (id_count d)\<rparr>))"

definition getActiveByHash :: "string \<Rightarrow> StaffSession option go" where
  "getActiveByHash tokenHash =
     query (\<lambda>d. map_option (\<lambda>r. \<lparr>se_ID = ss_id r, se_StaffID = ss_staff_id r, se_ExpiresAt = ss_expires_at r,
                                  se_RevokedAt = ss_revoked_at r\<rparr>)
                  (find (\<lambda>r. ss_token_hash r = tokenHash \<and> session_active d r) (staff_sessions d)))"

definition revoke_sessions :: "(staff_session_row \<Rightarrow> bool) \<Rightarrow> db \<Rightarrow> db" where
  "revoke_sessions P d = d\<lparr>staff_sessions := map (\<lambda>r. if P r \<and> ss_revoked_at r = None
     then r\<lparr>ss_revoked_at := Some (clock d)\<rparr> else r) (staff_sessions d)\<rparr>"

definition revokeByHash :: "string \<Rightarrow> unit go" where
  "revokeByHash tokenHash = exec (revoke_sessions (\<lambda>r. ss_token_hash r = tokenHash))"

definition revokeAllForStaff :: "string \<Rightarrow> unit go" where
  "revokeAllForStaff staffID = exec (revoke_sessions (\<lambda>r. ss_staff_id r = staffID))"

section \<open>The first owner\<close>

record EnsureOwnerResult =
  eo_StaffID :: string
  eo_Phone :: string
  eo_Created :: bool

definition insertOwner :: "env \<Rightarrow> string \<Rightarrow> string \<Rightarrow> string \<Rightarrow> EnsureOwnerResult go" where
  "insertOwner env phone hash name =
     bindG (attempt (stmt (insert_staff env \<lparr>sc_Phone = phone, sc_PasswordHash = hash, sc_Name = name,
              sc_Role = RoleOwner, sc_PointID = None\<rparr>))) (\<lambda>res.
     case res of
       Inl err \<Rightarrow> failG (translateStaffWriteErr err)
     | Inr s \<Rightarrow> returnG \<lparr>eo_StaffID = st_ID s, eo_Phone = phone, eo_Created = True\<rparr>)"

definition resetOwner :: "string \<Rightarrow> string \<Rightarrow> unit go" where
  "resetOwner sid hash =
     bindG (exec (update_staff (\<lambda>r. sf_id r = sid) (\<lambda>r. r\<lparr>sf_password_hash := hash, sf_is_active := True\<rparr>))) (\<lambda>_.
     exec (revoke_sessions (\<lambda>r. ss_staff_id r = sid)))"

definition ensure_owner_tx :: "env \<Rightarrow> string \<Rightarrow> string \<Rightarrow> string \<Rightarrow> EnsureOwnerResult go" where
  "ensure_owner_tx env phone hash name =
     bindG (getByPhone phone) (\<lambda>existing.
     case existing of
       None \<Rightarrow> insertOwner env phone hash name
     | Some st \<Rightarrow>
         if st_Role st \<noteq> RoleOwner then failG (AppError (Conflict ''not_owner''))
         else bindG (resetOwner (st_ID st) hash) (\<lambda>_.
              returnG \<lparr>eo_StaffID = st_ID st, eo_Phone = st_Phone st, eo_Created = False\<rparr>))"

end
