(* ===== verification/StaffService.thy ===== *)
theory StaffService
  imports StaffStore Limiters
begin

text \<open>
  \<^verbatim>\<open>internal/staff/service.go\<close> with \<^verbatim>\<open>EnsureOwner\<close> (\<^verbatim>\<open>bootstrap.go\<close>) and the check of \<^verbatim>\<open>RequireRole\<close>
  (\<^verbatim>\<open>middleware.go\<close>): the password login of staff, sessions, and the accounts the owner manages.
  bcrypt, SHA-256 and \<^verbatim>\<open>crypto/rand\<close> are parameters, the fields of \<open>staff_env\<close>; salted hashes and
  random tokens take the number of draws so far. The state is the world of the database with the two
  limiters of the service. The cookie of a request is its value, if any.
\<close>

record staff_env =
  base_env :: env
  hashSessionToken :: "string \<Rightarrow> string"
  session_random :: "nat \<Rightarrow> go_error + string"
  bcrypt_generate :: "nat \<Rightarrow> string \<Rightarrow> go_error + string"
  bcrypt_compare :: "string \<Rightarrow> string \<Rightarrow> bool"

record staff_state =
  sv_world :: world
  loginLimiter :: loginRateLimiter
  ipLimiter :: "loginRateLimiter option"
  sv_draws :: nat

type_synonym 'a staff = "(staff_state, 'a) prog"

definition sessionTTL :: int where "sessionTTL = 12 * 3600 * usec_per_sec"

definition dummyPasswordHash :: string where
  "dummyPasswordHash = ''$2a$10$UnWYtHLgrH/2tNOF3VF.k.Mno4/aqJ1u8/dKRjqdLBiwUsDvBTD7W''"

definition defaultLoginIPLimit :: int where "defaultLoginIPLimit = 20"

definition NewStaffService :: "world \<Rightarrow> staff_state" where
  "NewStaffService w = \<lparr>sv_world = w, loginLimiter = \<lparr>lr_limit = 0, lr_attempts = []\<rparr>,
     ipLimiter = Some \<lparr>lr_limit = defaultLoginIPLimit, lr_attempts = []\<rparr>, sv_draws = 0\<rparr>"

definition SetLoginIPLimit :: "int \<Rightarrow> staff_state \<Rightarrow> staff_state" where
  "SetLoginIPLimit n s = s\<lparr>ipLimiter := if n \<le> 0 then None else Some \<lparr>lr_limit = n, lr_attempts = []\<rparr>\<rparr>"

section \<open>Access to the state\<close>

definition on_tables :: "'a go \<Rightarrow> 'a staff" where
  "on_tables m s = (case m (sv_world s) of (r, w) \<Rightarrow> (r, s\<lparr>sv_world := w\<rparr>))"

definition sv_now :: "staff_state \<Rightarrow> int" where
  "sv_now s = clock (tables (sv_world s))"

definition sv_clock :: "int staff" where
  "sv_clock s = (Inr (sv_now s), s)"

definition ip_allow :: "string \<Rightarrow> bool staff" where
  "ip_allow ip s = (case ipLimiter s of
     None \<Rightarrow> (Inr True, s)
   | Some l \<Rightarrow> if ip = [] then (Inr True, s)
               else (case login_allow (sv_now s * 1000) ip l of (ok, l') \<Rightarrow> (Inr ok, s\<lparr>ipLimiter := Some l'\<rparr>)))"

definition phone_allow :: "string \<Rightarrow> bool staff" where
  "phone_allow phone s =
     (case login_allow (sv_now s * 1000) phone (loginLimiter s) of (ok, l) \<Rightarrow> (Inr ok, s\<lparr>loginLimiter := l\<rparr>))"

definition phone_reset :: "string \<Rightarrow> unit staff" where
  "phone_reset phone s = (Inr (), s\<lparr>loginLimiter := login_reset phone (loginLimiter s)\<rparr>)"

definition newSessionToken :: "staff_env \<Rightarrow> (string \<times> string) staff" where
  "newSessionToken E s =
     (map_sum id (\<lambda>raw. (raw, hashSessionToken E raw)) (session_random E (sv_draws s)), s\<lparr>sv_draws := Suc (sv_draws s)\<rparr>)"

definition hashPassword :: "staff_env \<Rightarrow> string \<Rightarrow> string staff" where
  "hashPassword E password s = (bcrypt_generate E (sv_draws s) password, s\<lparr>sv_draws := Suc (sv_draws s)\<rparr>)"

section \<open>Login and sessions\<close>

definition invalidCredentials :: go_error where
  "invalidCredentials = AppError (Unauthorized ''invalid_credentials'')"

definition too_many_attempts :: go_error where
  "too_many_attempts = AppError (TooManyRequests ''too_many_attempts'')"

definition Login :: "staff_env \<Rightarrow> string \<Rightarrow> string \<Rightarrow> string \<Rightarrow> string staff" where
  "Login E ip rawPhone password =
     bindG (ip_allow ip) (\<lambda>ok.
     if \<not> ok then failG too_many_attempts
     else let phone = canonicalPhoneKey rawPhone in
       bindG (phone_allow phone) (\<lambda>ok.
       if \<not> ok then failG too_many_attempts
       else bindG (on_tables (getByPhone phone)) (\<lambda>st.
            let pwHash = (case st of None \<Rightarrow> dummyPasswordHash | Some m \<Rightarrow> st_PasswordHash m);
                matches = bcrypt_compare E pwHash password
            in case st of
                 None \<Rightarrow> failG invalidCredentials
               | Some m \<Rightarrow>
                   if \<not> st_IsActive m \<or> \<not> matches then failG invalidCredentials
                   else bindG (phone_reset phone) (\<lambda>_.
                        bindG (newSessionToken E) (\<lambda>(raw, tokenHash).
                        bindG sv_clock (\<lambda>now.
                        bindG (on_tables (create_session (base_env E) (st_ID m) tokenHash (now + sessionTTL)))
                          (\<lambda>_. returnG raw)))))))"

definition LogoutStaff :: "staff_env \<Rightarrow> string \<Rightarrow> unit staff" where
  "LogoutStaff E sessionToken =
     (if sessionToken = [] then returnG () else on_tables (revokeByHash (hashSessionToken E sessionToken)))"

definition authenticatedStaff :: "staff_env \<Rightarrow> string \<Rightarrow> StaffMember option staff" where
  "authenticatedStaff E sessionToken =
     bindG (on_tables (getActiveByHash (hashSessionToken E sessionToken))) (\<lambda>sess.
     case sess of
       None \<Rightarrow> returnG None
     | Some se \<Rightarrow> bindG (on_tables (GetStaffByID (se_StaffID se))) (\<lambda>st.
         case st of None \<Rightarrow> returnG None
         | Some m \<Rightarrow> if \<not> st_IsActive m then returnG None else returnG (Some m)))"

definition StaffFromRequest :: "staff_env \<Rightarrow> string option \<Rightarrow> StaffMember option staff" where
  "StaffFromRequest E cookie =
     (case cookie of None \<Rightarrow> returnG None | Some v \<Rightarrow> if v = [] then returnG None else authenticatedStaff E v)"

text \<open>\<open>RequireRole E roles cookie next\<close> is the wrapped handler on a request with that cookie.\<close>

definition RequireRole :: "staff_env \<Rightarrow> Role set \<Rightarrow> string option \<Rightarrow> (StaffMember \<Rightarrow> 'a staff) \<Rightarrow> 'a staff" where
  "RequireRole E roles cookie next =
     (if cookie = None \<or> cookie = Some [] then failG (AppError (Unauthorized ''unauthenticated''))
      else bindG (authenticatedStaff E (the cookie)) (\<lambda>st.
           case st of
             None \<Rightarrow> failG (AppError (WithVariant (Unauthorized ''unauthenticated'') ''session''))
           | Some m \<Rightarrow> if st_Role m \<notin> roles then failG (AppError (Forbidden ''forbidden'')) else next m))"

section \<open>Accounts\<close>

record CreateStaffInput =
  cs_Phone :: string
  cs_Password :: string
  cs_Name :: string
  cs_Role :: Role
  cs_PointID :: "string option"

record UpdateStaffInput =
  us_Name :: string
  us_Role :: Role
  us_PointID :: "string option"
  us_IsActive :: bool
  us_Password :: "string option"

definition MinPasswordLength :: nat where "MinPasswordLength = 8"
definition maxPasswordBytes :: nat where "maxPasswordBytes = 72"

definition validatePassword :: "string \<Rightarrow> go_error + unit" where
  "validatePassword p =
     (if rune_count p < MinPasswordLength then Inl (AppError (BadRequest ''invalid_password''))
      else if maxPasswordBytes < length p then Inl (AppError (WithVariant (BadRequest ''invalid_password'') ''too_long''))
      else Inr ())"

definition blank_point :: "string option \<Rightarrow> bool" where
  "blank_point p \<longleftrightarrow> (case p of None \<Rightarrow> True | Some s \<Rightarrow> trim_space s = [])"

fun validateStaffRolePointID :: "Role \<Rightarrow> string option \<Rightarrow> go_error + unit" where
  "validateStaffRolePointID RoleOwner p = (if blank_point p then Inr () else Inl (AppError (BadRequest ''point_id_forbidden'')))"
| "validateStaffRolePointID RoleManager p = (if blank_point p then Inr () else Inl (AppError (BadRequest ''point_id_forbidden'')))"
| "validateStaffRolePointID RolePointStaff p = (if blank_point p then Inl (AppError (BadRequest ''point_id_required'')) else Inr ())"
| "validateStaffRolePointID _ p = Inl (AppError (BadRequest ''invalid_role''))"

definition name_required :: go_error where
  "name_required = AppError (WithVariant (BadRequest ''invalid_name'') ''required'')"

definition CreateStaff :: "staff_env \<Rightarrow> CreateStaffInput \<Rightarrow> StaffMember staff" where
  "CreateStaff E inp =
     (if trim_space (cs_Phone inp) = [] then failG (AppError (WithVariant (BadRequest ''invalid_phone'') ''required''))
      else bindG (liftG (normalizeStaffPhone (cs_Phone inp))) (\<lambda>phone.
           if trim_space (cs_Name inp) = [] then failG name_required
           else bindG (liftG (validatePassword (cs_Password inp))) (\<lambda>_.
                bindG (liftG (validateStaffRolePointID (cs_Role inp) (cs_PointID inp))) (\<lambda>_.
                bindG (hashPassword E (cs_Password inp)) (\<lambda>hash.
                on_tables (Create_staff (base_env E) \<lparr>sc_Phone = phone, sc_PasswordHash = hash, sc_Name = cs_Name inp,
                  sc_Role = cs_Role inp, sc_PointID = cs_PointID inp\<rparr>))))))"

definition UpdateStaff :: "staff_env \<Rightarrow> string \<Rightarrow> UpdateStaffInput \<Rightarrow> StaffMember staff" where
  "UpdateStaff E sid inp =
     (if trim_space (us_Name inp) = [] then failG name_required
      else bindG (liftG (validateStaffRolePointID (us_Role inp) (us_PointID inp))) (\<lambda>_.
           bindG (case us_Password inp of
                    None \<Rightarrow> returnG None
                  | Some p \<Rightarrow> bindG (liftG (validatePassword p)) (\<lambda>_.
                              bindG (hashPassword E p) (\<lambda>h. returnG (Some h)))) (\<lambda>hash.
           bindG (on_tables (Update_staff (base_env E) sid \<lparr>su_Name = us_Name inp, su_Role = us_Role inp,
                    su_PointID = us_PointID inp, su_IsActive = us_IsActive inp, su_PasswordHash = hash\<rparr>)) (\<lambda>updated.
           bindG (if us_Password inp \<noteq> None \<or> \<not> us_IsActive inp then on_tables (revokeAllForStaff sid) else returnG ())
             (\<lambda>_. returnG updated)))))"

definition ResetPassword :: "staff_env \<Rightarrow> string \<Rightarrow> string \<Rightarrow> unit staff" where
  "ResetPassword E sid newPassword =
     bindG (liftG (validatePassword newPassword)) (\<lambda>_.
     bindG (hashPassword E newPassword) (\<lambda>hash.
     bindG (on_tables (SetPassword sid hash)) (\<lambda>_.
     on_tables (revokeAllForStaff sid))))"

definition ListStaff :: "StaffMember list staff" where
  "ListStaff = on_tables List_staff"

definition DefaultOwnerName :: string where
  "DefaultOwnerName = map char_of [208, 146, 208, 187, 208, 176, 208, 180, 208, 181, 208, 187, 208, 181, 209, 134 :: nat]"

definition EnsureOwner :: "staff_env \<Rightarrow> string \<Rightarrow> string \<Rightarrow> string \<Rightarrow> EnsureOwnerResult staff" where
  "EnsureOwner E rawPhone password rawName =
     bindG (liftG (normalizeStaffPhone rawPhone)) (\<lambda>phone.
     bindG (liftG (validatePassword password)) (\<lambda>_.
     bindG (hashPassword E password) (\<lambda>hash.
     let trimmed = trim_space rawName; name = (if trimmed = [] then DefaultOwnerName else trimmed)
     in on_tables (withTx (ensure_owner_tx (base_env E) phone hash name)))))"

end
