(* ===== verification/StaffFacts.thy ===== *)
theory StaffFacts
  imports StaffService
begin

text \<open>
  What the operations on staff accounts and sessions do, for the properties: the row the lookup by
  phone finds, and a locale for what every run of the service keeps of the tables, as the login of
  customers has one.
\<close>

section \<open>The lookup by phone\<close>

lemma find_first:
  "find P xs = Some x \<Longrightarrow> sorted (map k xs) \<Longrightarrow> y \<in> set xs \<Longrightarrow> P y \<Longrightarrow> k x \<le> k y"
  by (induction xs) (auto split: if_splits)

lemma find_append: "find P (xs @ ys) = (case find P xs of None \<Rightarrow> find P ys | Some x \<Rightarrow> Some x)"
  by (induction xs) auto

lemma set_phone_candidates:
  "set (phone_candidates key ds rows) =
     {r \<in> set rows. sf_phone r = key \<or> last_digits 9 (digits_of (sf_phone r)) = ds}"
  by (auto simp: phone_candidates_def Let_def)

lemma candidate_of_key:
  "r \<in> set rows \<Longrightarrow> canonicalPhoneKey (sf_phone r) = key \<Longrightarrow>
   r \<in> set (phone_candidates key (phoneDigitsSuffix key) rows)"
proof -
  assume r: "r \<in> set rows" "canonicalPhoneKey (sf_phone r) = key"
  then have "phoneDigitsSuffix (sf_phone r) = phoneDigitsSuffix key"
    by (intro same_key_same_suffix) auto
  then show ?thesis using r(1) by (simp add: set_phone_candidates last_digits_def phoneDigitsSuffix_eq)
qed

definition same_number :: "string \<Rightarrow> staff_row \<Rightarrow> bool" where
  "same_number phone r \<longleftrightarrow> canonicalPhoneKey (sf_phone r) = canonicalPhoneKey phone"

text \<open>The order of preference among rows of one number: the normal spelling first, then the oldest.\<close>

definition preferred :: "string \<Rightarrow> staff_row \<Rightarrow> staff_row \<Rightarrow> bool" where
  "preferred phone r x \<longleftrightarrow>
     (let key = canonicalPhoneKey phone
      in (sf_phone x = key \<longrightarrow> sf_phone r = key) \<and>
         ((sf_phone x = key \<longleftrightarrow> sf_phone r = key) \<longrightarrow> sf_created_at r \<le> sf_created_at x))"

lemma getByPhone_effect:
  assumes "yields (getByPhone phone) d st d'"
  shows "d' = d \<and> (case st of
     None \<Rightarrow> \<forall>x \<in> set (staff_accounts d). \<not> same_number phone x
   | Some m \<Rightarrow> (\<exists>r \<in> set (staff_accounts d). m = scanStaff r \<and> same_number phone r \<and>
       (\<forall>x \<in> set (staff_accounts d). same_number phone x \<longrightarrow> preferred phone r x)))"
proof -
  let ?key = "canonicalPhoneKey phone"
  let ?P = "\<lambda>r. sf_phone r = ?key \<or> canonicalPhoneKey (sf_phone r) = ?key"
  let ?rows = "phone_candidates ?key (phoneDigitsSuffix ?key) (staff_accounts d)"
  let ?found = "filter (\<lambda>r. sf_phone r = ?key \<or> last_digits 9 (digits_of (sf_phone r)) = phoneDigitsSuffix ?key) (staff_accounts d)"
  let ?old = "sort_key sf_created_at (sort_key sf_id ?found)"
  let ?exact = "filter (\<lambda>r. sf_phone r = ?key) ?old" and ?rest = "filter (\<lambda>r. sf_phone r \<noteq> ?key) ?old"
  have P: "?P r \<longleftrightarrow> same_number phone r" for r by (auto simp: same_number_def)
  have st: "st = map_option scanStaff (find ?P ?rows)" and d': "d' = d"
    using assms by (auto simp: getByPhone_def Let_def elim!: go_elim)
  have rows: "?rows = ?exact @ ?rest" by (simp add: phone_candidates_def Let_def)
  have all: "x \<in> set ?rows" if "x \<in> set (staff_accounts d)" "same_number phone x" for x
    using that by (intro candidate_of_key) (auto simp: same_number_def)
  have sub: "set ?rows \<subseteq> set (staff_accounts d)" by (auto simp: set_phone_candidates)
  show ?thesis
  proof (cases "find ?P ?rows")
    case None
    then have "\<not> same_number phone x" if "x \<in> set ?rows" for x using that P by (auto simp: find_None_iff)
    then show ?thesis using None st d' all by auto
  next
    case (Some r)
    have r: "r \<in> set ?rows" "same_number phone r" using find_Some_mem [OF Some] P by auto
    have "preferred phone r x" if x: "x \<in> set (staff_accounts d)" "same_number phone x" for x
    proof (cases "find ?P ?exact")
      case found: (Some e)
      then have e: "e = r" using Some by (simp add: rows find_append)
      have s: "sorted (map sf_created_at ?exact)" by (intro sorted_filter sorted_sort_key)
      have "sf_phone r = ?key" using find_Some_mem [OF found] e by auto
      moreover have "sf_created_at r \<le> sf_created_at x" if "sf_phone x = ?key"
        using find_first [OF found [unfolded e] s] all [OF x] that by (simp add: rows)
      ultimately show ?thesis by (auto simp: preferred_def Let_def)
    next
      case none: None
      then have f: "find ?P ?rest = Some r" using Some by (simp add: rows find_append)
      have s: "sorted (map sf_created_at ?rest)" by (intro sorted_filter sorted_sort_key)
      have nx: "sf_phone x \<noteq> ?key"
      proof
        assume k: "sf_phone x = ?key"
        then have "x \<in> set ?exact" using all [OF x] by (auto simp: rows)
        then show False using none k by (auto simp: find_None_iff)
      qed
      have "sf_phone r \<noteq> ?key" using find_Some_mem [OF f] by simp
      moreover have "sf_created_at r \<le> sf_created_at x"
        using find_first [OF f s] all [OF x] nx x(2) by (auto simp: rows same_number_def)
      ultimately show ?thesis using nx by (simp add: preferred_def Let_def)
    qed
    then show ?thesis using Some st d' r sub by auto
  qed
qed

section \<open>Runs of the service\<close>

locale staff_relation = db_relation D for D :: "db \<Rightarrow> db \<Rightarrow> bool"

sublocale staff_relation \<subseteq> service: run_relation "\<lambda>s s'. D (tables (sv_world s)) (tables (sv_world s'))"
  by unfold_locales (auto intro: D_refl D_trans)

context staff_relation
begin

lemma on_tables_stays: "stays m \<Longrightarrow> service.stays (on_tables m)"
proof (rule service.staysI)
  fix s r s'
  assume m: "stays m" and run: "on_tables m s = (r, s')"
  obtain q w where q: "m (sv_world s) = (q, w)" by fastforce
  from staysD [OF m q] run q show "D (tables (sv_world s)) (tables (sv_world s'))" by (auto simp: on_tables_def)
qed

lemma memory_stays:
  "service.stays (ip_allow ip)" "service.stays (phone_allow p)" "service.stays (phone_reset p)"
  "service.stays (newSessionToken E)" "service.stays (hashPassword E p)"
  "service.stays sv_clock"
  by (auto simp: sv_clock_def service.stays_def ip_allow_def phone_allow_def phone_reset_def newSessionToken_def hashPassword_def D_refl
      split: prod.split option.split)

lemma lookup_stays: "stays (getByPhone p)" "stays (GetStaffByID i)" "stays (getActiveByHash h)"
  unfolding getByPhone_def GetStaffByID_def getActiveByHash_def Let_def
  by (intro stays_bind stays_basic stays_query)+

end

text \<open>
  What a relation must keep of the operations on the two tables, for every run of the service to keep
  it; the rest of the program moves neither table.
\<close>

locale staff_contract = staff_relation D for D :: "db \<Rightarrow> db \<Rightarrow> bool" +
  assumes elsewhere: "staff_accounts d' = staff_accounts d \<Longrightarrow> staff_sessions d' = staff_sessions d \<Longrightarrow> D d d'"
    and account_ops: "stays (Create_staff env ci)" "stays (Update_staff env sid ui)" "stays (SetPassword sid h)"
      "stays (withTx (ensure_owner_tx env ph h nm))"
    and session_ops: "stays (create_session env sid h x)" "stays (revokeByHash h)" "stays (revokeAllForStaff sid)"
begin

lemma services:
  "service.stays (CreateStaff E inp)" "service.stays (UpdateStaff E sid upd)" "service.stays (ResetPassword E sid pw)"
  "service.stays (EnsureOwner E ph pw nm)" "service.stays (Login E ip ph pw)" "service.stays (LogoutStaff E tok)"
  "service.stays (authenticatedStaff E tok)"
proof -
  note rules = service.stays_intros memory_stays on_tables_stays lookup_stays account_ops session_ops
  show "service.stays (CreateStaff E inp)" unfolding CreateStaff_def by (intro rules)
  show "service.stays (UpdateStaff E sid upd)" unfolding UpdateStaff_def by (intro rules)
  show "service.stays (ResetPassword E sid pw)" unfolding ResetPassword_def by (intro rules)
  show "service.stays (EnsureOwner E ph pw nm)" unfolding EnsureOwner_def Let_def by (intro rules)
  show "service.stays (LogoutStaff E tok)" unfolding LogoutStaff_def by (intro rules)
  show "service.stays (authenticatedStaff E tok)" unfolding authenticatedStaff_def by (intro rules)
  show "service.stays (Login E ip ph pw)" unfolding Login_def Let_def by (intro rules)
qed

end

section \<open>Owners\<close>

text \<open>Identifiers are unique and there is an owner who can log in.\<close>

definition owned :: "db \<Rightarrow> bool" where
  "owned d \<longleftrightarrow> distinct (map sf_id (staff_accounts d)) \<and> (\<exists>r \<in> set (staff_accounts d). active_owner r)"

definition owned_le :: "db \<Rightarrow> db \<Rightarrow> bool" where
  "owned_le d d' \<longleftrightarrow> (owned d \<longrightarrow> owned d')"

interpretation owners: staff_relation owned_le
  by unfold_locales (auto simp: owned_le_def)

lemma update_staff_rows [simp]:
  "staff_accounts (update_staff P f d) = map (\<lambda>r. if P r then f r else r) (staff_accounts d)"
  "staff_sessions (update_staff P f d) = staff_sessions d" "clock (update_staff P f d) = clock d"
  by (simp_all add: update_staff_def)

lemma revoke_sessions_rows [simp]:
  "staff_accounts (revoke_sessions P d) = staff_accounts d"
  "staff_sessions (revoke_sessions P d) = map (\<lambda>r. if P r \<and> ss_revoked_at r = None
     then r\<lparr>ss_revoked_at := Some (clock d)\<rparr> else r) (staff_sessions d)"
  by (simp_all add: revoke_sessions_def)

lemma map_update_ids: "(\<And>r. k (f r) = k r) \<Longrightarrow> map k (map (\<lambda>r. if P r then f r else r) xs) = map k xs"
  by (induction xs) auto

lemma owned_update:
  assumes "owned d" "\<And>r. sf_id (f r) = sf_id r" "\<And>r. r \<in> set (staff_accounts d) \<Longrightarrow> P r \<Longrightarrow> active_owner r \<Longrightarrow> active_owner (f r)"
  shows "owned (update_staff P f d)"
proof -
  obtain r where "r \<in> set (staff_accounts d)" "active_owner r" using assms(1) by (auto simp: owned_def)
  then have "\<exists>r' \<in> set (staff_accounts (update_staff P f d)). active_owner r'"
    using assms(3) by (intro bexI [of _ "if P r then f r else r"]) auto
  then show ?thesis using assms(1,2) unfolding owned_def update_staff_rows by (simp only: map_update_ids)
qed

lemma owned_other:
  assumes o: "owned d" and r: "r \<in> set (staff_accounts d)" "active_owner r" "\<not> P r" and f: "\<And>r. sf_id (f r) = sf_id r"
  shows "owned (update_staff P f d)"
proof -
  have "r \<in> set (staff_accounts (update_staff P f d))"
    using r by (auto simp: image_iff intro!: bexI [of _ r])
  moreover have "map sf_id (staff_accounts (update_staff P f d)) = map sf_id (staff_accounts d)"
    by (simp only: update_staff_rows map_update_ids f)
  ultimately show ?thesis using r(2) o unfolding owned_def by metis
qed

lemma insert_staff_effect:
  assumes "insert_staff env inp d = Inr (m, d')"
  shows "\<exists>r. m = scanStaff r \<and> d' = d\<lparr>staff_accounts := staff_accounts d @ [r], id_count := Suc (id_count d)\<rparr> \<and>
    sf_id r \<notin> sf_id ` set (staff_accounts d) \<and> sf_phone r \<notin> sf_phone ` set (staff_accounts d) \<and>
    sf_phone r = sc_Phone inp \<and> sf_role r = sc_Role inp \<and> sf_is_active r \<and> sf_password_hash r = sc_PasswordHash inp"
proof -
  let ?r = "\<lparr>sf_id = gen_uuid env (id_count d), sf_phone = sc_Phone inp, sf_password_hash = sc_PasswordHash inp,
    sf_name = sc_Name inp, sf_role = sc_Role inp, sf_point_id = sc_PointID inp, sf_is_active = True, sf_created_at = clock d\<rparr>"
  have "m = scanStaff ?r" "d' = d\<lparr>staff_accounts := staff_accounts d @ [?r], id_count := Suc (id_count d)\<rparr>"
    "\<not> (\<exists>x \<in> set (staff_accounts d). sf_id x = sf_id ?r \<or> sf_phone x = sf_phone ?r)"
    using assms unfolding insert_staff_def Let_def by (auto simp del: bex_simps split: if_split_asm option.splits)
  then show ?thesis by (intro exI [of _ ?r]) (simp add: image_iff, metis)
qed

lemma owned_insert: "insert_staff env inp d = Inr (m, d') \<Longrightarrow> owned d \<Longrightarrow> owned d'"
proof -
  assume "insert_staff env inp d = Inr (m, d')" and o: "owned d"
  from insert_staff_effect [OF this(1)] obtain r where
      r: "d' = d\<lparr>staff_accounts := staff_accounts d @ [r], id_count := Suc (id_count d)\<rparr>" "sf_id r \<notin> sf_id ` set (staff_accounts d)"
    by blast
  have rows: "staff_accounts d' = staff_accounts d @ [r]" by (simp add: r(1))
  show ?thesis using o r(2) unfolding owned_def rows by simp
qed

lemma owned_same: "staff_accounts d' = staff_accounts d \<Longrightarrow> owned_le d d'"
  by (simp add: owned_le_def owned_def)

lemma owned_revoke: "owned (revoke_sessions P d) \<longleftrightarrow> owned d"
  by (simp add: owned_def)

lemma Update_staff_owned:
  assumes "yields (Update_staff env sid inp) d m d'" "owned d"
  shows "owned d'"
proof -
  from assms(1) obtain cur pw where cur: "find (\<lambda>r. sf_id r = sid) (staff_accounts d) = Some cur"
    and guard: "sf_role cur = RoleOwner \<and> sf_is_active cur \<and> (su_Role inp \<noteq> RoleOwner \<or> \<not> su_IsActive inp) \<longrightarrow>
      filter (\<lambda>r. active_owner r \<and> sf_id r \<noteq> sid) (staff_accounts d) \<noteq> []"
    and w: "write_staff env sid inp pw d = Inr (m, d')"
    unfolding Update_staff_def countOtherActiveOwners_def
    by (auto elim!: yields_withTx yields_bind yields_query yields_fail yields_return yields_attempt
        split: option.splits if_splits sum.splits)
  let ?P = "\<lambda>r. sf_id r = sid"
  let ?f = "\<lambda>r. r\<lparr>sf_name := su_Name inp, sf_role := su_Role inp, sf_point_id := su_PointID inp,
    sf_is_active := su_IsActive inp, sf_password_hash := pw\<rparr>"
  from w have d': "d' = update_staff ?P ?f d"
    unfolding write_staff_def Let_def by (auto split: option.splits)
  have cm: "cur \<in> set (staff_accounts d)" "sf_id cur = sid" using find_Some_mem [OF cur] by auto
  show ?thesis
  proof (cases "active_owner cur \<and> (su_Role inp \<noteq> RoleOwner \<or> \<not> su_IsActive inp)")
    case True
    then have "filter (\<lambda>r. active_owner r \<and> sf_id r \<noteq> sid) (staff_accounts d) \<noteq> []"
      using guard by (simp add: active_owner_def)
    then obtain r where "r \<in> set (staff_accounts d)" "active_owner r" "sf_id r \<noteq> sid" by (auto simp: filter_empty_conv)
    then show ?thesis unfolding d' by (intro owned_other [OF assms(2)]) simp_all
  next
    case False
    have one: "r = cur" if "r \<in> set (staff_accounts d)" "sf_id r = sid" for r
      using distinct_map_eqD [of sf_id "staff_accounts d" r cur] that cm assms(2) by (simp add: owned_def)
    show ?thesis unfolding d'
    proof (rule owned_update [OF assms(2)])
      fix r assume "r \<in> set (staff_accounts d)" "sf_id r = sid" "active_owner r"
      then show "active_owner (?f r)" using one False by (auto simp: active_owner_def)
    qed simp
  qed
qed

lemma owner_calls:
  "owners.stays (Create_staff env ci)" "owners.stays (Update_staff env sid ui)" "owners.stays (SetPassword sid h)"
  "owners.stays (create_session env i h x)" "owners.stays (revokeByHash h)" "owners.stays (revokeAllForStaff sid)"
  "owners.stays (withTx (ensure_owner_tx env ph h nm))"
proof -
  have ins: "owners.stays (stmt (insert_staff env ci))" for ci
    using owned_insert by (intro owners.stays_stmt) (simp add: owned_le_def)
  then show "owners.stays (Create_staff env ci)"
    unfolding Create_staff_def by (intro owners.stays_intros owners.lookup_stays)
  show "owners.stays (Update_staff env sid ui)"
  proof (rule owners.stays_committed)
    show "tables w' = tables w" if "Update_staff env sid ui w = (Inl e, w')" for w e w'
      using that unfolding Update_staff_def by (rule withTx_error)
  qed (use Update_staff_owned in \<open>simp add: owned_le_def\<close>)
  show "owners.stays (SetPassword sid h)"
    unfolding SetPassword_def
    by (intro owners.stays_intros owners.stays_stmt) (auto simp: owned_le_def active_owner_def intro!: owned_update)
  show sess: "owners.stays (create_session env i h x)" "owners.stays (revokeByHash h)" "owners.stays (revokeAllForStaff sid)"
    unfolding create_session_def revokeByHash_def revokeAllForStaff_def
    by (auto intro!: owners.stays_stmt owners.stays_exec owned_same split: if_splits)
  have "owners.stays (resetOwner i h)" for i h
    unfolding resetOwner_def
    by (intro owners.stays_bind owners.stays_exec) (auto simp: owned_le_def active_owner_def owned_revoke intro!: owned_update)
  then have "owners.stays (ensure_owner_tx env ph h nm)"
    unfolding ensure_owner_tx_def insertOwner_def by (intro owners.stays_intros owners.lookup_stays ins)
  then show "owners.stays (withTx (ensure_owner_tx env ph h nm))"
    by (rule owners.stays_tx)
qed

end
