(* ===== verification/StaffRoutes.thy ===== *)
theory StaffRoutes
  imports StaffFacts Notices
begin

text \<open>
  The JSON routes behind the staff cookie: \<^verbatim>\<open>internal/staff/routes.go\<close> and the three order routes of
  \<^verbatim>\<open>internal/httpapi/admin_orders.go\<close> as they are mounted, each handler inside \<^verbatim>\<open>RequireRole\<close>. A route
  is its handler on the decoded body (\<^verbatim>\<open>json.Decode\<close>'s failure included), the client's address and
  the cookie; its result is the body of the answer or the error that \<^verbatim>\<open>apperr.Wrap\<close> writes.
\<close>

section \<open>The routes\<close>

definition sessionCookieMaxAge :: int where
  "sessionCookieMaxAge = sessionTTL div usec_per_sec"

text \<open>A \<^verbatim>\<open>Set-Cookie\<close> of \<^verbatim>\<open>setSessionCookie\<close>: its value and \<^verbatim>\<open>Max-Age\<close>.\<close>

definition login_route :: "staff_env \<Rightarrow> string \<Rightarrow> (string \<times> string) option \<Rightarrow> (string \<times> int) staff" where
  "login_route E ip body =
     (case body of
        None \<Rightarrow> failG (AppError (BadRequest ''bad_request''))
      | Some (phone, password) \<Rightarrow>
          bindG (Login E ip phone password) (\<lambda>tok. returnG (tok, sessionCookieMaxAge)))"

definition logout_route :: "staff_env \<Rightarrow> string option \<Rightarrow> (string \<times> int) staff" where
  "logout_route E cookie =
     bindG (case cookie of None \<Rightarrow> returnG () | Some v \<Rightarrow> if v = [] then returnG () else LogoutStaff E v)
       (\<lambda>_. returnG ([], -1))"

record staffResponse =
  sr_ID :: string
  sr_Phone :: string
  sr_Name :: string
  sr_Role :: Role
  sr_PointID :: "string option"
  sr_IsActive :: bool
  sr_CreatedAt :: int

definition newStaffResponse :: "StaffMember \<Rightarrow> staffResponse" where
  "newStaffResponse s = \<lparr>sr_ID = st_ID s, sr_Phone = st_Phone s, sr_Name = st_Name s, sr_Role = st_Role s,
     sr_PointID = st_PointID s, sr_IsActive = st_IsActive s, sr_CreatedAt = st_CreatedAt s\<rparr>"

definition listStaffHandler :: "staffResponse list staff" where
  "listStaffHandler = bindG ListStaff (\<lambda>l. returnG (map newStaffResponse l))"

definition createStaffHandler :: "staff_env \<Rightarrow> CreateStaffInput option \<Rightarrow> staffResponse staff" where
  "createStaffHandler E body =
     (case body of
        None \<Rightarrow> failG (AppError (BadRequest ''bad_request''))
      | Some req \<Rightarrow> bindG (CreateStaff E req) (\<lambda>st. returnG (newStaffResponse st)))"

definition updateStaffHandler :: "staff_env \<Rightarrow> string \<Rightarrow> UpdateStaffInput option \<Rightarrow> staffResponse staff" where
  "updateStaffHandler E sid body =
     (case body of
        None \<Rightarrow> failG (AppError (BadRequest ''bad_request''))
      | Some req \<Rightarrow> bindG (UpdateStaff E sid req) (\<lambda>st. returnG (newStaffResponse st)))"

definition list_staff_route :: "staff_env \<Rightarrow> string option \<Rightarrow> staffResponse list staff" where
  "list_staff_route E cookie = RequireRole E {RoleOwner} cookie (\<lambda>_. listStaffHandler)"

definition create_staff_route :: "staff_env \<Rightarrow> string option \<Rightarrow> CreateStaffInput option \<Rightarrow> staffResponse staff" where
  "create_staff_route E cookie body = RequireRole E {RoleOwner} cookie (\<lambda>_. createStaffHandler E body)"

definition update_staff_route ::
  "staff_env \<Rightarrow> string option \<Rightarrow> string \<Rightarrow> UpdateStaffInput option \<Rightarrow> staffResponse staff" where
  "update_staff_route E cookie sid body = RequireRole E {RoleOwner} cookie (\<lambda>_. updateStaffHandler E sid body)"

text \<open>\<^verbatim>\<open>FromContext\<close> in the order handlers: the part of the account they read.\<close>

definition from_context :: "StaffMember \<Rightarrow> Staff option" where
  "from_context m = Some (Staff.truncate m)"

definition allRoles :: "Role set" where
  "allRoles = {RoleOwner, RoleManager, RolePointStaff}"

definition list_orders_route ::
  "staff_env \<Rightarrow> (string \<Rightarrow> string \<Rightarrow> bool) \<Rightarrow> string option \<Rightarrow> go_error + AdminListFilter \<Rightarrow> (Order list \<times> int) staff" where
  "list_orders_route E ilike cookie parsed =
     RequireRole E allRoles cookie (\<lambda>m. on_tables (listAdminOrdersHandler ilike (from_context m) parsed))"

definition get_order_route :: "staff_env \<Rightarrow> string option \<Rightarrow> string \<Rightarrow> Order staff" where
  "get_order_route E cookie k =
     RequireRole E allRoles cookie (\<lambda>m. on_tables (getAdminOrderHandler (base_env E) (from_context m) k))"

definition order_status_route :: "staff_env \<Rightarrow> string option \<Rightarrow> string \<Rightarrow> go_error + string \<Rightarrow> Order staff" where
  "order_status_route E cookie k req =
     RequireRole E allRoles cookie (\<lambda>m. on_tables (updateAdminOrderStatusHandler (base_env E) (from_context m) k req))"

section \<open>Who a cookie is\<close>

text \<open>The account behind a session token: its session is open and it is active.\<close>

definition live_staff :: "staff_env \<Rightarrow> db \<Rightarrow> string \<Rightarrow> staff_row \<Rightarrow> bool" where
  "live_staff E d raw a \<longleftrightarrow> a \<in> set (staff_accounts d) \<and> sf_is_active a \<and>
     (\<exists>x \<in> set (staff_sessions d). ss_token_hash x = hashSessionToken E raw \<and> ss_staff_id x = sf_id a \<and>
        session_active d x)"

definition silent :: "staff_state \<Rightarrow> staff_state \<Rightarrow> bool" where
  "silent s s' \<longleftrightarrow> tables (sv_world s') = tables (sv_world s) \<and> notices (sv_world s') = notices (sv_world s)"

interpretation silent: run_relation silent
  by unfold_locales (auto simp: silent_def)

lemma silent_query: "silent.stays (on_tables (query f))"
proof (rule silent.staysI)
  fix s r s'
  assume run: "on_tables (query f) s = (r, s')"
  obtain q w where q: "query f (sv_world s) = (q, w)" by fastforce
  have "tables w = tables (sv_world s)" "notices w = notices (sv_world s)"
    using tables_query [of f "sv_world s"] quiet_snd [OF quiet_basic(4) q] q by simp_all
  then show "silent s s'" using run q by (auto simp: on_tables_def silent_def)
qed

lemma silent_auth: "silent.stays (authenticatedStaff E raw)"
  unfolding authenticatedStaff_def getActiveByHash_def GetStaffByID_def
  by (intro silent.stays_intros silent_query)

lemma on_tables_yields: "on_tables m s = (Inr x, s') \<Longrightarrow> yields m (tables (sv_world s)) x (tables (sv_world s'))"
  by (auto simp: on_tables_def split: prod.splits intro!: yieldsI)

lemma authenticated_effect:
  assumes run: "authenticatedStaff E raw s = (Inr (Some m), s')"
  shows "\<exists>a. live_staff E (tables (sv_world s)) raw a \<and> m = scanStaff a"
proof -
  let ?d = "tables (sv_world s)"
  let ?P = "\<lambda>r. ss_token_hash r = hashSessionToken E raw \<and> session_active ?d r"
  obtain se s1 where g: "on_tables (getActiveByHash (hashSessionToken E raw)) s = (Inr (Some se), s1)"
    and h: "on_tables (GetStaffByID (se_StaffID se)) s1 = (Inr (Some m), s')" and act: "st_IsActive m"
    using run unfolding authenticatedStaff_def by (auto elim!: run_elim split: option.splits if_splits)
  obtain x where x: "find ?P (staff_sessions ?d) = Some x" "se_StaffID se = ss_staff_id x"
    and t: "tables (sv_world s1) = ?d"
    using on_tables_yields [OF g] by (auto simp: getActiveByHash_def elim!: yields_query dest!: sym [of "Some se"])
  obtain a where a: "find (\<lambda>r. sf_id r = se_StaffID se) (staff_accounts ?d) = Some a" "m = scanStaff a"
    using on_tables_yields [OF h] t by (auto simp: GetStaffByID_def elim!: yields_query dest!: sym [of "Some m"])
  have "live_staff E ?d raw a"
    unfolding live_staff_def using find_Some_mem [OF x(1)] find_Some_mem [OF a(1)] x(2) a(2) act
    by (auto simp: scanStaff_def)
  then show ?thesis using a(2) by blast
qed

lemma RequireRole_cases:
  assumes run: "RequireRole E roles cookie next s = (res, s')"
  obtains (refused) e where "res = Inl e" "silent s s'"
  | (passed) raw a s1 where "cookie = Some raw" "live_staff E (tables (sv_world s)) raw a" "sf_role a \<in> roles"
      "silent s s1" "next (scanStaff a) s1 = (res, s')"
proof (cases "cookie = None \<or> cookie = Some []")
  case True
  then show thesis using run refused silent.R_refl by (auto simp: RequireRole_def failG_def)
next
  case False
  then obtain raw where raw: "cookie = Some raw" "raw \<noteq> []" by auto
  obtain q s1 where q: "authenticatedStaff E raw s = (q, s1)" by fastforce
  have s1: "silent s s1" by (rule silent.staysD [OF silent_auth q])
  show thesis
  proof (cases "\<exists>m. q = Inr (Some m) \<and> st_Role m \<in> roles")
    case True
    then obtain m where m: "q = Inr (Some m)" "st_Role m \<in> roles" by blast
    then obtain a where a: "live_staff E (tables (sv_world s)) raw a" "m = scanStaff a"
      using authenticated_effect [of E raw s m s1] q by auto
    have "next (scanStaff a) s1 = (res, s')" using run raw q m a(2) by (simp add: RequireRole_def bindG_def)
    then show thesis using passed [OF raw(1) a(1)] s1 m(2) a(2) by (simp add: scanStaff_def)
  next
    case False
    then show thesis using run raw q s1 refused
      by (auto simp: RequireRole_def bindG_def failG_def split: sum.splits option.splits if_splits)
  qed
qed

end
