(* ===== verification/StaffRuns.thy ===== *)
theory StaffRuns
  imports StaffRoutes
begin

text \<open>
  Runs of the staff service over days: calls in any order, with the rest of the program moving its own
  tables and time passing in between. Two contracts are interpreted over them: an owner who can log
  in stays, and a closed session stays closed.
\<close>

inductive staff_call :: "staff_env \<Rightarrow> staff_state \<Rightarrow> staff_state \<Rightarrow> bool" for E where
  login: "staff_call E s (snd (Login E ip phone password s))"
| logout: "staff_call E s (snd (LogoutStaff E tok s))"
| request: "staff_call E s (snd (authenticatedStaff E tok s))"
| create: "staff_call E s (snd (CreateStaff E inp s))"
| update: "staff_call E s (snd (UpdateStaff E sid upd s))"
| reset_password: "staff_call E s (snd (ResetPassword E sid password s))"
| ensure_owner: "staff_call E s (snd (EnsureOwner E phone password name s))"
| elsewhere: "staff_accounts (tables w) = staff_accounts (tables (sv_world s)) \<Longrightarrow>
    staff_sessions (tables w) = staff_sessions (tables (sv_world s)) \<Longrightarrow> staff_call E s (s\<lparr>sv_world := w\<rparr>)"

context staff_contract
begin

lemma call_keeps: "staff_call E s s' \<Longrightarrow> D (tables (sv_world s)) (tables (sv_world s'))"
  by (induction rule: staff_call.induct) (use services in \<open>auto simp: service.stays_def intro: elsewhere\<close>)

lemma calls_keep: "(staff_call E)\<^sup>*\<^sup>* s s' \<Longrightarrow> D (tables (sv_world s)) (tables (sv_world s'))"
  by (induction rule: rtranclp_induct) (auto intro: D_refl D_trans call_keeps)

end

interpretation owner_runs: staff_contract owned_le
  by unfold_locales (auto intro: owned_same owner_calls)

section \<open>Closed sessions\<close>

text \<open>There is a session with this token hash, and it was revoked.\<close>

definition session_closed :: "string \<Rightarrow> db \<Rightarrow> bool" where
  "session_closed h d \<longleftrightarrow> h \<in> ss_token_hash ` set (staff_sessions d) \<and>
     (\<forall>x \<in> set (staff_sessions d). ss_token_hash x = h \<longrightarrow> ss_revoked_at x \<noteq> None)"

definition closed_le :: "string \<Rightarrow> db \<Rightarrow> db \<Rightarrow> bool" where
  "closed_le h d d' \<longleftrightarrow> (session_closed h d \<longrightarrow> session_closed h d')"

interpretation closed: staff_relation "closed_le h" for h
  by unfold_locales (auto simp: closed_le_def)

lemma closed_same: "staff_sessions d' = staff_sessions d \<Longrightarrow> closed_le h d d'"
  by (simp add: closed_le_def session_closed_def)

lemma closed_revoke: "closed_le h d (revoke_sessions P d)"
  by (auto simp: closed_le_def session_closed_def image_iff)

lemma insert_staff_sessions: "insert_staff env inp d = Inr (m, d') \<Longrightarrow> staff_sessions d' = staff_sessions d"
  using insert_staff_effect by fastforce

text \<open>The operations on accounts leave the sessions alone.\<close>

interpretation sessions_kept: staff_relation "\<lambda>d d'. staff_sessions d' = staff_sessions d"
  by unfold_locales auto

lemma accounts_keep_sessions:
  "sessions_kept.stays (Create_staff env ci)" "sessions_kept.stays (Update_staff env sid ui)"
  "sessions_kept.stays (SetPassword sid pw)" "sessions_kept.stays (stmt (insert_staff env ci))"
proof -
  show ins: "sessions_kept.stays (stmt (insert_staff env ci))" for ci
    by (intro sessions_kept.stays_stmt insert_staff_sessions)
  show "sessions_kept.stays (Create_staff env ci)"
    unfolding Create_staff_def by (intro sessions_kept.stays_intros sessions_kept.lookup_stays ins)
  have wr: "sessions_kept.stays (stmt (write_staff env sid ui p))" for p
    by (intro sessions_kept.stays_stmt) (auto simp: write_staff_def Let_def split: option.splits)
  show "sessions_kept.stays (Update_staff env sid ui)"
    unfolding Update_staff_def countOtherActiveOwners_def
    by (intro sessions_kept.stays_tx sessions_kept.stays_intros sessions_kept.stays_query wr)
  show "sessions_kept.stays (SetPassword sid pw)"
    unfolding SetPassword_def by (intro sessions_kept.stays_intros sessions_kept.stays_stmt) auto
qed

lemma closed_kept: "sessions_kept.stays m \<Longrightarrow> closed.stays h m"
  by (simp add: sessions_kept.stays_def closed.stays_def closed_same)

lemma closed_calls:
  "closed.stays h (create_session env i h' x)" "closed.stays h (revokeByHash h')" "closed.stays h (revokeAllForStaff sid)"
  "closed.stays h (withTx (ensure_owner_tx env ph pw nm))"
proof -
  show "closed.stays h (create_session env i h' x)"
    unfolding create_session_def
    by (intro closed.stays_stmt) (fastforce simp: closed_le_def session_closed_def split: if_splits)
  show "closed.stays h (revokeByHash h')" "closed.stays h (revokeAllForStaff sid)"
    unfolding revokeByHash_def revokeAllForStaff_def by (intro closed.stays_exec closed_revoke)+
  have "closed.stays h (resetOwner i p)" for i p
    unfolding resetOwner_def by (intro closed.stays_bind closed.stays_exec closed_revoke closed_same) simp
  then have "closed.stays h (ensure_owner_tx env ph pw nm)"
    unfolding ensure_owner_tx_def insertOwner_def
    by (intro closed.stays_intros closed.lookup_stays closed_kept [OF accounts_keep_sessions(4)])
  then show "closed.stays h (withTx (ensure_owner_tx env ph pw nm))"
    by (rule closed.stays_tx)
qed

interpretation closed_runs: staff_contract "closed_le h" for h
  by unfold_locales (rule closed_same closed_calls accounts_keep_sessions [THEN closed_kept] | assumption)+

text \<open>What closes a session: a revocation that covers its row.\<close>

lemma revoke_closes:
  assumes "x \<in> set (staff_sessions d)" "ss_token_hash x = h" "\<And>y. y \<in> set (staff_sessions d) \<Longrightarrow> ss_token_hash y = h \<Longrightarrow> P y"
  shows "session_closed h (revoke_sessions P d)"
proof -
  let ?f = "\<lambda>r. if P r \<and> ss_revoked_at r = None then r\<lparr>ss_revoked_at := Some (clock d)\<rparr> else r"
  have f: "ss_token_hash (?f r) = ss_token_hash r" "P r \<Longrightarrow> ss_revoked_at (?f r) \<noteq> None" for r by auto
  have "h = ss_token_hash (?f x)" using f(1) [of x] assms(2) by simp
  moreover have "ss_revoked_at (?f y) \<noteq> None" if "y \<in> set (staff_sessions d)" "ss_token_hash (?f y) = h" for y
    using that assms(3) [of y] f by metis
  ultimately show ?thesis
    unfolding session_closed_def revoke_sessions_rows set_map image_image ball_simps using assms(1) by blast
qed

lemma exec_tables: "on_tables (exec f) s = (Inr u, s') \<Longrightarrow> tables (sv_world s') = f (tables (sv_world s))"
  using on_tables_yields [of "exec f" s u s'] by (auto elim!: yields_exec)

lemma logout_closes:
  assumes "LogoutStaff E raw s = (Inr u, s')" "raw \<noteq> []" "live_staff E (tables (sv_world s)) raw a"
  shows "session_closed (hashSessionToken E raw) (tables (sv_world s'))"
proof -
  have "tables (sv_world s') = revoke_sessions (\<lambda>r. ss_token_hash r = hashSessionToken E raw) (tables (sv_world s))"
    using assms(1,2) by (auto simp: LogoutStaff_def revokeByHash_def dest: exec_tables)
  moreover obtain x where "x \<in> set (staff_sessions (tables (sv_world s)))" "ss_token_hash x = hashSessionToken E raw"
    using assms(3) by (auto simp: live_staff_def)
  ultimately show ?thesis using revoke_closes [of x] by simp
qed

lemma revoke_all_closes:
  assumes live: "live_staff E d raw a" and uniq: "distinct (map ss_token_hash (staff_sessions d))"
    and same: "staff_sessions d' = staff_sessions d"
  shows "session_closed (hashSessionToken E raw) (revoke_sessions (\<lambda>r. ss_staff_id r = sf_id a) d')"
proof -
  obtain x where x: "x \<in> set (staff_sessions d)" "ss_token_hash x = hashSessionToken E raw" "ss_staff_id x = sf_id a"
    using live by (auto simp: live_staff_def)
  then have one: "y = x" if "y \<in> set (staff_sessions d)" "ss_token_hash y = hashSessionToken E raw" for y
    using distinct_map_eqD [of ss_token_hash "staff_sessions d" y x] that uniq by simp
  show ?thesis
  proof (rule revoke_closes [OF _ x(2)])
    show "x \<in> set (staff_sessions d')" using x(1) same by simp
    fix y assume "y \<in> set (staff_sessions d')" "ss_token_hash y = hashSessionToken E raw"
    then have "y = x" using one same by simp
    then show "ss_staff_id y = sf_id a" using x(3) by simp
  qed
qed

lemma ResetPassword_tables:
  assumes "ResetPassword E sid pw s = (Inr u, s')"
  shows "\<exists>d. staff_sessions d = staff_sessions (tables (sv_world s)) \<and>
    tables (sv_world s') = revoke_sessions (\<lambda>r. ss_staff_id r = sid) d"
proof -
  obtain hash s1 s2 v where h: "hashPassword E pw s = (Inr hash, s1)" "on_tables (SetPassword sid hash) s1 = (Inr v, s2)"
    "on_tables (revokeAllForStaff sid) s2 = (Inr u, s')"
    using assms unfolding ResetPassword_def by (auto elim!: run_elim)
  have "staff_sessions (tables (sv_world s2)) = staff_sessions (tables (sv_world s))"
    using sessions_kept.service.staysD [OF sessions_kept.memory_stays(5) h(1)]
      sessions_kept.service.staysD [OF sessions_kept.on_tables_stays [OF accounts_keep_sessions(3)] h(2)] by simp
  then show ?thesis using h(3) by (auto simp: revokeAllForStaff_def dest: exec_tables)
qed

lemma UpdateStaff_tables:
  assumes "UpdateStaff E sid upd s = (Inr m, s')" "us_Password upd \<noteq> None \<or> \<not> us_IsActive upd"
  shows "\<exists>d. staff_sessions d = staff_sessions (tables (sv_world s)) \<and>
    tables (sv_world s') = revoke_sessions (\<lambda>r. ss_staff_id r = sid) d"
proof -
  let ?hash = "case us_Password upd of None \<Rightarrow> returnG None
    | Some p \<Rightarrow> bindG (liftG (validatePassword p)) (\<lambda>_. bindG (hashPassword E p) (\<lambda>h. returnG (Some h)))"
  obtain hash s1 s2 u inp where h: "?hash s = (Inr hash, s1)" "on_tables (Update_staff (base_env E) sid inp) s1 = (Inr m, s2)"
    "on_tables (revokeAllForStaff sid) s2 = (Inr u, s')"
    using assms unfolding UpdateStaff_def by (auto elim!: run_elim split: if_splits)
  have "sessions_kept.service.stays ?hash"
    by (intro sessions_kept.service.stays_intros sessions_kept.memory_stays)
  then have "staff_sessions (tables (sv_world s2)) = staff_sessions (tables (sv_world s))"
    using sessions_kept.service.staysD [of ?hash s "Inr hash" s1, OF _ h(1)]
      sessions_kept.service.staysD [OF sessions_kept.on_tables_stays [OF accounts_keep_sessions(2)] h(2)] by simp
  then show ?thesis using h(3) by (auto simp: revokeAllForStaff_def dest: exec_tables)
qed

lemma closed_not_live: "session_closed (hashSessionToken E raw) d \<Longrightarrow> \<not> live_staff E d raw a"
  by (auto simp: session_closed_def live_staff_def session_active_def)

end
