(* ===== verification/StaffProperties.thy ===== *)
theory StaffProperties
  imports StaffRuns LifecycleProperties
begin

text \<open>
  What the staff side guarantees: who a phone number logs in, what a login needs, when sessions end,
  that the shop keeps an owner, and who may act through the routes, down to the change of an order.
\<close>

section \<open>A staff member at work\<close>

text \<open>
  The shop of \<^verbatim>\<open>open_db\<close> with its owner and a worker of the second point; both passwords are checked by
  equality, the random tokens are numbered, and both have an open session.
\<close>

definition demo_staff :: staff_env where
  "demo_staff = \<lparr>base_env = demo_env, hashSessionToken = (\<lambda>t. CHR ''$'' # t),
     session_random = (\<lambda>n. Inr (CHR ''t'' # replicate n CHR ''r'')),
     bcrypt_generate = (\<lambda>n p. Inr (CHR ''!'' # p)), bcrypt_compare = (\<lambda>h p. h = CHR ''!'' # p)\<rparr>"

definition demo_owner :: staff_row where
  "demo_owner = \<lparr>sf_id = ''#own'', sf_phone = ''+996700000001'', sf_password_hash = ''!longsecret'', sf_name = ''Owner'',
     sf_role = RoleOwner, sf_point_id = None, sf_is_active = True, sf_created_at = 0\<rparr>"

definition demo_worker :: staff_row where
  "demo_worker = \<lparr>sf_id = ''#wrk'', sf_phone = ''0700 000 002'', sf_password_hash = ''!password'', sf_name = ''Worker'',
     sf_role = RolePointStaff, sf_point_id = Some ''#p2'', sf_is_active = True, sf_created_at = 1\<rparr>"

definition demo_session :: staff_session_row where
  "demo_session = \<lparr>ss_id = ''#s'', ss_staff_id = ''#wrk'', ss_token_hash = ''$old'',
     ss_expires_at = 20711 * usec_per_day, ss_revoked_at = None\<rparr>"

definition demo_boss :: staff_session_row where
  "demo_boss = \<lparr>ss_id = ''#b'', ss_staff_id = ''#own'', ss_token_hash = ''$boss'',
     ss_expires_at = 20711 * usec_per_day, ss_revoked_at = None\<rparr>"

definition staff_db :: db where
  "staff_db = open_db\<lparr>staff_accounts := [demo_owner, demo_worker], staff_sessions := [demo_session, demo_boss]\<rparr>"

lemma staff_tables [simp]:
  "staff_accounts staff_db = [demo_owner, demo_worker]" "staff_sessions staff_db = [demo_session, demo_boss]"
  "clock staff_db = 20710 * usec_per_day" "id_count staff_db = 1" "points staff_db = points demo_db"
  "orders staff_db = orders open_db" "payments staff_db = payments open_db" "stock staff_db = demo_stock"
  "order_items staff_db = order_items open_db" "order_status_history staff_db = order_status_history open_db"
  by (simp_all add: staff_db_def open_db_def)

lemma day_pos [simp]: "0 < usec_per_day" by (simp add: usec_per_day_def usec_per_sec_def)

lemma staff_consistent: "consistent staff_db"
proof -
  have "keys_ok staff_db" "links_ok staff_db" "stock_ok staff_db"
    using open_consistent by (simp_all add: consistent_def keys_ok_def links_ok_def stock_ok_def)
  moreover have "order_ok staff_db r \<longleftrightarrow> order_ok open_db r" for r
    by (simp add: order_ok_def pay_ok_def payments_of_def history_of_def settled_def)
  ultimately show ?thesis using open_consistent by (simp add: consistent_def)
qed

abbreviation demo_office :: staff_state where
  "demo_office \<equiv> NewStaffService (calm staff_db)"

section \<open>Orders through the panel's routes\<close>

lemma AdminGetOrder_silent:
  assumes "AdminGetOrder env k w = (r, w')"
  shows "tables w' = tables w" "notices w' = notices w"
proof -
  have "quiet (AdminGetOrder env k)"
    unfolding AdminGetOrder_def getOrderAnyCustomer_def select_order_def with_items_def attachItems_def StatusHistory_def
    by (auto intro!: quiet_intro split: option.split)
  then show "notices w' = notices w" using assms by (rule quiet_snd)
  have "reads_only (AdminGetOrder env k)"
    unfolding AdminGetOrder_def StatusHistory_def by (auto intro!: run_intro)
  then show "tables w' = tables w" using assms by (rule reads_only_snd)
qed

lemma AdminGetOrder_effect:
  assumes "AdminGetOrder env k w = (Inr ord, w')"
  shows "\<exists>r \<in> set (orders (tables w)). orderKeyPredicate env k r \<and> PointID ord = o_point_id r"
  using yieldsI [of "AdminGetOrder env k" w ord w', OF assms] unfolding AdminGetOrder_def getOrderAnyCustomer_def StatusHistory_def
  by (auto elim!: go_elim)

lemma one_order:
  assumes "consistent d" "r \<in> set (orders d)" "r' \<in> set (orders d)" "orderKeyPredicate env k r" "orderKeyPredicate env k r'"
  shows "r = r'"
  using assms distinct_map_eqD [of o_id "orders d" r r'] distinct_map_eqD [of o_order_number "orders d" r r']
  by (auto simp: consistent_def keys_ok_def orderKeyPredicate_def split: if_splits)

lemma order_route_run:
  assumes run: "updateAdminOrderStatusHandler env (from_context m) k req w = (res, w')" and i: "consistent (tables w)"
  obtains (refused) e where "res = Inl e" "tables w' = tables w" "notices w' = notices w"
  | (told) r status r' h where "staffCanAccessOrderPoint (Staff.truncate m) (o_point_id r)" "req = Inr status"
      "parse_status status = StatusCancelled \<longrightarrow> st_Role m = RoleOwner"
      "transition_told env k (parse_status status) res w w' r r' h"
proof -
  let ?st = "Staff.truncate m"
  obtain q w1 where q: "AdminGetOrder env k w = (q, w1)" by fastforce
  note same = AdminGetOrder_silent [OF q]
  show thesis
  proof (cases "\<exists>ord status. q = Inr ord \<and> staffCanAccessOrderPoint ?st (PointID ord) \<and> req = Inr status")
    case False
    then show thesis using run q same refused
      by (auto simp: updateAdminOrderStatusHandler_def from_context_def bindG_def failG_def liftG_def
          split: sum.splits if_splits)
  next
    case True
    then obtain ord status where o: "q = Inr ord" "staffCanAccessOrderPoint ?st (PointID ord)" "req = Inr status" by blast
    then have u: "AdminUpdateStatus env (Some ?st) k (parse_status status) w1 = (res, w')"
      using run q by (simp add: updateAdminOrderStatusHandler_def from_context_def bindG_def liftG_def)
    obtain r0 where r0: "r0 \<in> set (orders (tables w))" "orderKeyPredicate env k r0" "PointID ord = o_point_id r0"
      using AdminGetOrder_effect [of env k w ord w1] q o(1) by auto
    have i1: "consistent (tables w1)" using i same by simp
    from u i1 show thesis
    proof (cases rule: AdminUpdateStatus_cases)
      case (refused e)
      then show thesis using same that(1) by simp
    next
      case (told st r r' h)
      have t: "transition_told env k (parse_status status) res w w' r r' h"
        using told(3) same by (simp add: transition_told_def)
      then have "r = r0" using one_order [OF i _ r0(1) _ r0(2), of r] by (simp add: transition_told_def)
      then show thesis using that(2) [OF _ o(3) _ t] o(2) r0(3) told(1,2) by (auto simp: Staff.defs)
    qed
  qed
qed

text \<open>
  C25. \<^verbatim>\<open>PUT /admin/api/orders/{id}/status\<close>, from the cookie to the tables. Either the request was refused,
  with every table as it was and nobody told, or it came with the token of an open session of an
  active account, and an order changed the way C7 says: point staff can only have moved an order of
  their own point, and a cancellation can only be the owner's.
\<close>

theorem order_changes_need_staff:
  assumes "order_status_route E cookie k req s = (res, s')" and "consistent (tables (sv_world s))"
  shows "(\<exists>e. res = Inl e) \<and> silent s s' \<or>
    (\<exists>raw a status r r' h. cookie = Some raw \<and> live_staff E (tables (sv_world s)) raw a \<and> sf_role a \<in> allRoles \<and>
       (sf_role a = RolePointStaff \<longrightarrow> sf_point_id a \<noteq> None \<and> o_point_id r = sf_point_id a) \<and>
       req = Inr status \<and> (parse_status status = StatusCancelled \<longrightarrow> sf_role a = RoleOwner) \<and>
       transition_told (base_env E) k (parse_status status) res (sv_world s) (sv_world s') r r' h)"
  using assms(1) unfolding order_status_route_def
proof (cases rule: RequireRole_cases)
  case (passed raw a s1)
  let ?m = "updateAdminOrderStatusHandler (base_env E) (from_context (scanStaff a)) k req"
  have c: "consistent (tables (sv_world s1))" using assms(2) passed(4) by (simp add: silent_def)
  have run: "?m (sv_world s1) = (res, sv_world s')" using passed(5) by (auto simp: on_tables_def split: prod.splits)
  show ?thesis
    using run c
  proof (cases rule: order_route_run)
    case (refused e)
    then show ?thesis using passed(4) by (simp add: silent_def)
  next
    case (told r status r' h)
    have "transition_told (base_env E) k (parse_status status) res (sv_world s) (sv_world s') r r' h"
      using told(4) passed(4) by (simp add: transition_told_def silent_def)
    then show ?thesis using passed told
      by (intro disjI2 exI [of _ raw] exI [of _ a] exI [of _ status] exI [of _ r] exI [of _ r'] exI [of _ h])
         (auto simp: staffCanAccessOrderPoint_def scanStaff_def Staff.defs split: if_splits)
  qed
qed simp

lemma worker_confirms:
  "\<exists>ord s'. order_status_route demo_staff (Some ''old'') ''#o1'' (Inr ''confirmed'') demo_office = (Inr ord, s')"
  by (simp add: order_status_route_def RequireRole_def authenticatedStaff_def on_tables_def getActiveByHash_def GetStaffByID_def
      demo_staff_def NewStaffService_def demo_session_def session_active_def demo_owner_def demo_worker_def allRoles_def
      go_eval scanStaff_def Staff.defs from_context_def updateAdminOrderStatusHandler_def AdminGetOrder_def
      getOrderAnyCustomer_def select_order_def orderKeyPredicate_def demo_uuid_def with_items_def attachItems_def
      StatusHistory_def staffCanAccessOrderPoint_def parse_status_def Let_def cong: run_congs)
     (simp add: AdminUpdateStatus_def staffActor_def admin_update_tx_def lockOrderTx_def select_order_def go_eval
      orderKeyPredicate_def demo_uuid_def transitionLockedTx_def validStatusTransition_def paymentAllowsConfirm_def
      update_order_returning_def update_orders_def order_check_def recordStatusTx_def insert_history_def Let_def
      enrich_then_notify_def attachItems_def decimal_code cong: run_congs)

theorem order_changes_need_staff_witness:
  "\<exists>res s' r'. order_status_route demo_staff (Some ''old'') ''#o1'' (Inr ''confirmed'') demo_office = (Inr res, s') \<and>
     live_staff demo_staff staff_db ''old'' demo_worker \<and>
     r' \<in> set (orders (tables (sv_world s'))) \<and> o_id r' = ''#o1'' \<and> o_status r' = StatusConfirmed"
proof -
  obtain ord s' where run: "order_status_route demo_staff (Some ''old'') ''#o1'' (Inr ''confirmed'') demo_office = (Inr ord, s')"
    using worker_confirms by blast
  have t: "tables (sv_world demo_office) = staff_db" by (simp add: NewStaffService_def)
  from order_changes_need_staff [OF run] obtain r r' h where
      "live_staff demo_staff staff_db ''old'' demo_worker"
      and tr: "transition_told demo_env ''#o1'' StatusConfirmed (Inr ord) (calm staff_db) (sv_world s') r r' h"
    by (auto simp: staff_consistent NewStaffService_def parse_status_def demo_staff_def live_staff_def demo_session_def demo_boss_def demo_owner_def
        demo_worker_def)
  moreover have "o_id r = ''#o1''" using tr by (simp add: transition_told_def orderKeyPredicate_def demo_uuid_def)
  moreover have "r' \<in> set (orders (tables (sv_world s')))" "o_id r' = o_id r" "o_status r' = StatusConfirmed"
    using tr moved_in unfolding transition_told_def moved_def by auto
  ultimately show ?thesis using run by auto
qed

section \<open>The gate\<close>

text \<open>
  The owner's routes. \<^verbatim>\<open>PUT /admin/api/staff/{id}\<close> either leaves every account and session as they were, or
  came with the token of an open session of an active owner, and is that owner's update.
\<close>

theorem accounts_need_an_owner:
  assumes "update_staff_route E cookie sid body s = (res, s')"
  shows "(\<exists>e. res = Inl e) \<and> silent s s' \<or>
    (\<exists>raw a inp s1. cookie = Some raw \<and> live_staff E (tables (sv_world s)) raw a \<and> sf_role a = RoleOwner \<and>
       body = Some inp \<and> silent s s1 \<and> snd (UpdateStaff E sid inp s1) = s')"
  using assms unfolding update_staff_route_def
proof (cases rule: RequireRole_cases)
  case (passed raw a s1)
  show ?thesis
  proof (cases body)
    case None
    then show ?thesis using passed(4,5) by (auto simp: updateStaffHandler_def failG_def)
  next
    case (Some inp)
    have "snd (UpdateStaff E sid inp s1) = s'"
      using passed(5) Some by (auto simp: updateStaffHandler_def bindG_def returnG_def split: prod.splits sum.splits)
    then show ?thesis using passed Some by auto
  qed
qed simp

definition sack_worker :: UpdateStaffInput where
  "sack_worker = \<lparr>us_Name = ''Worker'', us_Role = RolePointStaff, us_PointID = Some ''#p2'', us_IsActive = False, us_Password = None\<rparr>"

lemma demo_points [simp]: "pt_id ` set (points demo_db) = {''#p1'', ''#p2''}" by simp

lemma trims: "trim_space ''Worker'' = ''Worker''" "trim_space ''#p2'' = ''#p2''" by code_simp+

lemma owner_sacks:
  "\<exists>m s'. UpdateStaff demo_staff ''#wrk'' sack_worker demo_office = (Inr m, s')"
  by (simp add: UpdateStaff_def sack_worker_def trims blank_point_def on_tables_def Update_staff_def write_staff_def staff_row_error_def
      demo_staff_def NewStaffService_def demo_owner_def demo_worker_def demo_uuid_def revokeAllForStaff_def go_eval Let_def
      cong: run_congs)

lemma boss_route:
  "\<exists>m s'. update_staff_route demo_staff (Some ''boss'') ''#wrk'' (Some sack_worker) demo_office = (Inr m, s')"
proof -
  have "authenticatedStaff demo_staff ''boss'' demo_office = (Inr (Some (scanStaff demo_owner)), demo_office)"
    by (simp add: authenticatedStaff_def on_tables_def getActiveByHash_def GetStaffByID_def demo_staff_def NewStaffService_def
        demo_session_def demo_boss_def session_active_def demo_owner_def demo_worker_def go_eval scanStaff_def cong: run_congs)
  moreover have "st_Role (scanStaff demo_owner) = RoleOwner" by (simp add: scanStaff_def demo_owner_def)
  ultimately show ?thesis using owner_sacks
    by (auto simp: update_staff_route_def RequireRole_def updateStaffHandler_def bindG_def returnG_def split_beta)
qed

theorem accounts_need_an_owner_witness:
  "\<exists>m s' a. update_staff_route demo_staff (Some ''boss'') ''#wrk'' (Some sack_worker) demo_office = (Inr m, s') \<and>
     live_staff demo_staff staff_db ''boss'' a \<and> sf_role a = RoleOwner"
proof -
  obtain m s' where run: "update_staff_route demo_staff (Some ''boss'') ''#wrk'' (Some sack_worker) demo_office = (Inr m, s')"
    using boss_route by blast
  from accounts_need_an_owner [OF run] run show ?thesis by (auto simp: NewStaffService_def)
qed

section \<open>Logging in\<close>

text \<open>
  The lookup by phone reads every spelling of a number alike, though the query compares the last nine
  digits only: it finds nobody only if no account has that number, and of several accounts with it
  the one stored in the normal form, else the oldest.
\<close>

theorem phone_lookup:
  assumes "getByPhone phone w = (Inr st, w')"
  shows "tables w' = tables w \<and> (case st of
     None \<Rightarrow> \<forall>x \<in> set (staff_accounts (tables w)). canonicalPhoneKey (sf_phone x) \<noteq> canonicalPhoneKey phone
   | Some m \<Rightarrow> (\<exists>r \<in> set (staff_accounts (tables w)). m = scanStaff r \<and>
       canonicalPhoneKey (sf_phone r) = canonicalPhoneKey phone \<and>
       (\<forall>x \<in> set (staff_accounts (tables w)). canonicalPhoneKey (sf_phone x) = canonicalPhoneKey phone \<longrightarrow>
          preferred phone r x)))"
  using getByPhone_effect [OF yieldsI [of "getByPhone phone" w st w', OF assms]] unfolding same_number_def .

lemma find_worker: "getByPhone ''+996700000002'' (calm staff_db) = (Inr (Some (scanStaff demo_worker)), calm staff_db)"
proof -
  have k: "canonicalPhoneKey ''+996700000002'' = ''+996700000002''" "canonicalPhoneKey ''0700 000 002'' = ''+996700000002''"
    "canonicalPhoneKey ''+996700000001'' = ''+996700000001''" "phoneDigitsSuffix ''+996700000002'' = ''700000002''"
    "last_digits 9 (digits_of ''0700 000 002'') = ''700000002''" "last_digits 9 (digits_of ''+996700000001'') = ''700000001''"
    by code_simp+
  show ?thesis
    by (simp add: getByPhone_def phone_candidates_def go_eval k demo_owner_def demo_worker_def Let_def cong: run_congs)
qed

theorem phone_lookup_witness:
  "\<exists>r \<in> set (staff_accounts staff_db). getByPhone ''+996700000002'' (calm staff_db) = (Inr (Some (scanStaff r)), calm staff_db) \<and>
     sf_phone r = ''0700 000 002'' \<and> preferred ''+996700000002'' r r"
proof -
  from phone_lookup [OF find_worker] obtain r where "r \<in> set (staff_accounts staff_db)" "scanStaff demo_worker = scanStaff r"
      "canonicalPhoneKey (sf_phone r) = canonicalPhoneKey ''+996700000002''" "preferred ''+996700000002'' r r"
    by auto
  moreover from this have "sf_phone r = ''0700 000 002''"
    using arg_cong [of "scanStaff demo_worker" "scanStaff r" st_Phone] by (simp add: scanStaff_def demo_worker_def)
  ultimately show ?thesis using find_worker by (intro bexI [of _ r]) simp_all
qed

text \<open>Programs whose errors leave the tables alone.\<close>

interpretation reads: staff_relation "\<lambda>d d'. d' = d"
  by unfold_locales auto

definition clean :: "'a staff \<Rightarrow> bool" where
  "clean m \<longleftrightarrow> (\<forall>s e s'. m s = (Inl e, s') \<longrightarrow> tables (sv_world s') = tables (sv_world s))"

lemma clean_fail: "clean (failG e)"
  by (simp add: clean_def failG_def)

lemma clean_bind: "reads.service.stays m \<Longrightarrow> (\<And>x. clean (f x)) \<Longrightarrow> clean (bindG m f)"
  unfolding clean_def reads.service.stays_def bindG_def
  by (auto split: prod.splits sum.splits) (metis snd_conv)+

lemma clean_end: "clean m \<Longrightarrow> clean (bindG m (\<lambda>_. returnG x))"
  by (auto simp: clean_def bindG_def returnG_def split: prod.splits sum.splits)

lemma clean_create: "clean (on_tables (create_session env i h x))"
  by (auto simp: clean_def on_tables_def create_session_def split: prod.splits dest: stmt_Inl)

lemma clean_cases:
  "clean m \<Longrightarrow> clean n \<Longrightarrow> clean (if c then m else n)"
  "clean m \<Longrightarrow> (\<And>x. clean (f x)) \<Longrightarrow> clean (case z of None \<Rightarrow> m | Some x \<Rightarrow> f x)"
  "(\<And>x y. clean (g x y)) \<Longrightarrow> clean (case p of (x, y) \<Rightarrow> g x y)"
  by (auto split: option.split prod.split)

lemma clean_login: "clean (Login E ip phone password)"
  unfolding Login_def Let_def
  by (intro clean_fail clean_cases clean_end clean_create clean_bind reads.memory_stays reads.on_tables_stays reads.lookup_stays)

text \<open>
  A login by password either changes no account and no session and returns an error, or it was for an active
  account of that number, under any spelling, whose hash matches the password; then exactly one
  session is added, for twelve hours, and the token it returns is live.
\<close>

theorem staff_login:
  assumes "Login E ip phone password s = (res, s')"
  shows "(\<exists>e. res = Inl e) \<and> tables (sv_world s') = tables (sv_world s) \<or>
    (\<exists>tok a x. res = Inr tok \<and> live_staff E (tables (sv_world s')) tok a \<and>
       a \<in> set (staff_accounts (tables (sv_world s))) \<and> canonicalPhoneKey (sf_phone a) = canonicalPhoneKey phone \<and>
       bcrypt_compare E (sf_password_hash a) password \<and>
       staff_accounts (tables (sv_world s')) = staff_accounts (tables (sv_world s)) \<and>
       staff_sessions (tables (sv_world s')) = staff_sessions (tables (sv_world s)) @ [x] \<and>
       ss_staff_id x = sf_id a \<and> ss_expires_at x = clock (tables (sv_world s)) + 12 * 3600 * 1000000 \<and>
       hashSessionToken E tok \<notin> ss_token_hash ` set (staff_sessions (tables (sv_world s))))"
proof (cases res)
  case (Inr tok)
  let ?d = "tables (sv_world s)" and ?d' = "tables (sv_world s')"
  obtain s1 s2 s3 m s4 h s5 where c: "ip_allow ip s = (Inr True, s1)" "phone_allow (canonicalPhoneKey phone) s1 = (Inr True, s2)"
      "on_tables (getByPhone (canonicalPhoneKey phone)) s2 = (Inr (Some m), s3)" "st_IsActive m"
      "bcrypt_compare E (st_PasswordHash m) password" "phone_reset (canonicalPhoneKey phone) s3 = (Inr (), s4)"
      "newSessionToken E s4 = (Inr (tok, h), s5)"
      "on_tables (create_session (base_env E) (st_ID m) h (sv_now s5 + sessionTTL)) s5 = (Inr (), s')"
    using assms unfolding Inr Login_def Let_def sv_clock_def
    by (auto elim!: run_elim split: option.splits if_splits prod.splits)
  have t: "tables (sv_world s1) = ?d" "tables (sv_world s2) = ?d" "tables (sv_world s3) = ?d" "tables (sv_world s4) = ?d"
      "tables (sv_world s5) = ?d"
    using reads.service.staysD [OF reads.memory_stays(1) c(1)] reads.service.staysD [OF reads.memory_stays(2) c(2)]
      reads.service.staysD [OF reads.on_tables_stays [OF reads.lookup_stays(1)] c(3)]
      reads.service.staysD [OF reads.memory_stays(3) c(6)] reads.service.staysD [OF reads.memory_stays(4) c(7)]
    by simp_all
  obtain a where a: "a \<in> set (staff_accounts ?d)" "m = scanStaff a" "canonicalPhoneKey (sf_phone a) = canonicalPhoneKey phone"
    using getByPhone_effect [OF on_tables_yields [OF c(3)]] t by (auto simp: same_number_def)
  have h: "h = hashSessionToken E tok" using c(7) by (auto simp: newSessionToken_def map_sum_def split: sum.splits)
  let ?x = "\<lparr>ss_id = gen_uuid (base_env E) (id_count ?d), ss_staff_id = sf_id a, ss_token_hash = h,
    ss_expires_at = clock ?d + sessionTTL, ss_revoked_at = None\<rparr>"
  have y: "?d' = ?d\<lparr>staff_sessions := staff_sessions ?d @ [?x], id_count := Suc (id_count ?d)\<rparr>"
    "h \<notin> ss_token_hash ` set (staff_sessions ?d)"
    using on_tables_yields [OF c(8)] t a(2)
    by (auto simp: create_session_def sv_now_def scanStaff_def elim!: yields_stmt split: if_splits)
  have "live_staff E ?d' tok a"
    using a(1,2) c(4) h by (simp add: live_staff_def y(1) session_active_def sessionTTL_def usec_per_sec_def scanStaff_def)
  then show ?thesis using a c(5) y h
    by (intro disjI2 exI [of _ tok] exI [of _ a] exI [of _ ?x]) (simp add: Inr sessionTTL_def usec_per_sec_def scanStaff_def)
next
  case (Inl e)
  then show ?thesis using clean_login assms unfolding clean_def by blast
qed

lemma worker_logs_in:
  "\<exists>s'. Login demo_staff ''10.0.0.7'' ''0700 000 002'' ''password'' demo_office = (Inr ''t'', s')"
proof -
  have k: "canonicalPhoneKey ''0700 000 002'' = ''+996700000002''" by code_simp
  show ?thesis
    by (simp add: Login_def k ip_allow_def phone_allow_def phone_reset_def login_allow_def NewStaffService_def max_attempts_def
        loginAttemptSweepThreshold_def loginAttemptLimit_def defaultLoginIPLimit_def on_tables_def find_worker [unfolded calm_def] demo_staff_def sv_now_def
        newSessionToken_def sv_clock_def create_session_def demo_session_def demo_boss_def demo_worker_def scanStaff_def
        go_eval Let_def decimal_code split: if_split cong: run_congs)
qed

theorem staff_login_witness:
  "\<exists>s' a. Login demo_staff ''10.0.0.7'' ''0700 000 002'' ''password'' demo_office = (Inr ''t'', s') \<and>
     live_staff demo_staff (tables (sv_world s')) ''t'' a \<and> sf_password_hash a = ''!password''"
proof -
  obtain s' where run: "Login demo_staff ''10.0.0.7'' ''0700 000 002'' ''password'' demo_office = (Inr ''t'', s')"
    using worker_logs_in by blast
  from staff_login [OF run] run show ?thesis by (auto simp: demo_staff_def)
qed

section \<open>Over whole runs\<close>

text \<open>
  C27. The shop never loses its last owner: from a state with unique account ids and an active owner, no
  sequence of staff calls, whatever fails in them, leads to a state without one.
\<close>

theorem owner_never_lost:
  assumes "(staff_call E)\<^sup>*\<^sup>* s s'" and "owned (tables (sv_world s))"
  shows "owned (tables (sv_world s'))"
  using owner_runs.calls_keep [OF assms(1)] assms(2) by (simp add: owned_le_def)

theorem owner_never_lost_witness:
  "\<exists>s'. staff_call demo_staff demo_office s' \<and> \<not> sf_is_active (the (find (\<lambda>r. sf_id r = ''#wrk'') (staff_accounts (tables (sv_world s'))))) \<and>
     owned (tables (sv_world s'))"
proof -
  let ?s' = "snd (UpdateStaff demo_staff ''#wrk'' sack_worker demo_office)"
  have call: "staff_call demo_staff demo_office ?s'" by (rule staff_call.update)
  have "owned (tables (sv_world demo_office))"
    by (simp add: NewStaffService_def owned_def demo_owner_def demo_worker_def active_owner_def)
  then have "owned (tables (sv_world ?s'))" by (rule owner_never_lost [OF r_into_rtranclp [of "staff_call demo_staff", OF call]])
  moreover have "\<not> sf_is_active (the (find (\<lambda>r. sf_id r = ''#wrk'') (staff_accounts (tables (sv_world ?s')))))"
    by (simp add: UpdateStaff_def sack_worker_def trims blank_point_def on_tables_def Update_staff_def write_staff_def staff_row_error_def
        demo_staff_def NewStaffService_def demo_owner_def demo_worker_def demo_uuid_def revokeAllForStaff_def go_eval Let_def
        cong: run_congs)
  ultimately show ?thesis using call by blast
qed



end
