(* ===== verification/ImportParse.thy ===== *)
theory ImportParse
  imports Tables GoFloat
begin

text \<open>
  From the cells of an uploaded price list to rows of named, cleaned values:
  \<^verbatim>\<open>internal/catalog/import_parse.go\<close> with \<^verbatim>\<open>Unescape\<close> of \<^verbatim>\<open>internal/xlsxsafe\<close>. The splitting of a CSV or an
  Excel file into records of cells (\<^verbatim>\<open>encoding/csv\<close>, excelize) is an argument, as are the functions on
  letters outside ASCII: the fields of \<open>import_env\<close> are \<^verbatim>\<open>strings.ToLower\<close>, \<^verbatim>\<open>strings.EqualFold\<close>, the
  database's \<^verbatim>\<open>lower\<close>, and the header row of the template in every language (\<^verbatim>\<open>locales/\<close>).
\<close>

record import_env =
  ie_env :: env
  ie_ToLower :: "string \<Rightarrow> string"
  ie_EqualFold :: "string \<Rightarrow> string \<Rightarrow> bool"
  ie_lower :: "string \<Rightarrow> string"
  ie_templateHeaders :: "(string \<times> string) list"

section \<open>Columns\<close>

definition colModelCode :: string where "colModelCode = ''model_code''"
definition colNameRu :: string where "colNameRu = ''name_ru''"
definition colNameKy :: string where "colNameKy = ''name_ky''"
definition colCategory :: string where "colCategory = ''category''"
definition colBrand :: string where "colBrand = ''brand''"
definition colPrice :: string where "colPrice = ''price''"
definition colPriceOverride :: string where "colPriceOverride = ''price_override''"
definition colDescriptionRu :: string where "colDescriptionRu = ''description_ru''"
definition colDescriptionKy :: string where "colDescriptionKy = ''description_ky''"
definition colSize :: string where "colSize = ''size''"
definition colColor :: string where "colColor = ''color''"
definition colSKU :: string where "colSKU = ''sku''"
definition colQuantity :: string where "colQuantity = ''quantity''"

definition stockPointColumnPrefix :: string where "stockPointColumnPrefix = ''stock:''"

definition columnAliases :: "(string \<times> string) list" where
  "columnAliases =
    [(''model_code'', colModelCode), (''model'', colModelCode), (''article'', colModelCode),
     ([CHR 0xD0, CHR 0xB0, CHR 0xD1, CHR 0x80, CHR 0xD1, CHR 0x82, CHR 0xD0, CHR 0xB8, CHR 0xD0, CHR 0xBA,
       CHR 0xD1, CHR 0x83, CHR 0xD0, CHR 0xBB], colModelCode),
     ([CHR 0xD0, CHR 0xB0, CHR 0xD1, CHR 0x80, CHR 0xD1, CHR 0x82, CHR 0xD0, CHR 0xB8, CHR 0xD0, CHR 0xBA,
       CHR 0xD1, CHR 0x83, CHR 0xD0, CHR 0xBB, CHR 0x20, CHR 0xD0, CHR 0xBC, CHR 0xD0, CHR 0xBE, CHR 0xD0,
       CHR 0xB4, CHR 0xD0, CHR 0xB5, CHR 0xD0, CHR 0xBB, CHR 0xD0, CHR 0xB8], colModelCode),
     ([CHR 0xD0, CHR 0xBC, CHR 0xD0, CHR 0xBE, CHR 0xD0, CHR 0xB4, CHR 0xD0, CHR 0xB5, CHR 0xD0, CHR 0xBB,
       CHR 0xD1, CHR 0x8C], colModelCode),
     (''name_ru'', colNameRu), (''name'', colNameRu),
     ([CHR 0xD0, CHR 0xBD, CHR 0xD0, CHR 0xB0, CHR 0xD0, CHR 0xB7, CHR 0xD0, CHR 0xB2, CHR 0xD0, CHR 0xB0,
       CHR 0xD0, CHR 0xBD, CHR 0xD0, CHR 0xB8, CHR 0xD0, CHR 0xB5], colNameRu),
     ([CHR 0xD0, CHR 0xBD, CHR 0xD0, CHR 0xB0, CHR 0xD0, CHR 0xB8, CHR 0xD0, CHR 0xBC, CHR 0xD0, CHR 0xB5,
       CHR 0xD0, CHR 0xBD, CHR 0xD0, CHR 0xBE, CHR 0xD0, CHR 0xB2, CHR 0xD0, CHR 0xB0, CHR 0xD0, CHR 0xBD,
       CHR 0xD0, CHR 0xB8, CHR 0xD0, CHR 0xB5], colNameRu),
     ([CHR 0xD0, CHR 0xBD, CHR 0xD0, CHR 0xB0, CHR 0xD0, CHR 0xB7, CHR 0xD0, CHR 0xB2, CHR 0xD0, CHR 0xB0,
       CHR 0xD0, CHR 0xBD, CHR 0xD0, CHR 0xB8, CHR 0xD0, CHR 0xB5, CHR 0x20, CHR 0x28, CHR 0x72, CHR 0x75,
       CHR 0x29], colNameRu),
     (''name_ky'', colNameKy),
     ([CHR 0xD0, CHR 0xBD, CHR 0xD0, CHR 0xB0, CHR 0xD0, CHR 0xB7, CHR 0xD0, CHR 0xB2, CHR 0xD0, CHR 0xB0,
       CHR 0xD0, CHR 0xBD, CHR 0xD0, CHR 0xB8, CHR 0xD0, CHR 0xB5, CHR 0x20, CHR 0x28, CHR 0x6B, CHR 0x79,
       CHR 0x29], colNameKy),
     ([CHR 0xD0, CHR 0xBD, CHR 0xD0, CHR 0xB0, CHR 0xD0, CHR 0xB7, CHR 0xD0, CHR 0xB2, CHR 0xD0, CHR 0xB0,
       CHR 0xD0, CHR 0xBD, CHR 0xD0, CHR 0xB8, CHR 0xD0, CHR 0xB5, CHR 0x20, CHR 0x28, CHR 0xD0, CHR 0xBA,
       CHR 0xD1, CHR 0x8B, CHR 0xD1, CHR 0x80, CHR 0xD0, CHR 0xB3, CHR 0x2E, CHR 0x29], colNameKy),
     ([CHR 0xD0, CHR 0xB0, CHR 0xD1, CHR 0x82, CHR 0xD0, CHR 0xB0, CHR 0xD0, CHR 0xBB, CHR 0xD1, CHR 0x8B,
       CHR 0xD1, CHR 0x88, CHR 0xD1, CHR 0x8B], colNameKy),
     (''category'', colCategory),
     ([CHR 0xD0, CHR 0xBA, CHR 0xD0, CHR 0xB0, CHR 0xD1, CHR 0x82, CHR 0xD0, CHR 0xB5, CHR 0xD0, CHR 0xB3,
       CHR 0xD0, CHR 0xBE, CHR 0xD1, CHR 0x80, CHR 0xD0, CHR 0xB8, CHR 0xD1, CHR 0x8F], colCategory),
     (''brand'', colBrand),
     ([CHR 0xD0, CHR 0xB1, CHR 0xD1, CHR 0x80, CHR 0xD0, CHR 0xB5, CHR 0xD0, CHR 0xBD, CHR 0xD0, CHR 0xB4], colBrand),
     (''price'', colPrice), ([CHR 0xD1, CHR 0x86, CHR 0xD0, CHR 0xB5, CHR 0xD0, CHR 0xBD, CHR 0xD0,
       CHR 0xB0], colPrice),
     (''price_override'', colPriceOverride),
     ([CHR 0xD1, CHR 0x86, CHR 0xD0, CHR 0xB5, CHR 0xD0, CHR 0xBD, CHR 0xD0, CHR 0xB0, CHR 0x20, CHR 0xD0,
       CHR 0xB2, CHR 0xD0, CHR 0xB0, CHR 0xD1, CHR 0x80, CHR 0xD0, CHR 0xB8, CHR 0xD0, CHR 0xB0, CHR 0xD0,
       CHR 0xBD, CHR 0xD1, CHR 0x82, CHR 0xD0, CHR 0xB0], colPriceOverride),
     (''description_ru'', colDescriptionRu), (''description'', colDescriptionRu),
     ([CHR 0xD0, CHR 0xBE, CHR 0xD0, CHR 0xBF, CHR 0xD0, CHR 0xB8, CHR 0xD1, CHR 0x81, CHR 0xD0, CHR 0xB0,
       CHR 0xD0, CHR 0xBD, CHR 0xD0, CHR 0xB8, CHR 0xD0, CHR 0xB5], colDescriptionRu),
     ([CHR 0xD0, CHR 0xBE, CHR 0xD0, CHR 0xBF, CHR 0xD0, CHR 0xB8, CHR 0xD1, CHR 0x81, CHR 0xD0, CHR 0xB0,
       CHR 0xD0, CHR 0xBD, CHR 0xD0, CHR 0xB8, CHR 0xD0, CHR 0xB5, CHR 0x20, CHR 0x28, CHR 0x72, CHR 0x75,
       CHR 0x29], colDescriptionRu),
     (''description_ky'', colDescriptionKy),
     ([CHR 0xD0, CHR 0xBE, CHR 0xD0, CHR 0xBF, CHR 0xD0, CHR 0xB8, CHR 0xD1, CHR 0x81, CHR 0xD0, CHR 0xB0,
       CHR 0xD0, CHR 0xBD, CHR 0xD0, CHR 0xB8, CHR 0xD0, CHR 0xB5, CHR 0x20, CHR 0x28, CHR 0x6B, CHR 0x79,
       CHR 0x29], colDescriptionKy),
     (''size'', colSize),
     ([CHR 0xD1, CHR 0x80, CHR 0xD0, CHR 0xB0, CHR 0xD0, CHR 0xB7, CHR 0xD0, CHR 0xBC, CHR 0xD0, CHR 0xB5,
       CHR 0xD1, CHR 0x80], colSize),
     (''color'', colColor), (''colour'', colColor),
     ([CHR 0xD1, CHR 0x86, CHR 0xD0, CHR 0xB2, CHR 0xD0, CHR 0xB5, CHR 0xD1, CHR 0x82], colColor), (''sku'', colSKU),
     ([CHR 0xD1, CHR 0x88, CHR 0xD1, CHR 0x82, CHR 0xD1, CHR 0x80, CHR 0xD0, CHR 0xB8, CHR 0xD1, CHR 0x85,
       CHR 0xD0, CHR 0xBA, CHR 0xD0, CHR 0xBE, CHR 0xD0, CHR 0xB4], colSKU),
     (''barcode'', colSKU),
     ([CHR 0xD0, CHR 0xBA, CHR 0xD0, CHR 0xBE, CHR 0xD0, CHR 0xB4, CHR 0x20, CHR 0xD0, CHR 0xB2, CHR 0xD0,
       CHR 0xB0, CHR 0xD1, CHR 0x80, CHR 0xD0, CHR 0xB8, CHR 0xD0, CHR 0xB0, CHR 0xD0, CHR 0xBD, CHR 0xD1,
       CHR 0x82, CHR 0xD0, CHR 0xB0], colSKU),
     (''quantity'', colQuantity), (''qty'', colQuantity), (''stock'', colQuantity),
     ([CHR 0xD0, CHR 0xBE, CHR 0xD1, CHR 0x81, CHR 0xD1, CHR 0x82, CHR 0xD0, CHR 0xB0, CHR 0xD1, CHR 0x82,
       CHR 0xD0, CHR 0xBE, CHR 0xD0, CHR 0xBA], colQuantity),
     ([CHR 0xD0, CHR 0xBA, CHR 0xD0, CHR 0xBE, CHR 0xD0, CHR 0xBB, CHR 0xD0, CHR 0xB8, CHR 0xD1, CHR 0x87,
       CHR 0xD0, CHR 0xB5, CHR 0xD1, CHR 0x81, CHR 0xD1, CHR 0x82, CHR 0xD0, CHR 0xB2, CHR 0xD0,
       CHR 0xBE], colQuantity),
     ([CHR 0xD0, CHR 0xBA, CHR 0xD0, CHR 0xBE, CHR 0xD0, CHR 0xBB, CHR 0x2D, CHR 0xD0, CHR 0xB2, CHR 0xD0,
       CHR 0xBE], colQuantity)]"

definition requiredColumns :: "(string \<times> string) list" where
  "requiredColumns = [(colNameRu, [CHR 0xD0, CHR 0x9D, CHR 0xD0, CHR 0xB0, CHR 0xD0, CHR 0xB7, CHR 0xD0,
       CHR 0xB2, CHR 0xD0, CHR 0xB0, CHR 0xD0, CHR 0xBD, CHR 0xD0, CHR 0xB8, CHR 0xD0, CHR 0xB5, CHR 0x20,
       CHR 0x28, CHR 0x6E, CHR 0x61, CHR 0x6D, CHR 0x65, CHR 0x5F, CHR 0x72, CHR 0x75,
       CHR 0x29]), (colCategory, [CHR 0xD0, CHR 0x9A, CHR 0xD0, CHR 0xB0, CHR 0xD1, CHR 0x82, CHR 0xD0,
       CHR 0xB5, CHR 0xD0, CHR 0xB3, CHR 0xD0, CHR 0xBE, CHR 0xD1, CHR 0x80, CHR 0xD0, CHR 0xB8, CHR 0xD1,
       CHR 0x8F, CHR 0x20, CHR 0x28, CHR 0x63, CHR 0x61, CHR 0x74, CHR 0x65, CHR 0x67, CHR 0x6F, CHR 0x72,
       CHR 0x79, CHR 0x29]), (colPrice, [CHR 0xD0, CHR 0xA6, CHR 0xD0, CHR 0xB5, CHR 0xD0, CHR 0xBD,
       CHR 0xD0, CHR 0xB0, CHR 0x20, CHR 0x28, CHR 0x70, CHR 0x72, CHR 0x69, CHR 0x63, CHR 0x65, CHR 0x29])]"

section \<open>Cells and headers\<close>

definition re_space :: "char \<Rightarrow> bool" where
  "re_space c \<longleftrightarrow> c \<in> {CHR '' '', CHR 0x09, CHR 0x0A, CHR 0x0C, CHR 0x0D}"

text \<open>\<^verbatim>\<open>spaceRunRE.ReplaceAllString(s, " ")\<close>\<close>

function collapse_spaces :: "string \<Rightarrow> string" where
  "collapse_spaces [] = []"
| "collapse_spaces (c # s) =
     (if re_space c then CHR '' '' # collapse_spaces (dropWhile re_space s) else c # collapse_spaces s)"
  by pat_completeness auto
termination
  by (relation "measure length") (auto simp: le_imp_less_Suc length_dropWhile_le)

definition trim_prefix :: "string \<Rightarrow> string \<Rightarrow> string" where
  "trim_prefix p s = (if prefix p s then drop (length p) s else s)"

definition trim_suffix :: "string \<Rightarrow> string \<Rightarrow> string" where
  "trim_suffix p s = (if Sublist.suffix p s then take (length s - length p) s else s)"

text \<open>\<^verbatim>\<open>strings.ReplaceAll(s, old, new)\<close> for an \<^verbatim>\<open>old\<close> that is not empty.\<close>

function replace_all :: "string \<Rightarrow> string \<Rightarrow> string \<Rightarrow> string" where
  "replace_all old new [] = []"
| "replace_all old new (c # s) =
     (if old \<noteq> [] \<and> prefix old (c # s) then new @ replace_all old new (drop (length old) (c # s))
      else c # replace_all old new s)"
  by pat_completeness auto
termination
  by (relation "measure (\<lambda>(_, _, s). length s)") (auto simp: less_Suc_eq_le neq_Nil_conv)

definition normalizeText :: "string \<Rightarrow> string" where
  "normalizeText s = trim_space (collapse_spaces s)"

definition normalizeSize :: "string \<Rightarrow> string" where
  "normalizeSize s = replace_all '','' ''.'' (normalizeText s)"

definition bom :: string where "bom = [CHR 0xEF, CHR 0xBB, CHR 0xBF]"
definition nbsp :: string where "nbsp = [CHR 0xC2, CHR 0xA0]"

definition normalizeHeader :: "import_env \<Rightarrow> string \<Rightarrow> string" where
  "normalizeHeader E h =
     ie_ToLower E (collapse_spaces (trim_space (trim_suffix ''*'' (trim_space (trim_prefix bom h)))))"

text \<open>A collision of a template header with another column's alias is a panic at startup; here the later entry wins.\<close>

definition withTemplateHeaders :: "import_env \<Rightarrow> (string \<times> string) list \<Rightarrow> (string \<times> string) list" where
  "withTemplateHeaders E base = rev (map (\<lambda>(h, col). (normalizeHeader E h, col)) (ie_templateHeaders E)) @ base"

definition headerAliases :: "import_env \<Rightarrow> (string \<times> string) list" where
  "headerAliases E = withTemplateHeaders E columnAliases"

definition header_column :: "import_env \<Rightarrow> string \<Rightarrow> string option" where
  "header_column E h =
     (let n = normalizeHeader E h
      in if n = [] then None
         else if prefix stockPointColumnPrefix n
         then Some (stockPointColumnPrefix @ trim_space (trim_prefix stockPointColumnPrefix n))
         else map_of (headerAliases E) n)"

fun headers_loop :: "import_env \<Rightarrow> string list \<Rightarrow> (string \<times> string) list \<Rightarrow> go_error + (string list \<times> (string \<times> string) list)" where
  "headers_loop E [] seen = Inr ([], seen)"
| "headers_loop E (h # raw) seen =
     (case header_column E h of
        None \<Rightarrow> map_sum id (\<lambda>(out, s). ([] # out, s)) (headers_loop E raw seen)
      | Some col \<Rightarrow>
          (case map_of seen col of
             Some prev \<Rightarrow> Inl (AppError (WithParams (BadRequest ''duplicate_column'')
               [(''column'', Quote col), (''first'', Quote prev), (''second'', Quote (trim_space h))]))
           | None \<Rightarrow> map_sum id (\<lambda>(out, s). (col # out, s)) (headers_loop E raw ((col, trim_space h) # seen))))"

fun join_text :: "string \<Rightarrow> string list \<Rightarrow> string" where
  "join_text sep [] = []"
| "join_text sep [s] = s"
| "join_text sep (s # t # ss) = s @ sep @ join_text sep (t # ss)"

definition canonicalHeaders :: "import_env \<Rightarrow> string list \<Rightarrow> go_error + string list" where
  "canonicalHeaders E raw =
     (case headers_loop E raw [] of
        Inl e \<Rightarrow> Inl e
      | Inr (out, seen) \<Rightarrow>
          (let missing = map snd (filter (\<lambda>(key, caption). map_of seen key = None) requiredColumns)
           in if missing \<noteq> []
              then Inl (AppError (WithParams (BadRequest ''missing_columns'') [(''columns'', join_text '', '' missing)]))
              else Inr out))"

section \<open>Rows\<close>

text \<open>The Go map of a row is an association list; its keys are distinct.\<close>

record importRow =
  ir_line :: int
  ir_fields :: "(string \<times> string) list"

definition get :: "importRow \<Rightarrow> string \<Rightarrow> string" where
  "get row col = (case map_of (ir_fields row) col of None \<Rightarrow> [] | Some v \<Rightarrow> v)"

definition isBlank :: "importRow \<Rightarrow> bool" where
  "isBlank row \<longleftrightarrow> list_all (\<lambda>(_, v). v = []) (ir_fields row)"

definition needsQuote :: "string \<Rightarrow> bool" where
  "needsQuote s =
     (case dropWhile (\<lambda>c. c = CHR 0x27) s of
        [] \<Rightarrow> False
      | c # _ \<Rightarrow> c \<in> {CHR ''='', CHR ''+'', CHR ''-'', CHR ''@'', CHR 0x09, CHR 0x0D, CHR 0x0A})"

definition Text :: "string \<Rightarrow> string" where
  "Text s = (if needsQuote s then CHR 0x27 # s else s)"

definition Unescape :: "string \<Rightarrow> string" where
  "Unescape s = (case s of [] \<Rightarrow> s | c # t \<Rightarrow> if c = CHR 0x27 \<and> needsQuote t then t else s)"

definition cell_value :: "string \<Rightarrow> string" where
  "cell_value c = trim_space (Unescape (trim_space (replace_all nbsp '' '' c)))"

fun row_fields :: "string list \<Rightarrow> string list \<Rightarrow> (string \<times> string) list" where
  "row_fields [] rec = []"
| "row_fields (h # hs) rec =
     (let v = (case rec of [] \<Rightarrow> [] | c # _ \<Rightarrow> cell_value c); rest = row_fields hs (drop 1 rec)
      in if h = [] then rest else (h, v) # rest)"

definition buildRow :: "string list \<Rightarrow> string list \<Rightarrow> int \<Rightarrow> importRow" where
  "buildRow headers rec line = \<lparr>ir_line = line, ir_fields = row_fields headers rec\<rparr>"

definition build_rows :: "string list \<Rightarrow> string list list \<Rightarrow> importRow list" where
  "build_rows headers recs = map (\<lambda>(i, rec). buildRow headers rec (int i)) (enumerate 2 recs)"

text \<open>The records a CSV reader returned before the end, or before its error.\<close>

definition parseCSVRows :: "import_env \<Rightarrow> string list list \<times> go_error option \<Rightarrow> go_error + importRow list" where
  "parseCSVRows E r =
     (case r of
        ([], None) \<Rightarrow> Inl (AppError (BadRequest ''empty_file''))
      | ([], Some e) \<Rightarrow> Inl e
      | (header # recs, err) \<Rightarrow>
          (case canonicalHeaders E header of
             Inl e \<Rightarrow> Inl e
           | Inr headers \<Rightarrow> (case err of Some e \<Rightarrow> Inl e | None \<Rightarrow> Inr (build_rows headers recs))))"

definition parseXLSXRows :: "import_env \<Rightarrow> go_error + string list list \<Rightarrow> go_error + importRow list" where
  "parseXLSXRows E r =
     (case r of
        Inl e \<Rightarrow> Inl e
      | Inr [] \<Rightarrow> Inl (AppError (BadRequest ''empty_file''))
      | Inr (header # recs) \<Rightarrow> map_sum id (\<lambda>headers. build_rows headers recs) (canonicalHeaders E header))"

section \<open>Numbers\<close>

definition newImportMsg :: "string \<Rightarrow> (string \<times> string) list \<Rightarrow> importMsg" where
  "newImportMsg key params = ImportMsg key params None"

fun withReason :: "importMsg \<Rightarrow> importMsg \<Rightarrow> importMsg" where
  "withReason (ImportMsg key params r) inner = ImportMsg key params (Some inner)"
| "withReason (ImportAppErr e) inner = ImportAppErr e"

definition maxImportPrice :: float64 where "maxImportPrice = float_of_numeric 9999999999"
definition maxImportQuantity :: int where "maxImportQuantity = 1000000"

definition som :: string where "som = [CHR 0xD1, CHR 0x81, CHR 0xD0, CHR 0xBE, CHR 0xD0, CHR 0xBC]"

text \<open>\<^verbatim>\<open>strings.Map\<close> dropping the grouping spaces: space, tab, U+00A0, U+202F.\<close>

fun drop_spaces :: "string \<Rightarrow> string" where
  "drop_spaces [] = []"
| "drop_spaces (c # s) =
     (if c \<in> {CHR '' '', CHR 0x09} then drop_spaces s
      else if prefix nbsp (c # s) then drop_spaces (drop 1 s)
      else if prefix ([CHR 0xE2, CHR 0x80, CHR 0xAF]) (c # s) then drop_spaces (drop 2 s)
      else c # drop_spaces s)"

definition compactNumber :: "import_env \<Rightarrow> string \<Rightarrow> string" where
  "compactNumber E s =
     (let s = ie_ToLower E (trim_space s);
          s = trim_suffix ''kgs'' (trim_suffix som s)
      in replace_all '','' ''.'' (drop_spaces s))"

text \<open>The parts of a text that matches \<^verbatim>\<open>^\d+(\.\d+)?$\<close>.\<close>

definition decimal_parts :: "string \<Rightarrow> (string \<times> string) option" where
  "decimal_parts s =
     (let whole = takeWhile is_digit s; rest = dropWhile is_digit s
      in if whole = [] then None
         else (case rest of
                 [] \<Rightarrow> Some (whole, [])
               | c # fraction \<Rightarrow> if c = CHR ''.'' \<and> fraction \<noteq> [] \<and> list_all is_digit fraction then Some (whole, fraction) else None))"

text \<open>What rounds to a number beyond the largest \<^verbatim>\<open>float64\<close>; its digits, for evaluation.\<close>

definition float_limit :: rat where "float_limit = 2 ^ 1024 - 2 ^ 970"

lemma float_limit_digits [code]:
  "float_limit = 179769313486231580793728971405303415079934132710037826936173778980444968292764750946649017977587207096330286416692887910946555547851940402630657488671505820681908902000708383676273854845817711531764475730270069855571366959622842914819860834936475292719074168444365510704342711559699508093042880177904174497792"
  by (simp add: float_limit_def)

definition parse_float :: "string \<times> string \<Rightarrow> float64 option" where
  "parse_float p =
     (case p of (whole, fraction) \<Rightarrow>
        let x = of_int (digits_val (whole @ fraction)) / 10 ^ length fraction
        in if float_limit \<le> x then None else Some (rnd64 x))"

definition parsePrice :: "import_env \<Rightarrow> string \<Rightarrow> importMsg + float64" where
  "parsePrice E raw =
     (let s = compactNumber E raw; value = [(''value'', Quote raw)]
      in if prefix ''-'' s then Inl (newImportMsg ''import.price_negative'' value)
         else (case Option.bind (decimal_parts s) parse_float of
                 None \<Rightarrow> Inl (newImportMsg ''import.price_not_number'' value)
               | Some f \<Rightarrow>
                   (let f = fdiv (of_int (math_round (fmul f 100))) 100
                    in if maxImportPrice < f then Inl (newImportMsg ''import.price_too_large'' value) else Inr f)))"

definition parseQuantity :: "import_env \<Rightarrow> string \<Rightarrow> importMsg + int" where
  "parseQuantity E raw =
     (let s = compactNumber E raw; value = [(''value'', Quote raw)]
      in if prefix ''-'' s then Inl (newImportMsg ''import.qty_negative'' value)
         else (case decimal_parts s of
                 None \<Rightarrow> Inl (newImportMsg ''import.qty_not_integer'' value)
               | Some (whole, fraction) \<Rightarrow>
                   if \<not> list_all (\<lambda>c. c = CHR ''0'') fraction then Inl (newImportMsg ''import.qty_not_integer'' value)
                   else if maxImportQuantity < digits_val whole then Inl (newImportMsg ''import.qty_too_large'' value)
                   else Inr (digits_val whole)))"

end
