(* ===== verification/CatalogStore.thy ===== *)
theory CatalogStore
  imports ImportParse
begin

text \<open>
  The database side of the product import, \<^verbatim>\<open>internal/catalog/import_store.go\<close>, on the tables
  \<^verbatim>\<open>categories\<close>, \<^verbatim>\<open>products\<close>, \<^verbatim>\<open>product_variants\<close> and \<^verbatim>\<open>stock\<close> (migrations 000005, 000006, 000008, 000009 and 000034),
  and \<^verbatim>\<open>StockRepo.Upsert\<close> (\<^verbatim>\<open>stock.go\<close>). A statement reports the first violation in the order in which PostgreSQL
  finds them: the range of a number, a \<^verbatim>\<open>CHECK\<close>, a unique index, a foreign key.
\<close>

record ImportProduct =
  ip_ModelCode :: string
  ip_CategoryID :: string
  ip_NameRu :: string
  ip_NameKy :: string
  ip_Brand :: string
  ip_DescriptionRu :: string
  ip_DescriptionKy :: string
  ip_BasePrice :: float64

record ImportVariant =
  iv_Size :: string
  iv_Color :: string
  iv_SKU :: string
  iv_PriceOverride :: "float64 option"

record ImportVariantRef =
  vr_ID :: string
  vr_ProductID :: string
  vr_ProductModelCode :: string

definition nullIfEmpty :: "string \<Rightarrow> string option" where
  "nullIfEmpty s = (if s = [] then None else Some s)"

text \<open>\<^verbatim>\<open>COALESCE(a, b)\<close>\<close>

definition coalesce :: "'a option \<Rightarrow> 'a option \<Rightarrow> 'a option" where
  "coalesce a b = (case a of None \<Rightarrow> b | Some x \<Rightarrow> Some x)"

definition text_or_empty :: "string option \<Rightarrow> string" where
  "text_or_empty s = (case s of None \<Rightarrow> [] | Some t \<Rightarrow> t)"

section \<open>Categories and points\<close>

definition category_hits :: "import_env \<Rightarrow> string \<Rightarrow> category_row list \<Rightarrow> category_row list" where
  "category_hits E raw cats =
     (let hits = filter (\<lambda>c. cat_slug c = raw \<or> ie_lower E (cat_name_ru c) = ie_lower E raw \<or>
                             ie_lower E (cat_name_ky c) = ie_lower E raw) cats
      in take 2 (filter (\<lambda>c. cat_slug c = raw) hits @ filter (\<lambda>c. cat_slug c \<noteq> raw) hits))"

definition ResolveCategory :: "import_env \<Rightarrow> string \<Rightarrow> string go" where
  "ResolveCategory E raw =
     bindG (if uuid_validate (ie_env E) raw then query (\<lambda>d. find (\<lambda>c. cat_id c = raw) (categories d)) else returnG None)
       (\<lambda>byId.
     case byId of
       Some c \<Rightarrow> returnG (cat_id c)
     | None \<Rightarrow>
         bindG (query (\<lambda>d. category_hits E raw (categories d))) (\<lambda>rows.
         case rows of
           [] \<Rightarrow> failG (AppError (WithParams (WithVariant (BadRequest ''category_not_found'') ''named'') [(''name'', Quote raw)]))
         | c # rest \<Rightarrow>
             if rest = [] \<or> cat_slug c = raw then returnG (cat_id c)
             else failG (AppError (WithParams (BadRequest ''category_ambiguous'') [(''name'', Quote raw)]))))"

definition ActivePoint :: "string \<Rightarrow> bool go" where
  "ActivePoint pid = query (\<lambda>d. \<exists>p \<in> set (points d). pt_id p = pid \<and> pt_is_active p)"

definition DefaultPoint :: "string go" where
  "DefaultPoint =
     query (\<lambda>d. case sort_key pt_created_at (sort_key pt_id (filter pt_is_active (points d))) of
                  [] \<Rightarrow> [] | p # _ \<Rightarrow> pt_id p)"

section \<open>Products\<close>

definition ProductByModelCode :: "import_env \<Rightarrow> string \<Rightarrow> string go" where
  "ProductByModelCode E code =
     query (\<lambda>d. case find (\<lambda>p. map_option (ie_lower E) (pr_model_code p) = Some (ie_lower E code)) (products d) of
                  None \<Rightarrow> [] | Some p \<Rightarrow> pr_id p)"

definition ProductsByName :: "import_env \<Rightarrow> string \<Rightarrow> string \<Rightarrow> string \<Rightarrow> string \<Rightarrow> string list go" where
  "ProductsByName E brand nameRu categoryID modelCode =
     query (\<lambda>d. map pr_id (take 2 (sort_key pr_created_at (filter (\<lambda>p.
       pr_category_id p = categoryID \<and> ie_lower E (pr_name_ru p) = ie_lower E nameRu \<and>
       ie_lower E (text_or_empty (pr_brand p)) = ie_lower E brand \<and> (modelCode = [] \<or> pr_model_code p = None))
       (products d)))))"

text \<open>The violations of a row \<open>r\<close> of \<^verbatim>\<open>products\<close> beside the other rows.\<close>

definition product_error :: "import_env \<Rightarrow> db \<Rightarrow> product_row \<Rightarrow> go_error option" where
  "product_error E d r =
     (let others = filter (\<lambda>p. pr_id p \<noteq> pr_id r) (products d)
      in if numeric_10_2_bound \<le> \<bar>pr_base_price r\<bar> then Some (PgError ''22003'')
         else if pr_model_code r \<noteq> None \<and>
           (\<exists>p \<in> set others. map_option (ie_lower E) (pr_model_code p) = map_option (ie_lower E) (pr_model_code r))
         then Some (PgError ''23505'')
         else if pr_category_id r \<notin> cat_id ` set (categories d) then Some (PgError ''23503'')
         else None)"

definition new_product :: "string \<Rightarrow> int \<Rightarrow> ImportProduct \<Rightarrow> product_row" where
  "new_product pid now p =
     \<lparr>pr_id = pid, pr_name_ru = ip_NameRu p,
      pr_name_ky = text_or_empty (coalesce (nullIfEmpty (ip_NameKy p)) (Some (ip_NameRu p))),
      pr_base_price = numeric_of_float (ip_BasePrice p), pr_is_active = True, pr_category_id = ip_CategoryID p,
      pr_brand = nullIfEmpty (ip_Brand p), pr_description_ru = nullIfEmpty (ip_DescriptionRu p),
      pr_description_ky = nullIfEmpty (ip_DescriptionKy p), pr_model_code = nullIfEmpty (ip_ModelCode p),
      pr_created_at = now, pr_updated_at = now\<rparr>"

definition CreateProduct :: "import_env \<Rightarrow> ImportProduct \<Rightarrow> string go" where
  "CreateProduct E p =
     stmt (\<lambda>d. let r = new_product (gen_uuid (ie_env E) (id_count d)) (clock d) p
               in if pr_id r \<in> pr_id ` set (products d) then Inl (PgError ''23505'')
                  else case product_error E d r of
                         Some e \<Rightarrow> Inl e
                       | None \<Rightarrow> Inr (pr_id r, d\<lparr>products := products d @ [r], id_count := Suc (id_count d)\<rparr>))"

definition overwrite_product :: "int \<Rightarrow> ImportProduct \<Rightarrow> product_row \<Rightarrow> product_row" where
  "overwrite_product now p r =
     r\<lparr>pr_category_id := ip_CategoryID p, pr_name_ru := ip_NameRu p,
       pr_name_ky := text_or_empty (coalesce (nullIfEmpty (ip_NameKy p)) (Some (pr_name_ky r))),
       pr_description_ru := coalesce (nullIfEmpty (ip_DescriptionRu p)) (pr_description_ru r),
       pr_description_ky := coalesce (nullIfEmpty (ip_DescriptionKy p)) (pr_description_ky r),
       pr_brand := coalesce (nullIfEmpty (ip_Brand p)) (pr_brand r),
       pr_base_price := numeric_of_float (ip_BasePrice p),
       pr_model_code := coalesce (nullIfEmpty (ip_ModelCode p)) (pr_model_code r),
       pr_updated_at := now\<rparr>"

definition UpdateProduct :: "import_env \<Rightarrow> string \<Rightarrow> ImportProduct \<Rightarrow> unit go" where
  "UpdateProduct E pid p =
     stmt (\<lambda>d. case find (\<lambda>r. pr_id r = pid) (products d) of
                 None \<Rightarrow> Inr ((), d)
               | Some r \<Rightarrow>
                   (case product_error E d (overwrite_product (clock d) p r) of
                      Some e \<Rightarrow> Inl e
                    | None \<Rightarrow> Inr ((), d\<lparr>products :=
                        map (\<lambda>r. if pr_id r = pid then overwrite_product (clock d) p r else r) (products d)\<rparr>)))"

section \<open>Variants\<close>

definition VariantBySKU :: "string \<Rightarrow> ImportVariantRef option go" where
  "VariantBySKU sku =
     query (\<lambda>d. case find (\<lambda>v. pv_sku v = Some sku) (variants d) of
                  None \<Rightarrow> None
                | Some v \<Rightarrow> map_option (\<lambda>p. \<lparr>vr_ID = pv_id v, vr_ProductID = pv_product_id v,
                                              vr_ProductModelCode = text_or_empty (pr_model_code p)\<rparr>)
                              (find (\<lambda>p. pr_id p = pv_product_id v) (products d)))"

definition size_color_hits :: "import_env \<Rightarrow> string \<Rightarrow> string \<Rightarrow> string \<Rightarrow> variant_row list \<Rightarrow> variant_row list" where
  "size_color_hits E productID sz color rows =
     (let hits = filter (\<lambda>v. pv_product_id v = productID \<and> ie_lower E (pv_size v) = ie_lower E sz \<and>
                             ie_lower E (pv_color v) = ie_lower E color) rows;
          exact = (\<lambda>v. pv_size v = sz \<and> pv_color v = color)
      in filter exact hits @ filter (\<lambda>v. \<not> exact v) hits)"

definition VariantBySizeColor :: "import_env \<Rightarrow> string \<Rightarrow> string \<Rightarrow> string \<Rightarrow> ImportVariantRef option go" where
  "VariantBySizeColor E productID sz color =
     query (\<lambda>d. case size_color_hits E productID sz color (variants d) of
                  [] \<Rightarrow> None
                | v # _ \<Rightarrow> Some \<lparr>vr_ID = pv_id v, vr_ProductID = pv_product_id v, vr_ProductModelCode = []\<rparr>)"

definition variant_error :: "db \<Rightarrow> variant_row \<Rightarrow> go_error option" where
  "variant_error d r =
     (let others = filter (\<lambda>v. pv_id v \<noteq> pv_id r) (variants d)
      in if (case pv_price_override r of None \<Rightarrow> False | Some p \<Rightarrow> numeric_10_2_bound \<le> \<bar>p\<bar>) then Some (PgError ''22003'')
         else if (\<exists>v \<in> set others. (pv_sku r \<noteq> None \<and> pv_sku v = pv_sku r) \<or>
             (pv_product_id v = pv_product_id r \<and> pv_size v = pv_size r \<and> pv_color v = pv_color r))
         then Some (PgError ''23505'')
         else if pv_product_id r \<notin> pr_id ` set (products d) then Some (PgError ''23503'')
         else None)"

definition new_variant :: "string \<Rightarrow> string \<Rightarrow> ImportVariant \<Rightarrow> variant_row" where
  "new_variant vid productID v =
     \<lparr>pv_id = vid, pv_product_id = productID, pv_size = iv_Size v, pv_color = iv_Color v,
      pv_price_override = map_option numeric_of_float (iv_PriceOverride v), pv_sku = nullIfEmpty (iv_SKU v)\<rparr>"

definition CreateVariant :: "import_env \<Rightarrow> string \<Rightarrow> ImportVariant \<Rightarrow> string go" where
  "CreateVariant E productID v =
     stmt (\<lambda>d. let r = new_variant (gen_uuid (ie_env E) (id_count d)) productID v
               in if pv_id r \<in> pv_id ` set (variants d) then Inl (PgError ''23505'')
                  else case variant_error d r of
                         Some e \<Rightarrow> Inl e
                       | None \<Rightarrow> Inr (pv_id r, d\<lparr>variants := variants d @ [r], id_count := Suc (id_count d)\<rparr>))"

definition overwrite_variant :: "ImportVariant \<Rightarrow> variant_row \<Rightarrow> variant_row" where
  "overwrite_variant v r =
     r\<lparr>pv_size := iv_Size v, pv_color := iv_Color v,
       pv_price_override := map_option numeric_of_float (iv_PriceOverride v),
       pv_sku := coalesce (nullIfEmpty (iv_SKU v)) (pv_sku r)\<rparr>"

definition UpdateVariant :: "string \<Rightarrow> ImportVariant \<Rightarrow> unit go" where
  "UpdateVariant vid v =
     stmt (\<lambda>d. case find (\<lambda>r. pv_id r = vid) (variants d) of
                 None \<Rightarrow> Inr ((), d)
               | Some r \<Rightarrow>
                   (case variant_error d (overwrite_variant v r) of
                      Some e \<Rightarrow> Inl e
                    | None \<Rightarrow> Inr ((), d\<lparr>variants :=
                        map (\<lambda>r. if pv_id r = vid then overwrite_variant v r else r) (variants d)\<rparr>)))"

section \<open>Stock\<close>

definition set_stock :: "string \<Rightarrow> string \<Rightarrow> int \<Rightarrow> db \<Rightarrow> go_error + (unit \<times> db)" where
  "set_stock variantID pointID qty d =
     (if qty < - max_int4 - 1 \<or> max_int4 < qty then Inl (PgError ''22003'')
      else if qty < 0 then Inl (PgError ''23514'')
      else if variantID \<notin> pv_id ` set (variants d) \<or> pointID \<notin> pt_id ` set (points d) then Inl (PgError ''23503'')
      else Inr ((), d\<lparr>stock := (stock d)((variantID, pointID) \<mapsto> qty)\<rparr>))"

definition SetStock :: "string \<Rightarrow> string \<Rightarrow> int \<Rightarrow> unit go" where
  "SetStock variantID pointID qty = stmt (set_stock variantID pointID qty)"

record StockEntry =
  sk_VariantID :: string
  sk_PointID :: string
  sk_Quantity :: int
  sk_UpdatedAt :: int

definition Upsert_stock :: "string \<Rightarrow> string \<Rightarrow> int \<Rightarrow> StockEntry go" where
  "Upsert_stock variantID pointID quantity =
     (if quantity < 0 then failG (AppError (BadRequest ''invalid_quantity''))
      else bindG (attempt (stmt (\<lambda>d. map_sum id (\<lambda>(_, d'). (clock d, d')) (set_stock variantID pointID quantity d)))) (\<lambda>res.
           case res of
             Inl err \<Rightarrow> if err = PgError ''23503'' then failG (AppError (BadRequest ''invalid_variant_or_point'')) else failG err
           | Inr now \<Rightarrow> returnG \<lparr>sk_VariantID = variantID, sk_PointID = pointID, sk_Quantity = quantity, sk_UpdatedAt = now\<rparr>))"

definition TotalByProductIDs :: "string list \<Rightarrow> (string \<Rightarrow> int option) go" where
  "TotalByProductIDs productIDs =
     (if productIDs = [] then returnG (\<lambda>_. None)
      else query (\<lambda>d pid. if pid \<in> set productIDs \<and> pid \<in> pv_product_id ` set (variants d)
        then Some (\<Sum>v \<leftarrow> filter (\<lambda>v. pv_product_id v = pid) (variants d). \<Sum>p \<leftarrow> points d.
               (case stock d (pv_id v, pt_id p) of None \<Rightarrow> 0 | Some q \<Rightarrow> q))
        else None))"

section \<open>Sessions\<close>

text \<open>
  A model of a dry run is a savepoint of the one transaction that is rolled back at the end. When
  \<^verbatim>\<open>ROLLBACK TO SAVEPOINT\<close> fails as well, \<^verbatim>\<open>errors.Join\<close> keeps the error of the model, which is the one
  the caller looks for.
\<close>

definition dry_model :: "'a go \<Rightarrow> 'a go" where
  "dry_model fn w =
     (case exec id w of
        (Inl e, w1) \<Rightarrow> (Inl e, w1)
      | (Inr _, w1) \<Rightarrow>
          (case fn w1 of
             (Inl e, w2) \<Rightarrow> (Inl e, snd (exec (\<lambda>_. tables w1) w2))
           | (Inr x, w2) \<Rightarrow>
               (case exec id w2 of (Inl e, w3) \<Rightarrow> (Inl e, w3) | (Inr _, w3) \<Rightarrow> (Inr x, w3))))"

definition session_Model :: "bool \<Rightarrow> 'a go \<Rightarrow> 'a go" where
  "session_Model dryRun fn = (if dryRun then dry_model fn else withTx fn)"

text \<open>\<^verbatim>\<open>Begin\<close>, the work of the session, and the deferred \<^verbatim>\<open>Close\<close>, whose error is ignored.\<close>

definition with_session :: "bool \<Rightarrow> 'a go \<Rightarrow> 'a go" where
  "with_session dryRun body =
     (if \<not> dryRun then body
      else (\<lambda>w. case begin_tx w of
                  (Inl e, w1) \<Rightarrow> (Inl e, w1)
                | (Inr _, w1) \<Rightarrow> (case body w1 of (r, w2) \<Rightarrow> (r, w2\<lparr>tables := tables w\<rparr>))))"

end
