(* ===== verification/ImportPlan.thy ===== *)
theory ImportPlan
  imports CatalogStore
begin

text \<open>
  The planner of the product import, \<^verbatim>\<open>internal/catalog/import_plan.go\<close>: it checks every cell, groups the
  rows into models (one product each), and derives the products and the price overrides of their variants.
  A \<open>planning\<close> program reads the database and threads the planner's caches. A model is its label, its
  product and its rows in file order; the pointers Go shares between a row and its model are updates here.
\<close>

record plannedRow =
  pl_line :: int
  pl_hasVariant :: bool
  pl_variant :: ImportVariant
  pl_stock :: "(string \<times> int) list"
  pl_errs :: "importMsg list"

record plannedModel =
  pm_label :: string
  pm_product :: ImportProduct
  pm_rows :: "plannedRow list"

definition firstErrLine :: "plannedModel \<Rightarrow> int" where
  "firstErrLine m = (case find (\<lambda>r. pl_errs r \<noteq> []) (pm_rows m) of None \<Rightarrow> 0 | Some r \<Rightarrow> pl_line r)"

definition failed :: "plannedModel \<Rightarrow> bool" where
  "failed m \<longleftrightarrow> firstErrLine m \<noteq> 0"

fun fail_row :: "int \<Rightarrow> importMsg \<Rightarrow> plannedRow list \<Rightarrow> plannedRow list option" where
  "fail_row line msg [] = None"
| "fail_row line msg (r # rs) =
     (if pl_line r = line then Some (r\<lparr>pl_errs := [msg]\<rparr> # rs) else map_option ((#) r) (fail_row line msg rs))"

definition fail_model :: "int \<Rightarrow> importMsg \<Rightarrow> plannedModel \<Rightarrow> plannedModel" where
  "fail_model line msg m =
     m\<lparr>pm_rows := (case fail_row line msg (pm_rows m) of
        Some rs \<Rightarrow> rs
      | None \<Rightarrow> (hd (pm_rows m))\<lparr>pl_errs := [msg]\<rparr> # tl (pm_rows m))\<rparr>"

text \<open>\<^verbatim>\<open>categoryLookup\<close> is a sum: the message of the error or the id.\<close>

record planner =
  pn_pointID :: string
  pn_usedPoint :: bool
  pn_categories :: "(string \<times> (importMsg + string)) list"
  pn_points :: "(string \<times> bool) list"

type_synonym 'a planning = "(planner \<times> world, 'a) prog"

definition on_store :: "'a go \<Rightarrow> 'a planning" where
  "on_store m s = (case s of (p, w) \<Rightarrow> case m w of (r, w') \<Rightarrow> (r, (p, w')))"

definition planner_get :: "planner planning" where
  "planner_get s = (Inr (fst s), s)"

definition planner_set :: "planner \<Rightarrow> unit planning" where
  "planner_set p s = (Inr (), (p, snd s))"

definition dbErrorMessage :: "go_error \<Rightarrow> importMsg" where
  "dbErrorMessage err =
     (case err of
        AppError ae \<Rightarrow> ImportAppErr ae
      | PgError c \<Rightarrow> newImportMsg (if c = ''23505'' then ''import.db_conflict''
          else if c = ''23503'' then ''import.db_not_found''
          else if c = ''23514'' then ''import.db_out_of_range'' else ''import.db_internal'') []
      | _ \<Rightarrow> newImportMsg ''import.db_internal'' [])"

section \<open>Cells\<close>

record rawRow =
  rw_row :: importRow
  rw_modelCode :: string
  rw_nameRu :: string
  rw_nameKy :: string
  rw_category :: string
  rw_brand :: string
  rw_descRu :: string
  rw_descKy :: string
  rw_price :: "float64 option"
  rw_priceOverride :: "float64 option"
  rw_priceBad :: bool
  rw_planned :: plannedRow
  rw_errs :: "importMsg list"

definition zero_variant :: ImportVariant where
  "zero_variant = \<lparr>iv_Size = [], iv_Color = [], iv_SKU = [], iv_PriceOverride = None\<rparr>"

definition zero_product :: ImportProduct where
  "zero_product = \<lparr>ip_ModelCode = [], ip_CategoryID = [], ip_NameRu = [], ip_NameKy = [], ip_Brand = [],
     ip_DescriptionRu = [], ip_DescriptionKy = [], ip_BasePrice = 0\<rparr>"

definition add_err :: "importMsg \<Rightarrow> rawRow \<Rightarrow> rawRow" where
  "add_err m rr = rr\<lparr>rw_errs := rw_errs rr @ [m]\<rparr>"

definition text_cells :: "importRow \<Rightarrow> rawRow" where
  "text_cells row =
     \<lparr>rw_row = row, rw_modelCode = normalizeText (get row colModelCode), rw_nameRu = normalizeText (get row colNameRu),
      rw_nameKy = normalizeText (get row colNameKy), rw_category = normalizeText (get row colCategory),
      rw_brand = normalizeText (get row colBrand), rw_descRu = trim_space (get row colDescriptionRu),
      rw_descKy = trim_space (get row colDescriptionKy), rw_price = None, rw_priceOverride = None, rw_priceBad = False,
      rw_planned = \<lparr>pl_line = ir_line row, pl_hasVariant = False, pl_variant = zero_variant, pl_stock = [], pl_errs = []\<rparr>,
      rw_errs = []\<rparr>"

definition price_cell :: "import_env \<Rightarrow> rawRow \<Rightarrow> rawRow" where
  "price_cell E rr =
     (let v = get (rw_row rr) colPrice
      in if v = [] then rr
         else (case parsePrice E v of
                 Inl m \<Rightarrow> (add_err m rr)\<lparr>rw_priceBad := True\<rparr>
               | Inr f \<Rightarrow> if f \<le> 0
                   then (add_err (newImportMsg ''import.price_not_positive'' [(''value'', Quote v)]) rr)\<lparr>rw_priceBad := True\<rparr>
                   else rr\<lparr>rw_price := Some f\<rparr>))"

definition override_cell :: "import_env \<Rightarrow> rawRow \<Rightarrow> rawRow" where
  "override_cell E rr =
     (let v = get (rw_row rr) colPriceOverride
      in if v = [] then rr
         else (case parsePrice E v of
                 Inl m \<Rightarrow> add_err (withReason (newImportMsg ''import.variant_price'' []) m) rr
               | Inr f \<Rightarrow> rr\<lparr>rw_priceOverride := Some f\<rparr>))"

definition variant_cells :: "rawRow \<Rightarrow> rawRow" where
  "variant_cells rr =
     (let sz = normalizeSize (get (rw_row rr) colSize); color = normalizeText (get (rw_row rr) colColor);
          sku = trim_space (get (rw_row rr) colSKU)
      in if sz \<noteq> [] \<and> color \<noteq> []
         then rr\<lparr>rw_planned := (rw_planned rr)\<lparr>pl_hasVariant := True,
                pl_variant := \<lparr>iv_Size = sz, iv_Color = color, iv_SKU = sku, iv_PriceOverride = None\<rparr>\<rparr>\<rparr>
         else if sz \<noteq> [] \<or> color \<noteq> [] then add_err (newImportMsg ''import.variant_needs_size_and_color'' []) rr
         else if sku \<noteq> [] then add_err (newImportMsg ''import.sku_without_variant'' []) rr
         else rr)"

definition add_stock :: "string \<Rightarrow> int \<Rightarrow> rawRow \<Rightarrow> rawRow" where
  "add_stock pid qty rr = rr\<lparr>rw_planned := (rw_planned rr)\<lparr>pl_stock := pl_stock (rw_planned rr) @ [(pid, qty)]\<rparr>\<rparr>"

definition quantity_cell :: "import_env \<Rightarrow> rawRow \<Rightarrow> rawRow planning" where
  "quantity_cell E rr =
     (let v = get (rw_row rr) colQuantity
      in if v = [] then returnG rr
         else (case parseQuantity E v of
                 Inl m \<Rightarrow> returnG (add_err m rr)
               | Inr qty \<Rightarrow>
                   if \<not> pl_hasVariant (rw_planned rr) then returnG (add_err (newImportMsg ''import.stock_without_variant'' []) rr)
                   else bindG planner_get (\<lambda>p.
                        if pn_pointID p = [] then returnG (add_err (newImportMsg ''import.no_active_point'' []) rr)
                        else bindG (planner_set (p\<lparr>pn_usedPoint := True\<rparr>)) (\<lambda>_.
                             returnG (add_stock (pn_pointID p) qty rr)))))"

definition activePoint :: "import_env \<Rightarrow> string \<Rightarrow> bool planning" where
  "activePoint E pid =
     bindG planner_get (\<lambda>p.
     case map_of (pn_points p) pid of
       Some ok \<Rightarrow> returnG ok
     | None \<Rightarrow>
         bindG (if uuid_validate (ie_env E) pid then on_store (ActivePoint pid) else returnG False) (\<lambda>ok.
         bindG (planner_set (p\<lparr>pn_points := (pid, ok) # pn_points p\<rparr>)) (\<lambda>_. returnG ok)))"

definition stock_cell :: "import_env \<Rightarrow> string \<Rightarrow> rawRow \<Rightarrow> rawRow planning" where
  "stock_cell E col rr =
     (let v = get (rw_row rr) col; pid = trim_prefix stockPointColumnPrefix col
      in if v = [] then returnG rr
         else (case parseQuantity E v of
                 Inl m \<Rightarrow> returnG (add_err (withReason (newImportMsg ''import.point_stock'' [(''point'', pid)]) m) rr)
               | Inr qty \<Rightarrow>
                   if \<not> pl_hasVariant (rw_planned rr) then returnG (add_err (newImportMsg ''import.stock_without_variant'' []) rr)
                   else bindG (activePoint E pid) (\<lambda>ok.
                        if \<not> ok then returnG (add_err (newImportMsg ''import.point_inactive'' [(''point'', pid)]) rr)
                        else returnG (add_stock pid qty rr))))"

fun stock_cells :: "import_env \<Rightarrow> string list \<Rightarrow> rawRow \<Rightarrow> rawRow planning" where
  "stock_cells E [] rr = returnG rr"
| "stock_cells E (col # cols) rr = bindG (stock_cell E col rr) (stock_cells E cols)"

definition stock_columns :: "importRow \<Rightarrow> string list" where
  "stock_columns row = sort (filter (prefix stockPointColumnPrefix) (map fst (ir_fields row)))"

definition parseRow :: "import_env \<Rightarrow> importRow \<Rightarrow> rawRow planning" where
  "parseRow E row =
     bindG (quantity_cell E (variant_cells (override_cell E (price_cell E (text_cells row)))))
       (stock_cells E (stock_columns row))"

section \<open>Models\<close>

definition groupKey :: "import_env \<Rightarrow> rawRow \<Rightarrow> string" where
  "groupKey E rr =
     (if rw_modelCode rr \<noteq> [] then CHR ''a'' # CHR 0x00 # ie_ToLower E (rw_modelCode rr)
      else if rw_nameRu rr = [] \<or> rw_category rr = [] then []
      else CHR ''n'' # CHR 0x00 # ie_ToLower E (rw_brand rr) @ CHR 0x00 # ie_ToLower E (rw_nameRu rr) @
           CHR 0x00 # ie_ToLower E (rw_category rr))"

fun firstNonEmpty :: "string list \<Rightarrow> string" where
  "firstNonEmpty [] = []"
| "firstNonEmpty (v # vs) = (if v \<noteq> [] then v else firstNonEmpty vs)"

text \<open>A group under construction: its key (empty for a row that belongs to no model) and its rows.\<close>

type_synonym group = "string \<times> rawRow list"

fun add_to_group :: "string \<Rightarrow> rawRow \<Rightarrow> group list \<Rightarrow> group list" where
  "add_to_group key rr [] = [(key, [rr])]"
| "add_to_group key rr ((k, rs) # gs) =
     (if k = key then (k, rs @ [rr]) # gs else (k, rs) # add_to_group key rr gs)"

definition check_sku :: "(string \<times> int) list \<Rightarrow> rawRow \<Rightarrow> rawRow \<times> (string \<times> int) list" where
  "check_sku skuLines rr =
     (let sku = iv_SKU (pl_variant (rw_planned rr))
      in if sku \<noteq> [] \<and> pl_hasVariant (rw_planned rr)
         then (case map_of skuLines sku of
                 Some line1 \<Rightarrow> (add_err (newImportMsg ''import.sku_duplicate_in_file''
                    [(''sku'', Quote sku), (''line'', itoa line1)]) rr, skuLines)
               | None \<Rightarrow> (rr, (sku, ir_line (rw_row rr)) # skuLines))
         else (rr, skuLines))"

definition lone_row :: "rawRow \<Rightarrow> rawRow" where
  "lone_row rr =
     (let r1 = (if rw_nameRu rr = [] then add_err (newImportMsg ''import.no_name_or_article'' []) rr else rr)
      in if rw_category rr = [] then add_err (newImportMsg ''import.no_category_or_article'' []) r1 else r1)"

fun group_rows :: "import_env \<Rightarrow> importRow list \<Rightarrow> (string \<times> int) list \<Rightarrow> group list \<Rightarrow> group list planning" where
  "group_rows E [] skuLines gs = returnG gs"
| "group_rows E (row # rows) skuLines gs =
     (if isBlank row then group_rows E rows skuLines gs
      else bindG (parseRow E row) (\<lambda>rr.
           case check_sku skuLines rr of
             (rr', skuLines') \<Rightarrow>
               let key = groupKey E rr'
               in if key = [] then group_rows E rows skuLines' (gs @ [([], [lone_row rr'])])
                  else group_rows E rows skuLines' (add_to_group key rr' gs)))"

definition pick :: "(rawRow \<Rightarrow> string) \<Rightarrow> rawRow list \<Rightarrow> string" where
  "pick f rs = firstNonEmpty (map f rs)"

definition category :: "import_env \<Rightarrow> string \<Rightarrow> (importMsg + string) planning" where
  "category E raw =
     bindG planner_get (\<lambda>p.
     let key = ie_ToLower E raw
     in case map_of (pn_categories p) key of
          Some c \<Rightarrow> returnG c
        | None \<Rightarrow>
            bindG (attempt (on_store (ResolveCategory E raw))) (\<lambda>res.
            let c = map_sum dbErrorMessage id res
            in bindG (planner_set (p\<lparr>pn_categories := (key, c) # pn_categories p\<rparr>)) (\<lambda>_. returnG c)))"

definition on_first :: "(rawRow \<Rightarrow> rawRow) \<Rightarrow> rawRow list \<Rightarrow> rawRow list" where
  "on_first f rs = (case rs of [] \<Rightarrow> [] | r # rest \<Rightarrow> f r # rest)"

definition base_price :: "rawRow list \<Rightarrow> float64 option" where
  "base_price rs = Option.bind (find (\<lambda>r. rw_price r \<noteq> None) rs) rw_price"

definition hasBadPrice :: "rawRow list \<Rightarrow> bool" where
  "hasBadPrice rs = list_ex rw_priceBad rs"

definition variant_price :: "float64 option \<Rightarrow> rawRow \<Rightarrow> rawRow" where
  "variant_price base r =
     (let put = (\<lambda>p. r\<lparr>rw_planned := (rw_planned r)\<lparr>pl_variant := (pl_variant (rw_planned r))\<lparr>iv_PriceOverride := p\<rparr>\<rparr>\<rparr>)
      in case rw_priceOverride r of
           Some p \<Rightarrow> if 0 < p then put (Some p) else r
         | None \<Rightarrow> if rw_price r \<noteq> None \<and> base \<noteq> None \<and> rw_price r \<noteq> base then put (rw_price r) else r)"

definition variant_key :: "import_env \<Rightarrow> ImportVariant \<Rightarrow> string" where
  "variant_key E v = ie_ToLower E (iv_Size v) @ CHR 0x00 # ie_ToLower E (iv_Color v)"

fun check_variants :: "import_env \<Rightarrow> bool \<Rightarrow> float64 option \<Rightarrow> (string \<times> int) list \<Rightarrow> rawRow list \<Rightarrow> rawRow list" where
  "check_variants E multi base seen [] = []"
| "check_variants E multi base seen (r # rs) =
     (if \<not> pl_hasVariant (rw_planned r)
      then (if multi then add_err (newImportMsg ''import.multi_row_needs_variant'' []) r else r)
           # check_variants E multi base seen rs
      else let v = pl_variant (rw_planned r); k = variant_key E v
           in (case map_of seen k of
                 Some line1 \<Rightarrow>
                   variant_price base (add_err (newImportMsg ''import.duplicate_variant''
                     [(''size'', iv_Size v), (''color'', iv_Color v), (''line'', itoa line1)]) r)
                   # check_variants E multi base seen rs
               | None \<Rightarrow> variant_price base r # check_variants E multi base ((k, ir_line (rw_row r)) # seen) rs))"

definition settle :: "rawRow \<Rightarrow> plannedRow" where
  "settle r = (rw_planned r)\<lparr>pl_errs := rw_errs r\<rparr>"

definition assemble :: "import_env \<Rightarrow> rawRow list \<Rightarrow> plannedModel planning" where
  "assemble E rs =
     (let code = rw_modelCode (hd rs); nameRu = pick rw_nameRu rs; cat = pick rw_category rs; base = base_price rs;
          named = (if nameRu = [] then on_first (add_err (newImportMsg ''import.no_name'' [])) rs else rs)
      in bindG (if cat = [] then returnG (Inl (newImportMsg ''import.no_category'' [])) else category E cat) (\<lambda>c.
         let filed = (case c of Inl m \<Rightarrow> on_first (add_err m) named | Inr _ \<Rightarrow> named);
             priced = (if base = None \<and> \<not> hasBadPrice rs
                       then on_first (add_err (newImportMsg ''import.no_price'' [])) filed else filed);
             prod = \<lparr>ip_ModelCode = code, ip_CategoryID = (case c of Inl _ \<Rightarrow> [] | Inr i \<Rightarrow> i), ip_NameRu = nameRu,
                ip_NameKy = pick rw_nameKy rs, ip_Brand = pick rw_brand rs, ip_DescriptionRu = pick rw_descRu rs,
                ip_DescriptionKy = pick rw_descKy rs, ip_BasePrice = (case base of None \<Rightarrow> 0 | Some b \<Rightarrow> b)\<rparr>
         in returnG \<lparr>pm_label = firstNonEmpty [code, nameRu], pm_product = prod,
              pm_rows = map settle (check_variants E (1 < length rs) base [] priced)\<rparr>))"

fun assemble_all :: "import_env \<Rightarrow> group list \<Rightarrow> plannedModel list planning" where
  "assemble_all E [] = returnG []"
| "assemble_all E ((key, rs) # gs) =
     bindG (if key = [] then returnG \<lparr>pm_label = firstNonEmpty (map rw_modelCode rs @ map rw_nameRu rs),
                pm_product = zero_product, pm_rows = map settle rs\<rparr>
            else assemble E rs) (\<lambda>m.
     bindG (assemble_all E gs) (\<lambda>ms. returnG (m # ms)))"

definition plan :: "import_env \<Rightarrow> importRow list \<Rightarrow> plannedModel list planning" where
  "plan E rows = bindG (group_rows E rows [] []) (assemble_all E)"

end
