(* ===== verification/ProductImport.thy ===== *)
theory ProductImport
  imports ImportPlan
begin

text \<open>
  The import itself, \<^verbatim>\<open>internal/catalog/import.go\<close>: every model of the plan in a transaction of its own, its
  product matched by article, then by the SKU of a row, then by brand, name and category, its variants
  by SKU, then by size and color; and the report. The rendered text of a message is left out: a report
  line carries the messages.
\<close>

section \<open>Results\<close>

text \<open>The statuses of a row; \<open>RowStatusNone\<close> is the zero value, the empty text.\<close>

datatype RowStatus = RowStatusNone | RowStatusCreated | RowStatusUpdated | RowStatusSkipped | RowStatusError

datatype report_message = NoMessage | RowMessages "importMsg list" | ModelSkipped int

record ImportRowResult =
  rr_Row :: int
  rr_Status :: RowStatus
  rr_Model :: string
  rr_Size :: string
  rr_Color :: string
  rr_SKU :: string
  rr_Message :: report_message

record ImportSummary =
  is_Rows :: int
  is_Created :: int
  is_Updated :: int
  is_Skipped :: int
  is_Errors :: int
  is_ProductsCreated :: int
  is_ProductsUpdated :: int
  is_VariantsCreated :: int
  is_VariantsUpdated :: int

record ImportResult =
  res_DryRun :: bool
  res_PointID :: "string option"
  res_Summary :: ImportSummary
  res_Rows :: "ImportRowResult list"
  res_Imported :: int
  res_Errors :: "(int \<times> report_message) list"

record ImportOptions =
  opt_DryRun :: bool
  opt_PointID :: string

datatype ImportFormat = ImportFormatCSV | ImportFormatXLSX | OtherFormat

text \<open>The extension of the file name and its declared content type, both in lower case letters.\<close>

definition before_semicolon :: "string \<Rightarrow> string" where
  "before_semicolon ct = (if CHR '';'' \<in> set ct then trim_space (takeWhile (\<lambda>c. c \<noteq> CHR '';'') ct) else ct)"

definition file_ext :: "string \<Rightarrow> string" where
  "file_ext name =
     (let base = rev (takeWhile (\<lambda>c. c \<noteq> CHR ''/'') (rev name));
          tail = rev (takeWhile (\<lambda>c. c \<noteq> CHR ''.'') (rev base))
      in if CHR ''.'' \<in> set base then CHR ''.'' # tail else [])"

definition DetectImportFormat :: "import_env \<Rightarrow> string \<Rightarrow> string \<Rightarrow> ImportFormat option" where
  "DetectImportFormat E filename contentType =
     (let ext = ie_ToLower E (file_ext filename);
          ct = before_semicolon (ie_ToLower E (trim_space contentType))
      in if ext = ''.csv'' then Some ImportFormatCSV
         else if ext = ''.xlsx'' then Some ImportFormatXLSX
         else if ct = ''text/csv'' \<or> ct = ''application/csv'' then Some ImportFormatCSV
         else if ct = ''application/vnd.openxmlformats-officedocument.spreadsheetml.sheet'' then Some ImportFormatXLSX
         else None)"

section \<open>One model\<close>

record modelOutcome =
  mo_productCreated :: bool
  mo_rowStatus :: "(int \<times> RowStatus) list"
  mo_variantsNew :: int
  mo_variantsUpd :: int

definition wrap_error :: "int \<Rightarrow> go_error \<Rightarrow> go_error" where
  "wrap_error cur err = (case err of RowFailure _ _ \<Rightarrow> err | _ \<Rightarrow> RowFailure cur (dbErrorMessage err))"

definition at_row :: "int \<Rightarrow> 'a go \<Rightarrow> 'a go" where
  "at_row cur m w = (case m w of (r, w') \<Rightarrow> (map_sum (wrap_error cur) id r, w'))"

text \<open>The products the SKUs of a model's rows belong to; \<open>found\<close> is the one of the rows before.\<close>

fun product_by_skus :: "import_env \<Rightarrow> string \<Rightarrow> string \<Rightarrow> plannedRow list \<Rightarrow> string go" where
  "product_by_skus E code found [] = returnG found"
| "product_by_skus E code found (row # rows) =
     (let sku = iv_SKU (pl_variant row)
      in if \<not> pl_hasVariant row \<or> sku = [] then product_by_skus E code found rows
         else bindG (VariantBySKU sku) (\<lambda>ref.
              case ref of
                None \<Rightarrow> product_by_skus E code found rows
              | Some v \<Rightarrow>
                  if code \<noteq> [] \<and> vr_ProductModelCode v \<noteq> [] \<and> \<not> ie_EqualFold E (vr_ProductModelCode v) code
                  then failG (RowFailure (pl_line row) (newImportMsg ''import.sku_taken_article''
                         [(''sku'', Quote sku), (''article'', vr_ProductModelCode v)]))
                  else if found \<noteq> [] \<and> vr_ProductID v \<noteq> found
                  then failG (RowFailure (pl_line row) (newImportMsg ''import.sku_other_product'' [(''sku'', Quote sku)]))
                  else product_by_skus E code (vr_ProductID v) rows))"

definition findProduct :: "import_env \<Rightarrow> plannedModel \<Rightarrow> string go" where
  "findProduct E m =
     (let p = pm_product m; code = ip_ModelCode p
      in bindG (if code \<noteq> [] then ProductByModelCode E code else returnG []) (\<lambda>byCode.
         if byCode \<noteq> [] then returnG byCode
         else bindG (product_by_skus E code [] (pm_rows m)) (\<lambda>bySKU.
              if bySKU \<noteq> [] then returnG bySKU
              else bindG (ProductsByName E (ip_Brand p) (ip_NameRu p) (ip_CategoryID p) code) (\<lambda>ids.
                   case ids of
                     [] \<Rightarrow> returnG []
                   | [i] \<Rightarrow> returnG i
                   | _ \<Rightarrow> failG (RowFailure (pl_line (hd (pm_rows m)))
                        (newImportMsg ''import.ambiguous_product'' [(''name'', ip_NameRu p)]))))))"

definition productStatus :: "bool \<Rightarrow> RowStatus" where
  "productStatus created = (if created then RowStatusCreated else RowStatusUpdated)"

text \<open>The variant a row stands for: by SKU, then, unless the product is new, by size and color.\<close>

definition find_variant_of :: "import_env \<Rightarrow> string \<Rightarrow> bool \<Rightarrow> plannedRow \<Rightarrow> ImportVariantRef option go" where
  "find_variant_of E productID created row =
     (let v = pl_variant row
      in bindG (if iv_SKU v = [] then returnG None
                else bindG (VariantBySKU (iv_SKU v)) (\<lambda>ref.
                     case ref of
                       None \<Rightarrow> returnG None
                     | Some x \<Rightarrow> if vr_ProductID x \<noteq> productID
                         then failG (RowFailure (pl_line row) (newImportMsg ''import.sku_taken'' [(''sku'', Quote (iv_SKU v))]))
                         else returnG (Some x))) (\<lambda>ref.
         if ref = None \<and> \<not> created then VariantBySizeColor E productID (iv_Size v) (iv_Color v) else returnG ref))"

definition write_row :: "import_env \<Rightarrow> string \<Rightarrow> plannedRow \<Rightarrow> modelOutcome \<Rightarrow> modelOutcome go" where
  "write_row E productID row out =
     (if \<not> pl_hasVariant row
      then returnG (out\<lparr>mo_rowStatus := (pl_line row, productStatus (mo_productCreated out)) # mo_rowStatus out\<rparr>)
      else bindG (find_variant_of E productID (mo_productCreated out) row) (\<lambda>ref.
           bindG (case ref of
                    None \<Rightarrow> bindG (CreateVariant E productID (pl_variant row)) (\<lambda>vid. returnG (vid,
                      out\<lparr>mo_rowStatus := (pl_line row, RowStatusCreated) # mo_rowStatus out,
                          mo_variantsNew := mo_variantsNew out + 1\<rparr>))
                  | Some x \<Rightarrow> bindG (UpdateVariant (vr_ID x) (pl_variant row)) (\<lambda>_. returnG (vr_ID x,
                      out\<lparr>mo_rowStatus := (pl_line row, RowStatusUpdated) # mo_rowStatus out,
                          mo_variantsUpd := mo_variantsUpd out + 1\<rparr>))) (\<lambda>(vid, out').
           bindG (forG (\<lambda>(pid, qty). SetStock vid pid qty) (pl_stock row)) (\<lambda>_. returnG out'))))"

fun write_rows :: "import_env \<Rightarrow> string \<Rightarrow> plannedRow list \<Rightarrow> modelOutcome \<Rightarrow> modelOutcome go" where
  "write_rows E productID [] out = returnG out"
| "write_rows E productID (row # rows) out =
     bindG (at_row (pl_line row) (write_row E productID row out)) (write_rows E productID rows)"

definition importModel :: "import_env \<Rightarrow> plannedModel \<Rightarrow> modelOutcome go" where
  "importModel E m =
     bindG (at_row (pl_line (hd (pm_rows m)))
        (bindG (findProduct E m) (\<lambda>pid.
         if pid = [] then bindG (CreateProduct E (pm_product m)) (\<lambda>pid. returnG (pid, True))
         else bindG (UpdateProduct E pid (pm_product m)) (\<lambda>_. returnG (pid, False))))) (\<lambda>(pid, created).
     write_rows E pid (pm_rows m)
       \<lparr>mo_productCreated = created, mo_rowStatus = [], mo_variantsNew = 0, mo_variantsUpd = 0\<rparr>)"

section \<open>The report\<close>

definition row_result :: "plannedModel \<Rightarrow> modelOutcome option \<Rightarrow> plannedRow \<Rightarrow> ImportRowResult" where
  "row_result m out row =
     (let v = (if pl_hasVariant row then pl_variant row else zero_variant);
          (st, msg) = (case out of
             Some o' \<Rightarrow> (case map_of (mo_rowStatus o') (pl_line row) of None \<Rightarrow> RowStatusNone | Some st \<Rightarrow> st, NoMessage)
           | None \<Rightarrow> if pl_errs row \<noteq> [] then (RowStatusError, RowMessages (pl_errs row))
                     else (RowStatusSkipped, ModelSkipped (firstErrLine m)))
      in \<lparr>rr_Row = pl_line row, rr_Status = st, rr_Model = pm_label m, rr_Size = iv_Size v, rr_Color = iv_Color v,
          rr_SKU = iv_SKU v, rr_Message = msg\<rparr>)"

definition count_row :: "RowStatus \<Rightarrow> ImportSummary \<Rightarrow> ImportSummary" where
  "count_row st s =
     (let s = s\<lparr>is_Rows := is_Rows s + 1\<rparr>
      in case st of
           RowStatusNone \<Rightarrow> s
         | RowStatusCreated \<Rightarrow> s\<lparr>is_Created := is_Created s + 1\<rparr>
         | RowStatusUpdated \<Rightarrow> s\<lparr>is_Updated := is_Updated s + 1\<rparr>
         | RowStatusSkipped \<Rightarrow> s\<lparr>is_Skipped := is_Skipped s + 1\<rparr>
         | RowStatusError \<Rightarrow> s\<lparr>is_Errors := is_Errors s + 1\<rparr>)"

definition add_row :: "plannedModel \<Rightarrow> modelOutcome option \<Rightarrow> plannedRow \<Rightarrow> ImportResult \<Rightarrow> ImportResult" where
  "add_row m out row res =
     (let r = row_result m out row; st = rr_Status r
      in res\<lparr>res_Summary := count_row st (res_Summary res),
             res_Errors := (if st = RowStatusSkipped \<or> st = RowStatusError then res_Errors res @ [(rr_Row r, rr_Message r)]
                            else res_Errors res),
             res_Rows := res_Rows res @ [r]\<rparr>)"

definition count_model :: "modelOutcome \<Rightarrow> ImportResult \<Rightarrow> ImportResult" where
  "count_model o' res =
     (let s = res_Summary res
      in res\<lparr>res_Imported := res_Imported res + 1,
             res_Summary := s\<lparr>
               is_ProductsCreated := is_ProductsCreated s + (if mo_productCreated o' then 1 else 0),
               is_ProductsUpdated := is_ProductsUpdated s + (if mo_productCreated o' then 0 else 1),
               is_VariantsCreated := is_VariantsCreated s + mo_variantsNew o',
               is_VariantsUpdated := is_VariantsUpdated s + mo_variantsUpd o'\<rparr>\<rparr>)"

definition addModel :: "plannedModel \<Rightarrow> modelOutcome option \<Rightarrow> ImportResult \<Rightarrow> ImportResult" where
  "addModel m out res =
     fold (add_row m out) (pm_rows m) (case out of None \<Rightarrow> res | Some o' \<Rightarrow> count_model o' res)"

section \<open>The import\<close>

definition resolveTargetPoint :: "import_env \<Rightarrow> string \<Rightarrow> string go" where
  "resolveTargetPoint E raw =
     (let requested = trim_space raw
      in if requested = [] then DefaultPoint
         else if \<not> uuid_validate (ie_env E) requested then failG (AppError (BadRequest ''invalid_point''))
         else bindG (ActivePoint requested) (\<lambda>ok.
              if \<not> ok then failG (AppError (WithVariant (BadRequest ''invalid_point'') ''inactive''))
              else returnG requested))"

text \<open>What a model came to: its outcome, or the model with the failure of one of its rows.\<close>

definition run_model :: "import_env \<Rightarrow> bool \<Rightarrow> plannedModel \<Rightarrow> (plannedModel \<times> modelOutcome option) go" where
  "run_model E dryRun m =
     (if failed m then returnG (m, None)
      else bindG (attempt (session_Model dryRun (importModel E m))) (\<lambda>res.
           case res of
             Inr out \<Rightarrow> returnG (m, Some out)
           | Inl err \<Rightarrow>
               (case wrap_error (pl_line (hd (pm_rows m))) err of
                  RowFailure line msg \<Rightarrow> returnG (fail_model line msg m, None)
                | _ \<Rightarrow> returnG (m, None))))"

fun run_models :: "import_env \<Rightarrow> bool \<Rightarrow> plannedModel list \<Rightarrow> ImportResult \<Rightarrow> ImportResult go" where
  "run_models E dryRun [] res = returnG res"
| "run_models E dryRun (m # ms) res =
     bindG (run_model E dryRun m) (\<lambda>(m', out). run_models E dryRun ms (addModel m' out res))"

definition zero_summary :: ImportSummary where
  "zero_summary = \<lparr>is_Rows = 0, is_Created = 0, is_Updated = 0, is_Skipped = 0, is_Errors = 0, is_ProductsCreated = 0,
     is_ProductsUpdated = 0, is_VariantsCreated = 0, is_VariantsUpdated = 0\<rparr>"

definition run_plan :: "import_env \<Rightarrow> string \<Rightarrow> importRow list \<Rightarrow> (planner \<times> plannedModel list) go" where
  "run_plan E pointID rows w =
     (case plan E rows (\<lparr>pn_pointID = pointID, pn_usedPoint = False, pn_categories = [], pn_points = []\<rparr>, w) of
        (Inl e, (p, w')) \<Rightarrow> (Inl e, w')
      | (Inr models, (p, w')) \<Rightarrow> (Inr (p, models), w'))"

text \<open>The part of \<^verbatim>\<open>ImportProducts\<close> that follows the plan.\<close>

definition import_rest :: "import_env \<Rightarrow> ImportOptions \<Rightarrow> string \<Rightarrow> planner \<times> plannedModel list \<Rightarrow> ImportResult go" where
  "import_rest E opts pointID x = (case x of (p, models) \<Rightarrow>
     let res = \<lparr>res_DryRun = opt_DryRun opts, res_PointID = (if pn_usedPoint p then Some pointID else None),
                res_Summary = zero_summary, res_Rows = [], res_Imported = 0, res_Errors = []\<rparr>
     in if models = [] then returnG res
        else bindG (with_session (opt_DryRun opts) (run_models E (opt_DryRun opts) models res)) (\<lambda>res.
             returnG (res\<lparr>res_Rows := sort_key rr_Row (res_Rows res), res_Errors := sort_key fst (res_Errors res)\<rparr>)))"

text \<open>The parsed rows of the file, or the error of its parser, are an argument.\<close>

definition ImportProducts :: "import_env \<Rightarrow> go_error + importRow list \<Rightarrow> ImportOptions \<Rightarrow> ImportResult go" where
  "ImportProducts E parsed opts =
     bindG (liftG parsed) (\<lambda>rows.
     bindG (resolveTargetPoint E (opt_PointID opts)) (\<lambda>pointID.
     bindG (run_plan E pointID rows) (import_rest E opts pointID)))"

text \<open>From the upload: the format, then the parser of that format.\<close>

definition parse_file ::
  "import_env \<Rightarrow> ImportFormat \<Rightarrow> string list list \<times> go_error option \<Rightarrow> go_error + string list list \<Rightarrow> go_error + importRow list" where
  "parse_file E format csv xlsx =
     (case format of
        ImportFormatCSV \<Rightarrow> parseCSVRows E csv
      | ImportFormatXLSX \<Rightarrow> parseXLSXRows E xlsx
      | OtherFormat \<Rightarrow> Inl (AppError (WithVariant (BadRequest ''unsupported_format'') ''internal'')))"

end
