(* ===== verification/ImportPlanFacts.thy ===== *)
theory ImportPlanFacts
  imports ProductImport Runs Invariant "HOL-Library.Multiset"
begin

text \<open>
  What the planner of the import guarantees of the models it returns, whatever the file: every row that
  is not blank is in exactly one of them, and a model without errors has a price above zero for its product
  and for every price override.
\<close>

section \<open>Facts about results\<close>

text \<open>\<open>gives m Q\<close>: whatever value a run of \<open>m\<close> returns satisfies \<open>Q\<close>.\<close>

definition gives :: "('w, 'a) prog \<Rightarrow> ('a \<Rightarrow> bool) \<Rightarrow> bool" where
  "gives m Q \<longleftrightarrow> (\<forall>s x s'. m s = (Inr x, s') \<longrightarrow> Q x)"

named_theorems gives_intro \<open>facts about the values programs return\<close>

lemma gives_basic [gives_intro]: "Q x \<Longrightarrow> gives (returnG x) Q" "gives (failG e) Q"
  by (simp_all add: gives_def returnG_def failG_def)

lemma gives_bind [gives_intro]: "gives m P \<Longrightarrow> (\<And>x. P x \<Longrightarrow> gives (f x) Q) \<Longrightarrow> gives (bindG m f) Q"
  unfolding gives_def bindG_def by (auto split: prod.splits sum.splits) blast

lemma gives_any: "gives m (\<lambda>_. True)"
  by (simp add: gives_def)

lemma gives_seq: "(\<And>x. gives (f x) Q) \<Longrightarrow> gives (bindG m f) Q"
  by (rule gives_bind [OF gives_any]) simp

lemma givesD: "gives m Q \<Longrightarrow> m s = (Inr x, s') \<Longrightarrow> Q x"
  by (auto simp: gives_def)

lemma gives_weaken: "gives m P \<Longrightarrow> (\<And>x. P x \<Longrightarrow> Q x) \<Longrightarrow> gives m Q"
  by (simp add: gives_def)

section \<open>Prices\<close>

text \<open>A \<^verbatim>\<open>float64\<close> the cell parser returns: a number of tyiyn that fits the column.\<close>

definition money :: "float64 \<Rightarrow> bool" where
  "money f \<longleftrightarrow> (\<exists>k. 0 \<le> k \<and> k \<le> 10 ^ 13 \<and> f = float_of_numeric k)"

definition positive :: "float64 \<Rightarrow> bool" where
  "positive f \<longleftrightarrow> 0 < numeric_of_float f"

lemma float_of_numeric_0: "float_of_numeric 0 = 0"
  by (simp add: float_of_numeric_def rnd64_def)

lemma money_positive: "money f \<Longrightarrow> 0 < f \<Longrightarrow> positive f"
proof -
  assume "money f" "0 < f"
  then obtain k where k: "0 \<le> k" "k \<le> 10 ^ 13" "f = float_of_numeric k" by (auto simp: money_def)
  have "k \<noteq> 0" using k(3) \<open>0 < f\<close> float_of_numeric_0 by auto
  then show ?thesis using k numeric_roundtrip [of k] by (simp add: positive_def)
qed

lemma digits_val_nonneg: "list_all is_digit s \<Longrightarrow> 0 \<le> digits_val s"
proof (induction s rule: rev_induct)
  case (snoc c s)
  then show ?case by (simp add: digits_val_snoc digit_val_def is_digit_def)
qed (simp add: digits_val_def)

lemma decimal_parts_digits: "decimal_parts s = Some (a, b) \<Longrightarrow> list_all is_digit (a @ b)"
  by (auto simp: decimal_parts_def Let_def list_all_iff dest: set_takeWhileD split: list.splits if_splits)

lemma parse_float_nonneg: "decimal_parts s = Some p \<Longrightarrow> parse_float p = Some f \<Longrightarrow> 0 \<le> f"
proof -
  assume p: "decimal_parts s = Some p" and f: "parse_float p = Some f"
  obtain a b where ab: "p = (a, b)" by fastforce
  have "0 \<le> digits_val (a @ b)" using decimal_parts_digits p ab digits_val_nonneg by simp
  then have "0 \<le> (of_int (digits_val (a @ b)) :: rat) / 10 ^ length b" by simp
  then show ?thesis using f ab rnd64_nonneg by (auto simp: parse_float_def Let_def split: if_splits)
qed

lemma float_of_numeric_lower: "0 \<le> k \<Longrightarrow> of_int k / 200 \<le> float_of_numeric k"
  using float_of_numeric_err [of k] unfolding abs_le_iff by (simp add: field_simps)

lemma parsePrice_money:
  assumes "parsePrice E raw = Inr f" shows "money f"
proof -
  obtain p g where p: "decimal_parts (compactNumber E raw) = Some p" "parse_float p = Some g"
    and f: "f = fdiv (of_int (math_round (fmul g 100))) 100" and le: "\<not> maxImportPrice < f"
    using assms by (auto simp: parsePrice_def Let_def split: if_splits option.splits bind_splits)
  define k where "k = math_round (fmul g 100)"
  have "0 \<le> fmul g 100" unfolding fmul_def by (intro rnd64_nonneg) (use parse_float_nonneg [OF p] in simp)
  then have k0: "0 \<le> k" by (simp add: k_def math_round_def)
  have fk: "f = float_of_numeric k" by (simp add: f k_def fdiv_def float_of_numeric_def)
  have "maxImportPrice \<le> 10 ^ 10"
    using float_of_numeric_err [of 9999999999] unfolding abs_le_iff by (simp add: maxImportPrice_def field_simps)
  then have "of_int k / 200 \<le> (10 ^ 10 :: rat)" using float_of_numeric_lower [OF k0] fk le by linarith
  then have "of_int k \<le> (of_int (10 ^ 13) :: rat)" by simp
  then have "k \<le> 10 ^ 13" by (simp only: of_int_le_iff)
  then show ?thesis using k0 fk by (auto simp: money_def)
qed

section \<open>The plan\<close>

definition raw_ok :: "rawRow \<Rightarrow> bool" where
  "raw_ok rr \<longleftrightarrow> (\<forall>f. rw_price rr = Some f \<longrightarrow> positive f) \<and> (\<forall>f. rw_priceOverride rr = Some f \<longrightarrow> money f) \<and>
     (rw_priceBad rr \<longrightarrow> rw_errs rr \<noteq> []) \<and> iv_PriceOverride (pl_variant (rw_planned rr)) = None \<and>
     pl_line (rw_planned rr) = ir_line (rw_row rr)"

lemma raw_ok_err [simp]: "raw_ok rr \<Longrightarrow> raw_ok (add_err m rr)"
  by (simp add: raw_ok_def add_err_def)

lemma raw_ok_stock [simp]: "raw_ok rr \<Longrightarrow> raw_ok (add_stock p q rr)"
  by (simp add: raw_ok_def add_stock_def)

lemma raw_ok_text: "raw_ok (text_cells row)"
  by (simp add: raw_ok_def text_cells_def zero_variant_def)

lemma raw_ok_price: "raw_ok rr \<Longrightarrow> raw_ok (price_cell E rr)"
proof -
  assume ok: "raw_ok rr"
  have "raw_ok ((add_err m rr)\<lparr>rw_priceBad := True\<rparr>)" for m using ok by (simp add: raw_ok_def add_err_def)
  moreover have "raw_ok (rr\<lparr>rw_price := Some f\<rparr>)" if "parsePrice E v = Inr f" "\<not> f \<le> 0" for v f
    using ok money_positive [OF parsePrice_money [OF that(1)]] that(2) by (simp add: raw_ok_def)
  ultimately show ?thesis using ok unfolding price_cell_def Let_def by (simp split: sum.split)
qed

lemma raw_ok_override: "raw_ok rr \<Longrightarrow> raw_ok (override_cell E rr)"
proof -
  assume ok: "raw_ok rr"
  have "raw_ok (rr\<lparr>rw_priceOverride := Some f\<rparr>)" if "parsePrice E v = Inr f" for v f
    using ok parsePrice_money [OF that] by (simp add: raw_ok_def)
  then show ?thesis using ok unfolding override_cell_def Let_def by (simp split: sum.split)
qed

lemma raw_ok_variant: "raw_ok rr \<Longrightarrow> raw_ok (variant_cells rr)"
proof -
  assume ok: "raw_ok rr"
  have "raw_ok (rr\<lparr>rw_planned := (rw_planned rr)\<lparr>pl_hasVariant := True,
      pl_variant := \<lparr>iv_Size = sz, iv_Color = co, iv_SKU = sku, iv_PriceOverride = None\<rparr>\<rparr>\<rparr>)" for sz co sku
    using ok by (simp add: raw_ok_def)
  then show ?thesis using ok unfolding variant_cells_def Let_def by simp
qed

lemma cells_row: "rw_row (price_cell E rr) = rw_row rr" "rw_row (override_cell E rr) = rw_row rr"
  "rw_row (variant_cells rr) = rw_row rr" "rw_row (text_cells row) = row"
  by (simp_all add: price_cell_def override_cell_def variant_cells_def text_cells_def add_err_def Let_def split: sum.split)

text \<open>The row a cell step returns is the row it was given.\<close>

definition from_row :: "importRow \<Rightarrow> rawRow \<Rightarrow> bool" where
  "from_row row rr \<longleftrightarrow> raw_ok rr \<and> rw_row rr = row"

lemma from_row_steps [simp]:
  "from_row row rr \<Longrightarrow> from_row row (add_err m rr)" "from_row row rr \<Longrightarrow> from_row row (add_stock p q rr)"
  by (simp_all add: from_row_def) (simp_all add: add_err_def add_stock_def)

lemma gives_quantity: "from_row row rr \<Longrightarrow> gives (quantity_cell E rr) (from_row row)"
  unfolding quantity_cell_def Let_def by (auto intro!: gives_basic gives_seq split: sum.split)

lemma gives_stock_cell: "from_row row rr \<Longrightarrow> gives (stock_cell E col rr) (from_row row)"
  unfolding stock_cell_def Let_def by (auto intro!: gives_basic gives_seq split: sum.split)

lemma gives_stock_cells: "from_row row rr \<Longrightarrow> gives (stock_cells E cols rr) (from_row row)"
  by (induction cols arbitrary: rr) (auto intro!: gives_basic gives_bind [OF gives_stock_cell])

lemma gives_parseRow: "gives (parseRow E row) (from_row row)"
  unfolding parseRow_def
proof (rule gives_bind [OF gives_quantity gives_stock_cells])
  show "from_row row (variant_cells (override_cell E (price_cell E (text_cells row))))"
    by (simp add: from_row_def cells_row raw_ok_variant raw_ok_override raw_ok_price raw_ok_text)
qed

subsection \<open>Groups\<close>

definition row_lines :: "rawRow list \<Rightarrow> int list" where
  "row_lines rs = map (\<lambda>r. ir_line (rw_row r)) rs"

definition group_lines :: "group list \<Rightarrow> int multiset" where
  "group_lines gs = mset (concat (map (row_lines \<circ> snd) gs))"

definition group_ok :: "group \<Rightarrow> bool" where
  "group_ok g \<longleftrightarrow> snd g \<noteq> [] \<and> (\<forall>r \<in> set (snd g). raw_ok r \<and> (fst g = [] \<longrightarrow> rw_errs r \<noteq> []))"

lemma add_to_group_lines: "group_lines (add_to_group key rr gs) = add_mset (ir_line (rw_row rr)) (group_lines gs)"
  by (induction gs) (auto simp: group_lines_def row_lines_def)

lemma add_to_group_ok:
  assumes key: "key \<noteq> []" and rr: "raw_ok rr"
  shows "\<forall>g \<in> set gs. group_ok g \<Longrightarrow> g \<in> set (add_to_group key rr gs) \<Longrightarrow> group_ok g"
proof (induction gs)
  case Nil
  then show ?case using key rr by (simp add: group_ok_def)
next
  case (Cons h gs)
  obtain k rs where h: "h = (k, rs)" by fastforce
  have "group_ok (k, rs @ [rr])" if "k = key" using Cons.prems(1) key rr that by (simp add: h group_ok_def)
  then show ?case using Cons unfolding h by (cases "k = key") auto
qed

lemma check_sku_row: "from_row row rr \<Longrightarrow> from_row row (fst (check_sku skuLines rr))"
  by (auto simp: check_sku_def Let_def split: option.split)

lemma lone_row_ok: "from_row row rr \<Longrightarrow> groupKey E rr = [] \<Longrightarrow> group_ok ([], [lone_row rr]) \<and> rw_row (lone_row rr) = row"
  by (auto simp: lone_row_def group_ok_def from_row_def groupKey_def Let_def split: if_splits) (simp_all add: add_err_def)

lemma gives_group_rows:
  "\<forall>g \<in> set gs. group_ok g \<Longrightarrow> gives (group_rows E rows skuLines gs) (\<lambda>gs'. (\<forall>g \<in> set gs'. group_ok g) \<and>
     group_lines gs' = group_lines gs + mset (map ir_line (filter (\<lambda>r. \<not> isBlank r) rows)))"
proof (induction rows arbitrary: skuLines gs)
  case (Cons row rows)
  show ?case
  proof (cases "isBlank row")
    case False
    have "gives (case check_sku skuLines rr of (rr', skuLines') \<Rightarrow>
        let key = groupKey E rr' in if key = [] then group_rows E rows skuLines' (gs @ [([], [lone_row rr'])])
          else group_rows E rows skuLines' (add_to_group key rr' gs))
      (\<lambda>gs'. (\<forall>g \<in> set gs'. group_ok g) \<and>
         group_lines gs' = group_lines gs + mset (map ir_line (filter (\<lambda>r. \<not> isBlank r) (row # rows))))"
      if rr: "from_row row rr" for rr
    proof -
      obtain rr' sk where c: "check_sku skuLines rr = (rr', sk)" by fastforce
      have f: "from_row row rr'" using check_sku_row [OF rr, of skuLines] c by simp
      show ?thesis
      proof (cases "groupKey E rr' = []")
        case True
        note l = lone_row_ok [OF f True]
        have "group_lines (gs @ [([], [lone_row rr'])]) = add_mset (ir_line row) (group_lines gs)"
          using l by (simp add: group_lines_def row_lines_def)
        then show ?thesis
          using True c l Cons.prems False
          by (auto intro!: gives_weaken [OF Cons.IH [of "gs @ [([], [lone_row rr'])]" sk]])
      next
        case key: False
        have "raw_ok rr'" "rw_row rr' = row" using f by (simp_all add: from_row_def)
        then show ?thesis
          using key c Cons.prems False add_to_group_ok [OF key]
          by (auto simp: add_to_group_lines intro!: gives_weaken [OF Cons.IH [of "add_to_group (groupKey E rr') rr' gs" sk]])
      qed
    qed
    then show ?thesis using False by (simp add: gives_bind [OF gives_parseRow])
  qed (use Cons in simp)
qed (auto intro: gives_basic)

subsection \<open>Models\<close>

definition priced_variant :: "ImportVariant \<Rightarrow> bool" where
  "priced_variant v \<longleftrightarrow> (\<forall>p. iv_PriceOverride v = Some p \<longrightarrow> positive p)"

definition model_ok :: "plannedModel \<Rightarrow> bool" where
  "model_ok m \<longleftrightarrow> pm_rows m \<noteq> [] \<and> ((\<forall>r \<in> set (pm_rows m). pl_errs r = []) \<longrightarrow>
     positive (ip_BasePrice (pm_product m)) \<and> (\<forall>r \<in> set (pm_rows m). priced_variant (pl_variant r)))"

definition clean_rows :: "rawRow list \<Rightarrow> bool" where
  "clean_rows rs \<longleftrightarrow> (\<forall>r \<in> set rs. rw_errs r = [])"

definition rows_ok :: "rawRow list \<Rightarrow> bool" where
  "rows_ok rs \<longleftrightarrow> (\<forall>r \<in> set rs. raw_ok r)"

lemma on_first_rows:
  "rows_ok rs \<Longrightarrow> rows_ok (on_first (add_err m) rs)"
  "rs \<noteq> [] \<Longrightarrow> \<not> clean_rows (on_first (add_err m) rs)" "on_first (add_err m) rs = [] \<longleftrightarrow> rs = []"
  "row_lines (on_first (add_err m) rs) = row_lines rs"
proof -
  show "rows_ok rs \<Longrightarrow> rows_ok (on_first (add_err m) rs)" by (cases rs) (simp_all add: rows_ok_def on_first_def)
  show "rs \<noteq> [] \<Longrightarrow> \<not> clean_rows (on_first (add_err m) rs)"
    by (cases rs) (simp_all add: clean_rows_def on_first_def, simp add: add_err_def)
  show "on_first (add_err m) rs = [] \<longleftrightarrow> rs = []" by (cases rs) (simp_all add: on_first_def)
  show "row_lines (on_first (add_err m) rs) = row_lines rs"
    by (cases rs) (simp_all add: row_lines_def on_first_def, simp add: add_err_def)
qed

lemma variant_price_row:
  "rw_errs (variant_price base r) = rw_errs r" "pl_line (rw_planned (variant_price base r)) = pl_line (rw_planned r)"
  "raw_ok r \<Longrightarrow> priced_variant (pl_variant (rw_planned (variant_price base r)))"
  by (auto simp: variant_price_def raw_ok_def priced_variant_def Let_def split: option.splits dest: money_positive)

lemma check_variants_Cons:
  "\<exists>r1 r' seen'. check_variants E multi base seen (r # rs) = r' # check_variants E multi base seen' rs \<and>
     (r1 = r \<or> (\<exists>m. r1 = add_err m r)) \<and> (r' = r1 \<or> r' = variant_price base r1)"
proof (cases "pl_hasVariant (rw_planned r)")
  case False
  then show ?thesis by (cases multi) auto
next
  case True
  then show ?thesis
    by (cases "map_of seen (variant_key E (pl_variant (rw_planned r)))") (auto simp: Let_def)
qed

lemma check_variants_rows:
  assumes "rows_ok rs"
  shows "map (\<lambda>r. pl_line (rw_planned r)) (check_variants E multi base seen rs) = row_lines rs \<and>
    (\<forall>r' \<in> set (check_variants E multi base seen rs). priced_variant (pl_variant (rw_planned r'))) \<and>
    (clean_rows (check_variants E multi base seen rs) \<longrightarrow> clean_rows rs)"
  using assms
proof (induction rs arbitrary: seen)
  case (Cons r rs)
  from check_variants_Cons obtain r1 r' seen' where
      c: "check_variants E multi base seen (r # rs) = r' # check_variants E multi base seen' rs"
        "r1 = r \<or> (\<exists>m. r1 = add_err m r)" "r' = r1 \<or> r' = variant_price base r1"
    by metis
  have ok: "raw_ok r" "rows_ok rs" using Cons.prems by (simp_all add: rows_ok_def)
  have r1: "raw_ok r1" "pl_line (rw_planned r1) = ir_line (rw_row r)" "rw_errs r1 = [] \<Longrightarrow> rw_errs r = []"
    using c(2) ok(1) by (auto simp: raw_ok_def) (auto simp: add_err_def)
  have "priced_variant (pl_variant (rw_planned r1))" using r1(1) by (simp add: raw_ok_def priced_variant_def)
  then have r': "priced_variant (pl_variant (rw_planned r')) \<and> pl_line (rw_planned r') = ir_line (rw_row r) \<and>
      (rw_errs r' = [] \<longrightarrow> rw_errs r = [])"
    using c(3) r1(2,3) variant_price_row(1,2) [of base r1] variant_price_row(3) [OF r1(1), of base]
    by (elim disjE) simp_all
  define cs where "cs = check_variants E multi base seen' rs"
  have ih: "map (\<lambda>r. pl_line (rw_planned r)) cs = row_lines rs" "\<forall>r' \<in> set cs. priced_variant (pl_variant (rw_planned r'))"
    "clean_rows cs \<longrightarrow> clean_rows rs"
    using Cons.IH [OF ok(2), of seen'] unfolding cs_def by blast+
  have l: "row_lines (r # rs) = ir_line (rw_row r) # row_lines rs" by (simp add: row_lines_def)
  have n: "clean_rows (x # xs) \<longleftrightarrow> rw_errs x = [] \<and> clean_rows xs" for x xs by (simp add: clean_rows_def)
  show ?case unfolding c(1) cs_def [symmetric] list.map list.set l n using ih r' by blast
qed (simp add: row_lines_def clean_rows_def)

lemma base_price_positive: "rows_ok rs \<Longrightarrow> base_price rs = Some b \<Longrightarrow> positive b"
  by (auto simp: rows_ok_def base_price_def raw_ok_def split: bind_splits dest!: find_Some_mem)

lemma gives_assemble:
  assumes ok: "rows_ok rs" and ne: "rs \<noteq> []"
  shows "gives (assemble E rs) (\<lambda>m. model_ok m \<and> map pl_line (pm_rows m) = row_lines rs)"
proof -
  let ?err = "\<lambda>k. on_first (add_err (newImportMsg k []))"
  define named where "named = (if pick rw_nameRu rs = [] then ?err ''import.no_name'' rs else rs)"
  define filed where "filed c = (case c of Inl m \<Rightarrow> on_first (add_err m) named | Inr (_ :: string) \<Rightarrow> named)" for c
  define priced where "priced c =
    (if base_price rs = None \<and> \<not> hasBadPrice rs then ?err ''import.no_price'' (filed c) else filed c)" for c
  define rows where "rows c = check_variants E (1 < length rs) (base_price rs) [] (priced c)" for c
  have n: "rows_ok named" "named \<noteq> []" "row_lines named = row_lines rs" "clean_rows named \<Longrightarrow> named = rs"
    using ok ne on_first_rows by (auto simp: named_def)
  have f: "rows_ok (filed c)" "filed c \<noteq> []" "row_lines (filed c) = row_lines rs" "clean_rows (filed c) \<Longrightarrow> filed c = rs" for c
    using n on_first_rows by (auto simp: filed_def split: sum.splits)
  have p: "rows_ok (priced c)" "priced c \<noteq> []" "row_lines (priced c) = row_lines rs"
    "clean_rows (priced c) \<Longrightarrow> priced c = rs \<and> (base_price rs \<noteq> None \<or> hasBadPrice rs)" for c
    using f on_first_rows by (auto simp: priced_def split: if_splits)
  have base: "base_price rs \<noteq> None" if "clean_rows (priced c)" for c
  proof -
    have "clean_rows rs" "base_price rs \<noteq> None \<or> hasBadPrice rs" using that p(4) [OF that] by simp_all
    moreover have "\<not> hasBadPrice rs" if "clean_rows rs"
      using that ok by (auto simp: hasBadPrice_def list_ex_iff clean_rows_def raw_ok_def rows_ok_def)
    ultimately show ?thesis by blast
  qed
  have r: "map (\<lambda>r. pl_line (rw_planned r)) (rows c) = row_lines rs"
    "\<forall>r \<in> set (rows c). priced_variant (pl_variant (rw_planned r))" "clean_rows (rows c) \<Longrightarrow> clean_rows (priced c)" for c
    using check_variants_rows [OF p(1)] p(3) by (auto simp: rows_def)
  have rne: "rows c \<noteq> []" for c using r(1) [of c] ne by (auto simp: row_lines_def)
  have m: "model_ok \<lparr>pm_label = l, pm_product = prod, pm_rows = map settle (rows c)\<rparr>"
    if b: "\<And>b. base_price rs = Some b \<Longrightarrow> ip_BasePrice prod = b" for l prod c
  proof -
    have "positive (ip_BasePrice prod)" if "clean_rows (rows c)"
      using base [OF r(3) [OF that]] b base_price_positive [OF ok] by auto
    then show ?thesis using rne r(2) by (auto simp: model_ok_def settle_def clean_rows_def)
  qed
  have l: "map pl_line (map settle (rows c)) = row_lines rs" for c
    using r(1) [of c] by (simp add: settle_def o_def)
  show ?thesis
    unfolding assemble_def Let_def named_def [symmetric] filed_def [symmetric] priced_def [symmetric] rows_def [symmetric]
    by (intro gives_seq gives_basic(1) conjI m) (simp_all only: l plannedModel.simps ImportProduct.simps option.case)
qed

lemma gives_assemble_all:
  "\<forall>g \<in> set gs. group_ok g \<Longrightarrow> gives (assemble_all E gs) (\<lambda>ms. (\<forall>m \<in> set ms. model_ok m) \<and>
     mset (concat (map (map pl_line \<circ> pm_rows) ms)) = group_lines gs)"
proof (induction gs)
  case Nil
  then show ?case by (auto simp: group_lines_def intro: gives_basic)
next
  case (Cons g gs)
  obtain key rs where g: "g = (key, rs)" by fastforce
  have ok: "rows_ok rs" "rs \<noteq> []" "key = [] \<Longrightarrow> \<forall>r \<in> set rs. rw_errs r \<noteq> []"
    using Cons.prems g by (auto simp: group_ok_def rows_ok_def)
  let ?m = "if key = [] then returnG \<lparr>pm_label = firstNonEmpty (map rw_modelCode rs @ map rw_nameRu rs),
                pm_product = zero_product, pm_rows = map settle rs\<rparr> else assemble E rs"
  have m: "gives ?m (\<lambda>m. model_ok m \<and> map pl_line (pm_rows m) = row_lines rs)"
  proof (cases "key = []")
    case True
    have "map pl_line (map settle rs) = row_lines rs"
      using ok(1) by (auto simp: settle_def row_lines_def rows_ok_def raw_ok_def)
    moreover have "model_ok \<lparr>pm_label = l, pm_product = zero_product, pm_rows = map settle rs\<rparr>" for l
      using ok(2) ok(3) [OF True] by (cases rs) (auto simp: model_ok_def settle_def)
    ultimately show ?thesis using True by (simp add: gives_basic)
  next
    case False
    then show ?thesis using gives_assemble [OF ok(1,2)] by simp
  qed
  have "gives (bindG ?m (\<lambda>m. bindG (assemble_all E gs) (\<lambda>ms. returnG (m # ms))))
    (\<lambda>ms. (\<forall>m \<in> set ms. model_ok m) \<and> mset (concat (map (map pl_line \<circ> pm_rows) ms)) = group_lines (g # gs))"
    by (intro gives_bind [OF m] gives_bind [OF Cons.IH] gives_basic(1))
       (use Cons.prems g in \<open>auto simp: group_lines_def o_def\<close>)
  then show ?case unfolding g assemble_all.simps .
qed

lemma gives_plan:
  "gives (plan E rows) (\<lambda>ms. (\<forall>m \<in> set ms. model_ok m) \<and>
     mset (concat (map (map pl_line \<circ> pm_rows) ms)) = mset (map ir_line (filter (\<lambda>r. \<not> isBlank r) rows)))"
proof -
  have "gives (group_rows E rows [] []) (\<lambda>gs. (\<forall>g \<in> set gs. group_ok g) \<and>
      group_lines gs = mset (map ir_line (filter (\<lambda>r. \<not> isBlank r) rows)))"
    using gives_group_rows [of "[]" E rows "[]"] by (simp add: group_lines_def)
  then show ?thesis unfolding plan_def
  proof (rule gives_bind)
    fix gs assume gs: "(\<forall>g \<in> set gs. group_ok g) \<and> group_lines gs = mset (map ir_line (filter (\<lambda>r. \<not> isBlank r) rows))"
    from gives_assemble_all [OF conjunct1 [OF gs], of E] show "gives (assemble_all E gs) (\<lambda>ms. (\<forall>m \<in> set ms. model_ok m) \<and>
       mset (concat (map (map pl_line \<circ> pm_rows) ms)) = mset (map ir_line (filter (\<lambda>r. \<not> isBlank r) rows)))"
      unfolding conjunct2 [OF gs] .
  qed
qed

end
