(* ===== verification/ImportFacts.thy ===== *)
theory ImportFacts
  imports ImportPlanFacts
begin

text \<open>
  What the import does to the tables, as a contract its writes are interpreted in, and to its report; and
  that a dry run follows a real one step by step.
\<close>

section \<open>What the import keeps\<close>

text \<open>
  A relation between the worlds before and after, in which reading stays. Planning only reads: its runs stay in
  the relation, whatever it is.
\<close>

locale reading = run_relation R for R :: "world \<Rightarrow> world \<Rightarrow> bool" +
  assumes R_read: "R w (w\<lparr>faults := drop n (faults w)\<rparr>)"

sublocale reading \<subseteq> planning: run_relation "\<lambda>s s'. R (snd s) (snd s')"
  by unfold_locales (auto intro: R_refl R_trans)

sublocale db_relation \<subseteq> reading "\<lambda>w w'. D (tables w) (tables w')"
  by unfold_locales (simp add: D_refl)

context reading
begin

lemma reads: "stays (query f)"
proof (rule staysI)
  fix w r w' assume run: "query f w = (r, w')"
  have "w' = w\<lparr>faults := drop 0 (faults w)\<rparr> \<or> w' = w\<lparr>faults := drop 1 (faults w)\<rparr>"
    using run by (cases "faults w") (auto simp: query_def stmt_def run_stmt_def split: if_splits)
  then show "R w w'" using R_read by metis
qed

lemma on_store_stays: "stays m \<Longrightarrow> planning.stays (on_store m)"
proof (rule planning.staysI)
  fix s r s'
  assume m: "stays m" and run: "on_store m s = (r, s')"
  obtain q w where q: "m (snd s) = (q, w)" by fastforce
  from staysD [OF m q] run q show "R (snd s) (snd s')" by (auto simp: on_store_def split_beta)
qed

lemma planner_stays: "planning.stays planner_get" "planning.stays (planner_set p)"
  by (auto simp: planning.stays_def planner_get_def planner_set_def R_refl)

lemma lookups_stay: "stays (ActivePoint p)" "stays DefaultPoint" "stays (ResolveCategory E raw)"
    "stays (ProductByModelCode E code)" "stays (ProductsByName E b n c code)" "stays (VariantBySKU sku)"
    "stays (VariantBySizeColor E p sz color)" "stays (resolveTargetPoint E raw)"
proof -
  show "stays (ResolveCategory E raw)"
    unfolding ResolveCategory_def by (auto intro!: stays_bind stays_if stays_basic reads split: option.split list.split)
  show "stays (resolveTargetPoint E raw)"
    unfolding resolveTargetPoint_def DefaultPoint_def ActivePoint_def Let_def by (intro stays_intros reads)
qed (simp_all add: ActivePoint_def DefaultPoint_def ProductByModelCode_def ProductsByName_def VariantBySKU_def
     VariantBySizeColor_def reads)

lemma plan_stays: "planning.stays (plan E rows)"
proof -
  note basics = planning.stays_intros planner_stays on_store_stays lookups_stay
  have p: "planning.stays (activePoint E pid)" "planning.stays (category E raw)" for pid raw
    unfolding activePoint_def category_def Let_def by (intro basics)+
  have q: "planning.stays (quantity_cell E rr)" "planning.stays (stock_cell E col rr)" for rr col
    unfolding quantity_cell_def stock_cell_def Let_def by (intro basics p)+
  have "planning.stays (stock_cells E cols rr)" for cols rr
    by (induction cols arbitrary: rr) (auto intro!: basics(1,4) q)
  then have r: "planning.stays (parseRow E row)" for row
    unfolding parseRow_def by (intro basics q)
  have g: "planning.stays (group_rows E rows sk gs)" for rows sk gs
    by (induction rows arbitrary: sk gs) (auto intro!: basics(1) planning.stays_bind r simp: Let_def split: prod.split)
  have a: "planning.stays (assemble E rs)" for rs
    unfolding assemble_def Let_def by (intro basics p)
  have "planning.stays (assemble_all E gs)" for gs
  proof (induction gs)
    case (Cons x gs)
    show ?case by (cases x) (auto intro!: planning.stays_bind planning.stays_basic a Cons.IH)
  qed (simp add: planning.stays_basic)
  then show ?thesis unfolding plan_def by (intro planning.stays_bind g)
qed

lemma run_plan_stays: "stays (run_plan E pointID rows)"
proof (rule staysI)
  fix w r w' assume run: "run_plan E pointID rows w = (r, w')"
  let ?p = "\<lparr>pn_pointID = pointID, pn_usedPoint = False, pn_categories = [], pn_points = []\<rparr>"
  obtain q p w1 where q: "plan E rows (?p, w) = (q, (p, w1))" by (metis prod_cases3)
  from planning.staysD [OF plan_stays q] run q show "R w w'"
    by (auto simp: run_plan_def split: sum.splits)
qed

end

context db_relation
begin

lemma dry_model_stays: "stays fn \<Longrightarrow> stays (dry_model fn)"
proof (rule staysI)
  fix w r w' assume fn: "stays fn" and run: "dry_model fn w = (r, w')"
  have idle: "tables w2 = tables w1" if "exec id w1 = (x, w2)" for x w1 w2
    using that by (auto simp: exec_def stmt_def run_stmt_def split: list.splits if_splits)
  have restored: "tables (snd (exec (\<lambda>_. d) w2)) \<in> {d, tables w2}" for d w2
    by (auto simp: exec_def stmt_def run_stmt_def split: list.splits)
  obtain x w1 where x: "exec id w = (x, w1)" by fastforce
  obtain y w2 where y: "fn w1 = (y, w2)" by fastforce
  have D: "D (tables w) (tables w2)" using staysD [OF fn y] idle [OF x] by simp
  show "D (tables w) (tables w')"
    using run x y D restored [of "tables w1" w2] idle D_refl
    by (auto simp: dry_model_def split: sum.splits prod.splits dest!: idle)
qed

lemma session_Model_stays: "stays fn \<Longrightarrow> stays (session_Model dryRun fn)"
  by (simp add: session_Model_def stays_tx dry_model_stays)

lemma dry_session_stays: "stays (with_session True body)"
proof (rule staysI)
  fix w r w' assume run: "with_session True body w = (r, w')"
  have "tables (snd (begin_tx w)) = tables w" by (simp add: begin_tx_def tables_query)
  then have "tables w' = tables w" using run by (auto simp: with_session_def split: prod.splits sum.splits)
  then show "D (tables w) (tables w')" by (simp add: D_refl)
qed

lemma with_session_stays: "stays body \<Longrightarrow> stays (with_session dryRun body)"
  by (cases dryRun) (simp_all only: dry_session_stays, simp add: with_session_def)

end

text \<open>What a plan is, for the rows of a file.\<close>

definition planned_ok :: "importRow list \<Rightarrow> plannedModel list \<Rightarrow> bool" where
  "planned_ok rows ms \<longleftrightarrow> (\<forall>m \<in> set ms. model_ok m) \<and>
     mset (concat (map (map pl_line \<circ> pm_rows) ms)) = mset (map ir_line (filter (\<lambda>r. \<not> isBlank r) rows))"

lemma gives_run_plan: "gives (run_plan E pointID rows) (\<lambda>(p, ms). planned_ok rows ms)"
  unfolding gives_def
proof (intro allI impI)
  fix w x w' assume run: "run_plan E pointID rows w = (Inr x, w')"
  let ?p = "\<lparr>pn_pointID = pointID, pn_usedPoint = False, pn_categories = [], pn_points = []\<rparr>"
  obtain ms p w1 where "plan E rows (?p, w) = (Inr ms, (p, w1))" "x = (p, ms)"
    using run by (auto simp: run_plan_def split: prod.splits sum.splits)
  with givesD [OF gives_plan] show "case x of (p, ms) \<Rightarrow> planned_ok rows ms" unfolding planned_ok_def by fastforce
qed

lemma planned_line: "planned_ok rows ms \<Longrightarrow> m \<in> set ms \<Longrightarrow> r \<in> set (pm_rows m) \<Longrightarrow> \<exists>x \<in> set rows. pl_line r = ir_line x"
proof -
  assume ok: "planned_ok rows ms" and m: "m \<in> set ms" "r \<in> set (pm_rows m)"
  have "pl_line r \<in> set (concat (map (map pl_line \<circ> pm_rows) ms))" using m by auto
  then have "pl_line r \<in> set (map ir_line (filter (\<lambda>r. \<not> isBlank r) rows))"
    using ok unfolding planned_ok_def by (metis set_mset_mset)
  then show ?thesis by auto
qed

text \<open>A model without errors has prices above zero.\<close>

lemma planned_model:
  assumes "planned_ok rows ms" "\<forall>r \<in> set rows. 0 < ir_line r" "m \<in> set ms"
  shows "failed m \<or> (positive (ip_BasePrice (pm_product m)) \<and> (\<forall>r \<in> set (pm_rows m). priced_variant (pl_variant r)))"
proof (cases "\<forall>r \<in> set (pm_rows m). pl_errs r = []")
  case True
  then show ?thesis using assms(1,3) by (simp add: planned_ok_def model_ok_def)
next
  case False
  then obtain r where r: "find (\<lambda>r. pl_errs r \<noteq> []) (pm_rows m) = Some r" by (metis (mono_tags) find_None_iff not_None_eq)
  then have "0 < pl_line r" using planned_line [OF assms(1,3)] find_Some_mem [OF r] assms(2) by fastforce
  then show ?thesis using r by (simp add: failed_def firstErrLine_def)
qed

lemma ImportProducts_rows:
  "ImportProducts E (Inr rows) opts = bindG (resolveTargetPoint E (opt_PointID opts)) (\<lambda>pointID.
     bindG (run_plan E pointID rows) (import_rest E opts pointID))"
  by (simp add: ImportProducts_def bindG_def liftG_def fun_eq_iff)

context run_relation
begin

lemma stays_bind_gives:
  "stays m \<Longrightarrow> gives m P \<Longrightarrow> (\<And>x. P x \<Longrightarrow> stays (f x)) \<Longrightarrow> stays (bindG m f)"
proof (rule staysI)
  fix s r s'
  assume m: "stays m" "gives m P" and f: "\<And>x. P x \<Longrightarrow> stays (f x)" and run: "bindG m f s = (r, s')"
  obtain q t where q: "m s = (q, t)" by fastforce
  show "R s s'"
  proof (cases q)
    case (Inl e)
    then show ?thesis using run q staysD [OF m(1) q] by (simp add: bindG_def)
  next
    case (Inr x)
    then have "P x" "f x t = (r, s')" using run q givesD [OF m(2), of s x t] by (simp_all add: bindG_def)
    then show ?thesis using staysD [OF m(1) q] staysD [OF f] R_trans by blast
  qed
qed

end

text \<open>The writes of the import, on products and variants that are not given away.\<close>

locale catalog_writes = reading R for R :: "world \<Rightarrow> world \<Rightarrow> bool" +
  assumes product_ops: "positive (ip_BasePrice p) \<Longrightarrow> stays (CreateProduct E p)"
      "positive (ip_BasePrice p) \<Longrightarrow> stays (UpdateProduct E pid p)"
    and variant_ops: "priced_variant v \<Longrightarrow> stays (CreateVariant E pid v)" "priced_variant v \<Longrightarrow> stays (UpdateVariant vid v)"
    and stock_op: "stays (SetStock vid pid q)"
    and model_tx: "stays (m :: modelOutcome go) \<Longrightarrow> stays (session_Model dryRun m)"
    and session: "stays (b :: ImportResult go) \<Longrightarrow> stays (with_session dryRun b)"
begin

lemma at_row_stays: "stays m \<Longrightarrow> stays (at_row line m)"
  by (simp add: stays_def at_row_def split_beta)

lemma product_by_skus_stays: "stays (product_by_skus E code found rows)"
  by (induction rows arbitrary: found)
     (auto intro!: stays_basic stays_bind lookups_stay simp: Let_def split: option.split)

lemma write_row_stays: "priced_variant (pl_variant row) \<Longrightarrow> stays (write_row E pid row out)"
proof -
  assume v: "priced_variant (pl_variant row)"
  have "stays (forG (\<lambda>(pid, qty). SetStock vid pid qty) qs)" for vid qs
    by (induction qs) (auto intro!: stays_basic stays_bind stock_op split: prod.split)
  then show ?thesis
    unfolding write_row_def find_variant_of_def Let_def
    by (intro stays_intros lookups_stay variant_ops v)
qed

lemma write_rows_stays:
  "\<forall>r \<in> set rows. priced_variant (pl_variant r) \<Longrightarrow> stays (write_rows E pid rows out)"
  by (induction rows arbitrary: out) (auto intro!: stays_basic stays_bind at_row_stays write_row_stays)

lemma importModel_stays:
  assumes "positive (ip_BasePrice (pm_product m))" "\<forall>r \<in> set (pm_rows m). priced_variant (pl_variant r)"
  shows "stays (importModel E m)"
proof -
  have "stays (findProduct E m)"
    unfolding findProduct_def Let_def
    by (auto intro!: stays_bind stays_if stays_basic lookups_stay product_by_skus_stays split: list.split)
  then show ?thesis
    unfolding importModel_def
    by (intro stays_intros at_row_stays product_ops [OF assms(1)] write_rows_stays [OF assms(2)])
qed

lemma run_model_stays:
  assumes "failed m \<or> stays (importModel E m)" shows "stays (run_model E dryRun m)"
proof (cases "failed m")
  case False
  then have "stays (importModel E m)" using assms by simp
  then show ?thesis using False unfolding run_model_def
    by (auto intro!: stays_bind stays_attempt model_tx stays_basic split: sum.split go_error.split)
qed (simp add: run_model_def stays_basic)

lemma run_models_stays:
  "\<forall>m \<in> set ms. failed m \<or> stays (importModel E m) \<Longrightarrow> stays (run_models E dryRun ms res)"
  by (induction ms arbitrary: res) (auto intro!: stays_basic stays_bind run_model_stays)

lemma planned_models_stay:
  assumes "planned_ok rows ms" "\<forall>r \<in> set rows. 0 < ir_line r" "m \<in> set ms"
  shows "failed m \<or> stays (importModel E m)"
  using planned_model [OF assms] importModel_stays by blast

lemma ImportProducts_stays:
  assumes "\<forall>r \<in> set rows. 0 < ir_line r"
  shows "stays (ImportProducts E (Inr rows) opts)"
proof -
  have "stays (import_rest E opts pointID x)" if "case x of (p, ms) \<Rightarrow> planned_ok rows ms" for pointID x
  proof -
    obtain p ms where x: "x = (p, ms)" by fastforce
    then have "\<forall>m \<in> set ms. failed m \<or> stays (importModel E m)" using that planned_models_stay [OF _ assms] by blast
    then show ?thesis
      unfolding import_rest_def Let_def x prod.case
      by (intro stays_if stays_bind stays_basic session run_models_stays)
  qed
  then show ?thesis
    unfolding ImportProducts_rows by (intro stays_bind lookups_stay stays_bind_gives [OF run_plan_stays gives_run_plan])
qed

end

text \<open>The same for a relation that looks at the tables only: the transactions and the session keep it.\<close>

locale catalog_contract = db_relation D for D :: "db \<Rightarrow> db \<Rightarrow> bool" +
  assumes products_kept: "positive (ip_BasePrice p) \<Longrightarrow> stays (CreateProduct E p)"
      "positive (ip_BasePrice p) \<Longrightarrow> stays (UpdateProduct E pid p)"
    and variants_kept: "priced_variant v \<Longrightarrow> stays (CreateVariant E pid v)" "priced_variant v \<Longrightarrow> stays (UpdateVariant vid v)"
    and stock_kept: "stays (SetStock vid pid q)"

sublocale catalog_contract \<subseteq> catalog_writes "\<lambda>w w'. D (tables w) (tables w')"
  by unfold_locales (rule products_kept variants_kept stock_kept session_Model_stays with_session_stays; assumption?)+

end
