(* ===== verification/ImportReport.thy ===== *)
theory ImportReport
  imports ImportFacts Shop
begin

text \<open>
  What the import promises: the contracts of its writes for the orders, the prices and the faults of the
  connection; that its report accounts for every row of the file; and that a dry run goes through the
  same steps as the real one.
\<close>

section \<open>The contracts\<close>

text \<open>The import is one of the things the rest of the server does beside orders and payments.\<close>

definition beside :: "db \<Rightarrow> db \<Rightarrow> bool" where
  "beside d d' \<longleftrightarrow> (stock_ok d \<longrightarrow> outside d d')"

definition priced_db :: "db \<Rightarrow> bool" where
  "priced_db d \<longleftrightarrow> (\<forall>p \<in> set (products d). 0 < pr_base_price p) \<and>
     (\<forall>v \<in> set (variants d). \<forall>p. pv_price_override v = Some p \<longrightarrow> 0 < p)"

definition keeps_priced :: "db \<Rightarrow> db \<Rightarrow> bool" where
  "keeps_priced d d' \<longleftrightarrow> (priced_db d \<longrightarrow> priced_db d')"

interpretation beside: db_relation beside
  by unfold_locales (auto simp: beside_def outside_def)

interpretation beside: catalog_contract beside
proof unfold_locales
  show "beside.stays (CreateProduct E p)" for E p
    unfolding CreateProduct_def
    by (rule beside.stays_stmt) (auto simp: Let_def beside_def outside_def stock_ok_def split: if_splits option.splits)
  show "beside.stays (UpdateProduct E pid p)" for E pid p
    unfolding UpdateProduct_def
    by (rule beside.stays_stmt) (auto simp: beside_def outside_def stock_ok_def split: option.splits)
  show "beside.stays (CreateVariant E pid v)" for E pid v
    unfolding CreateVariant_def
    by (rule beside.stays_stmt) (auto simp: Let_def beside_def outside_def stock_ok_def split: if_splits option.splits)
  show "beside.stays (UpdateVariant vid v)" for vid v
    unfolding UpdateVariant_def
    by (rule beside.stays_stmt) (auto simp: beside_def outside_def stock_ok_def split: option.splits)
  show "beside.stays (SetStock vid pid q)" for vid pid q
    unfolding SetStock_def
    by (rule beside.stays_stmt) (auto simp: set_stock_def beside_def outside_def stock_ok_def split: if_splits)
qed

interpretation priced: db_relation keeps_priced
  by unfold_locales (auto simp: keeps_priced_def)

lemma priced_map:
  "priced_db d \<Longrightarrow> (\<And>r. 0 < pr_base_price r \<Longrightarrow> 0 < pr_base_price (f r)) \<Longrightarrow>
     priced_db (d\<lparr>products := map (\<lambda>r. if P r then f r else r) (products d)\<rparr>)"
  by (auto simp: priced_db_def)

lemma priced_map_variants:
  "priced_db d \<Longrightarrow> (\<And>r p. pv_price_override (g r) = Some p \<Longrightarrow> 0 < p) \<Longrightarrow>
     priced_db (d\<lparr>variants := map (\<lambda>r. if Q r then g r else r) (variants d)\<rparr>)"
  by (auto simp: priced_db_def)

interpretation priced: catalog_contract keeps_priced
proof unfold_locales
  show "priced.stays (CreateProduct E p)" if "positive (ip_BasePrice p)" for E p
    unfolding CreateProduct_def using that
    by (intro priced.stays_stmt)
       (auto simp: Let_def keeps_priced_def priced_db_def new_product_def positive_def split: if_splits option.splits)
  show "priced.stays (UpdateProduct E pid p)" if "positive (ip_BasePrice p)" for E pid p
    unfolding UpdateProduct_def using that
    by (intro priced.stays_stmt)
       (auto simp: keeps_priced_def overwrite_product_def positive_def intro!: priced_map split: option.splits)
  show "priced.stays (CreateVariant E pid v)" if "priced_variant v" for E pid v
    unfolding CreateVariant_def using that
    by (intro priced.stays_stmt)
       (auto simp: Let_def keeps_priced_def priced_db_def new_variant_def priced_variant_def positive_def split: if_splits option.splits)
  show "priced.stays (UpdateVariant vid v)" if "priced_variant v" for vid v
    unfolding UpdateVariant_def using that
    by (intro priced.stays_stmt)
       (auto simp: keeps_priced_def overwrite_variant_def priced_variant_def positive_def intro!: priced_map_variants split: option.splits)
  show "priced.stays (SetStock vid pid q)" for vid pid q
    unfolding SetStock_def
    by (rule priced.stays_stmt) (auto simp: set_stock_def keeps_priced_def priced_db_def split: if_splits)
qed

text \<open>A connection that works keeps working; on it both kinds of session run a model the same way.\<close>

definition online :: "world \<Rightarrow> world \<Rightarrow> bool" where
  "online w w' \<longleftrightarrow> (faults w = [] \<longrightarrow> faults w' = [])"

lemma calm_statements:
  assumes "faults w = []"
  shows "begin_tx w = (Inr (), w)" "commit_tx w = (Inr (), w)" "exec k w = (Inr (), w\<lparr>tables := k (tables w)\<rparr>)"
  using assms by (simp_all add: begin_tx_def commit_tx_def query_def exec_def stmt_calm run_stmt_def)

lemma calm_model:
  assumes "faults w = []" "m w = (r, w2)" "faults w2 = []"
  shows "session_Model dryRun m w = (r, case r of Inl _ \<Rightarrow> w2\<lparr>tables := tables w\<rparr> | Inr _ \<Rightarrow> w2)"
  using assms by (cases r) (simp_all add: session_Model_def dry_model_def withTx_def calm_statements)

lemma calm_session:
  "faults w = [] \<Longrightarrow> with_session dryRun b w =
     (fst (b w), if dryRun then (snd (b w))\<lparr>tables := tables w\<rparr> else snd (b w))"
  by (simp add: with_session_def calm_statements split_beta)

interpretation online: reading online
  by unfold_locales (auto simp: online_def)

lemma online_stmt: "online.stays (stmt g)"
  by (rule online.staysI) (auto simp: online_def stmt_def run_stmt_def split: sum.splits)

lemma online_model: "online.stays m \<Longrightarrow> online.stays (session_Model dryRun m)"
proof (rule online.staysI)
  fix w r w'
  assume m: "online.stays m" and run: "session_Model dryRun m w = (r, w')"
  obtain x w2 where x: "m w = (x, w2)" by fastforce
  show "online w w'" unfolding online_def
  proof
    assume w: "faults w = []"
    then have "faults w2 = []" using online.staysD [of m w x w2] m x by (simp add: online_def)
    then show "faults w' = []" using calm_model [of w m x w2 dryRun] w x run by (auto split: sum.splits)
  qed
qed

lemma online_session: "online.stays b \<Longrightarrow> online.stays (with_session dryRun b)"
  by (simp add: online.stays_def online_def calm_session)

interpretation online: catalog_writes online
  by unfold_locales
    (simp_all add: CreateProduct_def UpdateProduct_def CreateVariant_def UpdateVariant_def SetStock_def online_stmt
      online_model online_session)

section \<open>A dry run beside the real one\<close>

text \<open>The result of a model does not depend on the kind of session.\<close>

lemma run_model_dry:
  assumes w: "faults w = []" and m: "failed m \<or> online.stays (importModel E m)"
  shows "run_model E True m w = run_model E False m w"
proof (cases "failed m")
  case False
  obtain x w2 where x: "importModel E m w = (x, w2)" by fastforce
  have "faults w2 = []" using online.staysD [of "importModel E m" w x w2] m False w x by (simp add: online_def)
  then have "session_Model True (importModel E m) w = session_Model False (importModel E m) w"
    using calm_model [of w "importModel E m" x w2] w x by simp
  then show ?thesis using False by (simp add: run_model_def bindG_def attempt_def)
qed (simp add: run_model_def)

definition dry_report :: "ImportResult \<Rightarrow> ImportResult" where
  "dry_report res = res\<lparr>res_DryRun := True\<rparr>"

lemma addModel_dry: "addModel m out (dry_report res) = dry_report (addModel m out res)"
proof -
  have "add_row m out r (dry_report res) = dry_report (add_row m out r res)" for r res
    by (simp add: add_row_def dry_report_def Let_def)
  then have "fold (add_row m out) rs (dry_report res) = dry_report (fold (add_row m out) rs res)" for rs res
    by (induction rs arbitrary: res) simp_all
  moreover have "count_model o' (dry_report res) = dry_report (count_model o' res)" for o'
    by (simp add: count_model_def dry_report_def Let_def)
  ultimately show ?thesis by (cases out) (simp_all add: addModel_def)
qed

lemma run_models_dry:
  assumes "faults w = []" "\<forall>m \<in> set ms. failed m \<or> online.stays (importModel E m)"
  shows "run_models E True ms (dry_report res) w =
           (case run_models E False ms res w of (r, w') \<Rightarrow> (map_sum id dry_report r, w'))"
  using assms
proof (induction ms arbitrary: res w)
  case (Cons m ms)
  have m: "run_model E True m w = run_model E False m w" using Cons.prems by (intro run_model_dry) simp_all
  obtain x w1 where x: "run_model E False m w = (x, w1)" by fastforce
  have "online.stays (run_model E False m)" using Cons.prems by (intro online.run_model_stays) simp
  then have "faults w1 = []" using online.staysD [of "run_model E False m" w x w1] x Cons.prems(1) by (simp add: online_def)
  then show ?case using Cons m x
    by (cases x) (simp_all add: bindG_def addModel_dry split: prod.split)
qed (simp add: returnG_def)

lemma dry_session:
  assumes "faults w = []" "\<forall>m \<in> set ms. failed m \<or> online.stays (importModel E m)"
  shows "fst (with_session True (run_models E True ms (dry_report res)) w) =
           map_sum id dry_report (fst (with_session False (run_models E False ms res) w))"
  using run_models_dry [OF assms] by (simp add: calm_session assms(1) split_beta)

section \<open>Every row is reported\<close>

definition problem :: "ImportRowResult \<Rightarrow> bool" where
  "problem r \<longleftrightarrow> rr_Status r = RowStatusSkipped \<or> rr_Status r = RowStatusError"

definition with_status :: "RowStatus \<Rightarrow> ImportResult \<Rightarrow> int" where
  "with_status st res = int (length (filter (\<lambda>r. rr_Status r = st) (res_Rows res)))"

definition counts_ok :: "ImportResult \<Rightarrow> bool" where
  "counts_ok res \<longleftrightarrow>
     (let s = res_Summary res
      in is_Rows s = int (length (res_Rows res)) \<and> is_Created s = with_status RowStatusCreated res \<and>
         is_Updated s = with_status RowStatusUpdated res \<and> is_Skipped s = with_status RowStatusSkipped res \<and>
         is_Errors s = with_status RowStatusError res \<and>
         res_Imported res = is_ProductsCreated s + is_ProductsUpdated s)"

text \<open>A report on the rows with these line numbers, in this order.\<close>

definition report_on :: "int list \<Rightarrow> ImportResult \<Rightarrow> bool" where
  "report_on lines res \<longleftrightarrow> map rr_Row (res_Rows res) = lines \<and>
     (\<forall>r \<in> set (res_Rows res). rr_Status r \<noteq> RowStatusNone) \<and>
     res_Errors res = map (\<lambda>r. (rr_Row r, rr_Message r)) (filter problem (res_Rows res)) \<and> counts_ok res"

lemma report_add_row:
  assumes "report_on lines res" "rr_Status (row_result m out row) \<noteq> RowStatusNone"
  shows "report_on (lines @ [pl_line row]) (add_row m out row res)"
proof -
  define r where "r = row_result m out row"
  have "rr_Row r = pl_line row" by (simp add: r_def row_result_def Let_def split: prod.split)
  moreover have "rr_Status r \<noteq> RowStatusNone" using assms(2) by (simp add: r_def)
  ultimately show ?thesis using assms(1)
    unfolding add_row_def r_def [symmetric]
    by (cases "rr_Status r") (simp_all add: report_on_def counts_ok_def count_row_def with_status_def problem_def Let_def)
qed

lemma report_count_model: "report_on lines res \<Longrightarrow> report_on lines (count_model o' res)"
  by (simp add: report_on_def counts_ok_def with_status_def count_model_def Let_def)

definition statuses_ok :: "(int \<times> RowStatus) list \<Rightarrow> bool" where
  "statuses_ok ps \<longleftrightarrow> (\<forall>p \<in> set ps. snd p \<noteq> RowStatusNone)"

lemma gives_at_row: "gives m Q \<Longrightarrow> gives (at_row line m) Q"
  unfolding gives_def at_row_def
proof (intro allI impI)
  fix s x s'
  assume m: "\<forall>s x s'. m s = (Inr x, s') \<longrightarrow> Q x" and run: "(case m s of (r, w') \<Rightarrow> (map_sum (wrap_error line) id r, w')) = (Inr x, s')"
  obtain r w' where "m s = (r, w')" by fastforce
  then show "Q x" using m run by (cases r) auto
qed

lemma gives_write_row:
  "statuses_ok (mo_rowStatus out) \<Longrightarrow>
     gives (write_row E pid row out) (\<lambda>o'. statuses_ok (mo_rowStatus o') \<and>
       fst ` set (mo_rowStatus o') = insert (pl_line row) (fst ` set (mo_rowStatus out)))"
proof -
  assume ok: "statuses_ok (mo_rowStatus out)"
  let ?Q = "\<lambda>o'. statuses_ok (mo_rowStatus o') \<and> fst ` set (mo_rowStatus o') = insert (pl_line row) (fst ` set (mo_rowStatus out))"
  have "gives (case ref of
                    None \<Rightarrow> bindG (CreateVariant E pid (pl_variant row)) (\<lambda>vid. returnG (vid,
                      out\<lparr>mo_rowStatus := (pl_line row, RowStatusCreated) # mo_rowStatus out,
                          mo_variantsNew := mo_variantsNew out + 1\<rparr>))
                  | Some x \<Rightarrow> bindG (UpdateVariant (vr_ID x) (pl_variant row)) (\<lambda>_. returnG (vr_ID x,
                      out\<lparr>mo_rowStatus := (pl_line row, RowStatusUpdated) # mo_rowStatus out,
                          mo_variantsUpd := mo_variantsUpd out + 1\<rparr>))) (\<lambda>(v, o'). ?Q o')" for ref
    using ok by (cases ref) (auto intro!: gives_seq gives_basic simp: statuses_ok_def)
  note c = this
  show ?thesis
  proof (cases "pl_hasVariant row")
    case True
    then show ?thesis unfolding write_row_def
      by (simp only: if_True not_True_eq_False if_False)
         (rule gives_seq, rule gives_bind [OF c], auto intro!: gives_seq gives_basic)
  next
    case False
    then show ?thesis using ok by (auto simp: write_row_def statuses_ok_def productStatus_def intro!: gives_basic)
  qed
qed

lemma gives_write_rows:
  "statuses_ok (mo_rowStatus out) \<Longrightarrow>
     gives (write_rows E pid rows out) (\<lambda>o'. statuses_ok (mo_rowStatus o') \<and>
       fst ` set (mo_rowStatus o') = pl_line ` set rows \<union> fst ` set (mo_rowStatus out))"
proof (induction rows arbitrary: out)
  case (Cons row rows)
  show ?case unfolding write_rows.simps
  proof (rule gives_bind [OF gives_at_row [OF gives_write_row [OF Cons.prems]]])
    fix o' :: modelOutcome assume o': "statuses_ok (mo_rowStatus o') \<and> fst ` set (mo_rowStatus o') = insert (pl_line row) (fst ` set (mo_rowStatus out))"
    show "gives (write_rows E pid rows o') (\<lambda>o'. statuses_ok (mo_rowStatus o') \<and>
       fst ` set (mo_rowStatus o') = pl_line ` set (row # rows) \<union> fst ` set (mo_rowStatus out))"
      using o' by (intro gives_weaken [OF Cons.IH]) auto
  qed
qed (simp add: gives_basic)

text \<open>What a model came to gives every row of it a status.\<close>

definition told :: "plannedModel \<Rightarrow> modelOutcome option \<Rightarrow> bool" where
  "told m out \<longleftrightarrow> (\<forall>row \<in> set (pm_rows m). rr_Status (row_result m out row) \<noteq> RowStatusNone)"

lemma told_None: "told m None"
  by (simp add: told_def row_result_def Let_def)

lemma told_Some:
  assumes "statuses_ok (mo_rowStatus o')" "pl_line ` set (pm_rows m) \<subseteq> fst ` set (mo_rowStatus o')"
  shows "told m (Some o')"
  unfolding told_def
proof
  fix row assume "row \<in> set (pm_rows m)"
  then have "map_of (mo_rowStatus o') (pl_line row) \<noteq> None" using assms(2) by (simp add: map_of_eq_None_iff image_subset_iff)
  then obtain st where st: "map_of (mo_rowStatus o') (pl_line row) = Some st" by blast
  then have "st \<noteq> RowStatusNone" using assms(1) map_of_SomeD [OF st] by (auto simp: statuses_ok_def)
  then show "rr_Status (row_result m (Some o') row) \<noteq> RowStatusNone" using st by (simp add: row_result_def Let_def)
qed

lemma gives_importModel: "gives (importModel E m) (\<lambda>o'. told m (Some o'))"
  unfolding importModel_def
proof (rule gives_seq)
  fix x :: "string \<times> bool"
  obtain pid created where x: "x = (pid, created)" by fastforce
  show "gives (case x of (pid, created) \<Rightarrow> write_rows E pid (pm_rows m)
       \<lparr>mo_productCreated = created, mo_rowStatus = [], mo_variantsNew = 0, mo_variantsUpd = 0\<rparr>) (\<lambda>o'. told m (Some o'))"
    unfolding x prod.case
    by (rule gives_weaken [OF gives_write_rows]) (auto simp: statuses_ok_def intro: told_Some)
qed

lemma gives_session_Model: "gives m Q \<Longrightarrow> gives (session_Model dryRun m) Q"
  by (auto simp: gives_def session_Model_def dry_model_def withTx_def split: if_splits prod.splits sum.splits)

lemma fail_row_lines: "fail_row line msg rs = Some rs' \<Longrightarrow> map pl_line rs' = map pl_line rs"
  by (induction rs arbitrary: rs') (auto split: if_splits)

lemma fail_model_lines: "pm_rows m \<noteq> [] \<Longrightarrow> map pl_line (pm_rows (fail_model line msg m)) = map pl_line (pm_rows m)"
  by (cases "pm_rows m") (auto simp: fail_model_def dest: fail_row_lines split: option.split)

lemma gives_attempt: "gives m Q \<Longrightarrow> gives (attempt m) (\<lambda>r. \<forall>x. r = Inr x \<longrightarrow> Q x)"
  by (auto simp: gives_def attempt_def split: prod.splits)

lemma gives_run_model:
  assumes "pm_rows m \<noteq> []"
  shows "gives (run_model E dryRun m) (\<lambda>(m', out). map pl_line (pm_rows m') = map pl_line (pm_rows m) \<and> told m' out)"
proof (cases "failed m")
  case True
  then show ?thesis by (simp add: run_model_def told_None gives_basic)
next
  case False
  note a = gives_attempt [OF gives_session_Model [OF gives_importModel [of E m]], of dryRun]
  have "gives (case res of Inr out \<Rightarrow> returnG (m, Some out)
           | Inl err \<Rightarrow> (case wrap_error (pl_line (hd (pm_rows m))) err of
                  RowFailure line msg \<Rightarrow> returnG (fail_model line msg m, None) | _ \<Rightarrow> returnG (m, None)))
     (\<lambda>(m', out). map pl_line (pm_rows m') = map pl_line (pm_rows m) \<and> told m' out)"
    if "\<forall>x. res = Inr x \<longrightarrow> told m (Some x)" for res
    using that fail_model_lines [OF assms]
    by (cases res) (auto intro!: gives_basic simp: told_None split: go_error.split)
  then show ?thesis using False unfolding run_model_def by (simp only: if_False) (rule gives_bind [OF a])
qed

lemma report_fold:
  "report_on lines res \<Longrightarrow> \<forall>row \<in> set rs. rr_Status (row_result m out row) \<noteq> RowStatusNone \<Longrightarrow>
     report_on (lines @ map pl_line rs) (fold (add_row m out) rs res)"
proof (induction rs arbitrary: lines res)
  case (Cons r rs)
  then show ?case using Cons.IH [OF report_add_row [OF Cons.prems(1), of m out r]] by simp
qed simp

lemma report_addModel: "report_on lines res \<Longrightarrow> told m out \<Longrightarrow> report_on (lines @ map pl_line (pm_rows m)) (addModel m out res)"
  unfolding addModel_def told_def by (rule report_fold) (auto simp: report_count_model split: option.split)

lemma gives_run_models:
  "report_on lines res \<Longrightarrow> \<forall>m \<in> set ms. pm_rows m \<noteq> [] \<Longrightarrow>
     gives (run_models E dryRun ms res) (report_on (lines @ concat (map (map pl_line \<circ> pm_rows) ms)))"
proof (induction ms arbitrary: lines res)
  case (Cons m ms)
  have "pm_rows m \<noteq> []" using Cons.prems(2) by simp
  then show ?case unfolding run_models.simps
  proof (rule gives_bind [OF gives_run_model])
    fix x assume x: "case x of (m', out) \<Rightarrow> map pl_line (pm_rows m') = map pl_line (pm_rows m) \<and> told m' out"
    obtain m' out where x': "x = (m', out)" by fastforce
    have "report_on (lines @ map pl_line (pm_rows m)) (addModel m' out res)"
      using report_addModel [OF Cons.prems(1), of m' out] x x' by simp
    from Cons.IH [OF this] Cons.prems(2)
    show "gives (case x of (m', out) \<Rightarrow> run_models E dryRun ms (addModel m' out res))
        (report_on (lines @ concat (map (map pl_line \<circ> pm_rows) (m # ms))))" by (simp add: x' o_def)
  qed
qed (simp add: gives_basic)

lemma sort_key_map: "sort_key f (map g xs) = map g (sort_key (f \<circ> g) xs)"
proof -
  have "insort_key f (g x) (map g ys) = map g (insort_key (f \<circ> g) x ys)" for x ys
    by (induction ys) auto
  then show ?thesis by (induction xs) simp_all
qed

lemma report_sorted:
  assumes "report_on lines res"
  shows "report_on (sort lines) (res\<lparr>res_Rows := sort_key rr_Row (res_Rows res), res_Errors := sort_key fst (res_Errors res)\<rparr>)"
proof -
  have "sort lines = map rr_Row (sort_key rr_Row (res_Rows res))"
    using assms sort_key_map [of "\<lambda>x. x" rr_Row "res_Rows res"] by (auto simp: report_on_def o_def)
  moreover have "sort_key fst (res_Errors res) = map (\<lambda>r. (rr_Row r, rr_Message r)) (filter problem (sort_key rr_Row (res_Rows res)))"
    using assms by (simp add: report_on_def sort_key_map o_def filter_sort)
  moreover have "length (filter P (sort_key rr_Row (res_Rows res))) = length (filter P (res_Rows res))" for P
    by (metis filter_sort length_sort)
  ultimately show ?thesis using assms by (simp add: report_on_def counts_ok_def with_status_def Let_def)
qed

lemma gives_with_session: "gives b Q \<Longrightarrow> gives (with_session dryRun b) Q"
  by (auto simp: gives_def with_session_def split: prod.splits sum.splits)

lemma gives_ImportProducts:
  "gives (ImportProducts E (Inr rows) opts) (report_on (sort (map ir_line (filter (\<lambda>r. \<not> isBlank r) rows))))"
  unfolding ImportProducts_rows
proof (rule gives_seq, rule gives_bind [OF gives_run_plan])
  fix pointID and x :: "planner \<times> plannedModel list"
  assume x: "case x of (p, ms) \<Rightarrow> planned_ok rows ms"
  obtain p :: planner and ms where x': "x = (p, ms)" by fastforce
  have ok: "planned_ok rows ms" using x x' by simp
  define res where "res = \<lparr>res_DryRun = opt_DryRun opts, res_PointID = (if pn_usedPoint p then Some pointID else None),
                res_Summary = zero_summary, res_Rows = [], res_Imported = 0, res_Errors = []\<rparr>"
  have r0: "report_on [] res" by (simp add: res_def report_on_def counts_ok_def with_status_def zero_summary_def Let_def)
  have lines: "sort (concat (map (map pl_line \<circ> pm_rows) ms)) = sort (map ir_line (filter (\<lambda>r. \<not> isBlank r) rows))"
    using ok unfolding planned_ok_def by (metis sorted_list_of_multiset_mset)
  show "gives (import_rest E opts pointID x) (report_on (sort (map ir_line (filter (\<lambda>r. \<not> isBlank r) rows))))"
  proof (cases "ms = []")
    case True
    then show ?thesis using r0 lines unfolding import_rest_def x' prod.case Let_def res_def [symmetric]
      by (simp add: gives_basic)
  next
    case False
    have "\<forall>m \<in> set ms. pm_rows m \<noteq> []" using ok by (simp add: planned_ok_def model_ok_def)
    note g = gives_with_session [OF gives_run_models [OF r0 this], of "opt_DryRun opts" E "opt_DryRun opts"]
    show ?thesis using False unfolding import_rest_def x' prod.case Let_def res_def [symmetric]
      using report_sorted by (auto simp: lines [symmetric] intro!: gives_bind [OF g] gives_basic)
  qed
qed

section \<open>The rows of a file\<close>

lemma build_rows_lines: "map ir_line (build_rows hs recs) = map int [2..<2 + length recs]"
proof -
  have "map ir_line (build_rows hs recs) = map int (map fst (enumerate 2 recs))"
    unfolding build_rows_def map_map by (rule map_cong) (auto simp: buildRow_def)
  then show ?thesis by (simp only: map_fst_enumerate)
qed

lemma sorted_file_lines: "sorted (map int [m..<n])"
  by (simp add: sorted_map)

lemma map_sum_InrE: "map_sum f g x = Inr y \<Longrightarrow> (\<And>z. x = Inr z \<Longrightarrow> y = g z \<Longrightarrow> P) \<Longrightarrow> P"
  by (cases x) auto

lemma parse_file_rows:
  "parse_file E format csv xlsx = Inr rows \<Longrightarrow> \<exists>hs recs. rows = build_rows hs recs"
  by (auto simp: parse_file_def parseCSVRows_def parseXLSXRows_def elim!: map_sum_InrE split: ImportFormat.splits list.splits option.splits sum.splits prod.splits)

lemma file_lines:
  assumes "parse_file E format csv xlsx = Inr rows"
  shows "\<forall>r \<in> set rows. 0 < ir_line r" "sorted (map ir_line (filter P rows))"
proof -
  obtain hs recs where rows: "rows = build_rows hs recs" using parse_file_rows [OF assms] by blast
  have "ir_line ` set rows = set (map int [2..<2 + length recs])"
    using arg_cong [OF build_rows_lines [of hs recs], of set] by (simp add: rows)
  then have "ir_line r \<in> set (map int [2..<2 + length recs])" if "r \<in> set rows" for r using that by (metis imageI)
  then show "\<forall>r \<in> set rows. 0 < ir_line r" by fastforce
  have "sorted (map ir_line rows)" unfolding rows build_rows_lines by (rule sorted_file_lines)
  then show "sorted (map ir_line (filter P rows))" by (rule sorted_filter)
qed

lemma file_rows_report:
  "parse_file E format csv xlsx = Inr rows \<Longrightarrow> ImportProducts E (Inr rows) opts w = (Inr res, w') \<Longrightarrow>
     report_on (map ir_line (filter (\<lambda>r. \<not> isBlank r) rows)) res"
proof -
  assume f: "parse_file E format csv xlsx = Inr rows" and run: "ImportProducts E (Inr rows) opts w = (Inr res, w')"
  have "sort (map ir_line (filter (\<lambda>r. \<not> isBlank r) rows)) = map ir_line (filter (\<lambda>r. \<not> isBlank r) rows)"
    using file_lines(2) [OF f] by (rule sorted_sort_id)
  then show ?thesis using givesD [OF gives_ImportProducts, of E rows opts w res w'] run by simp
qed

lemma ImportProducts_error: "ImportProducts E (Inl e) opts w = (Inl e, w)"
  by (simp add: ImportProducts_def bindG_def liftG_def)

section \<open>A dry run predicts\<close>

interpretation same: db_relation "(=) :: db \<Rightarrow> db \<Rightarrow> bool"
  by unfold_locales simp_all

lemma dry_run_changes_nothing: "tables (snd (ImportProducts E parsed (opts\<lparr>opt_DryRun := True\<rparr>) w)) = tables w"
proof (cases parsed)
  case (Inr rows)
  have "same.stays (import_rest E (opts\<lparr>opt_DryRun := True\<rparr>) pointID x)" for pointID x
    unfolding import_rest_def Let_def
    by (auto intro!: same.stays_bind same.stays_basic same.dry_session_stays split: prod.split)
  then have "same.stays (ImportProducts E (Inr rows) (opts\<lparr>opt_DryRun := True\<rparr>))"
    unfolding ImportProducts_rows by (intro same.stays_bind same.lookups_stay same.run_plan_stays)
  then show ?thesis by (simp add: same.stays_def Inr)
qed (simp add: ImportProducts_error)

lemma dry_rest:
  assumes w: "faults w = []" and ms: "\<forall>m \<in> set ms. failed m \<or> online.stays (importModel E m)"
  shows "fst (import_rest E (opts\<lparr>opt_DryRun := True\<rparr>) pointID (p, ms) w) =
     map_sum id dry_report (fst (import_rest E (opts\<lparr>opt_DryRun := False\<rparr>) pointID (p, ms) w))"
proof -
  define start where "start d = \<lparr>res_DryRun = d, res_PointID = (if pn_usedPoint p then Some pointID else None),
      res_Summary = zero_summary, res_Rows = [], res_Imported = 0, res_Errors = []\<rparr>" for d
  have dry: "start True = dry_report (start False)"
    by (simp add: start_def dry_report_def)
  define sorts where "sorts r = r\<lparr>res_Rows := sort_key rr_Row (res_Rows r), res_Errors := sort_key fst (res_Errors r)\<rparr>" for r :: ImportResult
  have sorts: "sorts (dry_report r) = dry_report (sorts r)" for r by (simp add: sorts_def dry_report_def)
  have ret: "fst (bindG m (\<lambda>r. returnG (sorts r)) w) = map_sum id sorts (fst (m w))" for m :: "ImportResult go"
    by (auto simp: bindG_def returnG_def split: prod.split sum.split)
  show ?thesis
    unfolding import_rest_def Let_def prod.case ImportOptions.simps ImportOptions.update_convs start_def [symmetric] sorts_def [symmetric] dry
    using dry_session [OF w ms, of "start False"]
    by (simp add: ret returnG_def sum.map_comp dry) (simp add: sorts o_def sum.map_comp)
qed

lemma dry_run_same_report:
  assumes w: "faults w = []" and lines: "\<forall>r \<in> set rows. 0 < ir_line r"
  shows "fst (ImportProducts E (Inr rows) (opts\<lparr>opt_DryRun := True\<rparr>) w) =
     map_sum id dry_report (fst (ImportProducts E (Inr rows) (opts\<lparr>opt_DryRun := False\<rparr>) w))"
proof -
  obtain a w1 where a: "resolveTargetPoint E (opt_PointID opts) w = (a, w1)" by fastforce
  show ?thesis
  proof (cases a)
    case (Inl e)
    then show ?thesis using a by (simp add: ImportProducts_rows bindG_def)
  next
    case (Inr pointID)
    obtain b w2 where b: "run_plan E pointID rows w1 = (b, w2)" by fastforce
    have w1: "faults w1 = []" using online.staysD [OF online.lookups_stay(8) a] w by (simp add: online_def)
    have w2: "faults w2 = []" using online.staysD [OF online.run_plan_stays b] w1 by (simp add: online_def)
    show ?thesis
    proof (cases b)
      case (Inl e)
      then show ?thesis using a b Inr by (simp add: ImportProducts_rows bindG_def)
    next
      case plan: (Inr x)
      obtain p ms where x: "x = (p, ms)" by fastforce
      have "planned_ok rows ms" using givesD [OF gives_run_plan b [unfolded plan]] x by simp
      then have "\<forall>m \<in> set ms. failed m \<or> online.stays (importModel E m)"
        using online.planned_models_stay [OF _ lines] by blast
      from dry_rest [OF w2 this] show ?thesis using a b Inr plan x by (simp add: ImportProducts_rows bindG_def)
    qed
  qed
qed

end
