(* ===== verification/ImportProperties.thy ===== *)
theory ImportProperties
  imports ImportReport Json Demo
begin

text \<open>
  The promises of the product import, for every file, option and connection: what it may touch, what its
  report says, and that a dry run tells what the real run would do.
\<close>

section \<open>A price list on the demo shop\<close>

text \<open>
  One new cap with its stock, a row that gives the existing boots a price of zero, and a blank row. The
  letters are folded in the ASCII range.
\<close>

definition demo_import :: import_env where
  "demo_import = \<lparr>ie_env = demo_env, ie_ToLower = map lower_byte, ie_EqualFold = (\<lambda>a b. map lower_byte a = map lower_byte b),
     ie_lower = map lower_byte, ie_templateHeaders = []\<rparr>"

definition demo_file :: "string list list \<times> go_error option" where
  "demo_file = ([[''Name'', ''Category'', ''Price'', ''Size'', ''Color'', ''SKU'', ''Qty''],
                 [''Cap'', ''Shoes'', ''1200'', ''M'', ''red'', ''S9'', ''4''],
                 [[], [], []],
                 [''Boots'', ''shoes'', ''0'', ''38'', ''red'', ''S1'', ''7'']], None)"

definition demo_options :: "bool \<Rightarrow> ImportOptions" where
  "demo_options dryRun = \<lparr>opt_DryRun = dryRun, opt_PointID = []\<rparr>"

definition demo_import_run :: "bool \<Rightarrow> (go_error + ImportResult) \<times> world" where
  "demo_import_run dryRun =
     ImportProducts demo_import (parse_file demo_import ImportFormatCSV demo_file (Inr [])) (demo_options dryRun) (calm demo_db)"

lemma demo_import_writes:
  "(let d = tables (snd (demo_import_run False))
    in (map pr_name_ru (products d), map pr_base_price (products d), map pv_sku (variants d), stock d (''#2'', ''#p1''))) =
   ([''Boots'', ''Socks'', ''Cap''], [250000, 10000, 120000], [Some ''S1'', None, Some ''S9''], Some 4)"
  by code_simp

lemma demo_import_report:
  "map_sum id (\<lambda>res. (res_DryRun res, res_Imported res, map (\<lambda>r. (rr_Row r, rr_Status r)) (res_Rows res)))
     (fst (demo_import_run False)) = Inr (False, 1, [(2, RowStatusCreated), (4, RowStatusError)])"
  by code_simp

lemma demo_import_lines:
  "map_sum id (\<lambda>rows. map ir_line (filter (\<lambda>r. \<not> isBlank r) rows))
     (parse_file demo_import ImportFormatCSV demo_file (Inr [])) = Inr [2, 4]"
  by code_simp

section \<open>What the import may touch\<close>

text \<open>
  C28. \<^verbatim>\<open>ImportProducts\<close>, for every file, option, world and schedule of failing statements, and whatever it
  returns, is one of the things the invariant of the shop allows beside orders and payments: it leaves
  orders, items, payments and histories alone and never stores a stock below zero or beyond the column.
  And if every price of the catalog was above zero, every price is above zero afterwards.
\<close>

theorem import_safe:
  assumes "stock_ok (tables w)"
    and "ImportProducts E (parse_file E format csv xlsx) opts w = (r, w')"
  shows "outside (tables w) (tables w') \<and> (priced_db (tables w) \<longrightarrow> priced_db (tables w'))"
proof (cases "parse_file E format csv xlsx")
  case (Inl e)
  then show ?thesis using assms by (auto simp: ImportProducts_error outside_def)
next
  case (Inr rows)
  note lines = file_lines(1) [OF Inr]
  show ?thesis
    using beside.staysD [OF beside.ImportProducts_stays [OF lines] assms(2) [unfolded Inr]]
      priced.staysD [OF priced.ImportProducts_stays [OF lines] assms(2) [unfolded Inr]] assms(1)
    by (simp add: beside_def keeps_priced_def)
qed

lemma demo_priced: "stock_ok demo_db" "priced_db demo_db"
  by (auto simp: stock_ok_def demo_stock_def max_int4_def priced_db_def demo_catalog split: if_splits)

theorem import_safe_witness:
  "outside demo_db (tables (snd (demo_import_run False))) \<and> priced_db (tables (snd (demo_import_run False))) \<and>
   map pr_name_ru (products (tables (snd (demo_import_run False)))) = [''Boots'', ''Socks'', ''Cap'']"
proof -
  have "outside (tables (calm demo_db)) (tables (snd (demo_import_run False))) \<and>
      (priced_db (tables (calm demo_db)) \<longrightarrow> priced_db (tables (snd (demo_import_run False))))"
    unfolding demo_import_run_def
    by (rule import_safe [OF _ prod.collapse [symmetric]]) (simp add: demo_priced)
  then show ?thesis using demo_import_writes by (simp add: demo_priced Let_def)
qed

section \<open>The report\<close>

text \<open>
  C30. When \<^verbatim>\<open>ImportProducts\<close> returns a result, its report accounts for the whole file: the rows that are not
  blank, each once and in file order, each with a status; \<^verbatim>\<open>errors\<close> lists exactly the rows with status
  \<^verbatim>\<open>skipped\<close> or \<^verbatim>\<open>error\<close> with their messages; and the summary counts are the numbers of rows per status.
\<close>

theorem import_report_complete:
  assumes "parse_file E format csv xlsx = Inr rows"
    and "ImportProducts E (parse_file E format csv xlsx) opts w = (Inr res, w')"
  shows "map rr_Row (res_Rows res) = map ir_line (filter (\<lambda>r. \<not> isBlank r) rows) \<and>
    (\<forall>r \<in> set (res_Rows res). rr_Status r \<noteq> RowStatusNone) \<and>
    res_Errors res = map (\<lambda>r. (rr_Row r, rr_Message r))
      (filter (\<lambda>r. rr_Status r = RowStatusSkipped \<or> rr_Status r = RowStatusError) (res_Rows res)) \<and>
    is_Rows (res_Summary res) = int (length (res_Rows res)) \<and>
    is_Created (res_Summary res) = with_status RowStatusCreated res \<and>
    is_Updated (res_Summary res) = with_status RowStatusUpdated res \<and>
    is_Skipped (res_Summary res) = with_status RowStatusSkipped res \<and>
    is_Errors (res_Summary res) = with_status RowStatusError res \<and>
    res_Imported res = is_ProductsCreated (res_Summary res) + is_ProductsUpdated (res_Summary res)"
  using file_rows_report [OF assms(1) assms(2) [unfolded assms(1)]]
  by (simp add: report_on_def counts_ok_def Let_def problem_def [abs_def])

theorem import_report_complete_witness:
  "\<exists>res. fst (demo_import_run False) = Inr res \<and> map rr_Row (res_Rows res) = [2, 4] \<and> is_Errors (res_Summary res) = 1"
proof -
  obtain rows where rows: "parse_file demo_import ImportFormatCSV demo_file (Inr []) = Inr rows"
      "map ir_line (filter (\<lambda>r. \<not> isBlank r) rows) = [2, 4]"
    using demo_import_lines by (auto elim: map_sum_InrE)
  obtain res w' where res: "demo_import_run False = (Inr res, w')"
      "map (\<lambda>r. (rr_Row r, rr_Status r)) (res_Rows res) = [(2, RowStatusCreated), (4, RowStatusError)]"
    using demo_import_report by (cases "demo_import_run False") (auto elim: map_sum_InrE)
  have "length (filter (\<lambda>s. snd s = RowStatusError) (map (\<lambda>r. (rr_Row r, rr_Status r)) (res_Rows res))) = 1"
    unfolding res(2) by simp
  then show ?thesis
    using import_report_complete [OF rows(1), of "demo_options False" "calm demo_db" res w'] res(1) rows
    by (simp add: demo_import_run_def with_status_def filter_map o_def)
qed

section \<open>Dry runs\<close>

text \<open>
  C29. A dry run changes no table, whatever fails in it; and on a connection that works its outcome, a report or
  an error, is the one the real run has from the same tables, but for the flag \<^verbatim>\<open>dry_run\<close>.
\<close>

theorem dry_run_predicts:
  "tables (snd (ImportProducts E (parse_file E format csv xlsx) (opts\<lparr>opt_DryRun := True\<rparr>) w)) = tables w \<and>
   (faults w = [] \<longrightarrow>
     fst (ImportProducts E (parse_file E format csv xlsx) (opts\<lparr>opt_DryRun := True\<rparr>) w) =
       map_sum id (\<lambda>res. res\<lparr>res_DryRun := True\<rparr>)
         (fst (ImportProducts E (parse_file E format csv xlsx) (opts\<lparr>opt_DryRun := False\<rparr>) w)))"
proof (cases "parse_file E format csv xlsx")
  case (Inl e)
  then show ?thesis by (simp add: ImportProducts_error)
next
  case (Inr rows)
  show ?thesis
    using dry_run_changes_nothing dry_run_same_report [OF _ file_lines(1) [OF Inr]]
    by (simp add: Inr dry_report_def [abs_def])
qed

theorem dry_run_predicts_witness:
  "tables (snd (demo_import_run True)) = demo_db \<and>
   map_sum id (\<lambda>res. (res_DryRun res, res_Imported res)) (fst (demo_import_run True)) = Inr (True, 1)"
proof -
  have opts: "demo_options True = (demo_options False)\<lparr>opt_DryRun := True\<rparr>"
    "(demo_options False)\<lparr>opt_DryRun := False\<rparr> = demo_options False" by (simp_all add: demo_options_def)
  obtain res where "fst (demo_import_run False) = Inr res" "res_Imported res = 1"
    using demo_import_report by (auto elim: map_sum_InrE)
  then show ?thesis
    using dry_run_predicts [of demo_import ImportFormatCSV demo_file "Inr []" "demo_options False" "calm demo_db"]
    by (simp add: demo_import_run_def opts)
qed

end
