(* ===== verification/Categories.thy ===== *)
theory Categories
  imports CatalogStore
begin

text \<open>
  Categories, \<^verbatim>\<open>internal/catalog/category.go\<close>, with \<^verbatim>\<open>SubtreeIDs\<close> of \<^verbatim>\<open>facets.go\<close>. The table keeps a category's
  parent; the program arranges the rows into a forest. A UUID parameter that is not one is PostgreSQL's error
  22P02, an \<^verbatim>\<open>int\<close> that does not fit the column an error of the driver.
\<close>

section \<open>A category and its tree\<close>

datatype Category = Category
  (cg_ID: string) (cg_ParentID: "string option") (cg_NameRu: string) (cg_NameKy: string) (cg_Slug: string)
  (cg_SortOrder: int) (cg_ImageKey: "string option") (cg_ImageURL: "string option") (cg_Children: "Category list")

definition scanCategory :: "category_row \<Rightarrow> Category" where
  "scanCategory r = Category (cat_id r) (cat_parent_id r) (cat_name_ru r) (cat_name_ky r) (cat_slug r)
     (cat_sort_order r) (cat_image_key r) None []"

fun with_children :: "Category \<Rightarrow> Category list \<Rightarrow> Category" where
  "with_children (Category i p ru ky sl so key url _) cs = Category i p ru ky sl so key url cs"

definition image_url :: "(string \<Rightarrow> string) \<Rightarrow> string option \<Rightarrow> string option" where
  "image_url objectURL key = (case key of Some k \<Rightarrow> if k \<noteq> [] then Some (objectURL k) else None | None \<Rightarrow> None)"

fun WithImageURL :: "(string \<Rightarrow> string) \<Rightarrow> Category \<Rightarrow> Category" where
  "WithImageURL objectURL (Category i p ru ky sl so key url cs) =
     Category i p ru ky sl so key (image_url objectURL key) cs"

fun WithImageURLs :: "(string \<Rightarrow> string) \<Rightarrow> Category list \<Rightarrow> Category list" where
  "WithImageURLs objectURL [] = []"
| "WithImageURLs objectURL (Category i p ru ky sl so key url cs # tree) =
     Category i p ru ky sl so key (image_url objectURL key) (WithImageURLs objectURL cs) # WithImageURLs objectURL tree"

text \<open>
  \<^verbatim>\<open>buildTree\<close> links the rows by pointers: the position of a row in \<open>flat\<close> stands for the pointer to it, \<open>byID\<close> for
  the Go map, whose last entry for an id wins, and the loop fills the list of roots and every row's children.
\<close>

definition byID :: "Category list \<Rightarrow> string \<Rightarrow> nat option" where
  "byID flat = map_of (rev (zip (map cg_ID flat) [0..<length flat]))"

type_synonym links = "nat list \<times> (nat \<Rightarrow> nat list)"

definition link_one :: "Category list \<Rightarrow> nat \<Rightarrow> links \<Rightarrow> links" where
  "link_one flat i s =
     (case s of (roots, children) \<Rightarrow>
        case cg_ParentID (flat ! i) of
          None \<Rightarrow> (roots @ [i], children)
        | Some p \<Rightarrow>
            (case byID flat p of
               None \<Rightarrow> (roots @ [i], children)
             | Some parent \<Rightarrow> (roots, children(parent := children parent @ [i]))))"

definition link_all :: "Category list \<Rightarrow> links" where
  "link_all flat = fold (link_one flat) [0..<length flat] ([], \<lambda>_. [])"

text \<open>
  Following the pointers, as every reader of the tree does. The first argument bounds the depth, since pointers
  could run in a circle; \<open>None\<close> is a reader that does not come back within it.
\<close>

fun read_nodes :: "nat \<Rightarrow> Category list \<Rightarrow> (nat \<Rightarrow> nat list) \<Rightarrow> nat list \<Rightarrow> Category list option" where
  "read_nodes depth flat children [] = Some []"
| "read_nodes 0 flat children (i # is) = None"
| "read_nodes (Suc depth) flat children (i # is) =
     (case (read_nodes depth flat children (children i), read_nodes (Suc depth) flat children is) of
        (Some cs, Some rest) \<Rightarrow> Some (with_children (flat ! i) cs # rest)
      | _ \<Rightarrow> None)"

definition buildTree :: "Category list \<Rightarrow> Category list option" where
  "buildTree flat = (case link_all flat of (roots, children) \<Rightarrow> read_nodes (length flat) flat children roots)"

fun find_category :: "Category list \<Rightarrow> string \<Rightarrow> Category option" where
  "find_category [] id0 = None"
| "find_category (Category i p ru ky sl so key url cs # nodes) id0 =
     (if i = id0 then Some (Category i p ru ky sl so key url cs)
      else case find_category cs id0 of Some c \<Rightarrow> Some c | None \<Rightarrow> find_category nodes id0)"

fun walk :: "Category list \<Rightarrow> string list" where
  "walk [] = []"
| "walk (Category i p ru ky sl so key url cs # nodes) = i # walk cs @ walk nodes"

definition SubtreeIDs :: "Category list \<Rightarrow> string \<Rightarrow> string list" where
  "SubtreeIDs tree id0 = (case find_category tree id0 of None \<Rightarrow> [id0] | Some c \<Rightarrow> walk [c])"

section \<open>The repository\<close>

definition invalid_uuid :: go_error where "invalid_uuid = PgError ''22P02''"

definition not_int4 :: "int \<Rightarrow> bool" where
  "not_int4 n \<longleftrightarrow> n < - max_int4 - 1 \<or> max_int4 < n"

text \<open>The error \<^verbatim>\<open>pgx\<close> gives for a parameter that is greater than the column's type holds.\<close>

definition encode_error :: go_error where "encode_error = PlainError ''unable to encode''"

definition is_hex :: "char \<Rightarrow> bool" where
  "is_hex c \<longleftrightarrow> c \<in> set ''0123456789abcdefABCDEF''"

definition uuidPattern :: "string \<Rightarrow> bool" where
  "uuidPattern s \<longleftrightarrow> length s = 36 \<and>
     list_all (\<lambda>(i, c). if i \<in> {8, 13, 18, 23} then c = CHR ''-'' else is_hex c) (enumerate 0 s)"

definition Tree :: "Category list option go" where
  "Tree = query (\<lambda>d. buildTree (map scanCategory (sort_key cat_sort_order (categories d))))"

definition category_not_found :: go_error where
  "category_not_found = AppError (NotFound ''category_not_found'')"

definition ResolveID :: "string \<Rightarrow> string go" where
  "ResolveID idOrSlug =
     (if uuidPattern idOrSlug then returnG idOrSlug
      else bindG (query (\<lambda>d. find (\<lambda>c. cat_slug c = idOrSlug) (categories d))) (\<lambda>row.
           case row of None \<Rightarrow> failG category_not_found | Some c \<Rightarrow> returnG (cat_id c)))"

record CategoryInput =
  ci_ParentID :: "string option"
  ci_NameRu :: string
  ci_NameKy :: string
  ci_Slug :: string
  ci_SortOrder :: int

definition Validate_category :: "CategoryInput \<Rightarrow> go_error + unit" where
  "Validate_category inp =
     (if trim_space (ci_NameRu inp) = [] then Inl (AppError (WithVariant (BadRequest ''invalid_name_ru'') ''field''))
      else if trim_space (ci_NameKy inp) = [] then Inl (AppError (WithVariant (BadRequest ''invalid_name_ky'') ''field''))
      else if trim_space (ci_Slug inp) = [] then Inl (AppError (BadRequest ''invalid_slug''))
      else Inr ())"

definition translateCategoryUpsertErr :: "go_error \<Rightarrow> go_error" where
  "translateCategoryUpsertErr err =
     (if err = PgError ''23505'' then AppError (Conflict ''category_slug_taken'')
      else if err = PgError ''23503'' then AppError (BadRequest ''invalid_parent_id'')
      else err)"

definition map_error :: "(go_error \<Rightarrow> go_error) \<Rightarrow> 'a go \<Rightarrow> 'a go" where
  "map_error f m w = (case m w of (r, w') \<Rightarrow> (map_sum f id r, w'))"

text \<open>The errors of the parameters, then of the row \<open>r\<close> beside the others.\<close>

definition category_error :: "env \<Rightarrow> db \<Rightarrow> category_row \<Rightarrow> go_error option" where
  "category_error env d r =
     (if not_int4 (cat_sort_order r) then Some encode_error
      else if (case cat_parent_id r of None \<Rightarrow> False | Some p \<Rightarrow> \<not> uuid_validate env p) then Some invalid_uuid
      else if \<exists>c \<in> set (categories d). cat_id c \<noteq> cat_id r \<and> cat_slug c = cat_slug r then Some (PgError ''23505'')
      else if (case cat_parent_id r of None \<Rightarrow> False | Some p \<Rightarrow> p \<noteq> cat_id r \<and> p \<notin> cat_id ` set (categories d))
      then Some (PgError ''23503'')
      else None)"

definition category_of_input :: "CategoryInput \<Rightarrow> category_row \<Rightarrow> category_row" where
  "category_of_input inp r =
     r\<lparr>cat_parent_id := ci_ParentID inp, cat_name_ru := ci_NameRu inp, cat_name_ky := ci_NameKy inp,
       cat_slug := ci_Slug inp, cat_sort_order := ci_SortOrder inp\<rparr>"

definition insert_category :: "env \<Rightarrow> CategoryInput \<Rightarrow> db \<Rightarrow> go_error + (Category \<times> db)" where
  "insert_category env inp d =
     (let r = category_of_input inp \<lparr>cat_id = gen_uuid env (id_count d), cat_name_ru = [], cat_name_ky = [], cat_slug = [],
                cat_parent_id = None, cat_sort_order = 0, cat_image_key = None\<rparr>
      in if cat_id r \<in> cat_id ` set (categories d) then Inl (PgError ''23505'')
         else case category_error env d r of
                Some e \<Rightarrow> Inl e
              | None \<Rightarrow> Inr (scanCategory r, d\<lparr>categories := categories d @ [r], id_count := Suc (id_count d)\<rparr>))"

definition Create_category :: "env \<Rightarrow> CategoryInput \<Rightarrow> Category go" where
  "Create_category env inp =
     bindG (liftG (Validate_category inp)) (\<lambda>_.
     map_error translateCategoryUpsertErr (stmt (insert_category env inp)))"

definition update_category :: "env \<Rightarrow> string \<Rightarrow> CategoryInput \<Rightarrow> db \<Rightarrow> go_error + (Category option \<times> db)" where
  "update_category env cid inp d =
     (if \<not> uuid_validate env cid then Inl invalid_uuid
      else case find (\<lambda>c. cat_id c = cid) (categories d) of
             None \<Rightarrow> if not_int4 (ci_SortOrder inp) then Inl encode_error
               else if (case ci_ParentID inp of None \<Rightarrow> False | Some p \<Rightarrow> \<not> uuid_validate env p) then Inl invalid_uuid
               else Inr (None, d)
           | Some r \<Rightarrow>
               (case category_error env d (category_of_input inp r) of
                  Some e \<Rightarrow> Inl e
                | None \<Rightarrow> Inr (Some (scanCategory (category_of_input inp r)),
                    d\<lparr>categories := map (\<lambda>c. if cat_id c = cid then category_of_input inp c else c) (categories d)\<rparr>)))"

definition Update_category :: "env \<Rightarrow> string \<Rightarrow> CategoryInput \<Rightarrow> Category go" where
  "Update_category env cid inp =
     bindG (liftG (Validate_category inp)) (\<lambda>_.
     if ci_ParentID inp = Some cid then failG (AppError (WithVariant (BadRequest ''invalid_parent_id'') ''self''))
     else bindG (map_error translateCategoryUpsertErr (stmt (update_category env cid inp))) (\<lambda>row.
          case row of None \<Rightarrow> failG category_not_found | Some c \<Rightarrow> returnG c))"

definition SetImage :: "env \<Rightarrow> string \<Rightarrow> string option \<Rightarrow> string option go" where
  "SetImage env cid key =
     (let k = (case key of None \<Rightarrow> None | Some s \<Rightarrow> if trim_space s = [] then None else Some s)
      in bindG (stmt (\<lambda>d. if \<not> uuid_validate env cid then Inl invalid_uuid
                 else Inr (map_option cat_image_key (find (\<lambda>c. cat_id c = cid) (categories d)),
                   d\<lparr>categories := map (\<lambda>c. if cat_id c = cid then c\<lparr>cat_image_key := k\<rparr> else c) (categories d)\<rparr>))) (\<lambda>row.
         case row of None \<Rightarrow> failG category_not_found | Some previous \<Rightarrow> returnG previous))"

text \<open>
  \<^verbatim>\<open>DELETE FROM categories\<close>: refused while a product or another category refers to the row; the link of the
  banner is set to null (migration 000039).
\<close>

definition delete_category :: "env \<Rightarrow> string \<Rightarrow> db \<Rightarrow> go_error + (nat \<times> db)" where
  "delete_category env cid d =
     (if \<not> uuid_validate env cid then Inl invalid_uuid
      else if cid \<notin> cat_id ` set (categories d) then Inr (0, d)
      else if (\<exists>p \<in> set (products d). pr_category_id p = cid) \<or>
              (\<exists>c \<in> set (categories d). cat_id c \<noteq> cid \<and> cat_parent_id c = Some cid)
      then Inl (PgError ''23503'')
      else Inr (1, d\<lparr>categories := filter (\<lambda>c. cat_id c \<noteq> cid) (categories d),
                     home_banner := map_option (\<lambda>b. if bn_link_category_id b = Some cid then b\<lparr>bn_link_category_id := None\<rparr> else b)
                       (home_banner d)\<rparr>))"

definition Delete_category :: "env \<Rightarrow> string \<Rightarrow> unit go" where
  "Delete_category env cid =
     bindG (attempt (stmt (delete_category env cid))) (\<lambda>res.
     case res of
       Inl err \<Rightarrow> if err = PgError ''23503'' then failG (AppError (Conflict ''category_in_use'')) else failG err
     | Inr n \<Rightarrow> if n = 0 then failG category_not_found else returnG ())"

end
