(* ===== verification/Products.thy ===== *)
theory Products
  imports Categories "HOL-Library.Product_Lexorder"
begin

text \<open>
  Products, \<^verbatim>\<open>internal/catalog/product.go\<close>, and their search, \<^verbatim>\<open>search.go\<close>. The conditions of a list are predicates on
  a row beside the tables, its page a segment of the sorted rows.

  What the database brings: \<open>ce_lower\<close> is its \<^verbatim>\<open>lower\<close>, \<open>ce_tie\<close> the order in which it returns rows the query leaves tied; \<open>ce_decimal\<close> is the decimal number the driver sends for a
  \<^verbatim>\<open>float64\<close>.
\<close>

record catalog_env =
  ce_env :: env
  ce_lower :: "string \<Rightarrow> string"
  ce_tie :: "string \<Rightarrow> int"
  ce_decimal :: "float64 \<Rightarrow> rat"

section \<open>Search\<close>

definition maxSearchQueryRunes :: nat where "maxSearchQueryRunes = 100"
definition maxSearchTokens :: nat where "maxSearchTokens = 5"

fun truncateRunes :: "string \<Rightarrow> nat \<Rightarrow> string" where
  "truncateRunes s 0 = []"
| "truncateRunes s (Suc n) = (if s = [] then [] else take (rune_width s) s @ truncateRunes (drop (rune_width s) s) n)"

text \<open>\<^verbatim>\<open>strings.Fields\<close>: the first argument is the field being read.\<close>

function fields :: "string \<Rightarrow> string \<Rightarrow> string list" where
  "fields cur [] = (if cur = [] then [] else [cur])"
| "fields cur (c # s) =
     (let w = rune_width (c # s)
      in if take w (c # s) \<in> set space_runes
         then (if cur = [] then [] else [cur]) @ fields [] (drop (max 1 w) (c # s))
         else fields (cur @ take (max 1 w) (c # s)) (drop (max 1 w) (c # s)))"
  by pat_completeness auto
termination by (relation "measure (\<lambda>(cur, s). length s)") auto

definition searchTokens :: "string \<Rightarrow> string list" where
  "searchTokens q = take maxSearchTokens (fields [] (truncateRunes q maxSearchQueryRunes))"

definition like_special :: "char \<Rightarrow> bool" where
  "like_special c \<longleftrightarrow> c = CHR 0x5C \<or> c = CHR ''%'' \<or> c = CHR ''_''"

definition likeEscaper :: "string \<Rightarrow> string" where
  "likeEscaper s = concat (map (\<lambda>c. if like_special c then [CHR 0x5C, c] else [c]) s)"

text \<open>
  PostgreSQL's \<^verbatim>\<open>LIKE\<close> with the escape character backslash, on UTF-8: \<^verbatim>\<open>%\<close> is any sequence, \<^verbatim>\<open>_\<close> one character. A
  pattern that ends in the escape character is an error there; the program writes none.
\<close>

function like_match :: "string \<Rightarrow> string \<Rightarrow> bool" where
  "like_match [] s \<longleftrightarrow> s = []"
| "like_match (p # ps) s \<longleftrightarrow>
     (if p = CHR ''%'' then like_match ps s \<or> (case s of [] \<Rightarrow> False | _ # t \<Rightarrow> like_match (p # ps) t)
      else case s of
             [] \<Rightarrow> False
           | c # t \<Rightarrow>
               if p = CHR ''_'' then like_match ps (drop (max 1 (rune_width s)) s)
               else if p = CHR 0x5C then (case ps of [] \<Rightarrow> False | e # ps' \<Rightarrow> e = c \<and> like_match ps' t)
               else p = c \<and> like_match ps t)"
  by pat_completeness auto
termination by (relation "measure (\<lambda>(p, s). length p + length s)") auto

declare like_match.simps(2) [simp del]

definition ilike :: "catalog_env \<Rightarrow> string \<Rightarrow> string \<Rightarrow> bool" where
  "ilike E s pat \<longleftrightarrow> like_match (ce_lower E pat) (ce_lower E s)"

definition ilike_opt :: "catalog_env \<Rightarrow> string option \<Rightarrow> string \<Rightarrow> bool" where
  "ilike_opt E s pat \<longleftrightarrow> (case s of None \<Rightarrow> False | Some t \<Rightarrow> ilike E t pat)"

definition token_condition :: "catalog_env \<Rightarrow> db \<Rightarrow> product_row \<Rightarrow> string \<Rightarrow> bool" where
  "token_condition E d p tok \<longleftrightarrow>
     (let pat = ''%'' @ likeEscaper tok @ ''%''
      in ilike E (pr_name_ru p) pat \<or> ilike E (pr_name_ky p) pat \<or> ilike_opt E (pr_brand p) pat \<or>
         (\<exists>v \<in> set (variants d). pv_product_id v = pr_id p \<and> ilike_opt E (pv_sku v) pat))"

definition searchCondition :: "catalog_env \<Rightarrow> string \<Rightarrow> db \<Rightarrow> product_row \<Rightarrow> bool" where
  "searchCondition E q d p \<longleftrightarrow> list_all (token_condition E d p) (searchTokens q)"

section \<open>Lists\<close>

record Product =
  pd_ID :: string
  pd_CategoryID :: string
  pd_NameRu :: string
  pd_NameKy :: string
  pd_DescriptionRu :: "string option"
  pd_DescriptionKy :: "string option"
  pd_Brand :: "string option"
  pd_BasePrice :: float64
  pd_IsActive :: bool
  pd_CreatedAt :: int
  pd_UpdatedAt :: int

definition scanProduct :: "product_row \<Rightarrow> Product" where
  "scanProduct r =
     \<lparr>pd_ID = pr_id r, pd_CategoryID = pr_category_id r, pd_NameRu = pr_name_ru r, pd_NameKy = pr_name_ky r,
      pd_DescriptionRu = pr_description_ru r, pd_DescriptionKy = pr_description_ky r, pd_Brand = pr_brand r,
      pd_BasePrice = float_of_numeric (pr_base_price r), pd_IsActive = pr_is_active r,
      pd_CreatedAt = pr_created_at r, pd_UpdatedAt = pr_updated_at r\<rparr>"

definition SortNewest :: string where "SortNewest = ''newest''"
definition SortPriceAsc :: string where "SortPriceAsc = ''price_asc''"
definition SortPriceDesc :: string where "SortPriceDesc = ''price_desc''"
definition SortPopular :: string where "SortPopular = ''popular''"
definition DefaultPageSize :: int where "DefaultPageSize = 20"

record ListFilter =
  lf_CategoryID :: string
  lf_CategoryIDs :: "string list"
  lf_Size :: string
  lf_Color :: string
  lf_PriceMin :: "go_float option"
  lf_PriceMax :: "go_float option"
  lf_Query :: string
  lf_Sort :: string
  lf_InStock :: bool
  lf_Page :: int
  lf_PageSize :: int

text \<open>The effective prices of a product's variants, and their range.\<close>

definition variant_prices :: "db \<Rightarrow> product_row \<Rightarrow> int list" where
  "variant_prices d p =
     map (\<lambda>v. case pv_price_override v of None \<Rightarrow> pr_base_price p | Some x \<Rightarrow> x)
       (filter (\<lambda>v. pv_product_id v = pr_id p) (variants d))"

definition minPriceExpr :: "db \<Rightarrow> product_row \<Rightarrow> int" where
  "minPriceExpr d p = (case variant_prices d p of [] \<Rightarrow> pr_base_price p | x # xs \<Rightarrow> fold min xs x)"

definition maxPriceExpr :: "db \<Rightarrow> product_row \<Rightarrow> int" where
  "maxPriceExpr d p = (case variant_prices d p of [] \<Rightarrow> pr_base_price p | x # xs \<Rightarrow> fold max xs x)"

text \<open>Comparisons of a \<^verbatim>\<open>NUMERIC(10,2)\<close> with a number sent by the program; \<^verbatim>\<open>NaN\<close> is above every number.\<close>

fun numeric_le :: "catalog_env \<Rightarrow> int \<Rightarrow> go_float \<Rightarrow> bool" where
  "numeric_le E k (Finite x) \<longleftrightarrow> of_int k / 100 \<le> ce_decimal E x"
| "numeric_le E k NegInf \<longleftrightarrow> False"
| "numeric_le E k _ \<longleftrightarrow> True"

fun numeric_ge :: "catalog_env \<Rightarrow> int \<Rightarrow> go_float \<Rightarrow> bool" where
  "numeric_ge E k (Finite x) \<longleftrightarrow> ce_decimal E x \<le> of_int k / 100"
| "numeric_ge E k NegInf \<longleftrightarrow> True"
| "numeric_ge E k _ \<longleftrightarrow> False"

definition sold_here :: "db \<Rightarrow> string \<Rightarrow> bool" where
  "sold_here d vid \<longleftrightarrow> (\<exists>pt \<in> set (points d). pt_is_active pt \<and> (case stock d (vid, pt_id pt) of None \<Rightarrow> False | Some q \<Rightarrow> 0 < q))"

definition variant_condition :: "ListFilter \<Rightarrow> db \<Rightarrow> product_row \<Rightarrow> bool" where
  "variant_condition f d p \<longleftrightarrow>
     (lf_Size f = [] \<and> lf_Color f = [] \<and> \<not> lf_InStock f) \<or>
     (\<exists>v \<in> set (variants d). pv_product_id v = pr_id p \<and> (lf_Size f \<noteq> [] \<longrightarrow> pv_size v = lf_Size f) \<and>
        (lf_Color f \<noteq> [] \<longrightarrow> pv_color v = lf_Color f) \<and> (lf_InStock f \<longrightarrow> sold_here d (pv_id v)))"

definition category_condition :: "string list \<Rightarrow> string \<Rightarrow> product_row \<Rightarrow> bool" where
  "category_condition ids id0 p \<longleftrightarrow>
     (if ids \<noteq> [] then pr_category_id p \<in> set ids else if id0 \<noteq> [] then pr_category_id p = id0 else True)"

definition buildListConditions :: "catalog_env \<Rightarrow> ListFilter \<Rightarrow> db \<Rightarrow> product_row \<Rightarrow> bool" where
  "buildListConditions E f d p \<longleftrightarrow>
     pr_is_active p \<and> category_condition (lf_CategoryIDs f) (lf_CategoryID f) p \<and>
     (case lf_PriceMin f of None \<Rightarrow> True | Some x \<Rightarrow> numeric_ge E (maxPriceExpr d p) x) \<and>
     (case lf_PriceMax f of None \<Rightarrow> True | Some x \<Rightarrow> numeric_le E (minPriceExpr d p) x) \<and>
     searchCondition E (lf_Query f) d p \<and> variant_condition f d p"

text \<open>An identifier of a category that is not a UUID is refused by the database.\<close>

definition category_params :: "catalog_env \<Rightarrow> string list \<Rightarrow> string \<Rightarrow> go_error option" where
  "category_params E ids id0 =
     (if list_all (uuid_validate (ce_env E)) (if ids \<noteq> [] then ids else if id0 \<noteq> [] then [id0] else [])
      then None else Some invalid_uuid)"

definition listOrderBy :: "string \<Rightarrow> db \<Rightarrow> product_row \<Rightarrow> int \<times> int \<times> string" where
  "listOrderBy srt d p =
     (if srt = SortPriceAsc then (minPriceExpr d p, 0, pr_id p)
      else if srt = SortPriceDesc then (- minPriceExpr d p, 0, pr_id p)
      else if srt = SortPopular then (- product_sales d (pr_id p), - pr_created_at p, pr_id p)
      else (- pr_created_at p, 0, pr_id p))"

definition safeOffset :: "int \<Rightarrow> int \<Rightarrow> int" where
  "safeOffset page pageSize =
     (if page \<le> 1 then 0
      else let pageSize = (if pageSize \<le> 0 then DefaultPageSize else pageSize);
               maxPage = max_int4 div pageSize;
               page = (if page > maxPage then maxPage else page)
           in (page - 1) * pageSize)"

text \<open>\<^verbatim>\<open>LIMIT\<close> and \<^verbatim>\<open>OFFSET\<close>; a negative offset is PostgreSQL's error 2201X.\<close>

definition page_of :: "int \<Rightarrow> int \<Rightarrow> 'a list \<Rightarrow> go_error + 'a list" where
  "page_of pageSize offset rows =
     (if offset < 0 then Inl (PgError ''2201X'') else Inr (take (nat pageSize) (drop (nat offset) rows)))"

definition checked :: "go_error option \<Rightarrow> go_error + 'a \<Rightarrow> go_error + 'a" where
  "checked params r = (case params of None \<Rightarrow> r | Some e \<Rightarrow> Inl e)"

definition count_and_page ::
  "go_error option \<Rightarrow> (db \<Rightarrow> product_row list) \<Rightarrow> int \<Rightarrow> int \<Rightarrow> (Product list \<times> int) go" where
  "count_and_page params rows page0 pageSize0 =
     (let page = (if page0 < 1 then 1 else page0);
          pageSize = (if pageSize0 \<le> 0 then DefaultPageSize else pageSize0)
      in bindG (stmt (\<lambda>d. checked params (Inr (int (length (rows d)), d)))) (\<lambda>total.
         bindG (stmt (\<lambda>d. checked params (map_sum id (\<lambda>ps. (map scanProduct ps, d))
           (page_of pageSize (safeOffset page pageSize) (rows d))))) (\<lambda>products.
         returnG (products, total))))"

definition listed :: "catalog_env \<Rightarrow> ListFilter \<Rightarrow> db \<Rightarrow> product_row list" where
  "listed E f d = sort_key (listOrderBy (lf_Sort f) d) (filter (buildListConditions E f d) (products d))"

definition List_products :: "catalog_env \<Rightarrow> ListFilter \<Rightarrow> (Product list \<times> int) go" where
  "List_products E f =
     count_and_page (category_params E (lf_CategoryIDs f) (lf_CategoryID f)) (listed E f) (lf_Page f) (lf_PageSize f)"

record AdminListFilter =
  af_CategoryIDs :: "string list"
  af_Query :: string
  af_OutOfStockAtPoint :: string
  af_Page :: int
  af_PageSize :: int

definition buildAdminListConditions :: "catalog_env \<Rightarrow> AdminListFilter \<Rightarrow> db \<Rightarrow> product_row \<Rightarrow> bool" where
  "buildAdminListConditions E f d p \<longleftrightarrow>
     category_condition (af_CategoryIDs f) [] p \<and> searchCondition E (af_Query f) d p \<and>
     (af_OutOfStockAtPoint f \<noteq> [] \<longrightarrow>
        \<not> (\<exists>v \<in> set (variants d). pv_product_id v = pr_id p \<and>
             (case stock d (pv_id v, af_OutOfStockAtPoint f) of None \<Rightarrow> False | Some q \<Rightarrow> 0 < q)))"

definition ListForAdmin :: "catalog_env \<Rightarrow> AdminListFilter \<Rightarrow> (Product list \<times> int) go" where
  "ListForAdmin E f =
     count_and_page
       (category_params E (af_CategoryIDs f @ (if af_OutOfStockAtPoint f \<noteq> [] then [af_OutOfStockAtPoint f] else [])) [])
       (\<lambda>d. sort_key (\<lambda>p. (- pr_created_at p, ce_tie E (pr_id p))) (filter (buildAdminListConditions E f d) (products d)))
       (af_Page f) (af_PageSize f)"

definition DistinctBrands :: "catalog_env \<Rightarrow> string list go" where
  "DistinctBrands E =
     query (\<lambda>d. sort_key (collation_key (ce_env E)) (remdups (filter (\<lambda>b. b \<noteq> []) (List.map_filter pr_brand (products d)))))"

section \<open>Single products\<close>

definition product_not_found :: go_error where
  "product_not_found = AppError (NotFound ''product_not_found'')"

definition product_by :: "catalog_env \<Rightarrow> string \<Rightarrow> (product_row \<Rightarrow> bool) \<Rightarrow> Product go" where
  "product_by E pid wanted =
     bindG (stmt (\<lambda>d. if \<not> uuid_validate (ce_env E) pid then Inl invalid_uuid
       else Inr (find (\<lambda>p. pr_id p = pid \<and> wanted p) (products d), d))) (\<lambda>row.
     case row of None \<Rightarrow> failG product_not_found | Some p \<Rightarrow> returnG (scanProduct p))"

definition GetByID_product :: "catalog_env \<Rightarrow> string \<Rightarrow> Product go" where
  "GetByID_product E pid = product_by E pid pr_is_active"

definition GetByIDAny :: "catalog_env \<Rightarrow> string \<Rightarrow> Product go" where
  "GetByIDAny E pid = product_by E pid (\<lambda>_. True)"

definition GetActiveByIDs :: "catalog_env \<Rightarrow> string list \<Rightarrow> (string \<Rightarrow> Product option) go" where
  "GetActiveByIDs E ids =
     (if ids = [] then returnG (\<lambda>_. None)
      else stmt (\<lambda>d. if \<not> list_all (uuid_validate (ce_env E)) ids then Inl invalid_uuid
        else Inr (map_of (map (\<lambda>p. (pr_id p, scanProduct p)) (filter (\<lambda>p. pr_id p \<in> set ids \<and> pr_is_active p) (products d))), d)))"

record ProductInput =
  pi_CategoryID :: string
  pi_NameRu :: string
  pi_NameKy :: string
  pi_DescriptionRu :: "string option"
  pi_DescriptionKy :: "string option"
  pi_Brand :: "string option"
  pi_BasePrice :: float64
  pi_IsActive :: bool

definition bad_field :: "string \<Rightarrow> go_error" where
  "bad_field code = AppError (WithVariant (BadRequest code) ''field'')"

definition validate_product :: "ProductInput \<Rightarrow> go_error + unit" where
  "validate_product inp =
     (if trim_space (pi_CategoryID inp) = [] then Inl (bad_field ''invalid_category_id'')
      else if trim_space (pi_NameRu inp) = [] then Inl (bad_field ''invalid_name_ru'')
      else if trim_space (pi_NameKy inp) = [] then Inl (bad_field ''invalid_name_ky'')
      else if pi_BasePrice inp < 0 then Inl (bad_field ''invalid_base_price'')
      else Inr ())"

text \<open>The violations of a write of \<^verbatim>\<open>products\<close> that leaves the model code alone.\<close>

definition write_error :: "catalog_env \<Rightarrow> db \<Rightarrow> string list \<Rightarrow> product_row \<Rightarrow> go_error option" where
  "write_error E d ids r =
     (if \<not> list_all (uuid_validate (ce_env E)) (ids @ [pr_category_id r]) then Some invalid_uuid
      else if numeric_10_2_bound \<le> \<bar>pr_base_price r\<bar> then Some (PgError ''22003'')
      else if pr_category_id r \<notin> cat_id ` set (categories d) then Some (PgError ''23503'')
      else None)"

definition product_of_input :: "ProductInput \<Rightarrow> product_row \<Rightarrow> product_row" where
  "product_of_input inp r =
     r\<lparr>pr_category_id := pi_CategoryID inp, pr_name_ru := pi_NameRu inp, pr_name_ky := pi_NameKy inp,
       pr_description_ru := pi_DescriptionRu inp, pr_description_ky := pi_DescriptionKy inp, pr_brand := pi_Brand inp,
       pr_base_price := numeric_of_float (pi_BasePrice inp), pr_is_active := pi_IsActive inp\<rparr>"

definition blank_product :: "string \<Rightarrow> int \<Rightarrow> product_row" where
  "blank_product pid now =
     \<lparr>pr_id = pid, pr_name_ru = [], pr_name_ky = [], pr_base_price = 0, pr_is_active = True, pr_category_id = [],
      pr_brand = None, pr_description_ru = None, pr_description_ky = None, pr_model_code = None,
      pr_created_at = now, pr_updated_at = now\<rparr>"

definition insert_product :: "catalog_env \<Rightarrow> ProductInput \<Rightarrow> db \<Rightarrow> go_error + (product_row \<times> db)" where
  "insert_product E inp d =
     (let r = product_of_input inp (blank_product (gen_uuid (ce_env E) (id_count d)) (clock d))
      in case write_error E d [] r of
           Some e \<Rightarrow> Inl e
         | None \<Rightarrow> if pr_id r \<in> pr_id ` set (products d) then Inl (PgError ''23505'')
                   else Inr (r, d\<lparr>products := products d @ [r], id_count := Suc (id_count d)\<rparr>))"

text \<open>An update of the row \<open>pid\<close> by \<open>f\<close>; the parameters are checked before the row is looked for.\<close>

definition update_product ::
  "catalog_env \<Rightarrow> string \<Rightarrow> (product_row \<Rightarrow> product_row) \<Rightarrow> db \<Rightarrow> go_error + (product_row option \<times> db)" where
  "update_product E pid f d =
     (case find (\<lambda>p. pr_id p = pid) (products d) of
        None \<Rightarrow> if \<not> list_all (uuid_validate (ce_env E)) [pid, pr_category_id (f (blank_product pid 0))] then Inl invalid_uuid
                else Inr (None, d)
      | Some r \<Rightarrow>
          (case write_error E d [pid] (f r) of
             Some e \<Rightarrow> Inl e
           | None \<Rightarrow> Inr (Some ((f r)\<lparr>pr_updated_at := clock d\<rparr>),
               d\<lparr>products := map (\<lambda>p. if pr_id p = pid then (f p)\<lparr>pr_updated_at := clock d\<rparr> else p) (products d)\<rparr>)))"

definition translateProductWriteErr :: "go_error \<Rightarrow> go_error" where
  "translateProductWriteErr err =
     (if err = PgError ''23503'' then AppError (BadRequest ''invalid_category_id'') else err)"

definition Create_product :: "catalog_env \<Rightarrow> ProductInput \<Rightarrow> Product go" where
  "Create_product E inp =
     bindG (liftG (validate_product inp)) (\<lambda>_.
     bindG (map_error translateProductWriteErr (stmt (insert_product E inp))) (\<lambda>r. returnG (scanProduct r)))"

definition Update_product :: "catalog_env \<Rightarrow> string \<Rightarrow> ProductInput \<Rightarrow> Product go" where
  "Update_product E pid inp =
     bindG (liftG (validate_product inp)) (\<lambda>_.
     bindG (map_error translateProductWriteErr (stmt (update_product E pid (product_of_input inp)))) (\<lambda>row.
     case row of None \<Rightarrow> failG product_not_found | Some r \<Rightarrow> returnG (scanProduct r)))"

definition Delete_product :: "catalog_env \<Rightarrow> string \<Rightarrow> unit go" where
  "Delete_product E pid =
     bindG (stmt (\<lambda>d. if \<not> uuid_validate (ce_env E) pid then Inl invalid_uuid
       else Inr (length (filter (\<lambda>p. pr_id p = pid) (products d)),
         d\<lparr>products := map (\<lambda>p. if pr_id p = pid then p\<lparr>pr_is_active := False, pr_updated_at := clock d\<rparr> else p) (products d)\<rparr>)))
       (\<lambda>n. if n = 0 then failG product_not_found else returnG ())"

end
