(* ===== verification/GoParse.thy ===== *)
theory GoParse
  imports ImportParse
begin

text \<open>
  Numbers and texts as Go's library reads them: \<^verbatim>\<open>strconv.Atoi\<close>, \<^verbatim>\<open>strconv.ParseFloat\<close> for decimal notation
  (hexadecimal notation is left out), \<^verbatim>\<open>strings.ReplaceAll\<close> of one byte, and \<^verbatim>\<open>sort.SliceStable\<close>.
\<close>

definition split_sign :: "string \<Rightarrow> bool \<times> string" where
  "split_sign s =
     (case s of c # rest \<Rightarrow> if c = CHR ''-'' then (True, rest) else if c = CHR ''+'' then (False, rest) else (False, s)
      | [] \<Rightarrow> (False, s))"

definition Atoi :: "string \<Rightarrow> int option" where
  "Atoi s =
     (case split_sign s of (neg, ds) \<Rightarrow>
        if ds = [] \<or> \<not> list_all is_digit ds then None
        else let n = (if neg then - digits_val ds else digits_val ds)
             in if n < - (2 ^ 63) \<or> 2 ^ 63 \<le> n then None else Some n)"

lemma decimal_digits: "0 \<le> n \<Longrightarrow> decimal n \<noteq> [] \<and> list_all is_digit (decimal n)"
proof (induction n rule: decimal.induct)
  case (1 n)
  then show ?case
    by (cases "n < 10") (auto simp: decimal_code is_digit_def byte_digit_char)
qed

lemma split_sign_digits: "list_all is_digit s \<Longrightarrow> split_sign s = (False, s)"
  by (auto simp: split_sign_def is_digit_def split: list.split)

lemma Atoi_decimal: "0 \<le> n \<Longrightarrow> n < 2 ^ 63 \<Longrightarrow> Atoi (decimal n) = Some n"
  using decimal_digits [of n] by (simp add: Atoi_def split_sign_digits digits_val_decimal)

text \<open>The digits of an exponent; the loop stops adding digits once the value has reached 10000.\<close>

definition exponent_val :: "string \<Rightarrow> int" where
  "exponent_val ds = foldl (\<lambda>e c. if e < 10000 then 10 * e + digit_val c else e) 0 ds"

definition read_exponent :: "string \<Rightarrow> int option" where
  "read_exponent s =
     (case s of
        [] \<Rightarrow> Some 0
      | c # rest \<Rightarrow>
          if c \<noteq> CHR ''e'' \<and> c \<noteq> CHR ''E'' then None
          else case split_sign rest of (neg, ds) \<Rightarrow>
                 if ds = [] \<or> \<not> list_all is_digit ds then None
                 else Some (if neg then - exponent_val ds else exponent_val ds))"

definition to_lower :: "string \<Rightarrow> string" where
  "to_lower = map (\<lambda>c. if 65 \<le> byte c \<and> byte c \<le> 90 then char_of (byte c + 32) else c)"

definition scale_ten :: "int \<Rightarrow> int \<Rightarrow> rat" where
  "scale_ten m e = (if 0 \<le> e then of_int (m * 10 ^ nat e) else of_int m / of_int (10 ^ nat (- e)))"

definition ParseFloat :: "string \<Rightarrow> go_float option" where
  "ParseFloat s =
     (case split_sign s of (neg, rest) \<Rightarrow>
        if to_lower rest \<in> {''inf'', ''infinity''} then Some (if neg then NegInf else PosInf)
        else if to_lower s = ''nan'' then Some NaN
        else let whole = takeWhile is_digit rest;
                 after = dropWhile is_digit rest;
                 fraction = (case after of c # cs \<Rightarrow> if c = CHR ''.'' then takeWhile is_digit cs else [] | [] \<Rightarrow> []);
                 tail = (case after of c # cs \<Rightarrow> if c = CHR ''.'' then dropWhile is_digit cs else after | [] \<Rightarrow> [])
             in if whole = [] \<and> fraction = [] then None
                else case read_exponent tail of
                       None \<Rightarrow> None
                     | Some e \<Rightarrow>
                         (let x = scale_ten (digits_val (whole @ fraction)) (e - int (length fraction))
                          in if float_limit \<le> x then None else Some (Finite (rnd64 (if neg then - x else x)))))"

definition replace_byte :: "char \<Rightarrow> char \<Rightarrow> string \<Rightarrow> string" where
  "replace_byte a b = map (\<lambda>c. if c = a then b else c)"

text \<open>
  The insertion sort of \<^verbatim>\<open>sort.SliceStable\<close>, on the sorted part read from its end. (It sorts up to twenty elements; more are
  sorted in such blocks and merged, which gives the same list when \<open>lt\<close> orders the elements.)
\<close>

fun sift :: "('a \<Rightarrow> 'a \<Rightarrow> bool) \<Rightarrow> 'a \<Rightarrow> 'a list \<Rightarrow> 'a list" where
  "sift lt x [] = [x]"
| "sift lt x (y # ys) = (if lt x y then y # sift lt x ys else x # y # ys)"

definition SliceStable :: "('a \<Rightarrow> 'a \<Rightarrow> bool) \<Rightarrow> 'a list \<Rightarrow> 'a list" where
  "SliceStable lt xs = rev (fold (sift lt) xs [])"

lemma set_sift [simp]: "set (sift lt x ys) = insert x (set ys)"
  by (induction ys) auto

lemma length_sift [simp]: "length (sift lt x ys) = Suc (length ys)"
  by (induction ys) auto

lemma SliceStable_elements [simp]:
  "set (SliceStable lt xs) = set xs" "length (SliceStable lt xs) = length xs"
proof -
  have "set (fold (sift lt) xs ys) = set xs \<union> set ys \<and> length (fold (sift lt) xs ys) = length xs + length ys" for ys
    by (induction xs arbitrary: ys) auto
  then show "set (SliceStable lt xs) = set xs" "length (SliceStable lt xs) = length xs" by (simp_all add: SliceStable_def)
qed

text \<open>With a comparison that orders the elements the result is sorted.\<close>

lemma sorted_SliceStable:
  assumes total: "\<And>x y z. \<not> lt x y \<Longrightarrow> \<not> lt y z \<Longrightarrow> \<not> lt x z"
    and asym: "\<And>x y. lt x y \<Longrightarrow> \<not> lt y x"
  shows "sorted_wrt (\<lambda>x y. \<not> lt y x) (SliceStable lt xs)"
proof -
  have insert: "sorted_wrt (\<lambda>x y. \<not> lt x y) (sift lt x ys)" if "sorted_wrt (\<lambda>x y. \<not> lt x y) ys" for x ys
    using that
  proof (induction ys)
    case (Cons y ys)
    then have rest: "\<forall>z \<in> set ys. \<not> lt y z" and sorted: "sorted_wrt (\<lambda>x y. \<not> lt x y) ys" by auto
    show ?case
    proof (cases "lt x y")
      case True
      with rest Cons.IH [OF sorted] asym [OF True] show ?thesis by simp
    next
      case False
      with rest sorted have "\<forall>z \<in> set ys. \<not> lt x z" using total [OF False] by blast
      with False rest sorted show ?thesis by simp
    qed
  qed simp
  have "sorted_wrt (\<lambda>x y. \<not> lt x y) (fold (sift lt) xs ys)" if "sorted_wrt (\<lambda>x y. \<not> lt x y) ys" for ys
    using that by (induction xs arbitrary: ys) (auto intro: insert)
  then show ?thesis by (simp add: SliceStable_def sorted_wrt_rev)
qed

end
