(* ===== verification/Variants.thy ===== *)
theory Variants
  imports Products GoParse
begin

text \<open>
  Variants and photos of a product, \<^verbatim>\<open>internal/catalog/variant.go\<close>, \<^verbatim>\<open>image.go\<close>, \<^verbatim>\<open>batch_read.go\<close>, the filter options of
  \<^verbatim>\<open>facets.go\<close>, and the stock of \<^verbatim>\<open>stock.go\<close> and \<^verbatim>\<open>internal/httpapi/admin_catalog_stock.go\<close>. A variant that was
  ordered cannot be deleted: \<^verbatim>\<open>order_items\<close> refers to it.
\<close>

section \<open>Variants\<close>

record Variant =
  va_ID :: string
  va_ProductID :: string
  va_Size :: string
  va_Color :: string
  va_SKU :: "string option"
  va_PriceOverride :: "float64 option"

definition scanVariant :: "variant_row \<Rightarrow> Variant" where
  "scanVariant r =
     \<lparr>va_ID = pv_id r, va_ProductID = pv_product_id r, va_Size = pv_size r, va_Color = pv_color r, va_SKU = pv_sku r,
      va_PriceOverride = map_option float_of_numeric (pv_price_override r)\<rparr>"

text \<open>A query whose parameters are the identifiers \<open>ids\<close>.\<close>

definition query_ids :: "catalog_env \<Rightarrow> string list \<Rightarrow> (db \<Rightarrow> 'a) \<Rightarrow> 'a go" where
  "query_ids E ids f = stmt (\<lambda>d. if list_all (uuid_validate (ce_env E)) ids then Inr (f d, d) else Inl invalid_uuid)"

definition CountByProductIDs :: "catalog_env \<Rightarrow> string list \<Rightarrow> (string \<Rightarrow> int option) go" where
  "CountByProductIDs E ids =
     (if ids = [] then returnG (\<lambda>_. None)
      else query_ids E ids (\<lambda>d pid.
        if pid \<in> set ids \<and> pid \<in> pv_product_id ` set (variants d)
        then Some (int (length (filter (\<lambda>v. pv_product_id v = pid) (variants d)))) else None))"

definition by_size_color :: "catalog_env \<Rightarrow> db \<Rightarrow> string \<Rightarrow> Variant list" where
  "by_size_color E d pid =
     map scanVariant (sort_key (\<lambda>v. (collation_key (ce_env E) (pv_size v), collation_key (ce_env E) (pv_color v)))
       (filter (\<lambda>v. pv_product_id v = pid) (variants d)))"

definition ListByProduct_variants :: "catalog_env \<Rightarrow> string \<Rightarrow> Variant list go" where
  "ListByProduct_variants E pid = query_ids E [pid] (\<lambda>d. by_size_color E d pid)"

definition present :: "'a list \<Rightarrow> 'a list option" where
  "present xs = (if xs = [] then None else Some xs)"

definition ListByProductIDs_variants :: "catalog_env \<Rightarrow> string list \<Rightarrow> (string \<Rightarrow> Variant list option) go" where
  "ListByProductIDs_variants E ids =
     (if ids = [] then returnG (\<lambda>_. None)
      else query_ids E ids (\<lambda>d pid. if pid \<in> set ids then present (by_size_color E d pid) else None))"

definition variant_not_found :: go_error where
  "variant_not_found = AppError (NotFound ''variant_not_found'')"

definition GetByID_variant :: "catalog_env \<Rightarrow> string \<Rightarrow> Variant go" where
  "GetByID_variant E vid =
     bindG (query_ids E [vid] (\<lambda>d. find (\<lambda>v. pv_id v = vid) (variants d))) (\<lambda>row.
     case row of None \<Rightarrow> failG variant_not_found | Some v \<Rightarrow> returnG (scanVariant v))"

record VariantInput =
  vi_Size :: string
  vi_Color :: string
  vi_SKU :: "string option"
  vi_PriceOverride :: "go_float option"

fun override_ok :: "go_float option \<Rightarrow> bool" where
  "override_ok None \<longleftrightarrow> True"
| "override_ok (Some (Finite p)) \<longleftrightarrow> 0 < fdiv (of_int (math_round (fmul p 100))) 100"
| "override_ok (Some _) \<longleftrightarrow> False"

definition Validate_variant :: "VariantInput \<Rightarrow> go_error + unit" where
  "Validate_variant inp =
     (if trim_space (vi_Size inp) = [] then Inl (AppError (BadRequest ''invalid_size''))
      else if trim_space (vi_Color inp) = [] then Inl (AppError (BadRequest ''invalid_color''))
      else if \<not> override_ok (vi_PriceOverride inp) then Inl (AppError (BadRequest ''invalid_price_override''))
      else Inr ())"

text \<open>An override that passed the check is finite.\<close>

fun numeric_override :: "go_float option \<Rightarrow> int option" where
  "numeric_override (Some (Finite p)) = Some (numeric_of_float p)"
| "numeric_override _ = None"

definition variant_of_input :: "VariantInput \<Rightarrow> variant_row \<Rightarrow> variant_row" where
  "variant_of_input inp r =
     r\<lparr>pv_size := vi_Size inp, pv_color := vi_Color inp, pv_sku := vi_SKU inp,
       pv_price_override := numeric_override (vi_PriceOverride inp)\<rparr>"

definition blank_variant :: "string \<Rightarrow> string \<Rightarrow> variant_row" where
  "blank_variant vid pid =
     \<lparr>pv_id = vid, pv_product_id = pid, pv_size = [], pv_color = [], pv_price_override = None, pv_sku = None\<rparr>"

definition insert_variant :: "catalog_env \<Rightarrow> string \<Rightarrow> (variant_row \<Rightarrow> variant_row) \<Rightarrow> db \<Rightarrow> go_error + (variant_row \<times> db)" where
  "insert_variant E pid f d =
     (let r = f (blank_variant (gen_uuid (ce_env E) (id_count d)) pid)
      in if \<not> uuid_validate (ce_env E) pid then Inl invalid_uuid
         else if pv_id r \<in> pv_id ` set (variants d) then Inl (PgError ''23505'')
         else case variant_error d r of
                Some e \<Rightarrow> Inl e
              | None \<Rightarrow> Inr (r, d\<lparr>variants := variants d @ [r], id_count := Suc (id_count d)\<rparr>))"

definition update_variant ::
  "catalog_env \<Rightarrow> string \<Rightarrow> (variant_row \<Rightarrow> variant_row) \<Rightarrow> db \<Rightarrow> go_error + (variant_row option \<times> db)" where
  "update_variant E vid f d =
     (if \<not> uuid_validate (ce_env E) vid then Inl invalid_uuid
      else case find (\<lambda>v. pv_id v = vid) (variants d) of
             None \<Rightarrow> Inr (None, d)
           | Some r \<Rightarrow>
               (case variant_error d (f r) of
                  Some e \<Rightarrow> Inl e
                | None \<Rightarrow> Inr (Some (f r), d\<lparr>variants := map (\<lambda>v. if pv_id v = vid then f v else v) (variants d)\<rparr>)))"

text \<open>\<^verbatim>\<open>DELETE FROM product_variants\<close>: the stock and the cart lines of the variant go with it.\<close>

definition delete_variant :: "catalog_env \<Rightarrow> string \<Rightarrow> db \<Rightarrow> go_error + (nat \<times> db)" where
  "delete_variant E vid d =
     (if \<not> uuid_validate (ce_env E) vid then Inl invalid_uuid
      else if vid \<notin> pv_id ` set (variants d) then Inr (0, d)
      else if vid \<in> i_variant_id ` set (order_items d) then Inl (PgError ''23503'')
      else Inr (1, d\<lparr>variants := filter (\<lambda>v. pv_id v \<noteq> vid) (variants d),
                     stock := (\<lambda>k. if fst k = vid then None else stock d k),
                     cart_items := filter (\<lambda>c. c_variant_id c \<noteq> vid) (cart_items d)\<rparr>))"

definition translateVariantWriteErr :: "go_error \<Rightarrow> go_error" where
  "translateVariantWriteErr err =
     (if err = PgError ''23505'' then AppError (Conflict ''variant_exists'')
      else if err = PgError ''23503'' then AppError (BadRequest ''invalid_product_id'')
      else err)"

definition Create_variant :: "catalog_env \<Rightarrow> string \<Rightarrow> VariantInput \<Rightarrow> Variant go" where
  "Create_variant E pid inp =
     bindG (liftG (Validate_variant inp)) (\<lambda>_.
     bindG (map_error translateVariantWriteErr (stmt (insert_variant E pid (variant_of_input inp)))) (\<lambda>r.
     returnG (scanVariant r)))"

definition Update_variant :: "catalog_env \<Rightarrow> string \<Rightarrow> VariantInput \<Rightarrow> Variant go" where
  "Update_variant E vid inp =
     bindG (liftG (Validate_variant inp)) (\<lambda>_.
     bindG (map_error translateVariantWriteErr (stmt (update_variant E vid (variant_of_input inp)))) (\<lambda>row.
     case row of None \<Rightarrow> failG variant_not_found | Some r \<Rightarrow> returnG (scanVariant r)))"

definition Delete_variant :: "catalog_env \<Rightarrow> string \<Rightarrow> unit go" where
  "Delete_variant E vid =
     bindG (attempt (stmt (delete_variant E vid))) (\<lambda>res.
     case res of
       Inl err \<Rightarrow> if err = PgError ''23503'' then failG (AppError (Conflict ''variant_in_use'')) else failG err
     | Inr n \<Rightarrow> if n = 0 then failG variant_not_found else returnG ())"

section \<open>Photos\<close>

record ProductImage =
  img_ID :: string
  img_ProductID :: string
  img_ObjectKey :: string
  img_SortOrder :: int
  img_Color :: "string option"

definition scanImage :: "image_row \<Rightarrow> ProductImage" where
  "scanImage r =
     \<lparr>img_ID = im_id r, img_ProductID = im_product_id r, img_ObjectKey = im_object_key r,
      img_SortOrder = im_sort_order r, img_Color = im_color r\<rparr>"

text \<open>\<^verbatim>\<open>SELECT DISTINCT ON\<close> returns the first row of a group in the order of the query.\<close>

definition first_image :: "(image_row \<Rightarrow> 'k :: linorder) \<Rightarrow> image_row list \<Rightarrow> ProductImage option" where
  "first_image key rows = (case sort_key key rows of [] \<Rightarrow> None | r # _ \<Rightarrow> Some (scanImage r))"

definition PrimaryForProducts :: "catalog_env \<Rightarrow> string list \<Rightarrow> (string \<Rightarrow> ProductImage option) go" where
  "PrimaryForProducts E ids =
     (if ids = [] then returnG (\<lambda>_. None)
      else query_ids E ids (\<lambda>d pid.
        if pid \<in> set ids
        then first_image (\<lambda>i. (im_color i \<noteq> None, im_sort_order i, ce_tie E (im_id i)))
               (filter (\<lambda>i. im_product_id i = pid) (product_images d))
        else None))"

definition PrimaryForVariants :: "catalog_env \<Rightarrow> string list \<Rightarrow> (string \<Rightarrow> ProductImage option) go" where
  "PrimaryForVariants E ids =
     (if ids = [] then returnG (\<lambda>_. None)
      else query_ids E ids (\<lambda>d vid.
        if vid \<in> set ids
        then case find (\<lambda>v. pv_id v = vid) (variants d) of
               None \<Rightarrow> None
             | Some v \<Rightarrow> first_image (\<lambda>i. (im_color i \<noteq> Some (pv_color v), im_color i \<noteq> None, im_sort_order i, ce_tie E (im_id i)))
                 (filter (\<lambda>i. im_product_id i = pv_product_id v) (product_images d))
        else None))"

definition image_order :: "catalog_env \<Rightarrow> image_row \<Rightarrow> bool \<times> string \<times> int \<times> int" where
  "image_order E i =
     (im_color i \<noteq> None, (case im_color i of None \<Rightarrow> [] | Some c \<Rightarrow> collation_key (ce_env E) c), im_sort_order i, ce_tie E (im_id i))"

definition images_of :: "catalog_env \<Rightarrow> db \<Rightarrow> string \<Rightarrow> ProductImage list" where
  "images_of E d pid = map scanImage (sort_key (image_order E) (filter (\<lambda>i. im_product_id i = pid) (product_images d)))"

definition ListByProduct_images :: "catalog_env \<Rightarrow> string \<Rightarrow> ProductImage list go" where
  "ListByProduct_images E pid = query_ids E [pid] (\<lambda>d. images_of E d pid)"

definition ListByProductIDs_images :: "catalog_env \<Rightarrow> string list \<Rightarrow> (string \<Rightarrow> ProductImage list option) go" where
  "ListByProductIDs_images E ids =
     (if ids = [] then returnG (\<lambda>_. None)
      else query_ids E ids (\<lambda>d pid. if pid \<in> set ids then present (images_of E d pid) else None))"

definition ForColor :: "ProductImage list \<Rightarrow> string \<Rightarrow> ProductImage list" where
  "ForColor images color =
     (let tagged = filter (\<lambda>i. img_Color i = Some color) images;
          general = filter (\<lambda>i. img_Color i = None) images
      in if tagged \<noteq> [] then tagged else if general \<noteq> [] then general else images)"

record ImageInput =
  ii_ObjectKey :: string
  ii_SortOrder :: int
  ii_Color :: "string option"

definition image_of_input :: "string \<Rightarrow> string \<Rightarrow> ImageInput \<Rightarrow> image_row" where
  "image_of_input iid pid inp =
     \<lparr>im_id = iid, im_product_id = pid, im_object_key = ii_ObjectKey inp, im_sort_order = ii_SortOrder inp,
      im_color = ii_Color inp\<rparr>"

definition insert_image :: "catalog_env \<Rightarrow> string \<Rightarrow> ImageInput \<Rightarrow> db \<Rightarrow> go_error + (ProductImage \<times> db)" where
  "insert_image E pid inp d =
     (let r = image_of_input (gen_uuid (ce_env E) (id_count d)) pid inp
      in if not_int4 (ii_SortOrder inp) then Inl encode_error
         else if \<not> uuid_validate (ce_env E) pid then Inl invalid_uuid
         else if im_id r \<in> im_id ` set (product_images d) then Inl (PgError ''23505'')
         else if pid \<notin> pr_id ` set (products d) then Inl (PgError ''23503'')
         else Inr (scanImage r, d\<lparr>product_images := product_images d @ [r], id_count := Suc (id_count d)\<rparr>))"

definition delete_images :: "catalog_env \<Rightarrow> string \<Rightarrow> db \<Rightarrow> go_error + (unit \<times> db)" where
  "delete_images E pid d =
     (if \<not> uuid_validate (ce_env E) pid then Inl invalid_uuid
      else Inr ((), d\<lparr>product_images := filter (\<lambda>i. im_product_id i \<noteq> pid) (product_images d)\<rparr>))"

definition image_missing_product :: "go_error \<Rightarrow> go_error" where
  "image_missing_product err = (if err = PgError ''23503'' then product_not_found else err)"

definition ReplaceForProduct :: "catalog_env \<Rightarrow> string \<Rightarrow> ImageInput list \<Rightarrow> ProductImage list go" where
  "ReplaceForProduct E pid images =
     (if \<exists>i \<in> set images. trim_space (ii_ObjectKey i) = [] then failG (AppError (BadRequest ''invalid_object_key''))
      else withTx (bindG (stmt (delete_images E pid)) (\<lambda>_.
             mapG (\<lambda>i. map_error image_missing_product (stmt (insert_image E pid i))) images)))"

section \<open>Filter options\<close>

record FacetFilter =
  ff_CategoryID :: string
  ff_CategoryIDs :: "string list"
  ff_Query :: string

record Facets =
  fc_Sizes :: "string list"
  fc_Colors :: "string list"
  fc_PriceMin :: "float64 option"
  fc_PriceMax :: "float64 option"

definition facet_list_filter :: "FacetFilter \<Rightarrow> ListFilter" where
  "facet_list_filter f =
     \<lparr>lf_CategoryID = ff_CategoryID f, lf_CategoryIDs = ff_CategoryIDs f, lf_Size = [], lf_Color = [], lf_PriceMin = None,
      lf_PriceMax = None, lf_Query = ff_Query f, lf_Sort = [], lf_InStock = False, lf_Page = 0, lf_PageSize = 0\<rparr>"

definition buildFacetConditions :: "catalog_env \<Rightarrow> FacetFilter \<Rightarrow> db \<Rightarrow> product_row \<Rightarrow> bool" where
  "buildFacetConditions E f = buildListConditions E (facet_list_filter f)"

text \<open>The rows of the join, one for each variant of a product or one for a product without variants, and their groups.\<close>

definition facet_join :: "catalog_env \<Rightarrow> FacetFilter \<Rightarrow> db \<Rightarrow> ((string \<times> string) option \<times> int) list" where
  "facet_join E f d =
     concat (map (\<lambda>p. case filter (\<lambda>v. pv_product_id v = pr_id p) (variants d) of
          [] \<Rightarrow> [(None, pr_base_price p)]
        | vs \<Rightarrow> map (\<lambda>v. (Some (pv_size v, pv_color v), case pv_price_override v of None \<Rightarrow> pr_base_price p | Some x \<Rightarrow> x)) vs)
       (filter (buildFacetConditions E f d) (products d)))"

definition facet_groups :: "((string \<times> string) option \<times> int) list \<Rightarrow> ((string \<times> string) option \<times> int \<times> int) list" where
  "facet_groups rows =
     map (\<lambda>k. let ps = map snd (filter (\<lambda>r. fst r = k) rows) in (k, foldr min ps (hd ps), foldr max ps (hd ps)))
       (remdups (map fst rows))"

definition sortedNonEmpty :: "string list \<Rightarrow> string list" where
  "sortedNonEmpty xs = sort (remdups (filter (\<lambda>s. s \<noteq> []) xs))"

fun go_less :: "go_float \<Rightarrow> go_float \<Rightarrow> bool" where
  "go_less (Finite x) (Finite y) \<longleftrightarrow> x < y"
| "go_less NegInf y \<longleftrightarrow> y \<noteq> NegInf \<and> y \<noteq> NaN"
| "go_less x PosInf \<longleftrightarrow> x \<noteq> PosInf \<and> x \<noteq> NaN"
| "go_less _ _ \<longleftrightarrow> False"

text \<open>Sizes that read as numbers come first, by their value.\<close>

definition size_less :: "string \<Rightarrow> string \<Rightarrow> bool" where
  "size_less a b =
     (case (ParseFloat (replace_byte (CHR '','') (CHR ''.'') a), ParseFloat (replace_byte (CHR '','') (CHR ''.'') b)) of
        (Some x, Some y) \<Rightarrow> go_less x y
      | (Some _, None) \<Rightarrow> True
      | (None, Some _) \<Rightarrow> False
      | (None, None) \<Rightarrow> a < b)"

definition SortedSizes :: "string list \<Rightarrow> string list" where
  "SortedSizes xs = SliceStable size_less (sortedNonEmpty xs)"

text \<open>The loop over the groups keeps the least and the greatest price; \<open>better\<close> is the comparison it makes.\<close>

definition keep_price :: "(float64 \<Rightarrow> float64 \<Rightarrow> bool) \<Rightarrow> float64 \<Rightarrow> float64 option \<Rightarrow> float64 option" where
  "keep_price better x best = (case best of None \<Rightarrow> Some x | Some y \<Rightarrow> if better x y then Some x else Some y)"

definition facets_of :: "((string \<times> string) option \<times> int \<times> int) list \<Rightarrow> Facets" where
  "facets_of groups =
     \<lparr>fc_Sizes = SortedSizes (map fst (List.map_filter fst groups)),
      fc_Colors = sortedNonEmpty (map snd (List.map_filter fst groups)),
      fc_PriceMin = fold (\<lambda>(_, lo, _). keep_price (<) (float_of_numeric lo)) groups None,
      fc_PriceMax = fold (\<lambda>(_, _, hi). keep_price (>) (float_of_numeric hi)) groups None\<rparr>"

definition Facets_of :: "catalog_env \<Rightarrow> FacetFilter \<Rightarrow> Facets go" where
  "Facets_of E f =
     stmt (\<lambda>d. checked (category_params E (ff_CategoryIDs f) (ff_CategoryID f))
       (Inr (facets_of (facet_groups (facet_join E f d)), d)))"

section \<open>Stock\<close>

definition stock_rows :: "db \<Rightarrow> string \<Rightarrow> (string \<times> int) list" where
  "stock_rows d vid = List.map_filter (\<lambda>pt. map_option (Pair (pt_id pt)) (stock d (vid, pt_id pt))) (points d)"

definition ByVariantIDs :: "catalog_env \<Rightarrow> string list \<Rightarrow> (string \<times> string \<times> int) list go" where
  "ByVariantIDs E ids =
     (if ids = [] then returnG []
      else query_ids E ids (\<lambda>d. concat (map (\<lambda>vid. map (Pair vid) (stock_rows d vid))
        (filter (\<lambda>vid. vid \<in> set ids) (remdups (map pv_id (variants d)))))))"

text \<open>\<^verbatim>\<open>PUT /admin/api/stock\<close>: a write of one cell, guarded by the quantity the client expects there.\<close>

definition translateStockErr :: "go_error \<Rightarrow> go_error" where
  "translateStockErr err =
     (if err = PgError ''23503'' \<or> err = invalid_uuid then AppError (BadRequest ''invalid_variant_or_point'') else err)"

definition cell_params :: "catalog_env \<Rightarrow> string \<Rightarrow> string \<Rightarrow> int \<Rightarrow> go_error option" where
  "cell_params E vid pid qty =
     (if not_int4 qty then Some encode_error
      else if uuid_validate (ce_env E) vid \<and> uuid_validate (ce_env E) pid then None else Some invalid_uuid)"

definition write_cell :: "catalog_env \<Rightarrow> string \<Rightarrow> string \<Rightarrow> int \<Rightarrow> db \<Rightarrow> go_error + (StockEntry \<times> db)" where
  "write_cell E vid pid qty d =
     checked (cell_params E vid pid qty)
       (map_sum id (\<lambda>(_, d'). (\<lparr>sk_VariantID = vid, sk_PointID = pid, sk_Quantity = qty, sk_UpdatedAt = clock d\<rparr>, d'))
         (set_stock vid pid qty d))"

text \<open>\<^verbatim>\<open>ON CONFLICT DO NOTHING\<close>: an existing row gives no row back.\<close>

definition insert_cell :: "catalog_env \<Rightarrow> string \<Rightarrow> string \<Rightarrow> int \<Rightarrow> db \<Rightarrow> go_error + (StockEntry option \<times> db)" where
  "insert_cell E vid pid qty d =
     (case stock d (vid, pid) of
        Some _ \<Rightarrow> checked (cell_params E vid pid qty) (Inr (None, d))
      | None \<Rightarrow> map_sum id (\<lambda>(e, d'). (Some e, d')) (write_cell E vid pid qty d))"

definition Set_stock :: "catalog_env \<Rightarrow> string \<Rightarrow> string \<Rightarrow> int \<Rightarrow> int option \<Rightarrow> StockEntry go" where
  "Set_stock E vid pid quantity expected =
     (if quantity < 0 then failG (AppError (BadRequest ''invalid_quantity''))
      else if (case expected of None \<Rightarrow> False | Some x \<Rightarrow> x < 0) then failG (AppError (BadRequest ''invalid_expected_quantity''))
      else withTx (
        bindG (map_error translateStockErr (stmt (\<lambda>d. checked (cell_params E vid pid 0) (Inr (stock d (vid, pid), d))))) (\<lambda>cell.
        let prev = (case cell of None \<Rightarrow> 0 | Some q \<Rightarrow> q)
        in if expected \<noteq> None \<and> expected \<noteq> Some prev then failG (StockConflict prev)
           else if cell = None \<and> expected \<noteq> None
           then bindG (map_error translateStockErr (stmt (insert_cell E vid pid quantity))) (\<lambda>entry.
                case entry of
                  None \<Rightarrow> bindG (query (\<lambda>d. stock_qty d vid pid)) (\<lambda>current. failG (StockConflict current))
                | Some e \<Rightarrow> returnG e)
           else map_error translateStockErr (stmt (write_cell E vid pid quantity)))))"

end
