(* ===== verification/ProductStore.thy ===== *)
theory ProductStore
  imports Variants
begin

text \<open>
  The save of the admin's product form, \<^verbatim>\<open>internal/admin/product_store.go\<close>: the product, its variants, the edited cells
  of its stock and its photos in one transaction. An edited cell is written only if the stock still holds the quantity
  the form was rendered with. The journal (\<^verbatim>\<open>internal/audit\<close>) is switched off, as \<^verbatim>\<open>audit == nil\<close> does.
\<close>

record variantRowInput =
  vr_Key :: string
  vr_RowID :: string
  vr_Size :: string
  vr_Color :: string
  vr_PriceSet :: bool
  vr_PriceOverride :: "go_float option"

record stockCellChange =
  cc_RowKey :: string
  cc_PointID :: string
  cc_Qty :: int
  cc_Orig :: "int option"

record productSaveInput =
  si_ProductID :: string
  si_Product :: ProductInput
  si_BasePrice :: go_float
  si_Variants :: "variantRowInput list"
  si_Stock :: "stockCellChange list"
  si_Images :: "ImageInput list"

text \<open>
  The base price of the form may be any \<^verbatim>\<open>float64\<close>; it stands beside the other fields, and is the product's once the
  check has found it finite.
\<close>

definition validateProductInput :: "ProductInput \<Rightarrow> go_float \<Rightarrow> go_error + ProductInput" where
  "validateProductInput inp price =
     (if trim_space (pi_CategoryID inp) = [] then Inl (AppError (WithVariant (BadRequest ''invalid_category_id'') ''required''))
      else if trim_space (pi_NameRu inp) = [] then Inl (AppError (BadRequest ''invalid_name_ru''))
      else if trim_space (pi_NameKy inp) = [] then Inl (AppError (BadRequest ''invalid_name_ky''))
      else case price of
             Finite p \<Rightarrow> if p < 0 then Inl (AppError (BadRequest ''invalid_base_price'')) else Inr (inp\<lparr>pi_BasePrice := p\<rparr>)
           | _ \<Rightarrow> Inl (AppError (BadRequest ''invalid_base_price'')))"

fun positive_price :: "go_float option \<Rightarrow> bool" where
  "positive_price None \<longleftrightarrow> True"
| "positive_price (Some (Finite p)) \<longleftrightarrow> 0 < p"
| "positive_price (Some _) \<longleftrightarrow> False"

text \<open>The first row that fails gives the error, its size and colour before its price.\<close>

fun check_rows :: "variantRowInput list \<Rightarrow> go_error + unit" where
  "check_rows [] = Inr ()"
| "check_rows (v # vs) =
     (if trim_space (vr_Size v) = [] \<or> trim_space (vr_Color v) = [] then Inl (AppError (BadRequest ''invalid_variant''))
      else if \<not> positive_price (vr_PriceOverride v) then Inl (AppError (BadRequest ''invalid_variant_price''))
      else check_rows vs)"

definition check_images :: "ImageInput list \<Rightarrow> go_error + unit" where
  "check_images images =
     (if \<exists>i \<in> set images. trim_space (ii_ObjectKey i) = [] then Inl (AppError (BadRequest ''invalid_object_key'')) else Inr ())"

section \<open>The product\<close>

text \<open>Neither branch sets \<^verbatim>\<open>is_active\<close> from the form: a new product is active, an existing one keeps its flag.\<close>

definition form_fields :: "ProductInput \<Rightarrow> product_row \<Rightarrow> product_row" where
  "form_fields inp r = (product_of_input inp r)\<lparr>pr_is_active := pr_is_active r\<rparr>"

definition upsertProductTx :: "catalog_env \<Rightarrow> string \<Rightarrow> ProductInput \<Rightarrow> string go" where
  "upsertProductTx E pid inp =
     (if pid = []
      then bindG (map_error translateProductWriteErr (stmt (insert_product E (inp\<lparr>pi_IsActive := True\<rparr>)))) (\<lambda>r. returnG (pr_id r))
      else bindG (map_error translateProductWriteErr (stmt (update_product E pid (form_fields inp)))) (\<lambda>row.
           case row of None \<Rightarrow> failG product_not_found | Some r \<Rightarrow> returnG (pr_id r)))"

section \<open>The variants\<close>

definition translateVariantErr :: "go_error \<Rightarrow> go_error" where
  "translateVariantErr err =
     (if err = PgError ''23505'' then AppError (WithVariant (Conflict ''variant_exists'') ''form'') else err)"

definition variant_in_use :: "go_error \<Rightarrow> go_error" where
  "variant_in_use err =
     (if err = PgError ''23503'' then AppError (WithVariant (Conflict ''variant_in_use'') ''form'') else err)"

definition row_fields :: "variantRowInput \<Rightarrow> bool \<Rightarrow> variant_row \<Rightarrow> variant_row" where
  "row_fields row with_price r =
     (let r' = r\<lparr>pv_size := vr_Size row, pv_color := vr_Color row\<rparr>
      in if with_price then r'\<lparr>pv_price_override := numeric_override (vr_PriceOverride row)\<rparr> else r')"

definition updateVariantTx :: "catalog_env \<Rightarrow> variantRowInput \<Rightarrow> unit go" where
  "updateVariantTx E row =
     bindG (map_error translateVariantErr (stmt (update_variant E (vr_RowID row) (row_fields row (vr_PriceSet row))))) (\<lambda>_. returnG ())"

definition variantIDsTx :: "string \<Rightarrow> string list go" where
  "variantIDsTx pid = query (\<lambda>d. sort (map pv_id (filter (\<lambda>v. pv_product_id v = pid) (variants d))))"

text \<open>The variant of one row, existing or new; the map from row keys to variants is threaded through.\<close>

definition sync_row :: "catalog_env \<Rightarrow> string \<Rightarrow> string list \<Rightarrow> variantRowInput \<Rightarrow> string go" where
  "sync_row E pid existing row =
     (if vr_RowID row \<noteq> [] \<and> vr_RowID row \<in> set existing
      then bindG (updateVariantTx E row) (\<lambda>_. returnG (vr_RowID row))
      else bindG (map_error translateVariantErr (stmt (insert_variant E pid (row_fields row True)))) (\<lambda>r. returnG (pv_id r)))"

type_synonym row_ids = "string \<Rightarrow> string option"

fun sync_rows :: "catalog_env \<Rightarrow> string \<Rightarrow> string list \<Rightarrow> variantRowInput list \<Rightarrow> row_ids \<Rightarrow> row_ids go" where
  "sync_rows E pid existing [] idByKey = returnG idByKey"
| "sync_rows E pid existing (row # rows) idByKey =
     bindG (sync_row E pid existing row) (\<lambda>vid. sync_rows E pid existing rows (idByKey(vr_Key row \<mapsto> vid)))"

definition syncVariantsTx :: "catalog_env \<Rightarrow> string \<Rightarrow> variantRowInput list \<Rightarrow> row_ids go" where
  "syncVariantsTx E pid rows =
     bindG (variantIDsTx pid) (\<lambda>existing.
     let kept = filter (\<lambda>i. i \<noteq> [] \<and> i \<in> set existing) (map vr_RowID rows)
     in bindG (forG (\<lambda>i. bindG (map_error variant_in_use (stmt (delete_variant E i))) (\<lambda>_. returnG ()))
          (filter (\<lambda>i. i \<notin> set kept) existing)) (\<lambda>_.
        sync_rows E pid existing rows (\<lambda>_. None)))"

section \<open>The stock\<close>

text \<open>The number of rows a guarded write of a cell changes.\<close>

definition guarded_write :: "catalog_env \<Rightarrow> string \<Rightarrow> string \<Rightarrow> int \<Rightarrow> int option \<Rightarrow> db \<Rightarrow> go_error + (nat \<times> db)" where
  "guarded_write E vid pid qty orig d =
     checked (case orig of None \<Rightarrow> cell_params E vid pid qty
              | Some x \<Rightarrow> if not_int4 x then Some encode_error else cell_params E vid pid qty)
       (if stock d (vid, pid) = orig then map_sum id (\<lambda>(_, d'). (1, d')) (set_stock vid pid qty d) else Inr (0, d))"

definition cell_missing :: "go_error \<Rightarrow> go_error" where
  "cell_missing err =
     (if err = PgError ''23503'' then AppError (WithVariant (BadRequest ''invalid_variant_or_point'') ''refresh'') else err)"

definition writeStockCellTx :: "catalog_env \<Rightarrow> string \<Rightarrow> string \<Rightarrow> int \<Rightarrow> int option \<Rightarrow> bool go" where
  "writeStockCellTx E vid pid qty orig =
     (if qty < 0 then failG (AppError (WithVariant (BadRequest ''invalid_quantity'') ''form''))
      else bindG (map_error cell_missing (stmt (guarded_write E vid pid qty orig))) (\<lambda>n. returnG (0 < n)))"

definition readStockTx :: "string \<Rightarrow> string \<Rightarrow> int option go" where
  "readStockTx vid pid = query (\<lambda>d. stock d (vid, pid))"

fun stock_changes :: "catalog_env \<Rightarrow> row_ids \<Rightarrow> stockCellChange list \<Rightarrow> stockConflict list \<Rightarrow> stockConflict list go" where
  "stock_changes E idByKey [] conflicts = returnG conflicts"
| "stock_changes E idByKey (c # cs) conflicts =
     (case idByKey (cc_RowKey c) of
        None \<Rightarrow> stock_changes E idByKey cs conflicts
      | Some vid \<Rightarrow>
          bindG (writeStockCellTx E vid (cc_PointID c) (cc_Qty c) (cc_Orig c)) (\<lambda>applied.
          if applied then stock_changes E idByKey cs conflicts
          else bindG (readStockTx vid (cc_PointID c)) (\<lambda>current.
               stock_changes E idByKey cs (conflicts @
                 [\<lparr>sc_RowKey = cc_RowKey c, sc_PointID = cc_PointID c,
                   sc_Current = (case current of None \<Rightarrow> 0 | Some q \<Rightarrow> q), sc_Exists = (current \<noteq> None)\<rparr>]))))"

definition applyStockChangesTx :: "catalog_env \<Rightarrow> row_ids \<Rightarrow> stockCellChange list \<Rightarrow> unit go" where
  "applyStockChangesTx E idByKey changes =
     bindG (stock_changes E idByKey changes []) (\<lambda>conflicts.
     if conflicts \<noteq> [] then failG (StockConflicts conflicts) else returnG ())"

section \<open>The save\<close>

definition replaceImagesTx :: "catalog_env \<Rightarrow> string \<Rightarrow> ImageInput list \<Rightarrow> unit go" where
  "replaceImagesTx E pid images =
     bindG (stmt (delete_images E pid)) (\<lambda>_.
     forG (\<lambda>i. bindG (stmt (insert_image E pid i)) (\<lambda>_. returnG ())) images)"

definition save_tx :: "catalog_env \<Rightarrow> productSaveInput \<Rightarrow> ProductInput \<Rightarrow> string go" where
  "save_tx E inp product =
     bindG (upsertProductTx E (si_ProductID inp) product) (\<lambda>pid.
     bindG (syncVariantsTx E pid (si_Variants inp)) (\<lambda>idByKey.
     bindG (applyStockChangesTx E idByKey (si_Stock inp)) (\<lambda>_.
     bindG (replaceImagesTx E pid (si_Images inp)) (\<lambda>_. returnG pid))))"

definition Save_product :: "catalog_env \<Rightarrow> productSaveInput \<Rightarrow> string go" where
  "Save_product E inp =
     bindG (liftG (validateProductInput (si_Product inp) (si_BasePrice inp))) (\<lambda>product.
     bindG (liftG (check_rows (si_Variants inp))) (\<lambda>_.
     bindG (liftG (check_images (si_Images inp))) (\<lambda>_.
     withTx (save_tx E inp product))))"

end
