(* ===== verification/CatalogFacts.thy ===== *)
theory CatalogFacts
  imports ProductStore ImportReport
begin

text \<open>
  What every write of the catalog keeps: the orders and their payments, the product of every variant that was
  ordered, the sales counters, and a stock within its column. And no variant is given away for nothing.
\<close>

section \<open>The contract\<close>

text \<open>The foreign key of \<^verbatim>\<open>order_items\<close>.\<close>

definition items_known :: "db \<Rightarrow> bool" where
  "items_known d \<longleftrightarrow> i_variant_id ` set (order_items d) \<subseteq> pv_id ` set (variants d)"

definition same_sales :: "db \<Rightarrow> db \<Rightarrow> bool" where
  "same_sales d d' \<longleftrightarrow> product_sales d' = product_sales d \<and>
     (\<forall>i \<in> set (order_items d). product_of d' (i_variant_id i) = product_of d (i_variant_id i))"

definition catalog_keeps :: "db \<Rightarrow> db \<Rightarrow> bool" where
  "catalog_keeps d d' \<longleftrightarrow>
     (stock_ok d \<and> items_known d \<longrightarrow> outside d d' \<and> items_known d' \<and> same_sales d d')"

text \<open>A write of the tables that leaves the variants alone, or what a variant is.\<close>

lemma keeps_elsewhere:
  assumes "stock_ok d \<Longrightarrow> outside d d'" "product_sales d' = product_sales d"
    and "map (\<lambda>v. (pv_id v, pv_product_id v)) (variants d') = map (\<lambda>v. (pv_id v, pv_product_id v)) (variants d)"
  shows "catalog_keeps d d'"
proof -
  have of_map: "map_option pv_product_id (find (\<lambda>v. pv_id v = vid) vs) = map_of (map (\<lambda>v. (pv_id v, pv_product_id v)) vs) vid" for vid vs
    by (induction vs) auto
  have "pv_id ` set (variants d') = fst ` set (map (\<lambda>v. (pv_id v, pv_product_id v)) (variants d'))" by force
  also have "\<dots> = pv_id ` set (variants d)" unfolding assms(3) by force
  finally have "pv_id ` set (variants d') = pv_id ` set (variants d)" .
  moreover have "product_of d' vid = product_of d vid" for vid by (simp add: product_of_def of_map assms(3))
  ultimately show ?thesis using assms(1,2) by (auto simp: catalog_keeps_def items_known_def same_sales_def outside_def)
qed

lemma keeps_new_variant:
  assumes "stock_ok d \<Longrightarrow> outside d d'" "product_sales d' = product_sales d" "variants d' = variants d @ [r]"
  shows "catalog_keeps d d'"
proof -
  have "product_of d' vid = product_of d vid" if "vid \<in> pv_id ` set (variants d)" for vid
  proof -
    obtain v where "find (\<lambda>v. pv_id v = vid) (variants d) = Some v"
      using \<open>vid \<in> pv_id ` set (variants d)\<close> by (cases "find (\<lambda>v. pv_id v = vid) (variants d)") (auto simp: find_None_iff)
    then show ?thesis using assms(3) find_append_Some by (fastforce simp: product_of_def)
  qed
  then show ?thesis using assms by (auto simp: catalog_keeps_def items_known_def same_sales_def outside_def)
qed

lemma keeps_deleted_variant:
  assumes "stock_ok d \<Longrightarrow> outside d d'" "product_sales d' = product_sales d"
    and "variants d' = filter (\<lambda>v. pv_id v \<noteq> vid) (variants d)" "vid \<notin> i_variant_id ` set (order_items d)"
  shows "catalog_keeps d d'"
proof -
  have other: "find (\<lambda>v. pv_id v = x) (filter (\<lambda>v. pv_id v \<noteq> vid) vs) = find (\<lambda>v. pv_id v = x) vs"
    if "x \<noteq> vid" for x and vs :: "variant_row list"
    using that by (induction vs) auto
  have "product_of d' x = product_of d x" if "x \<noteq> vid" for x by (simp add: product_of_def assms(3) other [OF that])
  moreover have ordered: "i_variant_id i \<noteq> vid" if "i \<in> set (order_items d)" for i using assms(4) that by auto
  ultimately have sales: "same_sales d d'" by (simp add: same_sales_def assms(2))
  have known: "items_known d'" if "items_known d" "order_items d' = order_items d"
    unfolding items_known_def that(2)
  proof
    fix x assume x: "x \<in> i_variant_id ` set (order_items d)"
    then have "x \<in> pv_id ` set (variants d)" using that(1) unfolding items_known_def by blast
    then obtain v where "v \<in> set (variants d)" "pv_id v = x" by blast
    moreover have "x \<noteq> vid" using x assms(4) by blast
    ultimately show "x \<in> pv_id ` set (variants d')" by (auto simp: assms(3))
  qed
  show ?thesis using assms(1) sales known by (simp add: catalog_keeps_def outside_def)
qed

lemma sales_gap_kept: "catalog_keeps d d' \<Longrightarrow> stock_ok d \<Longrightarrow> items_known d \<Longrightarrow> sales_gap d' = sales_gap d"
proof -
  assume k: "catalog_keeps d d'" "stock_ok d" "items_known d"
  then have "item_units d' x i = item_units d x i" if "i \<in> set (order_items d)" for x i
    using that by (simp add: catalog_keeps_def same_sales_def item_units_def)
  then have "order_units d' = order_units d"
    using k by (intro ext) (auto simp: order_units_def catalog_keeps_def outside_def intro!: sum_list_cong)
  then have "live_units d' = live_units d"
    using k by (intro ext) (simp add: live_units_def catalog_keeps_def outside_def cong: if_cong)
  then show ?thesis using k by (intro ext) (simp add: sales_gap_def catalog_keeps_def same_sales_def)
qed

interpretation kept: db_relation catalog_keeps
  by unfold_locales (auto simp: catalog_keeps_def outside_def same_sales_def)

context db_relation
begin

lemma stays_map_error: "stays m \<Longrightarrow> stays (map_error f m)"
  by (simp add: stays_def map_error_def split_beta)

lemma stays_forG: "(\<And>x. x \<in> set xs \<Longrightarrow> stays (f x)) \<Longrightarrow> stays (forG f xs)"
  by (induction xs) (auto intro!: stays_basic stays_bind)

lemma stays_mapG: "(\<And>x. x \<in> set xs \<Longrightarrow> stays (f x)) \<Longrightarrow> stays (mapG f xs)"
  by (induction xs) (auto intro!: stays_basic stays_bind)

lemmas catalog_intros = stays_intros stays_map_error stays_forG stays_mapG stays_tx

end

section \<open>The statements\<close>

text \<open>
  The statements that write: the rows they may change. A contract need only be checked on these, and the
  operations of the repositories follow.
\<close>

locale catalog_statements = db_relation D for D :: "db \<Rightarrow> db \<Rightarrow> bool" +
  fixes variant_fine :: "(variant_row \<Rightarrow> variant_row) \<Rightarrow> bool"
  assumes categories_written: "insert_category env ci d = Inr (c, d') \<Longrightarrow> D d d'"
      "update_category env cid ci d = Inr (co, d') \<Longrightarrow> D d d'"
      "delete_category env cid d = Inr (n, d') \<Longrightarrow> D d d'"
      "D d (d\<lparr>categories := cs\<rparr>)"
    and products_written: "insert_product E inp d = Inr (p, d') \<Longrightarrow> D d d'"
      "update_product E pid f d = Inr (po, d') \<Longrightarrow> D d d'"
      "D d (d\<lparr>products := ps\<rparr>)"
    and variants_written: "variant_fine g \<Longrightarrow> insert_variant E pid g d = Inr (v, d') \<Longrightarrow> D d d'"
      "variant_fine g \<Longrightarrow> update_variant E vid g d = Inr (vo, d') \<Longrightarrow> D d d'"
      "delete_variant E vid d = Inr (n, d') \<Longrightarrow> D d d'"
    and images_written: "D d (d\<lparr>product_images := ims\<rparr>)"
      "insert_image E pid ii d = Inr (im, d') \<Longrightarrow> D d d'"
    and stock_written: "set_stock vid ptid q d = Inr (u, d') \<Longrightarrow> D d d'"
begin

lemma category_runs: "stays (Create_category env inp)" "stays (Update_category env cid inp)"
    "stays (SetImage env cid key)" "stays (Delete_category env cid)"
proof -
  show "stays (Create_category env inp)"
    unfolding Create_category_def by (intro catalog_intros stays_stmt) (erule categories_written(1))
  show "stays (Update_category env cid inp)"
    unfolding Update_category_def by (intro catalog_intros stays_stmt) (erule categories_written(2))
  show "stays (Delete_category env cid)"
    unfolding Delete_category_def by (intro catalog_intros stays_stmt) (erule categories_written(3))
  show "stays (SetImage env cid key)"
    unfolding SetImage_def Let_def
    by (intro catalog_intros stays_stmt) (auto intro: categories_written(4) split: if_splits)
qed

lemma product_runs: "stays (Create_product E inp)" "stays (Update_product E pid inp)" "stays (Delete_product E pid)"
proof -
  show "stays (Create_product E inp)"
    unfolding Create_product_def by (intro catalog_intros stays_stmt) (erule products_written(1))
  show "stays (Update_product E pid inp)"
    unfolding Update_product_def by (intro catalog_intros stays_stmt) (erule products_written(2))
  show "stays (Delete_product E pid)"
    unfolding Delete_product_def
    by (intro catalog_intros stays_stmt) (auto intro: products_written(3) split: if_splits)
qed

lemma variant_runs: "(override_ok (vi_PriceOverride inp) \<Longrightarrow> variant_fine (variant_of_input inp)) \<Longrightarrow> stays (Create_variant E pid inp)"
    "(override_ok (vi_PriceOverride inp) \<Longrightarrow> variant_fine (variant_of_input inp)) \<Longrightarrow> stays (Update_variant E vid inp)"
    "stays (Delete_variant E vid)"
proof -
  assume fine: "override_ok (vi_PriceOverride inp) \<Longrightarrow> variant_fine (variant_of_input inp)"
  have no: "stays (bindG (liftG (Validate_variant inp)) f)" if "\<not> override_ok (vi_PriceOverride inp)" for f :: "unit \<Rightarrow> Variant go"
    using that by (auto simp: Validate_variant_def stays_def bindG_def liftG_def D_refl)
  show "stays (Create_variant E pid inp)"
  proof (cases "override_ok (vi_PriceOverride inp)")
    case True
    then show ?thesis
      unfolding Create_variant_def by (intro catalog_intros stays_stmt) (erule variants_written(1) [OF fine [OF True]])
  qed (simp add: Create_variant_def no)
  show "stays (Update_variant E vid inp)"
  proof (cases "override_ok (vi_PriceOverride inp)")
    case True
    then show ?thesis
      unfolding Update_variant_def by (intro catalog_intros stays_stmt) (erule variants_written(2) [OF fine [OF True]])
  qed (simp add: Update_variant_def no)
next
  show "stays (Delete_variant E vid)"
    unfolding Delete_variant_def by (intro catalog_intros stays_stmt) (erule variants_written(3))
qed

lemma delete_images_stays: "stays (stmt (delete_images E pid))"
  by (rule stays_stmt) (auto simp: delete_images_def intro: images_written(1) split: if_splits)

lemma image_runs: "stays (ReplaceForProduct E pid images)"
  unfolding ReplaceForProduct_def
  by (intro catalog_intros delete_images_stays stays_stmt) (erule images_written(2))

lemma checked_Inr: "checked c r = Inr x \<Longrightarrow> r = Inr x"
  by (auto simp: checked_def split: option.splits)

lemma write_cell_kept: "write_cell E vid pid q d = Inr (e, d') \<Longrightarrow> D d d'"
  unfolding write_cell_def by (drule checked_Inr) (auto elim!: map_sum_InrE intro: stock_written)

lemma stock_runs: "stays (Upsert_stock vid pid q)" "stays (Set_stock E vid pid q expected)"
proof -
  show "stays (Upsert_stock vid pid q)"
    unfolding Upsert_stock_def
    by (intro catalog_intros stays_stmt) (auto elim!: map_sum_InrE intro: stock_written)
  have "stays (stmt (insert_cell E vid pid q))"
    by (rule stays_stmt)
       (auto simp: insert_cell_def elim!: map_sum_InrE intro: write_cell_kept D_refl dest!: checked_Inr split: option.splits)
  moreover have "stays (stmt (write_cell E vid pid q))" by (rule stays_stmt) (rule write_cell_kept)
  moreover have "stays (stmt (\<lambda>d. checked c (Inr (f d, d))))" for c and f :: "db \<Rightarrow> int option"
    by (rule stays_stmt) (auto dest!: checked_Inr intro: D_refl)
  ultimately show "stays (Set_stock E vid pid q expected)"
    unfolding Set_stock_def Let_def by (intro catalog_intros stays_query)
qed

lemma guarded_write_stays: "stays (stmt (guarded_write E vid pid q orig))"
  by (rule stays_stmt)
     (auto simp: guarded_write_def dest!: checked_Inr elim!: map_sum_InrE intro: stock_written D_refl split: if_splits)

lemma save_stays:
  assumes "\<And>row p. row \<in> set (si_Variants inp) \<Longrightarrow> variant_fine (row_fields row p)"
  shows "stays (Save_product E inp)"
proof -
  have upsert: "stays (upsertProductTx E pid p)" for pid p
    unfolding upsertProductTx_def
    by (intro catalog_intros stays_stmt) (erule products_written(1), erule products_written(2))
  have row: "stays (sync_row E pid existing row)" if "row \<in> set (si_Variants inp)" for pid existing row
    unfolding sync_row_def updateVariantTx_def
    by (intro catalog_intros stays_stmt)
       (erule variants_written(2) [OF assms [OF that]], erule variants_written(1) [OF assms [OF that]])
  have rows: "set rows \<subseteq> set (si_Variants inp) \<Longrightarrow> stays (sync_rows E pid existing rows ids)" for pid existing rows ids
    by (induction rows arbitrary: ids) (auto intro!: stays_basic stays_bind row)
  have sync: "stays (syncVariantsTx E pid (si_Variants inp))" for pid
    unfolding syncVariantsTx_def variantIDsTx_def Let_def
    by (intro catalog_intros stays_query rows stays_stmt) (erule variants_written(3), simp)
  have cells: "stays (stock_changes E ids cs conflicts)" for ids cs conflicts
  proof (induction cs arbitrary: conflicts)
    case (Cons c cs)
    show ?case
      by (auto intro!: catalog_intros guarded_write_stays stays_query Cons
          simp: writeStockCellTx_def readStockTx_def split: option.splits)
  qed (simp add: stays_basic)
  have images: "stays (replaceImagesTx E pid ims)" for pid ims
    unfolding replaceImagesTx_def
    by (intro catalog_intros delete_images_stays stays_stmt) (erule images_written(2))
  show ?thesis
    unfolding Save_product_def save_tx_def applyStockChangesTx_def
    by (intro catalog_intros upsert sync cells images)
qed

end

end
