(* ===== verification/CatalogRuns.thy ===== *)
theory CatalogRuns
  imports CatalogFacts
begin

text \<open>
  The contracts of \<open>CatalogFacts\<close> hold of the statements of the model, hence of every operation of the catalog; and the
  operations as one type, with the runs they make one after another.
\<close>

section \<open>Orders and sales\<close>

definition same_variant :: "(variant_row \<Rightarrow> variant_row) \<Rightarrow> bool" where
  "same_variant g \<longleftrightarrow> (\<forall>r. pv_id (g r) = pv_id r \<and> pv_product_id (g r) = pv_product_id r)"

lemma same_variant_inputs: "same_variant (variant_of_input inp)" "same_variant (row_fields row p)"
  by (simp_all add: same_variant_def variant_of_input_def row_fields_def Let_def)

lemma same_variant_map:
  "same_variant g \<Longrightarrow> map (\<lambda>v. (pv_id v, pv_product_id v)) (map (\<lambda>v. if P v then g v else v) vs) = map (\<lambda>v. (pv_id v, pv_product_id v)) vs"
  by (auto simp: same_variant_def)

lemma insert_product_changes:
  "insert_product E inp d = Inr (p, d') \<Longrightarrow> \<exists>r n. d' = d\<lparr>products := products d @ [r], id_count := n\<rparr>"
  by (auto simp: insert_product_def Let_def split: option.splits if_splits)

lemma update_product_changes: "update_product E pid f d = Inr (po, d') \<Longrightarrow> \<exists>ps. d' = d\<lparr>products := ps\<rparr>"
proof -
  assume "update_product E pid f d = Inr (po, d')"
  then have "d' = d\<lparr>products := products d\<rparr> \<or> (\<exists>ps. d' = d\<lparr>products := ps\<rparr>)"
    by (auto simp: update_product_def split: option.splits if_splits)
  then show ?thesis by blast
qed

lemma insert_variant_changes:
  "insert_variant E pid g d = Inr (v, d') \<Longrightarrow>
     v = g (blank_variant (gen_uuid (ce_env E) (id_count d)) pid) \<and>
     d' = d\<lparr>variants := variants d @ [v], id_count := Suc (id_count d)\<rparr> \<and> pv_id v \<notin> pv_id ` set (variants d)"
  by (auto simp: insert_variant_def Let_def split: option.splits if_splits)

lemma update_variant_changes:
  "update_variant E vid g d = Inr (vo, d') \<Longrightarrow>
     d' = d\<lparr>variants := map (\<lambda>v. if pv_id v = vid then g v else v) (variants d)\<rparr> \<or> d' = d"
  by (auto simp: update_variant_def split: option.splits if_splits)

lemma delete_variant_changes:
  "delete_variant E vid d = Inr (n, d') \<Longrightarrow> d' = d \<or>
     (vid \<notin> i_variant_id ` set (order_items d) \<and>
      d' = d\<lparr>variants := filter (\<lambda>v. pv_id v \<noteq> vid) (variants d), stock := (\<lambda>k. if fst k = vid then None else stock d k),
             cart_items := filter (\<lambda>c. c_variant_id c \<noteq> vid) (cart_items d)\<rparr>)"
  by (auto simp: delete_variant_def split: if_splits)

lemma set_stock_changes:
  "set_stock vid ptid q d = Inr (u, d') \<Longrightarrow> d' = d\<lparr>stock := (stock d)((vid, ptid) \<mapsto> q)\<rparr> \<and> 0 \<le> q \<and> q \<le> max_int4"
  by (auto simp: set_stock_def split: if_splits)

lemma category_changes:
  "insert_category env ci d = Inr (c, d') \<Longrightarrow> \<exists>cs n. d' = d\<lparr>categories := cs, id_count := n\<rparr>"
  "update_category env cid ci d = Inr (co, d') \<Longrightarrow> \<exists>cs. d' = d\<lparr>categories := cs\<rparr>"
  "delete_category env cid d = Inr (m, d') \<Longrightarrow> \<exists>cs b. d' = d\<lparr>categories := cs, home_banner := b\<rparr>"
proof -
  show "insert_category env ci d = Inr (c, d') \<Longrightarrow> \<exists>cs n. d' = d\<lparr>categories := cs, id_count := n\<rparr>"
    by (auto simp: insert_category_def Let_def split: option.splits if_splits)
  show "\<exists>cs. d' = d\<lparr>categories := cs\<rparr>" if "update_category env cid ci d = Inr (co, d')"
  proof -
    have "d' = d\<lparr>categories := categories d\<rparr> \<or> (\<exists>cs. d' = d\<lparr>categories := cs\<rparr>)"
      using that by (auto simp: update_category_def split: option.splits if_splits)
    then show ?thesis by blast
  qed
  show "\<exists>cs b. d' = d\<lparr>categories := cs, home_banner := b\<rparr>" if "delete_category env cid d = Inr (m, d')"
  proof -
    have "d' = d\<lparr>categories := categories d, home_banner := home_banner d\<rparr> \<or> (\<exists>cs b. d' = d\<lparr>categories := cs, home_banner := b\<rparr>)"
      using that by (auto simp: delete_category_def split: if_splits)
    then show ?thesis by blast
  qed
qed

lemma insert_image_changes:
  "insert_image E pid ii d = Inr (im, d') \<Longrightarrow>
     d' = d\<lparr>product_images := product_images d @ [image_of_input (gen_uuid (ce_env E) (id_count d)) pid ii],
            id_count := Suc (id_count d)\<rparr>"
  by (auto simp: insert_image_def Let_def split: if_splits)

lemma keeps_simple:
  "orders d' = orders d \<Longrightarrow> order_items d' = order_items d \<Longrightarrow> payments d' = payments d \<Longrightarrow>
   order_status_history d' = order_status_history d \<Longrightarrow> stock d' = stock d \<Longrightarrow> product_sales d' = product_sales d \<Longrightarrow>
   variants d' = variants d \<Longrightarrow> catalog_keeps d d'"
  by (rule keeps_elsewhere) (simp_all add: outside_def stock_ok_def)

interpretation kept: catalog_statements catalog_keeps same_variant
proof unfold_locales
  show "catalog_keeps d d'" if "insert_category env ci d = Inr (c, d')" for env ci d c d'
    using category_changes(1) [OF that] by (auto intro: keeps_simple)
  show "catalog_keeps d d'" if "update_category env cid ci d = Inr (co, d')" for env cid ci d co d'
    using category_changes(2) [OF that] by (auto intro: keeps_simple)
  show "catalog_keeps d d'" if "delete_category env cid d = Inr (n, d')" for env cid d n d'
    using category_changes(3) [OF that] by (auto intro: keeps_simple)
  show "catalog_keeps d (d\<lparr>categories := cs\<rparr>)" for d cs by (rule keeps_simple) simp_all
  show "catalog_keeps d d'" if "insert_product E inp d = Inr (p, d')" for E inp d p d'
    using insert_product_changes [OF that] by (auto intro: keeps_simple)
  show "catalog_keeps d d'" if "update_product E pid f d = Inr (po, d')" for E pid f d po d'
    using update_product_changes [OF that] by (auto intro: keeps_simple)
  show "catalog_keeps d (d\<lparr>products := ps\<rparr>)" for d ps by (rule keeps_simple) simp_all
  show "catalog_keeps d d'" if "insert_variant E pid g d = Inr (v, d')" for g E pid d v d'
    using insert_variant_changes [OF that] by (intro keeps_new_variant) (auto simp: outside_def stock_ok_def)
  show "catalog_keeps d d'" if "same_variant g" "update_variant E vid g d = Inr (vo, d')" for g E vid d vo d'
    using update_variant_changes [OF that(2)] same_variant_map [OF that(1), of "\<lambda>v. pv_id v = vid" "variants d"]
    by (elim disjE) (auto intro!: keeps_elsewhere simp: outside_def stock_ok_def kept.D_refl)
  show "catalog_keeps d d'" if "delete_variant E vid d = Inr (n, d')" for E vid d n d'
    using delete_variant_changes [OF that]
  proof
    assume del: "vid \<notin> i_variant_id ` set (order_items d) \<and>
      d' = d\<lparr>variants := filter (\<lambda>v. pv_id v \<noteq> vid) (variants d), stock := (\<lambda>k. if fst k = vid then None else stock d k),
             cart_items := filter (\<lambda>c. c_variant_id c \<noteq> vid) (cart_items d)\<rparr>"
    then show ?thesis by (intro keeps_deleted_variant [of d d' vid]) (auto simp: outside_def stock_ok_def split: if_splits)
  qed (simp add: kept.D_refl)
  show "catalog_keeps d (d\<lparr>product_images := ims\<rparr>)" for d ims by (rule keeps_simple) simp_all
  show "catalog_keeps d d'" if "insert_image E pid ii d = Inr (im, d')" for E pid ii d im d'
    using insert_image_changes [OF that] by (auto intro: keeps_simple)
  show "catalog_keeps d d'" if "set_stock vid ptid q d = Inr (u, d')" for vid ptid q d u d'
    using set_stock_changes [OF that] by (intro keeps_elsewhere) (auto simp: outside_def stock_ok_def)
qed

interpretation kept: catalog_contract catalog_keeps
proof unfold_locales
  show "kept.stays (CreateProduct E p)" for E p
    unfolding CreateProduct_def
    by (rule kept.stays_stmt) (auto simp: Let_def intro!: keeps_simple split: if_splits option.splits)
  show "kept.stays (UpdateProduct E pid p)" for E pid p
    unfolding UpdateProduct_def
    by (rule kept.stays_stmt) (auto intro!: keeps_simple split: option.splits)
  show "kept.stays (CreateVariant E pid v)" for E pid v
    unfolding CreateVariant_def
    by (rule kept.stays_stmt) (auto simp: Let_def outside_def stock_ok_def intro!: keeps_new_variant split: if_splits option.splits)
  show "kept.stays (UpdateVariant vid v)" for vid v
    unfolding UpdateVariant_def
    by (rule kept.stays_stmt)
       (auto simp: outside_def stock_ok_def overwrite_variant_def kept.D_refl intro!: keeps_elsewhere split: option.splits)
  show "kept.stays (SetStock vid pid q)" for vid pid q
    unfolding SetStock_def by (rule kept.stays_stmt) (rule kept.stock_written)
qed

section \<open>Prices\<close>

text \<open>No variant carries a price of zero.\<close>

definition none_free :: "db \<Rightarrow> bool" where
  "none_free d \<longleftrightarrow> (\<forall>v \<in> set (variants d). \<forall>p. pv_price_override v = Some p \<longrightarrow> 0 < p)"

definition keeps_none_free :: "db \<Rightarrow> db \<Rightarrow> bool" where
  "keeps_none_free d d' \<longleftrightarrow> (none_free d \<longrightarrow> none_free d')"

definition priced_fields :: "(variant_row \<Rightarrow> variant_row) \<Rightarrow> bool" where
  "priced_fields g \<longleftrightarrow> (\<forall>r p. pv_price_override (g r) = Some p \<longrightarrow> 0 < p \<or> pv_price_override r = Some p)"

interpretation unfree: db_relation keeps_none_free
  by unfold_locales (auto simp: keeps_none_free_def)

lemma unfree_same: "variants d' = variants d \<Longrightarrow> keeps_none_free d d'"
  by (simp add: keeps_none_free_def none_free_def)

interpretation unfree: catalog_statements keeps_none_free priced_fields
proof unfold_locales
  show "keeps_none_free d d'" if "insert_category env ci d = Inr (c, d')" for env ci d c d'
    using category_changes(1) [OF that] by (auto intro: unfree_same)
  show "keeps_none_free d d'" if "update_category env cid ci d = Inr (co, d')" for env cid ci d co d'
    using category_changes(2) [OF that] by (auto intro: unfree_same)
  show "keeps_none_free d d'" if "delete_category env cid d = Inr (n, d')" for env cid d n d'
    using category_changes(3) [OF that] by (auto intro: unfree_same)
  show "keeps_none_free d (d\<lparr>categories := cs\<rparr>)" for d cs by (rule unfree_same) simp
  show "keeps_none_free d d'" if "insert_product E inp d = Inr (p, d')" for E inp d p d'
    using insert_product_changes [OF that] by (auto intro: unfree_same)
  show "keeps_none_free d d'" if "update_product E pid f d = Inr (po, d')" for E pid f d po d'
    using update_product_changes [OF that] by (auto intro: unfree_same)
  show "keeps_none_free d (d\<lparr>products := ps\<rparr>)" for d ps by (rule unfree_same) simp
  show "keeps_none_free d d'" if "priced_fields g" "insert_variant E pid g d = Inr (v, d')" for g E pid d v d'
    using insert_variant_changes [OF that(2)] that(1)
    by (fastforce simp: keeps_none_free_def none_free_def priced_fields_def blank_variant_def)
  show "keeps_none_free d d'" if "priced_fields g" "update_variant E vid g d = Inr (vo, d')" for g E vid d vo d'
    using update_variant_changes [OF that(2)] that(1)
    by (elim disjE) (auto simp: keeps_none_free_def none_free_def priced_fields_def)
  show "keeps_none_free d d'" if "delete_variant E vid d = Inr (n, d')" for E vid d n d'
    using delete_variant_changes [OF that] by (auto simp: keeps_none_free_def none_free_def)
  show "keeps_none_free d (d\<lparr>product_images := ims\<rparr>)" for d ims by (rule unfree_same) simp
  show "keeps_none_free d d'" if "insert_image E pid ii d = Inr (im, d')" for E pid ii d im d'
    using insert_image_changes [OF that] by (auto intro: unfree_same)
  show "keeps_none_free d d'" if "set_stock vid ptid q d = Inr (u, d')" for vid ptid q d u d'
    using set_stock_changes [OF that] by (auto intro: unfree_same)
qed

text \<open>
  An amount that rounds to a tyiyn in floating point is at least half a tyiyn: the greatest \<^verbatim>\<open>float64\<close> below 0.005
  stays below one half when multiplied by 100.
\<close>

lemma half_tyiyn:
  assumes float: "rnd64 p = p" and half: "1 / 2 \<le> fmul p 100" shows "1 / 2 \<le> p * 100"
proof (rule ccontr)
  assume less: "\<not> 1 / 2 \<le> p * 100"
  have err: "\<bar>fmul p 100 - p * 100\<bar> \<le> \<bar>p * 100\<bar> / 2 ^ 53" unfolding fmul_def by (rule rnd64_err)
  have pos: "0 < p"
  proof (rule ccontr)
    assume "\<not> 0 < p"
    then have "\<bar>p * 100\<bar> / 2 ^ 53 \<le> - (p * 100)" by (simp add: field_simps)
    then show False using err half \<open>\<not> 0 < p\<close> by linarith
  qed
  then have "p * 100 / 2 ^ 53 \<le> 1 / 2 / 2 ^ 53" using less by (intro divide_right_mono) simp_all
  then have low: "1 / 2 - 1 / 2 / 2 ^ 53 \<le> p * 100" using err half abs_of_pos [of "p * 100"] pos by linarith
  have "200 < 1 / p" using less pos by (simp add: field_simps)
  moreover have "1 / p \<le> 201" using low pos by (simp add: field_simps)
  ultimately have "\<lceil>1 / p\<rceil> = 201" by (intro ceiling_unique) simp_all
  moreover have "\<not> 1 \<le> p" using less by simp
  ultimately have "flog2 \<bar>p\<bar> = - 8" using pos by (simp add: flog2_def)
  then have u: "2 powi (flog2 \<bar>p\<bar> - 52) = (1 / 2 ^ 60 :: rat)" by (simp add: power_int_def power_divide)
  define k where "k = rnd_even (p / (1 / 2 ^ 60))"
  have "p = of_int k / 2 ^ 60" using float pos unfolding rnd64_def Let_def u k_def by simp
  then have k: "of_int k = p * 2 ^ 60" by simp
  have "of_int k < (5764607523034235 :: rat)" using less unfolding k by simp
  moreover have "(5764607523034234 :: rat) < of_int k" using low unfolding k by simp
  ultimately have "of_int k < (of_int 5764607523034235 :: rat)" "of_int 5764607523034234 < (of_int k :: rat)" by simp_all
  then have "k < 5764607523034235" "5764607523034234 < k" by (simp_all only: of_int_less_iff)
  then show False by simp
qed

lemma round_positive: "0 < fdiv (of_int (math_round x)) 100 \<Longrightarrow> 1 / 2 \<le> x"
proof -
  assume pos: "0 < fdiv (of_int (math_round x)) 100"
  have "0 < math_round x"
  proof (rule ccontr)
    assume "\<not> 0 < math_round x"
    then have neg: "of_int (math_round x) / 100 \<le> (0 :: rat)" by simp
    have "\<bar>fdiv (of_int (math_round x)) 100 - of_int (math_round x) / 100\<bar> \<le> \<bar>of_int (math_round x) / 100\<bar> / 2 ^ 53"
      unfolding fdiv_def by (rule rnd64_err)
    also have "\<dots> \<le> - (of_int (math_round x) / 100)" using neg by (simp add: field_simps)
    finally show False using pos by linarith
  qed
  then show ?thesis by (auto simp: math_round_def split: if_splits)
qed

definition go_number :: "go_float option \<Rightarrow> bool" where
  "go_number x \<longleftrightarrow> (\<forall>p. x = Some (Finite p) \<longrightarrow> rnd64 p = p)"

lemma positive_override:
  assumes "go_number x" "override_ok x" "numeric_override x = Some k" shows "0 < k"
proof -
  obtain p where p: "x = Some (Finite p)" "k = numeric_of_float p"
    using assms(3) by (cases x rule: numeric_override.cases) auto
  then have "1 / 2 \<le> p * 100" using assms(1,2) by (intro half_tyiyn round_positive) (simp_all add: go_number_def)
  then show ?thesis by (simp add: p(2) numeric_of_float_def math_round_def le_floor_iff)
qed

lemma variant_of_input_priced:
  "go_number (vi_PriceOverride inp) \<Longrightarrow> override_ok (vi_PriceOverride inp) \<Longrightarrow> priced_fields (variant_of_input inp)"
  using positive_override by (auto simp: priced_fields_def variant_of_input_def)

lemma row_fields_priced:
  "go_number (vr_PriceOverride row) \<Longrightarrow> override_ok (vr_PriceOverride row) \<Longrightarrow> priced_fields (row_fields row p)"
  using positive_override by (auto simp: priced_fields_def row_fields_def Let_def)

section \<open>The operations\<close>

datatype catalog_op =
    OpCreateCategory CategoryInput
  | OpUpdateCategory string CategoryInput
  | OpCategoryImage string "string option"
  | OpDeleteCategory string
  | OpCreateProduct ProductInput
  | OpUpdateProduct string ProductInput
  | OpDeleteProduct string
  | OpCreateVariant string VariantInput
  | OpUpdateVariant string VariantInput
  | OpDeleteVariant string
  | OpReplaceImages string "ImageInput list"
  | OpUpsertStock string string int
  | OpSetStock string string int "int option"
  | OpSaveForm productSaveInput
  | OpImport import_env ImportFormat "string list list \<times> go_error option" "go_error + string list list" ImportOptions

definition finished :: "'a go \<Rightarrow> unit go" where
  "finished m = bindG m (\<lambda>_. returnG ())"

fun catalog_run :: "catalog_env \<Rightarrow> catalog_op \<Rightarrow> unit go" where
  "catalog_run E (OpCreateCategory inp) = finished (Create_category (ce_env E) inp)"
| "catalog_run E (OpUpdateCategory cid inp) = finished (Update_category (ce_env E) cid inp)"
| "catalog_run E (OpCategoryImage cid key) = finished (SetImage (ce_env E) cid key)"
| "catalog_run E (OpDeleteCategory cid) = Delete_category (ce_env E) cid"
| "catalog_run E (OpCreateProduct inp) = finished (Create_product E inp)"
| "catalog_run E (OpUpdateProduct pid inp) = finished (Update_product E pid inp)"
| "catalog_run E (OpDeleteProduct pid) = Delete_product E pid"
| "catalog_run E (OpCreateVariant pid inp) = finished (Create_variant E pid inp)"
| "catalog_run E (OpUpdateVariant vid inp) = finished (Update_variant E vid inp)"
| "catalog_run E (OpDeleteVariant vid) = Delete_variant E vid"
| "catalog_run E (OpReplaceImages pid images) = finished (ReplaceForProduct E pid images)"
| "catalog_run E (OpUpsertStock vid ptid q) = finished (Upsert_stock vid ptid q)"
| "catalog_run E (OpSetStock vid ptid q expected) = finished (Set_stock E vid ptid q expected)"
| "catalog_run E (OpSaveForm inp) = finished (Save_product E inp)"
| "catalog_run E (OpImport I format csv xlsx opts) = finished (ImportProducts I (parse_file I format csv xlsx) opts)"

text \<open>
  The prices a request carries: floating-point numbers, and in the form those its parser rounded to whole tyiyn. The
  import is held to more, see \<open>ImportProperties\<close>.
\<close>

fun prices_sound :: "catalog_op \<Rightarrow> bool" where
  "prices_sound (OpCreateVariant _ inp) \<longleftrightarrow> go_number (vi_PriceOverride inp)"
| "prices_sound (OpUpdateVariant _ inp) \<longleftrightarrow> go_number (vi_PriceOverride inp)"
| "prices_sound (OpSaveForm inp) \<longleftrightarrow>
     (\<forall>row \<in> set (si_Variants inp). go_number (vr_PriceOverride row) \<and> override_ok (vr_PriceOverride row))"
| "prices_sound _ \<longleftrightarrow> True"

context db_relation
begin

lemma stays_finished: "stays m \<Longrightarrow> stays (finished m)"
  by (simp add: finished_def stays_bind stays_basic)

end

lemma catalog_run_keeps: "kept.stays (catalog_run E op)"
proof (cases op)
  case (OpImport I format csv xlsx opts)
  have "kept.stays (ImportProducts I (parse_file I format csv xlsx) opts)"
  proof (cases "parse_file I format csv xlsx")
    case (Inl e)
    then show ?thesis by (simp add: ImportProducts_error [abs_def] kept.stays_def kept.D_refl)
  next
    case (Inr rows)
    then show ?thesis using kept.ImportProducts_stays [OF file_lines(1) [OF Inr]] by simp
  qed
  then show ?thesis by (simp add: OpImport kept.stays_finished)
qed (simp_all add: kept.stays_finished kept.category_runs kept.product_runs kept.variant_runs kept.image_runs kept.stock_runs
      kept.save_stays same_variant_inputs)

interpretation unfree: catalog_contract keeps_none_free
proof unfold_locales
  have same: "keeps_none_free d d'" if "variants d' = variants d" for d d' using that by (rule unfree_same)
  show "unfree.stays (CreateProduct E p)" for E p
    unfolding CreateProduct_def by (rule unfree.stays_stmt) (auto simp: Let_def intro!: same split: if_splits option.splits)
  show "unfree.stays (UpdateProduct E pid p)" for E pid p
    unfolding UpdateProduct_def by (rule unfree.stays_stmt) (auto intro!: same split: option.splits)
  show "unfree.stays (CreateVariant E pid v)" if "priced_variant v" for E pid v
    unfolding CreateVariant_def using that
    by (intro unfree.stays_stmt)
       (auto simp: Let_def keeps_none_free_def none_free_def new_variant_def priced_variant_def positive_def split: if_splits option.splits)
  show "unfree.stays (UpdateVariant vid v)" if "priced_variant v" for vid v
    unfolding UpdateVariant_def using that
    by (intro unfree.stays_stmt)
       (auto simp: keeps_none_free_def none_free_def overwrite_variant_def priced_variant_def positive_def split: option.splits)
  show "unfree.stays (SetStock vid pid q)" for vid pid q
    unfolding SetStock_def by (rule unfree.stays_stmt) (rule unfree.stock_written)
qed

lemma catalog_run_none_free: "prices_sound op \<Longrightarrow> unfree.stays (catalog_run E op)"
proof (cases op)
  case (OpImport I format csv xlsx opts)
  have "unfree.stays (ImportProducts I (parse_file I format csv xlsx) opts)"
  proof (cases "parse_file I format csv xlsx")
    case (Inl e)
    then show ?thesis by (simp add: ImportProducts_error [abs_def] unfree.stays_def unfree.D_refl)
  next
    case (Inr rows)
    then show ?thesis using unfree.ImportProducts_stays [OF file_lines(1) [OF Inr]] by simp
  qed
  then show ?thesis by (simp add: OpImport unfree.stays_finished)
qed (simp_all add: unfree.stays_finished unfree.category_runs unfree.product_runs unfree.variant_runs unfree.image_runs
      unfree.stock_runs unfree.save_stays variant_of_input_priced row_fields_priced)

end
