(* ===== verification/SaveFacts.thy ===== *)
theory SaveFacts
  imports CatalogRuns
begin

text \<open>
  What a save of the product form that went through has changed: the product, its variants, the stock cell by cell, and
  the photos.
\<close>

lemma yields_map_error [go_elim]: "yields (map_error f m) d x d' \<Longrightarrow> (yields m d x d' \<Longrightarrow> P) \<Longrightarrow> P"
proof -
  assume y: "yields (map_error f m) d x d'" and P: "yields m d x d' \<Longrightarrow> P"
  obtain w w' where w: "map_error f m w = (Inr x, w')" "tables w = d" "tables w' = d'" using y by (auto simp: yields_def)
  then have "m w = (Inr x, w')" by (auto simp: map_error_def split: prod.splits elim: map_sum_InrE)
  then show P using w(2,3) by (intro P) (auto simp: yields_def)
qed

lemma yields_inject: "yields m d x d' \<Longrightarrow> m = n \<Longrightarrow> yields n d x d'" by simp

section \<open>The product\<close>

definition saved_product :: "ProductInput \<Rightarrow> product_row \<Rightarrow> bool" where
  "saved_product inp p \<longleftrightarrow>
     pr_category_id p = pi_CategoryID inp \<and> pr_name_ru p = pi_NameRu inp \<and> pr_name_ky p = pi_NameKy inp \<and>
     pr_description_ru p = pi_DescriptionRu inp \<and> pr_description_ky p = pi_DescriptionKy inp \<and> pr_brand p = pi_Brand inp \<and>
     pr_base_price p = numeric_of_float (pi_BasePrice inp)"

definition but_product :: "string \<Rightarrow> db \<Rightarrow> db \<Rightarrow> bool" where
  "but_product pid d d' \<longleftrightarrow> stock d' = stock d \<and> variants d' = variants d \<and> product_images d' = product_images d \<and>
     filter (\<lambda>p. pr_id p \<noteq> pid) (products d') = filter (\<lambda>p. pr_id p \<noteq> pid) (products d)"

lemma filter_other_rows: "(\<And>x. k (f x) = k x) \<Longrightarrow>
    filter (\<lambda>x. k x \<noteq> i) (map (\<lambda>x. if k x = i then f x else x) xs) = filter (\<lambda>x. k x \<noteq> i) xs"
  by (induction xs) auto

lemma upsert_effect:
  assumes "yields (upsertProductTx E pid0 inp) d pid d'"
  shows "(pid0 \<noteq> [] \<longrightarrow> pid = pid0) \<and> but_product pid d d' \<and> (\<exists>p \<in> set (products d'). pr_id p = pid \<and> saved_product inp p)"
proof (cases "pid0 = []")
  case True
  with assms obtain r where "insert_product E (inp\<lparr>pi_IsActive := True\<rparr>) d = Inr (r, d')" "pid = pr_id r"
    unfolding upsertProductTx_def by (auto elim!: go_elim)
  then show ?thesis using True
    by (auto simp: insert_product_def Let_def but_product_def saved_product_def product_of_input_def split: option.splits if_splits)
next
  case False
  with assms obtain row where u: "update_product E pid0 (form_fields inp) d = Inr (row, d')"
    and r: "case row of None \<Rightarrow> False | Some r \<Rightarrow> pid = pr_id r"
    unfolding upsertProductTx_def by (auto elim!: go_elim split: option.splits)
  then obtain p where p: "find (\<lambda>p. pr_id p = pid0) (products d) = Some p" "pid = pr_id p"
      "d' = d\<lparr>products := map (\<lambda>p. if pr_id p = pid0 then (form_fields inp p)\<lparr>pr_updated_at := clock d\<rparr> else p) (products d)\<rparr>"
    by (auto simp: update_product_def form_fields_def product_of_input_def split: option.splits if_splits)
  have "p \<in> set (products d)" "pid = pid0" using find_Some_mem [OF p(1)] p(2) by auto
  then have "(form_fields inp p)\<lparr>pr_updated_at := clock d\<rparr> \<in> set (products d')"
    using p(2,3) by (auto intro!: image_eqI [of _ _ p])
  moreover have "but_product pid d d'"
    using p(3) \<open>pid = pid0\<close> filter_other_rows [of pr_id "\<lambda>p. (form_fields inp p)\<lparr>pr_updated_at := clock d\<rparr>" pid0 "products d"]
    by (simp add: but_product_def form_fields_def product_of_input_def)
  moreover have "pr_id ((form_fields inp p)\<lparr>pr_updated_at := clock d\<rparr>) = pid \<and> saved_product inp ((form_fields inp p)\<lparr>pr_updated_at := clock d\<rparr>)"
    by (simp add: form_fields_def saved_product_def product_of_input_def p(2))
  ultimately show ?thesis using \<open>pid = pid0\<close> by blast
qed

section \<open>The variants\<close>

text \<open>What the rows leave alone.\<close>

definition variants_only :: "db \<Rightarrow> db \<Rightarrow> bool" where
  "variants_only d d' \<longleftrightarrow> products d' = products d \<and> product_images d' = product_images d \<and>
     order_items d' = order_items d"

lemma delete_loop:
  assumes "yields (forG (\<lambda>i. bindG (map_error variant_in_use (stmt (delete_variant E i))) (\<lambda>_. returnG ())) ids) d u d'"
  shows "variants_only d d' \<and> variants d' = filter (\<lambda>v. pv_id v \<notin> set ids) (variants d) \<and>
    (\<forall>k. fst k \<notin> set ids \<longrightarrow> stock d' k = stock d k)"
  using assms
proof (induction ids arbitrary: d)
  case Nil
  then show ?case by (auto elim!: go_elim simp: variants_only_def)
next
  case (Cons i ids)
  then obtain n d1 where del: "delete_variant E i d = Inr (n, d1)"
    and rest: "yields (forG (\<lambda>i. bindG (map_error variant_in_use (stmt (delete_variant E i))) (\<lambda>_. returnG ())) ids) d1 u d'"
    by (auto elim!: go_elim)
  have 1: "variants d1 = filter (\<lambda>v. pv_id v \<noteq> i) (variants d)" "variants_only d d1" "\<forall>k. fst k \<noteq> i \<longrightarrow> stock d1 k = stock d k"
  proof -
    have "filter (\<lambda>v. pv_id v \<noteq> i) vs = vs" if "i \<notin> pv_id ` set vs" for vs :: "variant_row list"
      using that by (auto simp: filter_id_conv)
    then show "variants d1 = filter (\<lambda>v. pv_id v \<noteq> i) (variants d)"
      using del by (auto simp: delete_variant_def split: if_splits)
    show "variants_only d d1" "\<forall>k. fst k \<noteq> i \<longrightarrow> stock d1 k = stock d k"
      using del by (auto simp: delete_variant_def variants_only_def split: if_splits)
  qed
  have 2: "variants_only d1 d' \<and> variants d' = filter (\<lambda>v. pv_id v \<notin> set ids) (variants d1) \<and>
      (\<forall>k. fst k \<notin> set ids \<longrightarrow> stock d' k = stock d1 k)"
    by (rule Cons.IH [OF rest])
  then show ?case using 1 by (auto simp: variants_only_def intro: filter_cong)
qed

definition shows_row :: "variant_row \<Rightarrow> variantRowInput \<Rightarrow> bool" where
  "shows_row v row \<longleftrightarrow> pv_size v = vr_Size row \<and> pv_color v = vr_Color row"

text \<open>The rows that stand for an existing variant, and the variants the rows still to come will write.\<close>

definition old_rows :: "string list \<Rightarrow> variantRowInput list \<Rightarrow> string list" where
  "old_rows existing rows = filter (\<lambda>i. i \<noteq> [] \<and> i \<in> set existing) (map vr_RowID rows)"

definition kept_ids :: "variantRowInput list \<Rightarrow> string list" where
  "kept_ids rows = filter (\<lambda>i. i \<noteq> []) (map vr_RowID rows)"

lemma row_fields_keep [simp]:
  "pv_id (row_fields row p r) = pv_id r" "pv_product_id (row_fields row p r) = pv_product_id r" "shows_row (row_fields row p r) row"
  by (simp_all add: row_fields_def Let_def shows_row_def)

lemma sync_row_effect:
  assumes "yields (sync_row E pid existing row) d vid d'"
  shows "variants_only d d' \<and> stock d' = stock d \<and>
    (if vr_RowID row \<noteq> [] \<and> vr_RowID row \<in> set existing
     then vid = vr_RowID row \<and> (\<exists>p. variants d' = map (\<lambda>v. if pv_id v = vid then row_fields row p v else v) (variants d))
     else \<exists>v. variants d' = variants d @ [v] \<and> pv_id v = vid \<and> vid \<notin> pv_id ` set (variants d) \<and> pv_product_id v = pid \<and> shows_row v row)"
proof (cases "vr_RowID row \<noteq> [] \<and> vr_RowID row \<in> set existing")
  case True
  with assms obtain vo where "update_variant E (vr_RowID row) (row_fields row (vr_PriceSet row)) d = Inr (vo, d')" "vid = vr_RowID row"
    unfolding sync_row_def updateVariantTx_def by (auto elim!: go_elim)
  moreover have "map (\<lambda>v. if pv_id v = i then f v else v) vs = vs" if "find (\<lambda>v. pv_id v = i) vs = None" for i f and vs :: "variant_row list"
    using that by (intro map_idI) (auto simp: find_None_iff)
  ultimately show ?thesis using True
    by (auto simp: update_variant_def variants_only_def split: option.splits if_splits)
next
  case False
  have "yields (bindG (map_error translateVariantErr (stmt (insert_variant E pid (row_fields row True)))) (\<lambda>r. returnG (pv_id r))) d vid d'"
    using assms False unfolding sync_row_def by (simp only: if_False)
  then obtain v where "insert_variant E pid (row_fields row True) d = Inr (v, d')" "vid = pv_id v"
    by (auto elim!: go_elim)
  with insert_variant_changes [OF this(1)] show ?thesis using False
    by (auto simp: variants_only_def blank_variant_def)
qed

text \<open>A variant of the product with the identifier \<open>vid\<close> that shows a row.\<close>

definition shown_as :: "db \<Rightarrow> string \<Rightarrow> string \<times> variantRowInput \<Rightarrow> bool" where
  "shown_as d pid x \<longleftrightarrow> (\<exists>v \<in> set (variants d). pv_id v = fst x \<and> pv_product_id v = pid \<and> shows_row v (snd x))"

lemma sync_rows_effect:
  assumes "yields (sync_rows E pid existing rows ids) d ids' d'"
    and "distinct (old_rows existing rows)"
    and "\<forall>i \<in> set (old_rows existing rows). \<exists>v \<in> set (variants d). pv_id v = i \<and> pv_product_id v = pid"
    and "\<forall>x \<in> set finished_rows. shown_as d pid x \<and> fst x \<notin> set (old_rows existing rows)" "distinct (map fst finished_rows)"
    and "\<forall>v \<in> set (variants d). pv_product_id v = pid \<longrightarrow>
      pv_id v \<in> set (old_rows existing rows) \<or> (\<exists>x \<in> set finished_rows. shows_row v (snd x))"
  shows "variants_only d d' \<and> stock d' = stock d \<and>
    (\<exists>vids. length vids = length rows \<and> ids' = ids(map vr_Key rows [\<mapsto>] vids) \<and>
       (\<forall>x \<in> set (finished_rows @ zip vids rows). shown_as d' pid x) \<and> distinct (map fst (finished_rows @ zip vids rows)) \<and>
       (\<forall>v \<in> set (variants d'). pv_product_id v = pid \<longrightarrow> (\<exists>x \<in> set (finished_rows @ zip vids rows). shows_row v (snd x))))"
  using assms
proof (induction rows arbitrary: ids d finished_rows)
  case Nil
  then show ?case by (auto elim!: go_elim simp: variants_only_def old_rows_def)
next
  case (Cons row rows)
  obtain vid d1 where row: "yields (sync_row E pid existing row) d vid d1"
    and rest: "yields (sync_rows E pid existing rows (ids(vr_Key row \<mapsto> vid))) d1 ids' d'"
    using Cons.prems(1) by (auto elim!: go_elim)
  note effect = sync_row_effect [OF row]
  have "variants_only d1 d' \<and> stock d' = stock d1 \<and>
    (\<exists>vids. length vids = length rows \<and> ids' = (ids(vr_Key row \<mapsto> vid))(map vr_Key rows [\<mapsto>] vids) \<and>
       (\<forall>x \<in> set ((finished_rows @ [(vid, row)]) @ zip vids rows). shown_as d' pid x) \<and>
       distinct (map fst ((finished_rows @ [(vid, row)]) @ zip vids rows)) \<and>
       (\<forall>v \<in> set (variants d'). pv_product_id v = pid \<longrightarrow>
          (\<exists>x \<in> set ((finished_rows @ [(vid, row)]) @ zip vids rows). shows_row v (snd x))))"
  proof (cases "vr_RowID row \<noteq> [] \<and> vr_RowID row \<in> set existing")
    case True
    then obtain p where v1: "variants d1 = map (\<lambda>v. if pv_id v = vid then row_fields row p v else v) (variants d)"
      and vid: "vid = vr_RowID row"
      using effect by auto
    have old: "old_rows existing (row # rows) = vid # old_rows existing rows" using True vid by (simp add: old_rows_def)
    have new: "vid \<notin> set (old_rows existing rows)" using Cons.prems(2) unfolding old by simp
    have member: "(if pv_id v = vid then row_fields row p v else v) \<in> set (variants d1)" if "v \<in> set (variants d)" for v
      using that unfolding v1 by auto
    have fresh: "vid \<notin> fst ` set finished_rows" using Cons.prems(4) unfolding old by auto
    have stay: "shown_as d1 pid x" if "shown_as d pid x" "fst x \<noteq> vid" for x
    proof -
      obtain v where "v \<in> set (variants d)" "pv_id v = fst x" "pv_product_id v = pid" "shows_row v (snd x)"
        using \<open>shown_as d pid x\<close> by (auto simp: shown_as_def)
      then show ?thesis using member [of v] that(2) unfolding shown_as_def by (intro bexI) auto
    qed
    show ?thesis
    proof (rule Cons.IH [OF rest])
      show "distinct (old_rows existing rows)" using Cons.prems(2) unfolding old by simp
      show "\<forall>i \<in> set (old_rows existing rows). \<exists>v \<in> set (variants d1). pv_id v = i \<and> pv_product_id v = pid"
      proof
        fix i assume "i \<in> set (old_rows existing rows)"
        then obtain v where "v \<in> set (variants d)" "pv_id v = i" "pv_product_id v = pid" using Cons.prems(3) unfolding old by auto
        then show "\<exists>v \<in> set (variants d1). pv_id v = i \<and> pv_product_id v = pid" using member [of v] by (intro bexI) auto
      qed
      have "shown_as d1 pid (vid, row)"
      proof -
        obtain v where "v \<in> set (variants d)" "pv_id v = vid" "pv_product_id v = pid" using Cons.prems(3) unfolding old by auto
        then show ?thesis using member [of v] unfolding shown_as_def by (intro bexI) auto
      qed
      moreover have "shown_as d1 pid x \<and> fst x \<notin> set (old_rows existing rows)" if "x \<in> set finished_rows" for x
        using stay [of x] Cons.prems(4) that unfolding old by simp
      ultimately show "\<forall>x \<in> set (finished_rows @ [(vid, row)]). shown_as d1 pid x \<and> fst x \<notin> set (old_rows existing rows)"
        using new by simp
      show "distinct (map fst (finished_rows @ [(vid, row)]))" using Cons.prems(5) fresh by simp
      show "\<forall>v \<in> set (variants d1). pv_product_id v = pid \<longrightarrow>
          pv_id v \<in> set (old_rows existing rows) \<or> (\<exists>x \<in> set (finished_rows @ [(vid, row)]). shows_row v (snd x))"
        using Cons.prems(6) unfolding v1 old by auto
    qed
  next
    case False
    then obtain v where v: "variants d1 = variants d @ [v]" "pv_id v = vid" "vid \<notin> pv_id ` set (variants d)"
        "pv_product_id v = pid" "shows_row v row"
      using effect by auto
    have old: "old_rows existing (row # rows) = old_rows existing rows" using False by (simp add: old_rows_def)
    have "vid \<notin> set (old_rows existing rows)"
    proof
      assume "vid \<in> set (old_rows existing rows)"
      then obtain x where "x \<in> set (variants d)" "pv_id x = vid" using Cons.prems(3) unfolding old by blast
      then show False using v(3) by (metis image_eqI)
    qed
    moreover have "vid \<notin> fst ` set finished_rows"
    proof
      assume "vid \<in> fst ` set finished_rows"
      then obtain x where "x \<in> set finished_rows" "fst x = vid" by blast
      then obtain u where "u \<in> set (variants d)" "pv_id u = vid" using Cons.prems(4) by (auto simp: shown_as_def)
      then show False using v(3) by (metis image_eqI)
    qed
    moreover have "shown_as d1 pid x" if "shown_as d pid x" for x using that v(1) by (auto simp: shown_as_def)
    moreover have "shown_as d1 pid (vid, row)" using v by (auto simp: shown_as_def)
    ultimately show ?thesis
      using Cons.prems(2-6) v unfolding old by (intro Cons.IH [OF rest]) auto
  qed
  moreover have "(finished_rows @ [(vid, row)]) @ zip vids rows = finished_rows @ zip (vid # vids) (row # rows)" for vids by simp
  ultimately obtain vids where rest: "variants_only d1 d'" "stock d' = stock d1" "length vids = length rows"
      "ids' = (ids(vr_Key row \<mapsto> vid))(map vr_Key rows [\<mapsto>] vids)"
      "\<forall>x \<in> set (finished_rows @ zip (vid # vids) (row # rows)). shown_as d' pid x"
      "distinct (map fst (finished_rows @ zip (vid # vids) (row # rows)))"
      "\<forall>v \<in> set (variants d'). pv_product_id v = pid \<longrightarrow> (\<exists>x \<in> set (finished_rows @ zip (vid # vids) (row # rows)). shows_row v (snd x))"
    by metis
  have "variants_only d d' \<and> stock d' = stock d" using effect rest(1,2) by (simp add: variants_only_def)
  moreover have "length (vid # vids) = length (row # rows)" "ids' = ids(map vr_Key (row # rows) [\<mapsto>] vid # vids)"
    using rest(3,4) by simp_all
  ultimately show ?case using rest(5-7) by blast
qed

lemma sync_effect:
  assumes y: "yields (syncVariantsTx E pid rows) d ids d'"
    and rows: "distinct (kept_ids rows)"
  shows "variants_only d d' \<and>
    (\<forall>k. stock d' k = stock d k \<or>
       (\<exists>v \<in> set (variants d). pv_id v = fst k \<and> pv_product_id v = pid \<and> pv_id v \<notin> set (kept_ids rows))) \<and>
    (\<exists>vids. length vids = length rows \<and> ids = Map.empty(map vr_Key rows [\<mapsto>] vids) \<and> distinct vids \<and>
       (\<forall>x \<in> set (zip vids rows). shown_as d' pid x) \<and>
       (\<forall>v \<in> set (variants d'). pv_product_id v = pid \<longrightarrow> (\<exists>x \<in> set (zip vids rows). shows_row v (snd x))))"
proof -
  define existing where "existing = sort (map pv_id (filter (\<lambda>v. pv_product_id v = pid) (variants d)))"
  define gone where "gone = filter (\<lambda>i. i \<notin> set (old_rows existing rows)) existing"
  obtain d1 where del: "yields (forG (\<lambda>i. bindG (map_error variant_in_use (stmt (delete_variant E i))) (\<lambda>_. returnG ())) gone) d () d1"
    and sync: "yields (sync_rows E pid existing rows Map.empty) d1 ids d'"
    using y unfolding syncVariantsTx_def variantIDsTx_def Let_def old_rows_def gone_def existing_def by (auto elim!: go_elim)
  have 1: "variants_only d d1" "variants d1 = filter (\<lambda>v. pv_id v \<notin> set gone) (variants d)"
      "\<forall>k. fst k \<notin> set gone \<longrightarrow> stock d1 k = stock d k"
    using delete_loop [OF del] by blast+
  have ex: "i \<in> set existing \<longleftrightarrow> (\<exists>v \<in> set (variants d). pv_id v = i \<and> pv_product_id v = pid)" for i
    by (auto simp: existing_def)
  have "old_rows existing rows = filter (\<lambda>i. i \<in> set existing) (kept_ids rows)"
    unfolding old_rows_def kept_ids_def filter_filter by (rule filter_cong) auto
  then have d: "distinct (old_rows existing rows)" using rows by simp
  have pre: "\<forall>i \<in> set (old_rows existing rows). \<exists>v \<in> set (variants d1). pv_id v = i \<and> pv_product_id v = pid"
    using ex 1(2) by (fastforce simp: old_rows_def gone_def)
  have only: "\<forall>v \<in> set (variants d1). pv_product_id v = pid \<longrightarrow>
      pv_id v \<in> set (old_rows existing rows) \<or> (\<exists>x \<in> set []. shows_row v (snd x))"
    using ex 1(2) by (auto simp: gone_def)
  obtain vids where 2: "variants_only d1 d'" "stock d' = stock d1" "length vids = length rows"
      "ids = Map.empty(map vr_Key rows [\<mapsto>] vids)" "\<forall>x \<in> set (zip vids rows). shown_as d' pid x" "distinct (map fst (zip vids rows))"
      "\<forall>v \<in> set (variants d'). pv_product_id v = pid \<longrightarrow> (\<exists>x \<in> set (zip vids rows). shows_row v (snd x))"
    using sync_rows_effect [OF sync d pre _ _ only] by auto
  have cells: "stock d' k = stock d k \<or> (\<exists>v \<in> set (variants d). pv_id v = fst k \<and> pv_product_id v = pid \<and> pv_id v \<notin> set (kept_ids rows))"
    for k
  proof (cases "fst k \<in> set gone")
    case True
    then have "fst k \<in> set existing" "fst k \<notin> set (old_rows existing rows)" by (auto simp: gone_def)
    then show ?thesis using ex [of "fst k"] by (auto simp: old_rows_def kept_ids_def)
  next
    case False
    then show ?thesis using 1(3) 2(2) by (cases k) simp
  qed
  have "distinct vids" using 2(3,6) by simp
  moreover have "variants_only d d'" using 1(1) 2(1) by (simp add: variants_only_def)
  ultimately show ?thesis using 2(3-5,7) cells by blast
qed

section \<open>The stock\<close>

lemma writeStockCell_effect:
  assumes "yields (writeStockCellTx E vid ptid q orig) d applied d'"
  shows "0 \<le> q \<and> (if stock d (vid, ptid) = orig then applied \<and> d' = d\<lparr>stock := (stock d)((vid, ptid) \<mapsto> q)\<rparr> else \<not> applied \<and> d' = d)"
proof -
  obtain n where q: "0 \<le> q" and g: "guarded_write E vid ptid q orig d = Inr (n, d')" "applied = (0 < n)"
    using assms unfolding writeStockCellTx_def by (auto elim!: go_elim split: if_splits)
  show ?thesis using q g kept.checked_Inr [OF g(1) [unfolded guarded_write_def]]
    by (auto elim!: map_sum_InrE dest: set_stock_changes split: if_splits)
qed

text \<open>
  A loop that met no conflict has found every edited cell as the form showed it, and written it. The cells are
  different ones.
\<close>

lemma stock_changes_effect:
  assumes "yields (stock_changes E ids cs conflicts) d conflicts' d'"
  shows "\<exists>more. conflicts' = conflicts @ more \<and>
    (more = [] \<and> distinct (map (\<lambda>c. (ids (cc_RowKey c), cc_PointID c)) (filter (\<lambda>c. ids (cc_RowKey c) \<noteq> None) cs)) \<longrightarrow>
      (\<exists>st. d' = d\<lparr>stock := st\<rparr>) \<and>
      (\<forall>c \<in> set cs. \<forall>vid. ids (cc_RowKey c) = Some vid \<longrightarrow>
         stock d (vid, cc_PointID c) = cc_Orig c \<and> stock d' (vid, cc_PointID c) = Some (cc_Qty c)) \<and>
      (\<forall>k. (\<forall>c \<in> set cs. ids (cc_RowKey c) \<noteq> Some (fst k) \<or> cc_PointID c \<noteq> snd k) \<longrightarrow> stock d' k = stock d k))"
  using assms
proof (induction cs arbitrary: conflicts d)
  case Nil
  then show ?case by (auto elim!: go_elim) (metis db.surjective db.update_convs(6))
next
  case (Cons c cs)
  show ?case
  proof (cases "ids (cc_RowKey c)")
    case None
    then show ?thesis using Cons.IH [of conflicts d] Cons.prems by simp
  next
    case (Some vid)
    then obtain applied d1 where w: "yields (writeStockCellTx E vid (cc_PointID c) (cc_Qty c) (cc_Orig c)) d applied d1"
      and rest: "yields (if applied then stock_changes E ids cs conflicts
          else bindG (readStockTx vid (cc_PointID c)) (\<lambda>current. stock_changes E ids cs (conflicts @
                 [\<lparr>sc_RowKey = cc_RowKey c, sc_PointID = cc_PointID c,
                   sc_Current = (case current of None \<Rightarrow> 0 | Some q \<Rightarrow> q), sc_Exists = (current \<noteq> None)\<rparr>]))) d1 conflicts' d'"
      using Cons.prems by (auto elim!: go_elim)
    show ?thesis
    proof (cases applied)
      case False
      then obtain x where "yields (stock_changes E ids cs (conflicts @ [x])) d1 conflicts' d'"
        using rest by (auto elim!: go_elim simp: readStockTx_def)
      from Cons.IH [OF this] obtain more where "conflicts' = (conflicts @ [x]) @ more" by blast
      then show ?thesis by simp
    next
      case True
      then have d1: "stock d (vid, cc_PointID c) = cc_Orig c" "d1 = d\<lparr>stock := (stock d)((vid, cc_PointID c) \<mapsto> cc_Qty c)\<rparr>"
        using writeStockCell_effect [OF w] by (auto split: if_splits)
      have r: "yields (stock_changes E ids cs conflicts) d1 conflicts' d'" using rest True by simp
      obtain more where more: "conflicts' = conflicts @ more"
        "more = [] \<and> distinct (map (\<lambda>c. (ids (cc_RowKey c), cc_PointID c)) (filter (\<lambda>c. ids (cc_RowKey c) \<noteq> None) cs)) \<Longrightarrow>
          (\<exists>st. d' = d1\<lparr>stock := st\<rparr>) \<and>
          (\<forall>c \<in> set cs. \<forall>vid. ids (cc_RowKey c) = Some vid \<longrightarrow>
             stock d1 (vid, cc_PointID c) = cc_Orig c \<and> stock d' (vid, cc_PointID c) = Some (cc_Qty c)) \<and>
          (\<forall>k. (\<forall>c \<in> set cs. ids (cc_RowKey c) \<noteq> Some (fst k) \<or> cc_PointID c \<noteq> snd k) \<longrightarrow> stock d' k = stock d1 k)"
        using Cons.IH [OF r] by blast
      have "(\<exists>st. d' = d\<lparr>stock := st\<rparr>) \<and>
          (\<forall>c \<in> set (c # cs). \<forall>vid. ids (cc_RowKey c) = Some vid \<longrightarrow>
             stock d (vid, cc_PointID c) = cc_Orig c \<and> stock d' (vid, cc_PointID c) = Some (cc_Qty c)) \<and>
          (\<forall>k. (\<forall>c \<in> set (c # cs). ids (cc_RowKey c) \<noteq> Some (fst k) \<or> cc_PointID c \<noteq> snd k) \<longrightarrow> stock d' k = stock d k)"
        if none: "more = []" and dist: "distinct (map (\<lambda>c. (ids (cc_RowKey c), cc_PointID c)) (filter (\<lambda>c. ids (cc_RowKey c) \<noteq> None) (c # cs)))"
      proof -
        have "distinct (map (\<lambda>c. (ids (cc_RowKey c), cc_PointID c)) (filter (\<lambda>c. ids (cc_RowKey c) \<noteq> None) cs))"
          using dist Some by simp
        note ih = more(2) [OF conjI [OF none this]]
        have other: "ids (cc_RowKey e) \<noteq> Some vid \<or> cc_PointID e \<noteq> cc_PointID c" if "e \<in> set cs" for e
        proof (rule ccontr)
          assume same: "\<not> ?thesis"
          then have "e \<in> set (filter (\<lambda>c. ids (cc_RowKey c) \<noteq> None) cs)" using that by simp
          then have "(Some vid, cc_PointID c) \<in> set (map (\<lambda>c. (ids (cc_RowKey c), cc_PointID c)) (filter (\<lambda>c. ids (cc_RowKey c) \<noteq> None) cs))"
            using same by (metis (mono_tags, lifting) image_eqI image_set)
          then show False using dist Some by simp
        qed
        have here: "stock d' (vid, cc_PointID c) = Some (cc_Qty c)"
        proof -
          have "stock d' (vid, cc_PointID c) = stock d1 (vid, cc_PointID c)" using ih other by simp
          then show ?thesis by (simp add: d1(2))
        qed
        have there: "stock d (v, cc_PointID e) = cc_Orig e \<and> stock d' (v, cc_PointID e) = Some (cc_Qty e)"
          if "e \<in> set cs" "ids (cc_RowKey e) = Some v" for e v
        proof -
          have "stock d1 (v, cc_PointID e) = cc_Orig e \<and> stock d' (v, cc_PointID e) = Some (cc_Qty e)" using ih that by blast
          then show ?thesis using other [OF that(1)] that(2) d1(2) by auto
        qed
        have "stock d' k = stock d k" if "\<forall>c \<in> set (c # cs). ids (cc_RowKey c) \<noteq> Some (fst k) \<or> cc_PointID c \<noteq> snd k" for k
        proof -
          have "stock d' k = stock d1 k" using ih that by (cases k) simp
          moreover have "k \<noteq> (vid, cc_PointID c)" using that Some by auto
          ultimately show ?thesis by (simp add: d1(2))
        qed
        moreover have "\<exists>st. d' = d\<lparr>stock := st\<rparr>" using ih d1(2) by auto
        ultimately show ?thesis using here there d1(1) Some by auto
      qed
      then show ?thesis using more(1) by blast
    qed
  qed
qed

section \<open>The photos\<close>

definition photo :: "image_row \<Rightarrow> string \<times> int \<times> string option" where
  "photo i = (im_object_key i, im_sort_order i, im_color i)"

definition photo_input :: "ImageInput \<Rightarrow> string \<times> int \<times> string option" where
  "photo_input i = (ii_ObjectKey i, ii_SortOrder i, ii_Color i)"

definition photos_of :: "db \<Rightarrow> string \<Rightarrow> (string \<times> int \<times> string option) list" where
  "photos_of d pid = map photo (filter (\<lambda>i. im_product_id i = pid) (product_images d))"

definition images_only :: "db \<Rightarrow> db \<Rightarrow> bool" where
  "images_only d d' \<longleftrightarrow> products d' = products d \<and> variants d' = variants d \<and> stock d' = stock d"

lemma insert_images_effect:
  assumes "yields (forG (\<lambda>i. bindG (stmt (insert_image E pid i)) (\<lambda>_. returnG ())) images) d u d'"
  shows "images_only d d' \<and> (\<forall>p. photos_of d' p = photos_of d p @ (if p = pid then map photo_input images else []))"
  using assms
proof (induction images arbitrary: d)
  case Nil
  then show ?case by (auto elim!: go_elim simp: images_only_def)
next
  case (Cons i images)
  then obtain im d1 where ins: "insert_image E pid i d = Inr (im, d1)"
    and rest: "yields (forG (\<lambda>i. bindG (stmt (insert_image E pid i)) (\<lambda>_. returnG ())) images) d1 u d'"
    by (auto elim!: go_elim)
  show ?case using Cons.IH [OF rest] insert_image_changes [OF ins]
    by (auto simp: images_only_def photos_of_def photo_def photo_input_def image_of_input_def)
qed

lemma replace_effect:
  assumes "yields (replaceImagesTx E pid images) d u d'"
  shows "images_only d d' \<and> (\<forall>p. photos_of d' p = (if p = pid then map photo_input images else photos_of d p))"
proof -
  obtain d1 where del: "delete_images E pid d = Inr ((), d1)"
    and ins: "yields (forG (\<lambda>i. bindG (stmt (insert_image E pid i)) (\<lambda>_. returnG ())) images) d1 u d'"
    using assms unfolding replaceImagesTx_def by (auto elim!: go_elim)
  have others: "filter (\<lambda>i. im_product_id i = p) (filter (\<lambda>i. im_product_id i \<noteq> pid) xs) =
      (if p = pid then [] else filter (\<lambda>i. im_product_id i = p) xs)" for p and xs :: "image_row list"
    by (induction xs) auto
  have "images_only d d1 \<and> (\<forall>p. photos_of d1 p = (if p = pid then [] else photos_of d p))"
    using del others by (auto simp: delete_images_def images_only_def photos_of_def simp del: filter_filter split: if_splits)
  then show ?thesis using insert_images_effect [OF ins] by (auto simp: images_only_def)
qed

end
