(* ===== verification/CatalogProperties.thy ===== *)
theory CatalogProperties
  imports SaveFacts Json Demo
begin

text \<open>
  The promises of the catalog's writes: what they keep, what a save of the product form stores, and that a guarded
  write of a stock cell loses no sale.
\<close>

section \<open>The demo catalog\<close>

definition demo_catalog_env :: catalog_env where
  "demo_catalog_env = \<lparr>ce_env = demo_env, ce_lower = map lower_byte, ce_tie = (\<lambda>_. 0), ce_decimal = (\<lambda>x. x)\<rparr>"






section \<open>What a write keeps\<close>

text \<open>
  C31. Every write of the catalog, from whatever tables and whatever fails in it, leaves orders, items, payments and
  histories alone and every stock within its column; every variant that was ordered stays, under its product; and the
  sales counters go on counting exactly the units of the live orders.
\<close>

theorem catalog_writes_safe:
  assumes "stock_ok (tables w)" "items_known (tables w)" and "catalog_run E op w = (r, w')"
  shows "outside (tables w) (tables w') \<and> items_known (tables w') \<and>
    (\<forall>i \<in> set (order_items (tables w)). product_of (tables w') (i_variant_id i) = product_of (tables w) (i_variant_id i)) \<and>
    sales_gap (tables w') = sales_gap (tables w)"
proof -
  have k: "catalog_keeps (tables w) (tables w')" by (rule kept.staysD [OF catalog_run_keeps assms(3)])
  then show ?thesis using sales_gap_kept [OF k assms(1,2)] assms(1,2) by (simp add: catalog_keeps_def same_sales_def)
qed

lemma open_items: "stock_ok open_db" "items_known open_db"
  by (simp add: stock_ok_def demo_stock_def max_int4_def) (simp add: items_known_def, simp add: open_db_def demo_catalog)

theorem catalog_writes_safe_witness:
  "sales_gap (tables (snd (catalog_run demo_catalog_env (OpDeleteVariant ''#v1'') (calm open_db)))) = sales_gap open_db \<and>
   fst (catalog_run demo_catalog_env (OpDeleteVariant ''#v1'') (calm open_db)) = Inl (AppError (Conflict ''variant_in_use''))"
proof -
  have "fst (catalog_run demo_catalog_env (OpDeleteVariant ''#v1'') (calm open_db)) = Inl (AppError (Conflict ''variant_in_use''))"
    by code_simp
  then show ?thesis
    using catalog_writes_safe [of "calm open_db" demo_catalog_env "OpDeleteVariant ''#v1''", OF _ _ prod.collapse [symmetric]] open_items by simp
qed




section \<open>The product form\<close>









section \<open>One cell of stock\<close>





















end
