(* ===== verification/ListFacts.thy ===== *)
theory ListFacts
  imports Variants
begin

text \<open>
  What the lists of products promise: the pages of a list are its segments, one after another; a search finds the
  products that contain every word; and the filter options describe the products of their scope.
\<close>

section \<open>Pages\<close>

lemma safeOffset_bounds:
  assumes "1 \<le> page" "0 < pageSize" "pageSize \<le> max_int4"
  shows "0 \<le> safeOffset page pageSize \<and> safeOffset page pageSize \<le> max_int4 \<and>
    (page \<le> max_int4 div pageSize \<longrightarrow> safeOffset page pageSize = (page - 1) * pageSize)"
proof -
  have m: "1 \<le> max_int4 div pageSize" using assms(2,3) by (simp add: pos_imp_zdiv_pos_iff int_one_le_iff_zero_less)
  have upper: "(k - 1) * pageSize \<le> max_int4" if "k \<le> max_int4 div pageSize" for k
  proof -
    have "(k - 1) * pageSize \<le> (max_int4 div pageSize) * pageSize" using that assms(2) by (intro mult_right_mono) simp_all
    also have "\<dots> \<le> max_int4" using assms(2) by (simp add: minus_mod_eq_div_mult [symmetric] pos_mod_sign)
    finally show ?thesis .
  qed
  show ?thesis
    using assms m upper [of page] upper [of "max_int4 div pageSize"]
    by (auto simp: safeOffset_def Let_def intro!: mult_nonneg_nonneg simp: max_int4_def)
qed

lemma concat_pages: "concat (map (\<lambda>k. take s (drop (k * s) xs)) [0..<n]) = take (n * s) xs"
proof (induction n)
  case (Suc n)
  then show ?case by (simp add: take_add [symmetric] add.commute)
qed simp

lemma list_page:
  assumes "faults w = []" "category_params E (lf_CategoryIDs f) (lf_CategoryID f) = None"
    and "0 < lf_PageSize f" "lf_PageSize f \<le> max_int4" "lf_Page f = int k + 1" "int k < max_int4 div lf_PageSize f"
  shows "List_products E f w =
    (Inr (map scanProduct (take (nat (lf_PageSize f)) (drop (k * nat (lf_PageSize f)) (listed E f (tables w)))),
          int (length (listed E f (tables w)))), w)"
proof -
  have offset: "safeOffset (lf_Page f) (lf_PageSize f) = int k * lf_PageSize f"
    using safeOffset_bounds [of "lf_Page f" "lf_PageSize f"] assms(3-6) by simp
  have "0 \<le> int k * lf_PageSize f" using assms(3) by simp
  moreover have "nat (int k * lf_PageSize f) = k * nat (lf_PageSize f)" using assms(3) by (simp add: nat_mult_distrib)
  ultimately show ?thesis
    using assms(1-3,5) by (simp add: List_products_def count_and_page_def Let_def stmt_calm run_stmt_def bindG_def
        checked_def offset [unfolded assms(5)] page_of_def returnG_def not_less)
qed

section \<open>Search\<close>

text \<open>What the search relies on in the database's \<^verbatim>\<open>lower\<close>: it works on the text on either side of an ASCII character
  by itself, and leaves the characters that are special in a pattern alone.\<close>

definition lower_law :: "(string \<Rightarrow> string) \<Rightarrow> bool" where
  "lower_law low \<longleftrightarrow>
     (\<forall>c. byte c < 128 \<longrightarrow> (\<forall>a b. low (a @ c # b) = low a @ low [c] @ low b)) \<and> low [] = [] \<and>
     (\<forall>c. like_special c \<longrightarrow> low [c] = [c]) \<and>
     (\<forall>s. (\<forall>c \<in> set s. \<not> like_special c) \<longrightarrow> (\<forall>c \<in> set (low s). \<not> like_special c))"

lemma special_ascii: "like_special c \<Longrightarrow> byte c < 128"
  by (auto simp: like_special_def)

lemma likeEscaper_append: "likeEscaper (a @ b) = likeEscaper a @ likeEscaper b"
  by (simp add: likeEscaper_def)

lemma likeEscaper_plain: "\<forall>c \<in> set s. \<not> like_special c \<Longrightarrow> likeEscaper s = s"
  by (induction s) (auto simp: likeEscaper_def)

lemma lower_special:
  assumes "lower_law low" "like_special c" shows "low (a @ c # b) = low a @ c # low b"
  using assms special_ascii [OF assms(2)] by (simp add: lower_law_def)

lemma lower_escaped:
  assumes "lower_law low" shows "low (likeEscaper s) = likeEscaper (low s)"
proof (induction "length s" arbitrary: s rule: less_induct)
  case less
  show ?case
  proof (cases "\<forall>c \<in> set s. \<not> like_special c")
    case True
    then have "\<forall>c \<in> set (low s). \<not> like_special c" using assms by (simp add: lower_law_def)
    then show ?thesis using True by (simp add: likeEscaper_plain)
  next
    case False
    then obtain a c b where s: "s = a @ c # b" "like_special c" "\<forall>x \<in> set a. \<not> like_special x"
      using split_list_first_prop [of s like_special] by blast
    have plain: "\<forall>x \<in> set (low a). \<not> like_special x" using assms s(3) by (simp add: lower_law_def)
    have slash: "like_special (CHR 0x5C)" by (simp add: like_special_def)
    have "likeEscaper s = a @ CHR 0x5C # [] @ c # likeEscaper b"
      using s(2) by (simp add: s(1) likeEscaper_append likeEscaper_plain [OF s(3)]) (simp add: likeEscaper_def)
    then have "low (likeEscaper s) = low a @ CHR 0x5C # low ([] @ c # likeEscaper b)"
      by (simp only: lower_special [OF assms slash])
    also have "\<dots> = low a @ CHR 0x5C # low [] @ c # low (likeEscaper b)" by (simp only: lower_special [OF assms s(2)] append.assoc)
    also have "\<dots> = low a @ [CHR 0x5C, c] @ likeEscaper (low b)"
      using assms less [of b] s(1) by (simp add: lower_law_def)
    also have "\<dots> = likeEscaper (low a @ c # low b)"
      using s(2) by (simp add: likeEscaper_append likeEscaper_plain [OF plain]) (simp add: likeEscaper_def)
    finally show ?thesis by (simp only: s(1) lower_special [OF assms s(2)])
  qed
qed

lemma like_simps:
  "like_match (CHR 0x5C # e # ps) (c # t) \<longleftrightarrow> e = c \<and> like_match ps t" "\<not> like_match (CHR 0x5C # ps) []"
  "\<not> like_special p \<Longrightarrow> like_match (p # ps) (c # t) \<longleftrightarrow> p = c \<and> like_match ps t" "\<not> like_special p \<Longrightarrow> \<not> like_match (p # ps) []"
  by (subst like_match.simps(2); simp add: like_special_def)+

lemma like_any: "like_match (CHR ''%'' # ps) s \<longleftrightarrow> (\<exists>a b. s = a @ b \<and> like_match ps b)"
proof (induction s)
  case Nil
  then show ?case by (subst like_match.simps(2)) simp
next
  case (Cons c s)
  have "(\<exists>a b. c # s = a @ b \<and> P b) \<longleftrightarrow> P (c # s) \<or> (\<exists>a b. s = a @ b \<and> P b)" for P :: "string \<Rightarrow> bool"
    by (auto simp: Cons_eq_append_conv)
  moreover have "like_match (CHR ''%'' # ps) (c # s) \<longleftrightarrow> like_match ps (c # s) \<or> like_match (CHR ''%'' # ps) s"
    by (subst like_match.simps(2)) simp
  ultimately show ?case using Cons by simp
qed

lemma like_literal: "like_match (likeEscaper t @ ps) s \<longleftrightarrow> (\<exists>b. s = t @ b \<and> like_match ps b)"
proof (induction t arbitrary: s)
  case (Cons c t)
  show ?case
  proof (cases "like_special c")
    case True
    then have "likeEscaper (c # t) = [CHR 0x5C, c] @ likeEscaper t" by (simp add: likeEscaper_def)
    then show ?thesis using Cons by (cases s) (auto simp: like_simps)
  next
    case False
    then have "likeEscaper (c # t) = [c] @ likeEscaper t" by (simp add: likeEscaper_def)
    then show ?thesis using Cons False by (cases s) (auto simp: like_simps)
  qed
qed (simp add: likeEscaper_def)

lemma like_contains: "like_match (''%'' @ likeEscaper t @ ''%'') s \<longleftrightarrow> sublist t s"
proof -
  have all: "like_match ''%'' b" for b using like_any [of "[]" b] by simp
  have "like_match (CHR ''%'' # likeEscaper t @ ''%'') s \<longleftrightarrow> (\<exists>a b c. s = a @ b \<and> b = t @ c)"
    by (simp only: like_any [of "likeEscaper t @ ''%''" s] like_literal all simp_thms) blast
  then show ?thesis by (auto simp: sublist_def)
qed

lemma ilike_contains:
  assumes "lower_law (ce_lower E)"
  shows "ilike E s (''%'' @ likeEscaper t @ ''%'') \<longleftrightarrow> sublist (ce_lower E t) (ce_lower E s)"
proof -
  have p: "like_special (CHR ''%'')" by (simp add: like_special_def)
  have "ce_lower E ([] @ CHR ''%'' # (likeEscaper t @ CHR ''%'' # [])) = ce_lower E [] @ CHR ''%'' # ce_lower E (likeEscaper t) @ CHR ''%'' # ce_lower E []"
    by (simp only: lower_special [OF assms p])
  then have "ce_lower E (''%'' @ likeEscaper t @ ''%'') = ''%'' @ likeEscaper (ce_lower E t) @ ''%''"
    using assms lower_escaped [OF assms, of t] by (simp add: lower_law_def)
  then show ?thesis unfolding ilike_def by (simp only: like_contains)
qed

text \<open>A product that contains a word: in a name, the brand or the article number of a variant.\<close>

definition contains_word :: "catalog_env \<Rightarrow> db \<Rightarrow> product_row \<Rightarrow> string \<Rightarrow> bool" where
  "contains_word E d p word \<longleftrightarrow>
     (\<exists>text \<in> set ([pr_name_ru p, pr_name_ky p] @ (case pr_brand p of None \<Rightarrow> [] | Some b \<Rightarrow> [b]) @
        List.map_filter pv_sku (filter (\<lambda>v. pv_product_id v = pr_id p) (variants d))).
        sublist (ce_lower E word) (ce_lower E text))"

lemma token_contains:
  assumes "lower_law (ce_lower E)" shows "token_condition E d p tok \<longleftrightarrow> contains_word E d p tok"
  unfolding token_condition_def contains_word_def Let_def ilike_opt_def ilike_contains [OF assms]
  by (auto simp: List.map_filter_def split: option.splits)

section \<open>Rounding is monotonic\<close>

lemma rnd_even_mono: "x \<le> y \<Longrightarrow> rnd_even x \<le> rnd_even y"
proof (cases "\<lfloor>x\<rfloor> = \<lfloor>y\<rfloor>")
  case True
  assume "x \<le> y"
  then show ?thesis using True by (auto simp: rnd_even_def Let_def)
next
  case False
  assume "x \<le> y"
  then have f: "\<lfloor>x\<rfloor> + 1 \<le> \<lfloor>y\<rfloor>" using False floor_mono [of x y] by linarith
  have "rnd_even x \<le> \<lfloor>x\<rfloor> + 1" "\<lfloor>y\<rfloor> \<le> rnd_even y" by (simp_all add: rnd_even_def Let_def)
  then show ?thesis using f by linarith
qed

lemma rnd_even_whole: "rnd_even (of_int k) = k"
  by (simp add: rnd_even_def)

lemma rnd64_binade:
  assumes "0 < x" shows "2 powi flog2 x \<le> rnd64 x" "rnd64 x \<le> 2 powi (flog2 x + 1)"
proof -
  define u where "u = (2 powi (flog2 x - 52) :: rat)"
  have u: "0 < u" by (simp add: u_def)
  have r: "rnd64 x = of_int (rnd_even (x / u)) * u" using assms by (simp add: rnd64_def u_def Let_def)
  have "2 powi flog2 x = of_int (2 ^ 52) * u" by (simp add: u_def power_int_diff)
  moreover have "2 powi (flog2 x + 1) = of_int (2 ^ 53) * u" by (simp add: u_def power_int_diff power_int_add)
  moreover have "of_int (2 ^ 52) \<le> x / u" "x / u \<le> of_int (2 ^ 53)"
    using flog2_bounds [OF assms] calculation u by (simp_all add: field_simps)
  then have "2 ^ 52 \<le> rnd_even (x / u)" "rnd_even (x / u) \<le> 2 ^ 53"
    using rnd_even_mono [of "of_int (2 ^ 52)" "x / u"] rnd_even_mono [of "x / u" "of_int (2 ^ 53)"] unfolding rnd_even_whole by blast+
  then have "of_int (2 ^ 52) \<le> (of_int (rnd_even (x / u)) :: rat)" "of_int (rnd_even (x / u)) \<le> (of_int (2 ^ 53) :: rat)"
    by (simp_all only: of_int_le_iff)
  ultimately show "2 powi flog2 x \<le> rnd64 x" "rnd64 x \<le> 2 powi (flog2 x + 1)"
    unfolding r using u by (simp_all only: mult_right_mono less_imp_le)
qed

lemma rnd64_mono_pos: "0 < x \<Longrightarrow> x \<le> y \<Longrightarrow> rnd64 x \<le> rnd64 y"
proof -
  assume x: "0 < x" and xy: "x \<le> y"
  consider "flog2 x = flog2 y" | "flog2 x < flog2 y" | "flog2 y < flog2 x" by linarith
  then show ?thesis
  proof cases
    case 1
    have u: "0 < (2 powi (flog2 y - 52) :: rat)" by simp
    then have "x / 2 powi (flog2 y - 52) \<le> y / 2 powi (flog2 y - 52)" using xy by (intro divide_right_mono) simp_all
    then have "(of_int (rnd_even (x / 2 powi (flog2 y - 52))) :: rat) \<le> of_int (rnd_even (y / 2 powi (flog2 y - 52)))"
      unfolding of_int_le_iff by (rule rnd_even_mono)
    then show ?thesis using x xy u 1 by (simp add: rnd64_def Let_def mult_right_mono)
  next
    case 2
    then have "(2 :: rat) powi (flog2 x + 1) \<le> 2 powi flog2 y" by (intro power_int_increasing) simp_all
    then show ?thesis using rnd64_binade(2) [OF x] rnd64_binade(1) [of y] x xy by linarith
  next
    case 3
    then have "(2 :: rat) powi (flog2 y + 1) \<le> 2 powi flog2 x" by (intro power_int_increasing) simp_all
    then show ?thesis using flog2_bounds [OF x] flog2_bounds [of y] x xy by linarith
  qed
qed

lemma rnd_even_minus: "rnd_even (- x) = - rnd_even x"
proof (cases "of_int \<lfloor>x\<rfloor> = x")
  case True
  then obtain k where "x = of_int k" by metis
  then show ?thesis using rnd_even_whole [of "- k"] rnd_even_whole [of k] by simp
next
  case False
  then have "of_int \<lfloor>x\<rfloor> < x" "x < of_int \<lfloor>x\<rfloor> + 1" by (linarith, linarith)
  then have m: "\<lfloor>- x\<rfloor> = - \<lfloor>x\<rfloor> - 1" by (intro floor_unique) simp_all
  show ?thesis unfolding rnd_even_def Let_def m by auto
qed

lemma rnd64_minus: "rnd64 (- x) = - rnd64 x"
  by (simp add: rnd64_def Let_def rnd_even_minus)

lemma rnd64_mono: "x \<le> y \<Longrightarrow> rnd64 x \<le> rnd64 y"
proof -
  assume xy: "x \<le> y"
  consider "0 < x" | "x \<le> 0" "0 \<le> y" | "y < 0" by linarith
  then show ?thesis
  proof cases
    case 2
    have "0 \<le> rnd64 (- x)" "0 \<le> rnd64 y" using 2 rnd64_nonneg by simp_all
    then show ?thesis by (simp add: rnd64_minus)
  next
    case 3
    then show ?thesis using rnd64_mono_pos [of "- y" "- x"] xy by (simp add: rnd64_minus)
  qed (use xy rnd64_mono_pos in blast)
qed

lemma float_of_numeric_mono: "a \<le> b \<Longrightarrow> float_of_numeric a \<le> float_of_numeric b"
  unfolding float_of_numeric_def by (rule rnd64_mono) simp

end
