(* ===== verification/FacetFacts.thy ===== *)
theory FacetFacts
  imports ListFacts
begin

text \<open>The filter options of a scope are those of its products: sizes and colours that find something, and their price range.\<close>

lemma fold_min: "fold min xs x = Min (set (x # xs))" for x :: int
  by (metis Min.set_eq_fold fold_simps(1))

lemma fold_max: "fold max xs x = Max (set (x # xs))" for x :: int
  by (metis Max.set_eq_fold fold_simps(1))

lemma foldr_min: "xs \<noteq> [] \<Longrightarrow> foldr min xs (hd xs) = Min (set xs)" for xs :: "int list"
proof -
  have "foldr min ys z = Min (set (z # ys))" for ys and z :: int
  proof (induction ys)
    case (Cons a ys)
    have "set (z # a # ys) = insert a (set (z # ys))" by auto
    then have "Min (set (z # a # ys)) = min a (Min (set (z # ys)))" by (simp only: Min_insert List.finite_set) simp
    then show ?case using Cons by simp
  qed simp
  then show "xs \<noteq> [] \<Longrightarrow> foldr min xs (hd xs) = Min (set xs)" by (cases xs) (simp_all add: insert_absorb)
qed

lemma foldr_max: "xs \<noteq> [] \<Longrightarrow> foldr max xs (hd xs) = Max (set xs)" for xs :: "int list"
proof -
  have "foldr max ys z = Max (set (z # ys))" for ys and z :: int
  proof (induction ys)
    case (Cons a ys)
    have "set (z # a # ys) = insert a (set (z # ys))" by auto
    then have "Max (set (z # a # ys)) = max a (Max (set (z # ys)))" by (simp only: Max_insert List.finite_set) simp
    then show ?case using Cons by simp
  qed simp
  then show "xs \<noteq> [] \<Longrightarrow> foldr max xs (hd xs) = Max (set xs)" by (cases xs) (simp_all add: insert_absorb)
qed

lemma keep_least: "fold (keep_price (<)) xs (Some y) = Some (Min (set (y # xs)))"
proof (induction xs arbitrary: y)
  case (Cons x xs)
  have "keep_price (<) x (Some y) = Some (min x y)" by (simp add: keep_price_def min_def)
  then show ?case using Cons by (cases "xs = []") (simp_all add: min.assoc min.left_commute min.commute)
qed simp

lemma keep_greatest: "fold (keep_price (>)) xs (Some y) = Some (Max (set (y # xs)))"
proof (induction xs arbitrary: y)
  case (Cons x xs)
  have "keep_price (>) x (Some y) = Some (max x y)" by (simp add: keep_price_def max_def)
  then show ?case using Cons by (cases "xs = []") (simp_all add: max.assoc max.left_commute max.commute)
qed simp

lemma keep_all:
  "fold (keep_price (<)) xs None = (if xs = [] then None else Some (Min (set xs)))"
  "fold (keep_price (>)) xs None = (if xs = [] then None else Some (Max (set xs)))"
  by (cases xs; simp add: keep_least keep_greatest keep_price_def [of _ _ None])+

lemma extremes_of_parts:
  fixes f :: "'a \<Rightarrow> int set"
  assumes "finite A" "A \<noteq> {}" "\<And>a. finite (f a) \<and> f a \<noteq> {}"
  shows "Min (\<Union>a \<in> A. f a) = Min ((\<lambda>a. Min (f a)) ` A)" "Max (\<Union>a \<in> A. f a) = Max ((\<lambda>a. Max (f a)) ` A)"
proof -
  show "Min (\<Union>a \<in> A. f a) = Min ((\<lambda>a. Min (f a)) ` A)"
  proof (rule Min_eqI)
    show "Min ((\<lambda>a. Min (f a)) ` A) \<le> y" if y: "y \<in> (\<Union>a \<in> A. f a)" for y
    proof -
      obtain a where a: "a \<in> A" "y \<in> f a" using y by blast
      have "Min ((\<lambda>a. Min (f a)) ` A) \<le> Min (f a)" using a(1) assms(1) by (intro Min_le) auto
      then show ?thesis using Min_le [of "f a" y] assms(3) a(2) by fastforce
    qed
    have "Min ((\<lambda>a. Min (f a)) ` A) \<in> (\<lambda>a. Min (f a)) ` A" using assms(1,2) by (intro Min_in) auto
    then obtain a where a: "a \<in> A" "Min ((\<lambda>a. Min (f a)) ` A) = Min (f a)" by blast
    have "Min (f a) \<in> f a" using assms(3) by (intro Min_in) auto
    then show "Min ((\<lambda>a. Min (f a)) ` A) \<in> (\<Union>a \<in> A. f a)" using a by auto
  qed (use assms in auto)
  show "Max (\<Union>a \<in> A. f a) = Max ((\<lambda>a. Max (f a)) ` A)"
  proof (rule Max_eqI)
    show "y \<le> Max ((\<lambda>a. Max (f a)) ` A)" if y: "y \<in> (\<Union>a \<in> A. f a)" for y
    proof -
      obtain a where a: "a \<in> A" "y \<in> f a" using y by blast
      have "Max (f a) \<le> Max ((\<lambda>a. Max (f a)) ` A)" using a(1) assms(1) by (intro Max_ge) auto
      then show ?thesis using Max_ge [of "f a" y] assms(3) a(2) by fastforce
    qed
    have "Max ((\<lambda>a. Max (f a)) ` A) \<in> (\<lambda>a. Max (f a)) ` A" using assms(1,2) by (intro Max_in) auto
    then obtain a where a: "a \<in> A" "Max ((\<lambda>a. Max (f a)) ` A) = Max (f a)" by blast
    have "Max (f a) \<in> f a" using assms(3) by (intro Max_in) auto
    then show "Max ((\<lambda>a. Max (f a)) ` A) \<in> (\<Union>a \<in> A. f a)" using a by auto
  qed (use assms in auto)
qed

text \<open>The prices of a product, its own when it has no variant.\<close>

definition prices :: "db \<Rightarrow> product_row \<Rightarrow> int list" where
  "prices d p = (if variant_prices d p = [] then [pr_base_price p] else variant_prices d p)"

lemma price_range: "minPriceExpr d p = Min (set (prices d p))" "maxPriceExpr d p = Max (set (prices d p))" "prices d p \<noteq> []"
  by (simp_all add: minPriceExpr_def maxPriceExpr_def prices_def fold_min fold_max del: set_simps split: list.split) (simp_all)

definition in_scope :: "catalog_env \<Rightarrow> FacetFilter \<Rightarrow> db \<Rightarrow> product_row list" where
  "in_scope E f d = filter (buildFacetConditions E f d) (products d)"

lemma join_prices: "set (map snd (facet_join E f d)) = (\<Union>p \<in> set (in_scope E f d). set (prices d p))"
proof -
  have "set (map snd (case filter (\<lambda>v. pv_product_id v = pr_id p) (variants d) of
          [] \<Rightarrow> [(None, pr_base_price p)]
        | vs \<Rightarrow> map (\<lambda>v. (Some (pv_size v, pv_color v), case pv_price_override v of None \<Rightarrow> pr_base_price p | Some x \<Rightarrow> x)) vs)) = set (prices d p)" for p :: product_row
  proof (cases "filter (\<lambda>v. pv_product_id v = pr_id p) (variants d)")
    case (Cons v vs)
    show ?thesis unfolding prices_def variant_prices_def Cons list.case by (auto simp: image_iff)
  qed (simp add: prices_def variant_prices_def)
  then show ?thesis by (simp add: facet_join_def in_scope_def image_Union image_image)
qed

lemma join_keys:
  "Some k \<in> fst ` set (facet_join E f d) \<longleftrightarrow>
     (\<exists>p \<in> set (in_scope E f d). \<exists>v \<in> set (variants d). pv_product_id v = pr_id p \<and> k = (pv_size v, pv_color v))"
proof -
  have "Some k \<in> fst ` set (case filter (\<lambda>v. pv_product_id v = pr_id p) (variants d) of
          [] \<Rightarrow> [(None, pr_base_price p)]
        | vs \<Rightarrow> map (\<lambda>v. (Some (pv_size v, pv_color v), case pv_price_override v of None \<Rightarrow> pr_base_price p | Some x \<Rightarrow> x)) vs) \<longleftrightarrow>
      (\<exists>v \<in> set (variants d). pv_product_id v = pr_id p \<and> k = (pv_size v, pv_color v))" for p :: product_row
  proof (cases "filter (\<lambda>v. pv_product_id v = pr_id p) (variants d)")
    case Nil
    then show ?thesis by (auto simp: filter_empty_conv)
  next
    case (Cons v vs)
    have "set (filter (\<lambda>v. pv_product_id v = pr_id p) (variants d)) = set (v # vs)" by (simp only: Cons)
    then have "(\<exists>v \<in> set (variants d). pv_product_id v = pr_id p \<and> k = (pv_size v, pv_color v)) \<longleftrightarrow> (\<exists>u \<in> set (v # vs). k = (pv_size u, pv_color u))"
      by auto
    then show ?thesis unfolding Cons list.case by (simp add: image_image image_iff)
  qed
  then show ?thesis by (simp add: facet_join_def in_scope_def image_Union)
qed

lemma group_extremes:
  assumes "g \<in> set (facet_groups rows)"
  shows "fst (snd g) = Min {x. (fst g, x) \<in> set rows}" "snd (snd g) = Max {x. (fst g, x) \<in> set rows}" "fst g \<in> fst ` set rows"
proof -
  obtain k where k: "k \<in> fst ` set rows" and g: "g = (let ps = map snd (filter (\<lambda>r. fst r = k) rows) in (k, foldr min ps (hd ps), foldr max ps (hd ps)))"
    using assms by (auto simp: facet_groups_def)
  have set: "set (map snd (filter (\<lambda>r. fst r = k) rows)) = {x. (k, x) \<in> set rows}" by force
  have ne: "map snd (filter (\<lambda>r. fst r = k) rows) \<noteq> []" using k by (auto simp: filter_empty_conv)
  show "fst (snd g) = Min {x. (fst g, x) \<in> set rows}" "snd (snd g) = Max {x. (fst g, x) \<in> set rows}" "fst g \<in> fst ` set rows"
    using k by (simp_all add: g Let_def foldr_min [OF ne] foldr_max [OF ne] set [symmetric])
qed

lemma group_keys: "map fst (facet_groups rows) = remdups (map fst rows)"
  by (simp add: facet_groups_def Let_def comp_def)

lemma group_prices:
  assumes "rows \<noteq> []"
  shows "Min (set (map (\<lambda>g. fst (snd g)) (facet_groups rows))) = Min (set (map snd rows))"
    "Max (set (map (\<lambda>g. snd (snd g)) (facet_groups rows))) = Max (set (map snd rows))"
proof -
  have fin: "finite {x. (k, x) \<in> set rows}" for k by (rule finite_subset [of _ "snd ` set rows"]) force+
  have inside: "fst (snd g) \<in> set (map snd rows)" "snd (snd g) \<in> set (map snd rows)" if "g \<in> set (facet_groups rows)" for g
  proof -
    have ne: "{x. (fst g, x) \<in> set rows} \<noteq> {}" using group_extremes(3) [OF that] by force
    show "fst (snd g) \<in> set (map snd rows)" using Min_in [OF fin ne] group_extremes(1) [OF that] by force
    show "snd (snd g) \<in> set (map snd rows)" using Max_in [OF fin ne] group_extremes(2) [OF that] by force
  qed
  have cover: "\<exists>g \<in> set (facet_groups rows). fst (snd g) \<le> x \<and> x \<le> snd (snd g)" if "x \<in> set (map snd rows)" for x
  proof -
    have "x \<in> snd ` set rows" using that by simp
    then obtain k where k: "(k, x) \<in> set rows" by force
    then have "k \<in> set (map fst (facet_groups rows))" unfolding group_keys by force
    then obtain g where g: "g \<in> set (facet_groups rows)" "fst g = k" by auto
    then have "fst (snd g) \<le> x" "x \<le> snd (snd g)" using group_extremes [OF g(1)] k fin by simp_all
    then show ?thesis using g(1) by blast
  qed
  have ne: "facet_groups rows \<noteq> []" using assms group_keys [of rows] by auto
  show "Min (set (map (\<lambda>g. fst (snd g)) (facet_groups rows))) = Min (set (map snd rows))"
  proof (rule Min_eqI)
    show "finite (set (map (\<lambda>g. fst (snd g)) (facet_groups rows)))" by simp
    show "Min (set (map snd rows)) \<le> y" if "y \<in> set (map (\<lambda>g. fst (snd g)) (facet_groups rows))" for y
      using that inside by (auto intro!: Min_le)
    have "Min (set (map snd rows)) \<in> set (map snd rows)" using assms by (intro Min_in) simp_all
    then obtain g where g: "g \<in> set (facet_groups rows)" "fst (snd g) \<le> Min (set (map snd rows))" using cover by blast
    moreover have "Min (set (map snd rows)) \<le> fst (snd g)" using inside(1) [OF g(1)] by (intro Min_le) simp_all
    ultimately show "Min (set (map snd rows)) \<in> set (map (\<lambda>g. fst (snd g)) (facet_groups rows))" by force
  qed
  show "Max (set (map (\<lambda>g. snd (snd g)) (facet_groups rows))) = Max (set (map snd rows))"
  proof (rule Max_eqI)
    show "finite (set (map (\<lambda>g. snd (snd g)) (facet_groups rows)))" by simp
    show "y \<le> Max (set (map snd rows))" if "y \<in> set (map (\<lambda>g. snd (snd g)) (facet_groups rows))" for y
      using that inside by (auto intro!: Max_ge)
    have "Max (set (map snd rows)) \<in> set (map snd rows)" using assms by (intro Max_in) simp_all
    then obtain g where g: "g \<in> set (facet_groups rows)" "Max (set (map snd rows)) \<le> snd (snd g)" using cover by blast
    moreover have "snd (snd g) \<le> Max (set (map snd rows))" using inside(2) [OF g(1)] by (intro Max_ge) simp_all
    ultimately show "Max (set (map snd rows)) \<in> set (map (\<lambda>g. snd (snd g)) (facet_groups rows))" by force
  qed
qed

lemma fold_groups:
  "fold (\<lambda>(k, lo, hi). keep_price b (float_of_numeric lo)) gs s = fold (keep_price b) (map (\<lambda>g. float_of_numeric (fst (snd g))) gs) s"
  "fold (\<lambda>(k, lo, hi). keep_price b (float_of_numeric hi)) gs s = fold (keep_price b) (map (\<lambda>g. float_of_numeric (snd (snd g))) gs) s"
  by (induction gs arbitrary: s) (auto simp: split_beta)

lemma facet_prices:
  "fc_PriceMin (facets_of (facet_groups (facet_join E f d))) =
     (if in_scope E f d = [] then None else Some (float_of_numeric (Min (minPriceExpr d ` set (in_scope E f d)))))"
  "fc_PriceMax (facets_of (facet_groups (facet_join E f d))) =
     (if in_scope E f d = [] then None else Some (float_of_numeric (Max (maxPriceExpr d ` set (in_scope E f d)))))"
proof -
  let ?rows = "facet_join E f d" and ?ps = "set (in_scope E f d)"
  have empty: "facet_groups rows = [] \<longleftrightarrow> rows = []" for rows
    using group_keys [of rows] by (metis map_is_Nil_conv remdups_eq_nil_iff)
  have rows: "?rows = [] \<longleftrightarrow> in_scope E f d = []"
  proof -
    have ne: "set (prices d p) \<noteq> {}" for p using price_range(3) [of d p] by simp
    have "?rows = [] \<longleftrightarrow> set (map snd ?rows) = {}" by simp
    also have "\<dots> \<longleftrightarrow> (\<forall>p \<in> ?ps. set (prices d p) = {})"
      unfolding join_prices by (simp only: UNION_empty_conv)
    also have "\<dots> \<longleftrightarrow> ?ps = {}" by (simp only: ne ball_simps) auto
    also have "\<dots> \<longleftrightarrow> in_scope E f d = []" by simp
    finally show ?thesis .
  qed
  have fl: "mono float_of_numeric" by (rule monoI) (rule float_of_numeric_mono)
  have lows: "Min (set (map snd ?rows)) = Min (minPriceExpr d ` ?ps)" and highs: "Max (set (map snd ?rows)) = Max (maxPriceExpr d ` ?ps)"
    if "?ps \<noteq> {}"
    using extremes_of_parts [OF _ that, of "\<lambda>p. set (prices d p)"] price_range(3)
    unfolding join_prices by (simp_all add: price_range(1,2) [abs_def])
  let ?gs = "facet_groups ?rows"
  have low: "Min (set (map (\<lambda>g. float_of_numeric (fst (snd g))) ?gs)) = float_of_numeric (Min (set (map (\<lambda>g. fst (snd g)) ?gs)))"
    and high: "Max (set (map (\<lambda>g. float_of_numeric (snd (snd g))) ?gs)) = float_of_numeric (Max (set (map (\<lambda>g. snd (snd g)) ?gs)))"
    if "?gs \<noteq> []"
    using that mono_Min_commute [OF fl, of "set (map (\<lambda>g. fst (snd g)) ?gs)"] mono_Max_commute [OF fl, of "set (map (\<lambda>g. snd (snd g)) ?gs)"]
    by (simp_all add: image_image)
  show "fc_PriceMin (facets_of ?gs) = (if in_scope E f d = [] then None else Some (float_of_numeric (Min (minPriceExpr d ` ?ps))))"
    using low group_prices(1) [of ?rows] lows rows empty [of ?rows] by (simp add: facets_of_def fold_groups keep_all del: set_map)
  show "fc_PriceMax (facets_of ?gs) = (if in_scope E f d = [] then None else Some (float_of_numeric (Max (maxPriceExpr d ` ?ps))))"
    using high group_prices(2) [of ?rows] highs rows empty [of ?rows] by (simp add: facets_of_def fold_groups keep_all del: set_map)
qed

text \<open>A size is offered exactly if the list of the scope, narrowed to that size, has a product; a colour likewise.\<close>

lemma facet_choices:
  "x \<in> set (fc_Sizes (facets_of (facet_groups (facet_join E f d)))) \<longleftrightarrow>
     x \<noteq> [] \<and> (\<exists>p \<in> set (products d). buildListConditions E ((facet_list_filter f)\<lparr>lf_Size := x\<rparr>) d p)"
  "x \<in> set (fc_Colors (facets_of (facet_groups (facet_join E f d)))) \<longleftrightarrow>
     x \<noteq> [] \<and> (\<exists>p \<in> set (products d). buildListConditions E ((facet_list_filter f)\<lparr>lf_Color := x\<rparr>) d p)"
proof -
  let ?gs = "facet_groups (facet_join E f d)"
  have keys: "k \<in> set (List.map_filter fst ?gs) \<longleftrightarrow> Some k \<in> fst ` set (facet_join E f d)" for k
  proof -
    have "k \<in> set (List.map_filter fst ?gs) \<longleftrightarrow> Some k \<in> set (map fst ?gs)" by (force simp: List.map_filter_def)
    then show ?thesis unfolding group_keys by simp
  qed
  have narrow: "buildListConditions E ((facet_list_filter f)\<lparr>lf_Size := x\<rparr>) d p \<longleftrightarrow> buildFacetConditions E f d p \<and>
      (\<exists>v \<in> set (variants d). pv_product_id v = pr_id p \<and> pv_size v = x)"
    "buildListConditions E ((facet_list_filter f)\<lparr>lf_Color := x\<rparr>) d p \<longleftrightarrow> buildFacetConditions E f d p \<and>
      (\<exists>v \<in> set (variants d). pv_product_id v = pr_id p \<and> pv_color v = x)" if "x \<noteq> []" for p
    using that by (auto simp: buildListConditions_def buildFacetConditions_def facet_list_filter_def variant_condition_def)
  have fst: "x \<in> fst ` A \<longleftrightarrow> (\<exists>c. (x, c) \<in> A)" and snd: "x \<in> snd ` A \<longleftrightarrow> (\<exists>s. (s, x) \<in> A)" for A :: "(string \<times> string) set"
    by force+
  show "x \<in> set (fc_Sizes (facets_of ?gs)) \<longleftrightarrow>
     x \<noteq> [] \<and> (\<exists>p \<in> set (products d). buildListConditions E ((facet_list_filter f)\<lparr>lf_Size := x\<rparr>) d p)"
  proof (cases "x = []")
    case False
    then show ?thesis unfolding narrow(1) [OF False]
      by (simp add: facets_of_def SortedSizes_def sortedNonEmpty_def fst keys join_keys in_scope_def) blast
  qed (simp add: facets_of_def SortedSizes_def sortedNonEmpty_def)
  show "x \<in> set (fc_Colors (facets_of ?gs)) \<longleftrightarrow>
     x \<noteq> [] \<and> (\<exists>p \<in> set (products d). buildListConditions E ((facet_list_filter f)\<lparr>lf_Color := x\<rparr>) d p)"
  proof (cases "x = []")
    case False
    then show ?thesis unfolding narrow(2) [OF False]
      by (simp add: facets_of_def sortedNonEmpty_def snd keys join_keys in_scope_def) blast
  qed (simp add: facets_of_def sortedNonEmpty_def)
qed

text \<open>Half sizes stand in their place, letters after the numbers.\<close>

lemma sizes_in_order:
  "SortedSizes [''XL'', ''42'', ''36,5'', ''M'', ''36'', ''9''] = [''9'', ''36'', ''36,5'', ''42'', ''M'', ''XL'']"
  by code_simp

end
