(* ===== verification/CategoryFacts.thy ===== *)
theory CategoryFacts
  imports Categories
begin

text \<open>
  The forest \<^verbatim>\<open>buildTree\<close> makes of a list of categories: what its links are, that following them from the roots
  ends, and which categories it shows.
\<close>

section \<open>Parents\<close>

text \<open>Following a parent function \<open>m\<close> times, and the positions from which it ends.\<close>

fun up :: "(nat \<Rightarrow> nat option) \<Rightarrow> nat \<Rightarrow> nat \<Rightarrow> nat option" where
  "up par 0 i = Some i"
| "up par (Suc m) i = Option.bind (par i) (up par m)"

definition rooted :: "(nat \<Rightarrow> nat option) \<Rightarrow> nat \<Rightarrow> bool" where
  "rooted par i \<longleftrightarrow> (\<exists>m. up par m i = None)"

definition kids :: "(nat \<Rightarrow> nat option) \<Rightarrow> nat \<Rightarrow> nat \<Rightarrow> nat list" where
  "kids par n j = filter (\<lambda>i. par i = Some j) [0..<n]"

definition tops :: "(nat \<Rightarrow> nat option) \<Rightarrow> nat \<Rightarrow> nat list" where
  "tops par n = filter (\<lambda>i. par i = None) [0..<n]"

text \<open>The positions a reader visits.\<close>

fun visits :: "nat \<Rightarrow> (nat \<Rightarrow> nat list) \<Rightarrow> nat list \<Rightarrow> nat list" where
  "visits depth children [] = []"
| "visits 0 children (i # is) = []"
| "visits (Suc depth) children (i # is) = i # visits depth children (children i) @ visits (Suc depth) children is"

lemma up_add: "up par (a + b) i = Option.bind (up par a i) (up par b)"
  by (induction a arbitrary: i) (auto split: bind_splits)

lemma up_Suc: "up par (Suc m) i = Option.bind (up par m i) par"
  using up_add [of par m 1 i] by (simp split: bind_splits)

lemma up_None_add: "up par m i = None \<Longrightarrow> up par (m + k) i = None"
  by (simp add: up_add)

lemma rooted_up: "rooted par i \<Longrightarrow> up par m i = Some j \<Longrightarrow> rooted par j"
proof -
  assume r: "rooted par i" and j: "up par m i = Some j"
  obtain k where "up par k i = None" using r by (auto simp: rooted_def)
  then have "up par (m + k) i = None" using up_None_add [of par k i m] by (simp add: add.commute)
  then show "rooted par j" using j by (auto simp: up_add rooted_def)
qed

lemma rooted_parent: "rooted par i \<longleftrightarrow> (\<forall>p. par i = Some p \<longrightarrow> rooted par p)"
proof
  show "rooted par i \<Longrightarrow> \<forall>p. par i = Some p \<longrightarrow> rooted par p" using rooted_up [of par i 1] by auto
  assume p: "\<forall>p. par i = Some p \<longrightarrow> rooted par p"
  show "rooted par i"
  proof (cases "par i")
    case None
    then have "up par 1 i = None" by simp
    then show ?thesis unfolding rooted_def by blast
  next
    case (Some q)
    then obtain m where "up par m q = None" using p by (auto simp: rooted_def)
    then have "up par (Suc m) i = None" using Some by simp
    then show ?thesis unfolding rooted_def by blast
  qed
qed

text \<open>A position on a circle is not rooted.\<close>

lemma no_circle: "rooted par i \<Longrightarrow> up par (Suc t) i \<noteq> Some i"
proof
  assume r: "rooted par i" and c: "up par (Suc t) i = Some i"
  have round: "up par (k * Suc t) i = Some i" for k
  proof (induction k)
    case (Suc k)
    have "up par (Suc t + k * Suc t) i = Some i" unfolding up_add c using Suc by simp
    then show ?case by (simp only: mult_Suc)
  qed simp
  obtain m where m: "up par m i = None" using r by (auto simp: rooted_def)
  have "up par (m + (m * Suc t - m)) i = None" by (rule up_None_add [OF m])
  then show False using round [of m] by simp
qed

locale parents =
  fixes par :: "nat \<Rightarrow> nat option" and n :: nat
  assumes par_less: "par i = Some j \<Longrightarrow> j < n"
begin

lemma up_less: "i < n \<Longrightarrow> up par m i = Some j \<Longrightarrow> j < n"
  by (induction m arbitrary: i) (auto split: bind_splits dest: par_less)

lemma up_distinct:
  assumes "rooted par i" "up par a i = Some x" "up par b i = Some x" shows "a = b"
proof (rule ccontr)
  assume "a \<noteq> b"
  define lo hi where "lo = min a b" and "hi = max a b"
  have lh: "lo < hi" "up par lo i = Some x" "up par hi i = Some x"
    using \<open>a \<noteq> b\<close> assms(2,3) by (auto simp: lo_def hi_def min_def max_def)
  obtain t where t: "hi = lo + Suc t" using less_imp_Suc_add [OF lh(1)] by auto
  have "up par (Suc t) x = Some x" using lh(2,3) unfolding t up_add by simp
  then show False using no_circle rooted_up [OF assms(1) lh(2)] by blast
qed

text \<open>A path to a root has fewer steps than there are positions.\<close>

lemma depth_less:
  assumes r: "rooted par i" and i: "i < n" and m: "up par m i = Some j" shows "m < n"
proof -
  define f where "f k = the (up par k i)" for k
  have some: "up par k i = Some (f k)" if "k \<le> m" for k
    using m up_None_add [of par k i "m - k"] that by (cases "up par k i") (auto simp: f_def)
  have "inj_on f {..m}" by (intro inj_onI) (use up_distinct [OF r] some in auto)
  moreover have "f ` {..m} \<subseteq> {..<n}" using some up_less [OF i] by force
  ultimately have "card {..m} \<le> card {..<n}" by (intro card_inj_on_le) auto
  then show ?thesis by simp
qed

lemma visits_set:
  "\<forall>i \<in> set is. i < n \<Longrightarrow> set (visits k (kids par n) is) = {j. j < n \<and> (\<exists>i \<in> set is. \<exists>m < k. up par m j = Some i)}"
proof (induction k "kids par n" "is" rule: visits.induct)
  case (3 k i "is")
  have kids: "\<forall>c \<in> set (kids par n i). c < n" by (simp add: kids_def)
  have below: "(\<exists>c \<in> set (kids par n i). \<exists>m < k. up par m j = Some c) \<longleftrightarrow> (\<exists>m < k. up par (Suc m) j = Some i)" if "j < n" for j
  proof
    assume "\<exists>c \<in> set (kids par n i). \<exists>m < k. up par m j = Some c"
    then obtain c m where "par c = Some i" "m < k" "up par m j = Some c" by (auto simp: kids_def)
    then show "\<exists>m < k. up par (Suc m) j = Some i" by (intro exI [of _ m]) (simp add: up_Suc del: up.simps(2))
  next
    assume "\<exists>m < k. up par (Suc m) j = Some i"
    then obtain c m where cm: "m < k" "up par m j = Some c" "par c = Some i"
      by (auto simp: up_Suc simp del: up.simps(2) split: bind_splits)
    then have "c \<in> set (kids par n i)" using up_less [OF that cm(2)] by (simp add: kids_def)
    then show "\<exists>c \<in> set (kids par n i). \<exists>m < k. up par m j = Some c" using cm by blast
  qed
  have step: "(\<exists>m < Suc k. up par m j = Some i) \<longleftrightarrow> j = i \<or> (\<exists>c \<in> set (kids par n i). \<exists>m < k. up par m j = Some c)"
    if "j < n" for j
    unfolding below [OF that] Ex_less_Suc2 by (simp del: up.simps(2))
  have "set (visits (Suc k) (kids par n) (i # is)) =
      insert i ({j. j < n \<and> (\<exists>c \<in> set (kids par n i). \<exists>m < k. up par m j = Some c)} \<union>
        {j. j < n \<and> (\<exists>c \<in> set is. \<exists>m < Suc k. up par m j = Some c)})"
    using 3(1) [OF kids] 3(2) 3(3) by simp
  also have "\<dots> = {j. j < n \<and> (\<exists>c \<in> set (i # is). \<exists>m < Suc k. up par m j = Some c)}"
    using step 3(3) by (simp only: set_simps bex_simps) blast
  finally show ?case .
qed auto

lemma visits_distinct:
  "distinct is \<Longrightarrow> \<forall>i \<in> set is. i < n \<and> rooted par i \<and> par i = q \<Longrightarrow> distinct (visits k (kids par n) is)"
proof (induction k "kids par n" "is" arbitrary: q rule: visits.induct)
  case (3 k i "is")
  have i: "i < n" "rooted par i" "par i = q" using 3(4) by auto
  have c: "c < n \<and> rooted par c \<and> par c = Some i" if "c \<in> set (kids par n i)" for c
    using that i(2) rooted_parent [of par c] by (auto simp: kids_def)
  have kids: "distinct (visits k (kids par n) (kids par n i))"
    by (rule 3(1) [of "Some i"]) (use c in \<open>auto simp: kids_def\<close>)
  have kidset: "set (visits k (kids par n) (kids par n i)) =
      {j. j < n \<and> (\<exists>c \<in> set (kids par n i). \<exists>m < k. up par m j = Some c)}"
    by (rule visits_set) (use c in blast)
  have own: "i \<notin> set (visits k (kids par n) (kids par n i))"
  proof
    assume "i \<in> set (visits k (kids par n) (kids par n i))"
    then obtain c' m where "c' \<in> set (kids par n i)" "up par m i = Some c'" unfolding kidset by blast
    then have "up par (Suc m) i = Some i" using c by (simp add: up_Suc del: up.simps(2))
    then show False using no_circle i(2) by blast
  qed
  have apart: False
    if ab: "up par a j = Some x" "up par b j = Some y" "par x = q" "par y = q" "x \<noteq> y" "a \<le> b" "rooted par x" for a b j x y
  proof -
    have "a \<noteq> b" using ab by auto
    then obtain t where t: "b = a + Suc t" using ab(6) less_imp_Suc_add [of a b] by auto
    have y: "up par (Suc t) x = Some y" using ab(1,2) unfolding t up_add by simp
    then obtain p where p: "q = Some p" "up par t p = Some y" using ab(3) by (auto split: bind_splits)
    have "up par (Suc t) p = Some p" using p ab(4) by (simp add: up_Suc del: up.simps(2))
    moreover have "rooted par p" using ab(3,7) p(1) rooted_parent [of par x] by auto
    ultimately show False using no_circle by blast
  qed
  have "set (i # visits k (kids par n) (kids par n i)) \<inter> set (visits (Suc k) (kids par n) is) = {}"
  proof -
    have "\<exists>a. up par a j = Some i" if "j \<in> set (i # visits k (kids par n) (kids par n i))" for j
    proof (cases "j = i")
      case True
      then have "up par 0 j = Some i" by simp
      then show ?thesis by blast
    next
      case False
      then have "j \<in> set (visits k (kids par n) (kids par n i))" using that by simp
      then obtain c' m where cm: "c' \<in> set (kids par n i)" "up par m j = Some c'"
        unfolding kidset by blast
      have "par c' = Some i" using c [OF cm(1)] by simp
      then have "up par (Suc m) j = Some i" using cm(2) by (simp add: up_Suc del: up.simps(2))
      then show ?thesis by blast
    qed
    moreover have "\<exists>b y. y \<in> set is \<and> up par b j = Some y" if "j \<in> set (visits (Suc k) (kids par n) is)" for j
      using that visits_set [of "is" "Suc k"] 3(4) by auto
    moreover have "y \<noteq> i \<and> par y = q \<and> rooted par y" if "y \<in> set is" for y using that 3(3,4) by auto
    ultimately show ?thesis using apart i by (metis disjoint_iff linear)
  qed
  then show ?case using kids own 3(2) [of q] 3(3,4) by (auto simp del: visits.simps(3)) (auto simp: visits.simps(3))
qed auto

lemma tops_ok: "distinct (tops par n)" "\<forall>i \<in> set (tops par n). i < n \<and> rooted par i \<and> par i = None"
proof -
  show "distinct (tops par n)" by (simp add: tops_def)
  have "rooted par i" if "par i = None" for i using that rooted_parent [of par i] by simp
  then show "\<forall>i \<in> set (tops par n). i < n \<and> rooted par i \<and> par i = None" by (auto simp: tops_def)
qed

text \<open>From the roots, every rooted position is visited, once.\<close>

lemma visits_tops:
  "distinct (visits n (kids par n) (tops par n))"
  "set (visits n (kids par n) (tops par n)) = {j. j < n \<and> rooted par j}"
proof -
  show "distinct (visits n (kids par n) (tops par n))" using visits_distinct [of "tops par n" None] tops_ok by simp
  have "(\<exists>i \<in> set (tops par n). \<exists>m < n. up par m j = Some i) \<longleftrightarrow> rooted par j" if j: "j < n" for j
  proof
    assume "\<exists>i \<in> set (tops par n). \<exists>m < n. up par m j = Some i"
    then obtain i m where im: "up par m j = Some i" "par i = None" by (auto simp: tops_def)
    then have "up par (Suc m) j = None" by (simp add: up_Suc del: up.simps(2))
    then show "rooted par j" unfolding rooted_def by blast
  next
    assume r: "rooted par j"
    define m where "m = (LEAST m. up par m j = None)"
    have m: "up par m j = None" unfolding m_def by (rule LeastI_ex) (use r rooted_def in auto)
    then obtain k where k: "m = Suc k" by (cases m) auto
    have "up par k j \<noteq> None" using not_less_Least [of k "\<lambda>m. up par m j = None"] k by (auto simp: m_def)
    then obtain i where i: "up par k j = Some i" by blast
    have "par i = None" using m i unfolding k by (simp add: up_Suc del: up.simps(2))
    moreover have "i < n" by (rule up_less [OF j i])
    ultimately show "\<exists>i \<in> set (tops par n). \<exists>m < n. up par m j = Some i"
      using i depth_less [OF r j i] by (auto simp: tops_def)
  qed
  then show "set (visits n (kids par n) (tops par n)) = {j. j < n \<and> rooted par j}"
    using visits_set [of "tops par n" n] tops_ok by auto
qed

end

end
