(* ===== verification/CategoryTree.thy ===== *)
theory CategoryTree
  imports CategoryFacts
begin

text \<open>
  What \<^verbatim>\<open>buildTree\<close> returns: its links are the parents the rows name, following them from the roots ends, and the
  forest shows every category that reaches a root, once, below its parent and in the order of the rows.
\<close>

section \<open>The links\<close>

definition parent_of :: "Category list \<Rightarrow> nat \<Rightarrow> nat option" where
  "parent_of flat i = (if i < length flat then Option.bind (cg_ParentID (flat ! i)) (byID flat) else None)"

lemma byID_Some: "byID flat p = Some j \<Longrightarrow> j < length flat \<and> cg_ID (flat ! j) = p"
  unfolding byID_def by (drule map_of_SomeD) (auto simp: set_zip)

lemma byID_None: "byID flat p = None \<longleftrightarrow> p \<notin> cg_ID ` set flat"
proof -
  have "fst ` set (zip (map cg_ID flat) [0..<length flat]) = set (map fst (zip (map cg_ID flat) [0..<length flat]))"
    by (simp only: set_map)
  also have "\<dots> = cg_ID ` set flat" by (simp add: map_fst_zip)
  finally show ?thesis by (simp add: byID_def map_of_eq_None_iff)
qed

lemma byID_distinct: "distinct (map cg_ID flat) \<Longrightarrow> i < length flat \<Longrightarrow> byID flat (cg_ID (flat ! i)) = Some i"
proof -
  assume d: "distinct (map cg_ID flat)" and i: "i < length flat"
  have "byID flat (cg_ID (flat ! i)) \<noteq> None" using i by (simp add: byID_None)
  then obtain j where j: "byID flat (cg_ID (flat ! i)) = Some j" by blast
  then have "j = i" using byID_Some [OF j] d i nth_eq_iff_index_eq [of "map cg_ID flat" j i] by simp
  then show ?thesis using j by simp
qed

interpretation category: parents "parent_of flat" "length flat" for flat
  by unfold_locales (auto simp: parent_of_def byID_Some split: if_splits bind_splits)

lemma link_one_row:
  "i < length flat \<Longrightarrow> link_one flat i (roots, children) =
     (case parent_of flat i of None \<Rightarrow> (roots @ [i], children)
      | Some p \<Rightarrow> (roots, children(p := children p @ [i])))"
  by (auto simp: link_one_def parent_of_def split: option.splits)

lemma link_all_upto:
  "m \<le> length flat \<Longrightarrow> fold (link_one flat) [0..<m] ([], \<lambda>_. []) = (tops (parent_of flat) m, kids (parent_of flat) m)"
proof (induction m)
  case (Suc m)
  have m: "m < length flat" using Suc.prems by simp
  show ?case
  proof (cases "parent_of flat m")
    case None
    then have "tops (parent_of flat) (Suc m) = tops (parent_of flat) m @ [m]" by (simp add: tops_def)
    moreover have "kids (parent_of flat) (Suc m) = kids (parent_of flat) m" using None by (simp add: kids_def fun_eq_iff)
    ultimately show ?thesis using Suc None m by (simp add: link_one_row)
  next
    case (Some p)
    then have "tops (parent_of flat) (Suc m) = tops (parent_of flat) m" by (simp add: tops_def)
    moreover have "kids (parent_of flat) (Suc m) = (kids (parent_of flat) m)(p := kids (parent_of flat) m p @ [m])"
      using Some by (auto simp: kids_def fun_eq_iff)
    ultimately show ?thesis using Suc Some m by (simp add: link_one_row fun_upd_def)
  qed
qed (auto simp: tops_def kids_def fun_eq_iff)

lemma link_all: "link_all flat = (tops (parent_of flat) (length flat), kids (parent_of flat) (length flat))"
  unfolding link_all_def by (rule link_all_upto) simp

section \<open>Reading the links\<close>

text \<open>A tree's nodes, in the order of a reader.\<close>

fun nodes :: "Category list \<Rightarrow> Category list" where
  "nodes [] = []"
| "nodes (Category i p ru ky sl so key url cs # rest) = Category i p ru ky sl so key url cs # nodes cs @ nodes rest"

lemma nodes_Cons: "nodes (c # rest) = c # nodes (cg_Children c) @ nodes rest"
  by (cases c) simp

lemma walk_nodes: "walk cs = map cg_ID (nodes cs)"
  by (induction cs rule: nodes.induct) simp_all

lemma with_children_sel [simp]:
  "cg_ID (with_children c cs) = cg_ID c" "cg_Children (with_children c cs) = cs"
  by (cases c; simp)+

lemma read_ends:
  "\<forall>i \<in> set is. i < n \<and> (\<forall>j < n. up par depth j \<noteq> Some i) \<Longrightarrow> read_nodes depth flat (kids par n) is \<noteq> None"
proof (induction depth flat "kids par n" "is" rule: read_nodes.induct)
  case (2 flat i "is")
  have "up par 0 i = Some i" by simp
  then show ?case using 2 by auto
next
  case (3 depth flat i "is")
  have "up par depth j \<noteq> Some c" if "c \<in> set (kids par n i)" "j < n" for c j
  proof
    assume "up par depth j = Some c"
    then have "up par (Suc depth) j = Some i" using that by (simp add: up_Suc kids_def del: up.simps(2))
    then show False using 3(3) that(2) by auto
  qed
  then have "read_nodes depth flat (kids par n) (kids par n i) \<noteq> None" by (intro 3(1)) (simp add: kids_def)
  moreover have "read_nodes (Suc depth) flat (kids par n) is \<noteq> None" by (rule 3(2)) (use 3(3) in simp)
  ultimately show ?case by auto
qed simp

lemma read_ids: "read_nodes depth flat ch is = Some cs \<Longrightarrow> map cg_ID cs = map (\<lambda>i. cg_ID (flat ! i)) is"
  by (induction depth flat ch "is" arbitrary: cs rule: read_nodes.induct) (auto split: option.splits)

lemma read_visits: "read_nodes depth flat ch is = Some cs \<Longrightarrow> walk cs = map (\<lambda>i. cg_ID (flat ! i)) (visits depth ch is)"
  by (induction depth flat ch "is" arbitrary: cs rule: read_nodes.induct)
    (auto simp: walk_nodes nodes_Cons split: option.splits)

lemma read_children:
  "read_nodes depth flat ch is = Some cs \<Longrightarrow> c \<in> set (nodes cs) \<Longrightarrow>
   \<exists>i. i \<in> set (visits depth ch is) \<and> cg_ID c = cg_ID (flat ! i) \<and>
     map cg_ID (cg_Children c) = map (\<lambda>j. cg_ID (flat ! j)) (ch i)"
proof (induction depth flat ch "is" arbitrary: cs rule: read_nodes.induct)
  case (3 depth flat ch i "is")
  obtain ks rest where r: "read_nodes depth flat ch (ch i) = Some ks" "read_nodes (Suc depth) flat ch is = Some rest"
    "cs = with_children (flat ! i) ks # rest"
    using 3(3) by (auto split: option.splits)
  have "c = with_children (flat ! i) ks \<or> c \<in> set (nodes ks) \<or> c \<in> set (nodes rest)"
    using 3(4) r(3) by (simp add: nodes_Cons)
  then consider "c = with_children (flat ! i) ks" | "c \<in> set (nodes ks)" | "c \<in> set (nodes rest)" by blast
  then show ?case
  proof cases
    case 1
    then show ?thesis using read_ids [OF r(1)] by (intro exI [of _ i]) simp
  next
    case 2
    then show ?thesis using 3(1) [OF r(1)] by auto
  next
    case 3
    then show ?thesis using "3.IH"(2) [OF r(2)] by auto
  qed
qed auto

section \<open>The forest\<close>

text \<open>The categories the forest is meant to show: those from which the parents lead to one that has none among the rows.\<close>

definition at_root :: "Category list \<Rightarrow> Category \<Rightarrow> bool" where
  "at_root flat c \<longleftrightarrow> (case cg_ParentID c of None \<Rightarrow> True | Some p \<Rightarrow> p \<notin> cg_ID ` set flat)"

inductive reaches_root :: "Category list \<Rightarrow> string \<Rightarrow> bool" for flat where
  here: "c \<in> set flat \<Longrightarrow> at_root flat c \<Longrightarrow> reaches_root flat (cg_ID c)"
| above: "c \<in> set flat \<Longrightarrow> cg_ParentID c = Some p \<Longrightarrow> reaches_root flat p \<Longrightarrow> reaches_root flat (cg_ID c)"

lemma parent_of_row:
  assumes "i < length flat"
  shows "parent_of flat i = None \<longleftrightarrow> at_root flat (flat ! i)"
  using assms by (auto simp: parent_of_def at_root_def byID_None split: option.splits bind_splits)

lemma parent_of_Some:
  assumes "distinct (map cg_ID flat)" "i < length flat" "j < length flat"
  shows "parent_of flat i = Some j \<longleftrightarrow> cg_ParentID (flat ! i) = Some (cg_ID (flat ! j))"
proof -
  have "byID flat p = Some j \<longleftrightarrow> p = cg_ID (flat ! j)" for p
    using byID_distinct [OF assms(1,3)] byID_Some by metis
  then show ?thesis using assms(2) by (simp add: parent_of_def bind_eq_Some_conv)
qed

lemma rooted_reaches:
  assumes d: "distinct (map cg_ID flat)" and i: "i < length flat"
  shows "rooted (parent_of flat) i \<longleftrightarrow> reaches_root flat (cg_ID (flat ! i))"
proof
  assume "rooted (parent_of flat) i"
  then obtain m where m: "up (parent_of flat) m i = None" by (auto simp: rooted_def)
  show "reaches_root flat (cg_ID (flat ! i))" using m i
  proof (induction m arbitrary: i)
    case (Suc m)
    show ?case
    proof (cases "parent_of flat i")
      case None
      then show ?thesis using Suc(3) parent_of_row by (auto intro: reaches_root.here)
    next
      case (Some j)
      then have j: "j < length flat" by (rule category.par_less)
      have "reaches_root flat (cg_ID (flat ! j))" using Suc(1) [OF _ j] Suc(2) Some by simp
      then show ?thesis using parent_of_Some [OF d Suc(3) j] Some Suc(3) by (auto intro: reaches_root.above)
    qed
  qed simp
next
  have "i < length flat \<Longrightarrow> cg_ID (flat ! i) = s \<Longrightarrow> rooted (parent_of flat) i" if "reaches_root flat s" for s i
    using that
  proof (induction arbitrary: i)
    case (here c)
    then have "flat ! i = c" using d nth_eq_iff_index_eq [of "map cg_ID flat"] by (metis in_set_conv_nth length_map nth_map)
    then have "parent_of flat i = None" using here parent_of_row by simp
    then show ?case using rooted_parent [of "parent_of flat" i] by simp
  next
    case (above c p)
    then have c: "flat ! i = c" using d nth_eq_iff_index_eq [of "map cg_ID flat"] by (metis in_set_conv_nth length_map nth_map)
    have "rooted (parent_of flat) j" if "parent_of flat i = Some j" for j
    proof -
      have j: "j < length flat" using that by (rule category.par_less)
      then show ?thesis using above parent_of_Some [OF d _ j] that c by simp
    qed
    then show ?case using rooted_parent [of "parent_of flat" i] by blast
  qed
  then show "reaches_root flat (cg_ID (flat ! i)) \<Longrightarrow> rooted (parent_of flat) i" using i by blast
qed

lemma filter_positions: "map (\<lambda>i. f (xs ! i)) (filter (\<lambda>i. P (xs ! i)) [0..<length xs]) = map f (filter P xs)"
proof -
  have "map (\<lambda>i. f (xs ! i)) (filter (\<lambda>i. P (xs ! i)) [0..<length xs]) =
      map f (filter P (map (\<lambda>i. xs ! i) [0..<length xs]))"
    by (simp add: filter_map comp_def)
  then show ?thesis by (simp add: map_nth)
qed

lemma kids_rows:
  assumes "distinct (map cg_ID flat)" "j < length flat"
  shows "map (\<lambda>i. cg_ID (flat ! i)) (kids (parent_of flat) (length flat) j) =
    map cg_ID (filter (\<lambda>r. cg_ParentID r = Some (cg_ID (flat ! j))) flat)"
proof -
  have "kids (parent_of flat) (length flat) j =
      filter (\<lambda>i. cg_ParentID (flat ! i) = Some (cg_ID (flat ! j))) [0..<length flat]"
    unfolding kids_def by (rule filter_cong) (use parent_of_Some [OF assms(1) _ assms(2)] in auto)
  then show ?thesis using filter_positions [of cg_ID flat "\<lambda>r. cg_ParentID r = Some (cg_ID (flat ! j))"] by simp
qed

lemma tops_rows:
  "map (\<lambda>i. cg_ID (flat ! i)) (tops (parent_of flat) (length flat)) = map cg_ID (filter (at_root flat) flat)"
proof -
  have "tops (parent_of flat) (length flat) = filter (\<lambda>i. at_root flat (flat ! i)) [0..<length flat]"
    unfolding tops_def by (rule filter_cong) (use parent_of_row in auto)
  then show ?thesis using filter_positions [of cg_ID flat "at_root flat"] by simp
qed

lemma buildTree_ends: "\<exists>tree. buildTree flat = Some tree"
proof -
  have "up (parent_of flat) (length flat) j \<noteq> Some i"
    if i: "i \<in> set (tops (parent_of flat) (length flat))" and j: "j < length flat" for i j
  proof
    assume up: "up (parent_of flat) (length flat) j = Some i"
    then have "up (parent_of flat) (Suc (length flat)) j = None"
      using i by (simp add: up_Suc tops_def del: up.simps(2))
    then have "rooted (parent_of flat) j" unfolding rooted_def by blast
    then show False using category.depth_less [OF _ j up] by simp
  qed
  then have "read_nodes (length flat) flat (kids (parent_of flat) (length flat)) (tops (parent_of flat) (length flat)) \<noteq> None"
    by (intro read_ends) (auto simp: tops_def)
  then show ?thesis by (simp add: buildTree_def link_all)
qed

lemma buildTree_walk:
  assumes d: "distinct (map cg_ID flat)" and t: "buildTree flat = Some tree"
  shows "distinct (walk tree)" "set (walk tree) = Collect (reaches_root flat)"
proof -
  let ?v = "visits (length flat) (kids (parent_of flat) (length flat)) (tops (parent_of flat) (length flat))"
  have w: "walk tree = map (\<lambda>i. cg_ID (flat ! i)) ?v"
    using t read_visits unfolding buildTree_def link_all by simp
  have v: "set ?v = {j. j < length flat \<and> rooted (parent_of flat) j}" by (rule category.visits_tops(2))
  have "inj_on (\<lambda>i. cg_ID (flat ! i)) {j. j < length flat}"
    using d nth_eq_iff_index_eq [of "map cg_ID flat"] by (auto intro!: inj_onI)
  then show "distinct (walk tree)"
    unfolding w distinct_map v using category.visits_tops(1) by (auto elim: inj_on_subset)
  have row: "\<exists>i < length flat. cg_ID (flat ! i) = s" if "reaches_root flat s" for s
    using that by cases (auto simp: in_set_conv_nth)
  show "set (walk tree) = Collect (reaches_root flat)"
    unfolding w set_map v using rooted_reaches [OF d] row by (auto simp: image_iff) metis
qed

text \<open>
  C38. The forest of the categories. Whatever parents the rows name, reading the tree ends; it shows exactly the
  categories from which the parents lead to a root, each once; the roots are the categories without a parent among
  the rows and the children of a shown category the rows that name it, in the order of the rows.
\<close>

theorem category_forest:
  assumes "distinct (map cg_ID flat)"
  shows "\<exists>tree. buildTree flat = Some tree \<and> distinct (walk tree) \<and> set (walk tree) = Collect (reaches_root flat) \<and>
    map cg_ID tree = map cg_ID (filter (at_root flat) flat) \<and>
    (\<forall>c \<in> set (nodes tree). map cg_ID (cg_Children c) = map cg_ID (filter (\<lambda>r. cg_ParentID r = Some (cg_ID c)) flat))"
proof -
  obtain tree where t: "buildTree flat = Some tree" using buildTree_ends by blast
  then have r: "read_nodes (length flat) flat (kids (parent_of flat) (length flat)) (tops (parent_of flat) (length flat)) = Some tree"
    by (simp add: buildTree_def link_all)
  have "map cg_ID (cg_Children c) = map cg_ID (filter (\<lambda>r. cg_ParentID r = Some (cg_ID c)) flat)" if c: "c \<in> set (nodes tree)" for c
  proof -
    obtain i where i: "i \<in> set (visits (length flat) (kids (parent_of flat) (length flat)) (tops (parent_of flat) (length flat)))"
      "cg_ID c = cg_ID (flat ! i)"
      "map cg_ID (cg_Children c) = map (\<lambda>j. cg_ID (flat ! j)) (kids (parent_of flat) (length flat) i)"
      using read_children [OF r c] by blast
    then show ?thesis using kids_rows [OF assms] category.visits_tops(2) [of flat] by auto
  qed
  then show ?thesis using t buildTree_walk [OF assms t] read_ids [OF r] tops_rows by auto
qed

text \<open>Four categories: \<open>b\<close> below \<open>a\<close>, and two that name each other. The forest shows the first two.\<close>

definition demo_category :: "string \<Rightarrow> string option \<Rightarrow> Category" where
  "demo_category i p = Category i p i i i 0 None None []"

definition demo_categories :: "Category list" where
  "demo_categories = [demo_category ''b'' (Some ''a''), demo_category ''a'' None, demo_category ''c'' (Some ''d''), demo_category ''d'' (Some ''c'')]"

theorem category_forest_witness:
  "Collect (reaches_root demo_categories) = {''a'', ''b''} \<and>
   buildTree demo_categories = Some [Category ''a'' None ''a'' ''a'' ''a'' 0 None None [demo_category ''b'' (Some ''a'')]]"
proof -
  have t: "buildTree demo_categories = Some [Category ''a'' None ''a'' ''a'' ''a'' 0 None None [demo_category ''b'' (Some ''a'')]]"
    by code_simp
  have "distinct (map cg_ID demo_categories)" by code_simp
  from category_forest [OF this] t have "set (walk [Category ''a'' None ''a'' ''a'' ''a'' 0 None None [demo_category ''b'' (Some ''a'')]]) =
      Collect (reaches_root demo_categories)" by (auto simp del: walk.simps)
  then show ?thesis using t by (auto simp: demo_category_def)
qed

end
