(* ===== verification/ListProperties.thy ===== *)
theory ListProperties
  imports FacetFacts CategoryTree Json Demo
begin

text \<open>
  The promises of the catalog's readers: the pages of a list, the search and the filter options of a scope. And three
  runs of the demo shop on which the catalog does something else than its comments say.
\<close>

definition demo_list_env :: catalog_env where
  "demo_list_env = \<lparr>ce_env = demo_env, ce_lower = map lower_byte, ce_tie = (\<lambda>_. 0), ce_decimal = (\<lambda>x. x)\<rparr>"

definition demo_filter :: ListFilter where
  "demo_filter = \<lparr>lf_CategoryID = ''#cat'', lf_CategoryIDs = [], lf_Size = [], lf_Color = [], lf_PriceMin = None,
      lf_PriceMax = Some (Finite 1500), lf_Query = [], lf_Sort = SortPriceAsc, lf_InStock = True, lf_Page = 1, lf_PageSize = 1\<rparr>"

section \<open>Pages\<close>



section \<open>Search\<close>

text \<open>
  C36. The search finds what was typed. A product matches a query exactly if every one of its words (at most five, of the
  first hundred characters) occurs in a name, the brand or an article number of the product, in either case; the
  characters \<^verbatim>\<open>%\<close>, \<^verbatim>\<open>_\<close> and the backslash stand for themselves.
\<close>

theorem search_exact:
  assumes "lower_law (ce_lower E)"
  shows "searchCondition E q d p \<longleftrightarrow> (\<forall>word \<in> set (searchTokens q). contains_word E d p word)"
  by (simp add: searchCondition_def token_contains [OF assms] list_all_iff)

lemma ascii_lower_law: "lower_law (map lower_byte)"
proof -
  have "lower_byte c = c \<and> \<not> like_special (lower_byte c) = (\<not> like_special c)" if "like_special c" for c
    using that by (auto simp: like_special_def lower_byte_def)
  moreover have "\<not> like_special (lower_byte c)" if "\<not> like_special c" for c
  proof
    assume special: "like_special (lower_byte c)"
    then have "byte (lower_byte c) \<in> {92, 37, 95}" by (auto simp: like_special_def)
    moreover have "byte (lower_byte c) = (if 65 \<le> byte c \<and> byte c \<le> 90 then byte c + 32 else byte c)"
      by (simp add: lower_byte_def)
    ultimately have "lower_byte c = c" by (auto simp: lower_byte_def split: if_splits)
    then show False using special that by simp
  qed
  ultimately show ?thesis by (simp add: lower_law_def)
qed

theorem search_exact_witness:
  "searchCondition demo_list_env ''bO S1'' demo_db (hd (products demo_db)) \<and>
   \<not> searchCondition demo_list_env ''B%ts'' demo_db (hd (products demo_db)) \<and>
   contains_word demo_list_env demo_db (hd (products demo_db)) ''bO'' \<and>
   contains_word demo_list_env demo_db (hd (products demo_db)) ''S1''"
proof -
  have "searchCondition demo_list_env ''bO S1'' demo_db (hd (products demo_db))" by code_simp
  moreover have "\<not> searchCondition demo_list_env ''B%ts'' demo_db (hd (products demo_db))" by code_simp
  moreover have "searchTokens ''bO S1'' = [''bO'', ''S1'']" by code_simp
  moreover have "lower_law (ce_lower demo_list_env)" by (simp add: demo_list_env_def ascii_lower_law)
  ultimately show ?thesis using search_exact [of demo_list_env "''bO S1''" demo_db "hd (products demo_db)"] by simp
qed

section \<open>Filter options\<close>

text \<open>
  C37. The filter options of a scope are those of its list. A size or colour is offered exactly if the list of the scope,
  narrowed to it, has a product; and the price range goes from the cheapest to the dearest effective price of the
  products of the list, as the list itself computes them.
\<close>

theorem facets_agree:
  assumes "faults w = []" "category_params E (ff_CategoryIDs f) (ff_CategoryID f) = None"
  shows "\<exists>fc. Facets_of E f w = (Inr fc, w) \<and>
     (\<forall>x. x \<in> set (fc_Sizes fc) \<longleftrightarrow> x \<noteq> [] \<and> listed E ((facet_list_filter f)\<lparr>lf_Size := x\<rparr>) (tables w) \<noteq> []) \<and>
     (\<forall>x. x \<in> set (fc_Colors fc) \<longleftrightarrow> x \<noteq> [] \<and> listed E ((facet_list_filter f)\<lparr>lf_Color := x\<rparr>) (tables w) \<noteq> []) \<and>
     (let ps = listed E (facet_list_filter f) (tables w)
      in fc_PriceMin fc = (if ps = [] then None else Some (float_of_numeric (Min (minPriceExpr (tables w) ` set ps)))) \<and>
         fc_PriceMax fc = (if ps = [] then None else Some (float_of_numeric (Max (maxPriceExpr (tables w) ` set ps)))))"
proof -
  let ?d = "tables w"
  have ne: "listed E g ?d \<noteq> [] \<longleftrightarrow> (\<exists>p \<in> set (products ?d). buildListConditions E g ?d p)" for g
  proof -
    have "listed E g ?d = [] \<longleftrightarrow> set (listed E g ?d) = {}" by simp
    then show ?thesis by (auto simp: listed_def simp del: set_empty2 set_empty)
  qed
  have scope: "set (in_scope E f ?d) = set (listed E (facet_list_filter f) ?d)"
    by (simp add: in_scope_def listed_def buildFacetConditions_def)
  then have none: "in_scope E f ?d = [] \<longleftrightarrow> listed E (facet_list_filter f) ?d = []" by (metis set_empty)
  have "Facets_of E f w = (Inr (facets_of (facet_groups (facet_join E f ?d))), w)"
    using assms by (simp add: Facets_of_def stmt_calm run_stmt_def checked_def)
  moreover note facet_choices [of _ E f ?d, folded ne] facet_prices [of E f ?d, unfolded none scope]
  ultimately show ?thesis unfolding Let_def by blast
qed

theorem facets_agree_witness:
  "\<exists>fc. Facets_of demo_list_env \<lparr>ff_CategoryID = ''#cat'', ff_CategoryIDs = [], ff_Query = []\<rparr> (calm demo_db) = (Inr fc, calm demo_db) \<and>
     set (fc_Sizes fc) = {''38''} \<and> fc_PriceMin fc = Some 1000 \<and> fc_PriceMax fc = Some 2500"
proof -
  let ?f = "\<lparr>ff_CategoryID = ''#cat'', ff_CategoryIDs = [], ff_Query = []\<rparr>"
  have "category_params demo_list_env (ff_CategoryIDs ?f) (ff_CategoryID ?f) = None" by code_simp
  from facets_agree [where w = "calm demo_db", OF _ this] obtain fc where fc:
      "Facets_of demo_list_env ?f (calm demo_db) = (Inr fc, calm demo_db)" by auto
  have "map_sum id (\<lambda>fc. (fc_Sizes fc, fc_PriceMin fc, fc_PriceMax fc)) (fst (Facets_of demo_list_env ?f (calm demo_db))) =
      Inr ([''38''], Some 1000, Some 2500)" by code_simp
  then show ?thesis using fc by auto
qed

section \<open>Where comments and code differ\<close>

text \<open>
  Two updates of the demo shop make two categories each other's parent. Each is accepted, and from then on neither they
  nor what is below them is in the tree the shop shows, though \<^verbatim>\<open>buildTree\<close> means to drop no category silently.
\<close>

definition under :: "string option \<Rightarrow> string \<Rightarrow> CategoryInput" where
  "under p name = \<lparr>ci_ParentID = p, ci_NameRu = name, ci_NameKy = name, ci_Slug = name, ci_SortOrder = 0\<rparr>"

definition circle_run :: "Category list option go" where
  "circle_run =
     bindG (Create_category demo_env (under None ''b'')) (\<lambda>b.
     bindG (Update_category demo_env (cg_ID b) (under (Some ''#cat'') ''b'')) (\<lambda>_.
     bindG (Update_category demo_env ''#cat'' (under (Some (cg_ID b)) ''shoes'')) (\<lambda>_. Tree)))"

lemma circle_hides_categories: "fst (circle_run (calm demo_db)) = Inr (Some [])"
  by code_simp

text \<open>
  The filter options of a parent category count the products of its subcategories, as its handler passes the subtree;
  the list handler passes the category alone, so sizes are offered that its list does not have.
\<close>

definition parent_run :: "(string list \<times> int) go" where
  "parent_run =
     bindG (Create_category demo_env (under None ''all'')) (\<lambda>top.
     bindG (Update_category demo_env ''#cat'' (under (Some (cg_ID top)) ''shoes'')) (\<lambda>_.
     bindG Tree (\<lambda>tree.
     bindG (Facets_of demo_list_env \<lparr>ff_CategoryID = [], ff_CategoryIDs = SubtreeIDs (the tree) (cg_ID top), ff_Query = []\<rparr>) (\<lambda>fc.
     bindG (List_products demo_list_env \<lparr>lf_CategoryID = cg_ID top, lf_CategoryIDs = [], lf_Size = [], lf_Color = [], lf_PriceMin = None,
       lf_PriceMax = None, lf_Query = [], lf_Sort = [], lf_InStock = False, lf_Page = 1, lf_PageSize = 20\<rparr>) (\<lambda>(ps, total).
     returnG (fc_Sizes fc, total))))))"

lemma facets_beyond_list: "fst (parent_run (calm demo_db)) = Inr ([''38''], 0)"
  by code_simp

text \<open>\<^verbatim>\<open>ReplaceForProduct\<close> says that a missing product is \<^verbatim>\<open>NotFound\<close>; with an empty list of photos it is a success.\<close>

lemma images_of_missing_product:
  "fst (ReplaceForProduct demo_list_env ''#none'' [] (calm demo_db)) = Inr []" "''#none'' \<notin> pr_id ` set (products demo_db)"
  by code_simp+

text \<open>
  A product with variants at 100 and 900 matches the price range from 300 to 500, though none of its variants costs
  that much.
\<close>

definition range_db :: db where
  "range_db = demo_db\<lparr>variants := map (\<lambda>(i, p). \<lparr>pv_id = i, pv_product_id = ''#a'', pv_size = i, pv_color = ''red'',
     pv_price_override = Some p, pv_sku = None\<rparr>) [(''#v1'', 10000), (''#v2'', 90000)]\<rparr>"

lemma price_gap_listed:
  "map pr_id (listed demo_list_env (demo_filter\<lparr>lf_PriceMin := Some (Finite 300), lf_PriceMax := Some (Finite 500), lf_InStock := False\<rparr>) range_db) = [''#a'']"
  by code_simp

end
