(* ===== verification/Spec2Isabelle.thy ===== *)
theory Spec2Isabelle
  imports OrderProperties LifecycleProperties PaymentProperties ExpiryProperties LimiterProperties AuthProperties StaffProperties ImportProperties
    CatalogProperties ListProperties
begin

text \<open>
  A model of the core of a shop's backend (Go, PostgreSQL): orders with their stock and payments, and
  the customers and staff who act on them. It covers checkout, the life of an order, online payment and its
  expiry (\<^verbatim>\<open>internal/orders\<close>, \<^verbatim>\<open>internal/payments\<close>, \<^verbatim>\<open>internal/dbtx\<close>, the order handlers of
  \<^verbatim>\<open>internal/httpapi\<close>), the login of customers and their data (\<^verbatim>\<open>internal/auth\<close>, \<^verbatim>\<open>internal/storefront\<close>,
  \<^verbatim>\<open>internal/phonenorm\<close>), staff accounts, sessions and roles (\<^verbatim>\<open>internal/staff\<close>), the limits on
  clients (\<^verbatim>\<open>internal/httpmw\<close>), and the catalog with its lists, search, admin form and import of price lists
  (\<^verbatim>\<open>internal/catalog\<close>, \<^verbatim>\<open>product_store.go\<close> of \<^verbatim>\<open>internal/admin\<close>).

  \<^bold>\<open>How the parts interact.\<close> A handler calls a service; a service validates its input, runs one or
  several transactions on the tables (\<^verbatim>\<open>dbtx.WithTx\<close>), and tells a notifier what was committed. Orders
  take stock when they are placed and give it back when they are cancelled; payments move orders
  (a paid order may be confirmed, an unpaid one expires) and orders close payments; the login and the
  customer's data share the tables with orders through account deletion and saved addresses; the routes
  of the admin panel resolve a cookie to a staff account before they touch an order. The catalog's writes
  change the products, variants and stock orders are placed on: the admin's form in one transaction, an
  import each model in a transaction of its own.

  \<^bold>\<open>Theories, from the bottom.\<close>
  \<^item> \<^verbatim>\<open>CozyPrelude\<close>: shared lemmas and the parts of Go's \<^verbatim>\<open>strings\<close>, \<^verbatim>\<open>utf8\<close>, \<^verbatim>\<open>strconv\<close> and \<^verbatim>\<open>time\<close> in use;
    \<^verbatim>\<open>GoFloat\<close>: \<^verbatim>\<open>float64\<close> arithmetic; \<^verbatim>\<open>AppErr\<close>: errors (\<^verbatim>\<open>apperr.go\<close>).
  \<^item> \<^verbatim>\<open>Database\<close>: the tables of \<^verbatim>\<open>migrations/\<close> (the record \<open>db\<close>), programs on them (\<open>prog\<close>) and \<open>withTx\<close>;
    \<^verbatim>\<open>Tables\<close>: the SQL statements several components share, with their constraints and triggers;
    \<^verbatim>\<open>Runs\<close>: two locales for what holds of every run of a program.
  \<^item> \<^verbatim>\<open>Cart\<close>, \<^verbatim>\<open>DeliveryZones\<close>, \<^verbatim>\<open>OrderData\<close>, \<^verbatim>\<open>Checkout\<close>, \<^verbatim>\<open>Lifecycle\<close>: \<^verbatim>\<open>cart.go\<close>,
    \<^verbatim>\<open>delivery_zones.go\<close>, the reads and the placement of \<^verbatim>\<open>order.go\<close>, \<^verbatim>\<open>lifecycle.go\<close> with \<^verbatim>\<open>admin.go\<close>;
    \<^verbatim>\<open>Payments\<close>: \<^verbatim>\<open>payment.go\<close>, \<^verbatim>\<open>service.go\<close>, \<^verbatim>\<open>expiry.go\<close>; \<^verbatim>\<open>Json\<close>, \<^verbatim>\<open>Providers\<close>: \<^verbatim>\<open>mock.go\<close>, \<^verbatim>\<open>bakai.go\<close>.
  \<^item> \<^verbatim>\<open>Phone\<close>: phone numbers; \<^verbatim>\<open>Limiters\<close>, \<^verbatim>\<open>TokenBucket\<close>: the in-memory limits; \<^verbatim>\<open>Customers\<close>: the
    repositories of \<^verbatim>\<open>internal/storefront\<close>; \<^verbatim>\<open>AuthStore\<close>, \<^verbatim>\<open>AuthService\<close>: \<^verbatim>\<open>otp_repo.go\<close>, \<^verbatim>\<open>refresh_repo.go\<close>,
    \<^verbatim>\<open>account_repo.go\<close> and \<^verbatim>\<open>service.go\<close> of \<^verbatim>\<open>internal/auth\<close>; \<^verbatim>\<open>StaffStore\<close>, \<^verbatim>\<open>StaffService\<close>, \<^verbatim>\<open>StaffRoutes\<close>: the
    repositories, the service with \<^verbatim>\<open>RequireRole\<close>, and the JSON routes of \<^verbatim>\<open>internal/staff\<close> and of orders.
  \<^item> \<^verbatim>\<open>ImportParse\<close>, \<^verbatim>\<open>CatalogStore\<close>, \<^verbatim>\<open>ImportPlan\<close>, \<^verbatim>\<open>ProductImport\<close>: \<^verbatim>\<open>import_parse.go\<close>, \<^verbatim>\<open>import_store.go\<close> with
    \<^verbatim>\<open>stock.go\<close>, \<^verbatim>\<open>import_plan.go\<close> and \<^verbatim>\<open>import.go\<close> of \<^verbatim>\<open>internal/catalog\<close>.
  \<^item> \<^verbatim>\<open>Categories\<close>, \<^verbatim>\<open>Products\<close>, \<^verbatim>\<open>Variants\<close>: \<^verbatim>\<open>category.go\<close>, \<^verbatim>\<open>product.go\<close> with \<^verbatim>\<open>search.go\<close>, \<^verbatim>\<open>variant.go\<close> with \<^verbatim>\<open>image.go\<close>,
    \<^verbatim>\<open>batch_read.go\<close>, \<^verbatim>\<open>facets.go\<close>, \<^verbatim>\<open>stock.go\<close> and \<^verbatim>\<open>admin_catalog_stock.go\<close>; \<^verbatim>\<open>ProductStore\<close>: \<^verbatim>\<open>product_store.go\<close>; \<^verbatim>\<open>GoParse\<close>:
    numbers as \<^verbatim>\<open>strconv\<close> reads them.
  \<^item> \<^verbatim>\<open>CategoryFacts\<close>, \<^verbatim>\<open>CategoryTree\<close>: forests of parent links (the locale \<open>parents\<close>) and the tree the program builds;
    \<^verbatim>\<open>CatalogFacts\<close>, \<^verbatim>\<open>CatalogRuns\<close>, \<^verbatim>\<open>SaveFacts\<close>: what every write of the catalog keeps (the locale \<open>catalog_statements\<close>) and what a
    save of the form does; \<^verbatim>\<open>ListFacts\<close>, \<^verbatim>\<open>FacetFacts\<close>: pages, search and filter options.
  \<^item> \<^verbatim>\<open>ImportPlanFacts\<close>, \<^verbatim>\<open>ImportFacts\<close>, \<^verbatim>\<open>ImportReport\<close>: what the plan of an import guarantees, the contract of its
    writes (the locale \<open>catalog_writes\<close>), its report, and its dry run beside the real one.
  \<^item> \<^verbatim>\<open>CheckoutFacts\<close>, \<^verbatim>\<open>LifecycleFacts\<close>, \<^verbatim>\<open>PaymentFacts\<close>, \<^verbatim>\<open>AuthFacts\<close>, \<^verbatim>\<open>StaffFacts\<close>: what each operation does to every
    table. \<^verbatim>\<open>Invariant\<close>, \<^verbatim>\<open>Preservation\<close>, \<^verbatim>\<open>Shop\<close>: the invariant of the tables, the specification of
    the order and payment code as a step relation, and that every service refines it. \<^verbatim>\<open>Notices\<close>,
    \<^verbatim>\<open>OrderLog\<close>, \<^verbatim>\<open>PaymentLog\<close>: who is told what, and what is never undone. \<^verbatim>\<open>AuthRuns\<close>,
    \<^verbatim>\<open>AuthSessions\<close>: the login as a transition system, and the invariants of its codes and tokens; \<^verbatim>\<open>StaffRuns\<close>: runs of the staff service.
  \<^item> The \<^verbatim>\<open>Properties\<close> theories and this one state what the program guarantees; \<^verbatim>\<open>Demo\<close> and \<^verbatim>\<open>AuthDemo\<close>
    are a small shop and a login on which every property with a hypothesis is applied.

  \<^bold>\<open>How the code is modelled.\<close>
  \<^item> A function that uses the database is a program from the state to an error or a value and the
    new state; it reads like the Go text, \<open>bindG\<close> being \<^verbatim>\<open>if err != nil { return err }\<close>. \<open>faults\<close> says which of
    the next statements fail, \<^verbatim>\<open>BEGIN\<close> and \<^verbatim>\<open>COMMIT\<close> included; the properties hold for every such list.
  \<^item> A transaction is one atomic step, since the source locks every row it decides on; row and advisory locks are not
    represented. \<^verbatim>\<open>now()\<close> and \<^verbatim>\<open>time.Now()\<close> are the \<open>clock\<close>, in microseconds, which moves between
    transactions; the in-memory limiters count nanoseconds. A Go map is an association list, a
    method under its mutex a function.
  \<^item> Money in the database is a whole number of tyiyn, a \<^verbatim>\<open>float64\<close> the rational it stands for, rounded to 53 bits after
    every operation (no fused operations, unbounded exponent; conversions to \<^verbatim>\<open>time.Duration\<close> are assumed to
    fit). Identifiers are the canonical text of UUIDs; \<^verbatim>\<open>ORDER BY\<close> resolves ties by insertion.
  \<^item> Parameters stand for what is not in the repository: UUID generation and validation, the collation of the
    database and \<^verbatim>\<open>ILIKE\<close>, the reading of JSON text, the bank's endpoint, the SMS provider, the JWT
    library, random numbers, SHA-256 and bcrypt, the splitting of CSV and Excel files into cells, and the case of letters
    outside ASCII. The ones that may answer differently each time take the number
    of calls so far.
  \<^item> \<open>outside\<close> (orders) and \<open>meanwhile\<close> (login) are what the rest of the server may do between calls.
    Foreign keys on rows read in the same transaction are assumed to hold at its end.

  \<^bold>\<open>What is proved.\<close> The invariant of orders, items, history, stock and payments holds in every reachable state,
  and the services refine the step relation; no unit of stock is lost or sold twice; what a
  placement, a status change, a cancellation, a retry, a callback and an expiry do on every branch, errors included;
  callbacks are authenticated, applied once and never lose money; nothing recorded is unmade. For the
  login: SMS and attempts are bounded over any run, a login needs a live code and uses it up, a
  logout is final, a reused token ends its session, deletion erases what it promises and nothing else. For staff: an order or an account changes only for an
  open session of an active account with the right role and point, an ended session stays ended, the shop
  never loses its last owner. An import stays beside the invariant of orders, keeps every price above zero, reports every
  row once, and its dry run predicts it. No write of the catalog reaches orders, their sales counters or an ordered
  variant, or makes a variant free; a save of the form stores exactly the form or nothing; lists page
  through every match once, search finds what was typed, filter options agree with the list, and
  reading the tree of categories ends. The limiters admit
  no more than they promise; phone numbers have one normal form. Loops are structural recursions
  over lists or the tables; only the readers of the category tree, which follow pointers, take a bound on the depth, the
  number of categories, which is proved to be enough.

  \<^bold>\<open>Not modelled.\<close> Pages, templates and HTML (\<^verbatim>\<open>internal/web\<close>, \<^verbatim>\<open>internal/admin\<close>), the JSON handlers other than
  those of orders, staff and stock, the journal (\<^verbatim>\<open>internal/audit\<close>), reports, broadcasts, media and
  configuration; of the modelled packages the Russian texts, photo links, logging, tickers,
  cancellation by context, and the alert of a lockout. The middlewares of \<^verbatim>\<open>internal/httpmw\<close> that wrap handlers.
\<close>

section \<open>The shop as a whole\<close>

lemma reachable_steps:
  assumes "steps env d d'" and "reachable env d"
  shows "reachable env d'"
  using assms(1) unfolding steps_def
  by (induction rule: rtranclp_induct) (use assms(2) in \<open>auto intro: reachable.by_step\<close>)

lemma demo_empty: "empty_shop demo_db"
  by (simp add: empty_shop_def stock_ok_def demo_stock_def max_int4_def)

lemma demo_run:
  obtains order w' where "PlaceOrder demo_env demo_input (calm demo_db) = (Inr (order, True), w')"
    "steps demo_env demo_db (tables w')" "\<exists>r. r \<in> set (orders (tables w'))"
proof -
  obtain order w' where run: "PlaceOrder demo_env demo_input (calm demo_db) = (Inr (order, True), w')"
    using demo_places by blast
  have "steps demo_env demo_db (tables w')"
    using PlaceOrder_steps [of demo_env demo_input] run unfolding only_steps_def by (metis calm_fields(1) snd_conv)
  moreover have "\<exists>r. r \<in> set (orders (tables w'))"
  proof (rule placed_by [OF run])
    fix qty vids d0 r p rows h
    assume "placed_rows demo_input PaymentCashOnDelivery qty vids d0 r p rows h (tables w')"
    then have "orders (tables w') = orders d0 @ [r]" unfolding placed_rows_def by blast
    then show ?thesis by auto
  qed
  ultimately show ?thesis using run that by blast
qed

text \<open>
  C1. Every state of the database the program can reach from an empty shop satisfies the invariant: unique
  identifiers and order numbers, no dangling rows, stock within the column, an online order past
  \<^verbatim>\<open>placed\<close> paid, a cancelled and paid one flagged for refund, at most one pending and at most one settled
  payment per order over its exact total and at most ten of them, a history that is a path of the
  transition table ending in the current status; and an order waiting for money can be paid or expired.
\<close>

theorem reachable_consistent:
  assumes "reachable env d" shows "consistent d \<and> payable d \<and> ext_unique d"
  using reachable_aux [OF assms] reachable_ext [OF assms] by blast

theorem reachable_consistent_witness:
  "\<exists>d r. reachable demo_env d \<and> r \<in> set (orders d) \<and> consistent d"
proof (rule demo_run)
  fix order w' assume s: "steps demo_env demo_db (tables w')" and r: "\<exists>r. r \<in> set (orders (tables w'))"
  have "reachable demo_env (tables w')" using reachable_steps [OF s] reachable.start [OF demo_empty] by blast
  then show ?thesis using reachable_consistent r by blast
qed

text \<open>
  C2. Refinement: whatever an entry point of the order and payment services is asked, whichever of its statements
  fail and whatever it returns, the tables move by a sequence of the atomic steps of the specification.
\<close>

theorem services_refine_steps:
  assumes "consistent (tables w)"
  shows "steps env (tables w) (tables (snd (serve env s e w)))"
  using serve_guarded [of env s e] assms by (simp add: guarded_def)

theorem services_refine_steps_witness:
  "steps demo_env open_db (tables (snd (serve demo_env demo_service (EPlaceOnline demo_input) (calm open_db))))"
  using services_refine_steps [of "calm open_db" demo_env demo_service "EPlaceOnline demo_input"] open_consistent by simp

text \<open>
  C3. No unit of stock is sold twice or lost: from a shop without orders, after any run of the services, what is on
  the shelf of a point and what its live orders hold add up to the initial stock, and the sales
  statistics of a product are exactly the units its live orders hold.
\<close>

theorem goods_and_sales_exact:
  assumes "empty_shop d" "\<forall>x. product_sales d x = 0" "steps env d d'"
  shows "stock_qty d' v p + reserved d' v p = stock_qty d v p \<and> 0 \<le> stock_qty d' v p \<and>
    product_sales d' x = live_units d' x"
proof -
  have c: "consistent d" by (rule empty_consistent [OF assms(1)])
  have k: "consistent d'" "conserves d d'" using steps_keep [OF assms(3) c] by blast+
  have e: "reserved d v p = 0" "live_units d x = 0" using assms(1) by (simp_all add: empty_shop_def reserved_def live_units_def)
  have "goods d' v p = goods d v p" "sales_gap d' x = sales_gap d x" using k(2) by (simp_all add: conserves_def)
  moreover have "0 \<le> stock_qty d' v p"
    using inv_keys(5) [OF k(1)] by (auto simp: stock_ok_def stock_qty_def split: option.split)
  ultimately show ?thesis using e assms(2) by (simp add: goods_def sales_gap_def)
qed

theorem goods_and_sales_exact_witness:
  "\<exists>d'. steps demo_env demo_db d' \<and> orders d' \<noteq> [] \<and>
     stock_qty d' ''#v1'' ''#p2'' + reserved d' ''#v1'' ''#p2'' = 5 \<and> product_sales d' ''#a'' = live_units d' ''#a''"
proof (rule demo_run)
  fix order w' assume s: "steps demo_env demo_db (tables w')" and r: "\<exists>r. r \<in> set (orders (tables w'))"
  have "\<forall>x. product_sales demo_db x = 0" by (simp add: demo_db_def)
  from goods_and_sales_exact [OF demo_empty this s, of "''#v1''" "''#p2''" "''#a''"] s r show ?thesis
    by (intro exI [of _ "tables w'"]) (auto simp: stock_qty_def demo_stock_def)
qed

text \<open>
  C15. Nothing is unmade: over any run, an order stays on record with its number, customer, packing point, method and
  amounts, its status only follows the transition table (so a delivered or cancelled order stays so),
  the items and the history keep every row they had, and a payment once received stays received.
\<close>

theorem records_are_kept:
  assumes "consistent d" "steps env d d'" "r \<in> set (orders d)"
  shows "(\<exists>r' \<in> set (orders d'). order_core r' = order_core r \<and>
       validStatusTransition\<^sup>*\<^sup>* (o_status r) (o_status r') \<and>
       (o_status r = StatusDelivered \<or> o_status r = StatusCancelled \<longrightarrow> o_status r' = o_status r)) \<and>
     prefix (order_items d) (order_items d') \<and> prefix (order_status_history d) (order_status_history d') \<and>
     (\<forall>p \<in> set (payments d). \<exists>p' \<in> set (payments d'). pay_core p' = pay_core p \<and>
        pay_next\<^sup>*\<^sup>* (p_status p) (p_status p') \<and> (settled (p_status p) \<longrightarrow> settled (p_status p')))"
proof -
  have g: "grows d d'" "pays_persist d d'" using steps_grow steps_pays assms(1,2) by blast+
  obtain r' where "r' \<in> set (orders d')" "later r r'" using g(1) assms(3) unfolding grows_def by blast
  moreover have "\<exists>p' \<in> set (payments d'). pay_core p' = pay_core p \<and>
        pay_next\<^sup>*\<^sup>* (p_status p) (p_status p') \<and> (settled (p_status p) \<longrightarrow> settled (p_status p'))" if "p \<in> set (payments d)" for p
    using g(2) that paid_stays unfolding pays_persist_def pay_later_def by metis
  ultimately show ?thesis using g(1) final_status unfolding grows_def later_def by metis
qed

theorem records_are_kept_witness:
  "\<exists>r' \<in> set (orders (tables (snd (serve demo_env demo_service (ECancel ''#c'' ''#o1'') (calm open_db))))).
     order_core r' = order_core cash_row"
proof -
  have "steps demo_env open_db (tables (snd (serve demo_env demo_service (ECancel ''#c'' ''#o1'') (calm open_db))))"
    using serve_guarded [of demo_env demo_service "ECancel ''#c'' ''#o1''"] open_consistent
    unfolding guarded_def by (metis calm_fields(1))
  from records_are_kept [OF open_consistent this, of cash_row] show ?thesis by auto
qed

end
